(* ===== verification/Gms_Prelude.thy ===== *)
theory Gms_Prelude
  imports Main
begin

text \<open>
  What every component shares and none owns: optional request fields with JavaScript's three
  cases, the truthiness idioms of the services, database tables as lists of rows with the Prisma
  calls the services make on them, pagination, and case-insensitive substring search.
\<close>

section \<open>Automation\<close>

named_theorems table_simps \<open>row counting and lookup on updated tables\<close>
named_theorems js_simps \<open>evaluation of the JavaScript idioms\<close>

section \<open>Optional request fields\<close>

text \<open>
  An optional field of a request body is absent, the literal null, or a value. The services
  test such fields by truthiness (\<open>dto.x || y\<close>, \<open>dto.x && ...\<close>) or by \<open>== null\<close>. Prisma leaves
  a column alone when the value is undefined and clears it when it is null.
\<close>

datatype 'a field = Undefined | Null | Value 'a

fun set_field :: "'a field \<Rightarrow> 'a option \<Rightarrow> 'a option" where
  "set_field Undefined old = old"
| "set_field Null old = None"
| "set_field (Value v) old = Some v"

definition create_field :: "'a field \<Rightarrow> 'a option" where
  "create_field x = set_field x None"

fun nullish :: "'a field \<Rightarrow> bool" where
  "nullish (Value v) = False"
| "nullish _ = True"

text \<open>The empty string is falsy.\<close>

fun truthy_str :: "string field \<Rightarrow> string option" where
  "truthy_str (Value s) = (if s = [] then None else Some s)"
| "truthy_str _ = None"

definition str_or :: "string field \<Rightarrow> string \<Rightarrow> string" where
  "str_or x d = (case truthy_str x of None \<Rightarrow> d | Some s \<Rightarrow> s)"

text \<open>\<open>...(dto.x && { x: dto.x })\<close> in the data of an update.\<close>

definition set_if_truthy :: "string field \<Rightarrow> string option \<Rightarrow> string option" where
  "set_if_truthy x old = (case truthy_str x of None \<Rightarrow> old | Some s \<Rightarrow> Some s)"

text \<open>The same tests on a nullable column.\<close>

definition truthy_col :: "string option \<Rightarrow> string option" where
  "truthy_col c = (case c of None \<Rightarrow> None | Some s \<Rightarrow> (if s = [] then None else Some s))"

text \<open>\<open>tx.someDate || d\<close>: a date object is truthy, null is not.\<close>

definition val_or :: "'a option \<Rightarrow> 'a \<Rightarrow> 'a" where
  "val_or c d = (case c of None \<Rightarrow> d | Some v \<Rightarrow> v)"

definition opt_or :: "'a option \<Rightarrow> 'a option \<Rightarrow> 'a option" where
  "opt_or a b = (case a of None \<Rightarrow> b | Some v \<Rightarrow> Some v)"

lemma val_or_simps [simp]: "val_or None d = d" "val_or (Some v) d = v"
  by (simp_all add: val_or_def)

lemma opt_or_simps [simp]: "opt_or None b = b" "opt_or (Some v) b = Some v"
  by (simp_all add: opt_or_def)

lemma opt_or_None_iff [simp]: "opt_or a b = None \<longleftrightarrow> a = None \<and> b = None"
  by (cases a) simp_all

lemma set_field_Some [js_simps]: "set_field x old \<noteq> None" if "old \<noteq> None" "x \<noteq> Null"
  using that by (cases x) simp_all

section \<open>Strings\<close>

text \<open>ASCII case folding, as Postgres' ILIKE and JavaScript's toUpperCase act on ASCII.\<close>

definition ascii_upper :: "char \<Rightarrow> char" where
  "ascii_upper c = (let n = of_char c :: nat in if 97 \<le> n \<and> n \<le> 122 then char_of (n - 32) else c)"

definition upper :: "string \<Rightarrow> string" where
  "upper s = map ascii_upper s"

fun is_prefix_of :: "'a list \<Rightarrow> 'a list \<Rightarrow> bool" where
  "is_prefix_of [] ys = True"
| "is_prefix_of (x # xs) [] = False"
| "is_prefix_of (x # xs) (y # ys) = (x = y \<and> is_prefix_of xs ys)"

fun is_infix_of :: "'a list \<Rightarrow> 'a list \<Rightarrow> bool" where
  "is_infix_of p [] = (p = [])"
| "is_infix_of p (y # ys) = (is_prefix_of p (y # ys) \<or> is_infix_of p ys)"

lemma is_prefix_of_iff: "is_prefix_of p s \<longleftrightarrow> (\<exists>b. s = p @ b)"
  by (induction p s rule: is_prefix_of.induct) auto

lemma is_infix_of_iff: "is_infix_of p s \<longleftrightarrow> (\<exists>a b. s = a @ p @ b)"
proof (induction p s rule: is_infix_of.induct)
  case (2 p y ys)
  show ?case
  proof
    assume "is_infix_of p (y # ys)"
    then consider b where "y # ys = p @ b" | a b where "ys = a @ p @ b"
      using 2 by (auto simp: is_prefix_of_iff)
    then show "\<exists>a b. y # ys = a @ p @ b"
      by cases (metis append_Nil, metis append_Cons)
  next
    assume "\<exists>a b. y # ys = a @ p @ b"
    then obtain a b where ab: "y # ys = a @ p @ b" by blast
    show "is_infix_of p (y # ys)"
    proof (cases a)
      case Nil
      with ab have "is_prefix_of p (y # ys)" by (simp add: is_prefix_of_iff)
      then show ?thesis by simp
    next
      case (Cons c cs)
      with ab have "ys = cs @ p @ b" by simp
      with 2 show ?thesis by auto
    qed
  qed
qed auto

text \<open>Prisma's \<open>contains ... mode: 'insensitive'\<close>.\<close>

definition contains_ci :: "string \<Rightarrow> string \<Rightarrow> bool" where
  "contains_ci hay needle = is_infix_of (upper needle) (upper hay)"

section \<open>Tables\<close>

text \<open>
  A table is the list of its rows in insertion order. The services read single rows with
  findUnique and findFirst, change rows with updateMany (which reports how many rows matched),
  add rows with create and compute the next revision of a record from an aggregate maximum.
\<close>

definition find_first :: "('a \<Rightarrow> bool) \<Rightarrow> 'a list \<Rightarrow> 'a option" where
  "find_first p t = List.find p t"

definition update_many :: "('a \<Rightarrow> bool) \<Rightarrow> ('a \<Rightarrow> 'a) \<Rightarrow> 'a list \<Rightarrow> 'a list" where
  "update_many p f t = map (\<lambda>r. if p r then f r else r) t"

definition count_where :: "('a \<Rightarrow> bool) \<Rightarrow> 'a list \<Rightarrow> nat" where
  "count_where p t = length (filter p t)"

definition aggregate_max :: "nat list \<Rightarrow> nat option" where
  "aggregate_max xs = (if xs = [] then None else Some (Max (set xs)))"

definition next_revision :: "nat list \<Rightarrow> nat" where
  "next_revision xs = val_or (aggregate_max xs) 0 + 1"

lemma next_revision_greater: "n \<in> set xs \<Longrightarrow> n < next_revision xs"
proof -
  assume n: "n \<in> set xs"
  then have "n \<le> Max (set xs)" "xs \<noteq> []" by auto
  then show ?thesis by (simp add: next_revision_def aggregate_max_def)
qed

lemma next_revision_Nil [simp]: "next_revision [] = 1"
  by (simp add: next_revision_def aggregate_max_def)

lemma find_first_SomeD: "find_first p t = Some r \<Longrightarrow> r \<in> set t \<and> p r"
  by (auto simp: find_first_def find_Some_iff)

lemma find_first_None_iff: "find_first p t = None \<longleftrightarrow> (\<forall>r \<in> set t. \<not> p r)"
  by (auto simp: find_first_def find_None_iff)

lemma find_first_Some_ex: "r \<in> set t \<Longrightarrow> p r \<Longrightarrow> \<exists>r'. find_first p t = Some r'"
  using find_first_None_iff by (metis not_None_eq)

lemma count_where_Nil [simp, table_simps]: "count_where p [] = 0"
  by (simp add: count_where_def)

lemma count_where_Cons [simp, table_simps]:
  "count_where p (r # t) = (if p r then Suc (count_where p t) else count_where p t)"
  by (simp add: count_where_def)

lemma count_where_append [simp, table_simps]:
  "count_where p (s @ t) = count_where p s + count_where p t"
  by (simp add: count_where_def)

lemma count_where_0_iff: "count_where p t = 0 \<longleftrightarrow> (\<forall>r \<in> set t. \<not> p r)"
  by (induction t) auto

lemma count_where_mono: "(\<And>r. r \<in> set t \<Longrightarrow> p r \<Longrightarrow> q r) \<Longrightarrow> count_where p t \<le> count_where q t"
  by (induction t) auto

lemma count_where_cong: "(\<And>r. r \<in> set t \<Longrightarrow> p r = q r) \<Longrightarrow> count_where p t = count_where q t"
  by (induction t) auto

lemma count_where_update_many_le:
  assumes "\<And>r. r \<in> set t \<Longrightarrow> p r \<Longrightarrow> q (f r) \<Longrightarrow> q r"
  shows "count_where q (update_many p f t) \<le> count_where q t"
  using assms by (induction t) (auto simp: update_many_def)

lemma count_where_update_many_same:
  assumes "\<And>r. r \<in> set t \<Longrightarrow> p r \<Longrightarrow> q (f r) = q r"
  shows "count_where q (update_many p f t) = count_where q t"
  using assms by (induction t) (auto simp: update_many_def)

lemma set_update_many: "set (update_many p f t) = (\<lambda>r. if p r then f r else r) ` set t"
  by (simp add: update_many_def)

lemma length_update_many [simp]: "length (update_many p f t) = length t"
  by (simp add: update_many_def)

lemma update_many_None: "count_where p t = 0 \<Longrightarrow> update_many p f t = t"
  by (simp add: count_where_0_iff update_many_def map_idI)

lemma update_many_Nil [simp]: "update_many p f [] = []"
  by (simp add: update_many_def)

lemma update_many_Cons:
  "update_many p f (r # t) = (if p r then f r else r) # update_many p f t"
  by (simp add: update_many_def)

lemma map_update_many: "(\<And>r. r \<in> set t \<Longrightarrow> p r \<Longrightarrow> g (f r) = g r) \<Longrightarrow> map g (update_many p f t) = map g t"
  by (simp add: update_many_def)

text \<open>An update by primary key of the row a findFirst with the same condition returned.\<close>

fun update_found :: "('a \<Rightarrow> bool) \<Rightarrow> ('a \<Rightarrow> 'a) \<Rightarrow> 'a list \<Rightarrow> 'a list" where
  "update_found p f [] = []"
| "update_found p f (r # t) = (if p r then f r # t else r # update_found p f t)"

lemma map_update_found: "(\<And>r. p r \<Longrightarrow> g (f r) = g r) \<Longrightarrow> map g (update_found p f t) = map g t"
  by (induction t) auto

lemma count_update_found_same:
  "(\<And>r. p r \<Longrightarrow> q (f r) = q r) \<Longrightarrow> count_where q (update_found p f t) = count_where q t"
  by (induction t) auto

lemma count_update_found_self:
  "(\<And>r. p r \<Longrightarrow> \<not> p (f r)) \<Longrightarrow> count_where p (update_found p f t) = count_where p t - 1"
  by (induction t) auto

lemma filter_update_found:
  "(\<And>r. p r \<Longrightarrow> \<not> q r \<and> \<not> q (f r)) \<Longrightarrow> filter q (update_found p f t) = filter q t"
  by (induction t) auto

section \<open>Pagination\<close>

text \<open>
  The list endpoints compute \<open>skip = (page - 1) * limit\<close>, take \<open>limit\<close> rows and report
  \<open>totalPages = Math.ceil(total / limit)\<close>; the query DTOs require \<open>page \<ge> 1\<close> and \<open>limit \<ge> 1\<close>.
\<close>

definition page_slice :: "nat \<Rightarrow> nat \<Rightarrow> 'a list \<Rightarrow> 'a list" where
  "page_slice page limit xs = take limit (drop ((page - 1) * limit) xs)"

definition total_pages :: "nat \<Rightarrow> nat \<Rightarrow> nat" where
  "total_pages n limit = (n + limit - 1) div limit"

lemma length_page_slice: "length (page_slice page limit xs) \<le> limit"
  by (simp add: page_slice_def)

lemma set_page_slice: "set (page_slice page limit xs) \<subseteq> set xs"
  by (auto simp: page_slice_def dest: in_set_takeD in_set_dropD)

lemma concat_pages_prefix:
  "concat (map (\<lambda>p. page_slice p limit xs) [1..<Suc n]) = take (n * limit) xs"
proof (induction n)
  case (Suc n)
  have "take (Suc n * limit) xs = take (n * limit) xs @ take limit (drop (n * limit) xs)"
    by (metis add.commute mult_Suc take_add)
  with Suc show ?case
    by (simp add: page_slice_def)
qed simp

lemma total_pages_covers: "0 < limit \<Longrightarrow> n \<le> total_pages n limit * limit"
proof -
  assume "0 < limit"
  then have "(n + limit - 1) mod limit \<le> limit - 1"
    by (metis Suc_diff_1 less_Suc_eq_le mod_less_divisor)
  moreover have "(n + limit - 1) div limit * limit + (n + limit - 1) mod limit = n + limit - 1"
    by (rule div_mult_mod_eq)
  ultimately show ?thesis using \<open>0 < limit\<close>
    unfolding total_pages_def by linarith
qed

text \<open>Reading every page from the first to \<open>totalPages\<close> yields every row once, in order.\<close>

lemma concat_all_pages:
  assumes "0 < limit"
  shows "concat (map (\<lambda>p. page_slice p limit xs) [1..<Suc (total_pages (length xs) limit)]) = xs"
  using total_pages_covers [OF assms, of "length xs"] by (simp only: concat_pages_prefix take_all)

section \<open>Trimming\<close>

definition is_blank :: "char \<Rightarrow> bool" where
  "is_blank c = (let n = of_char c :: nat in n = 32 \<or> (9 \<le> n \<and> n \<le> 13))"

text \<open>\<open>String.prototype.trim\<close> on ASCII.\<close>

definition trim :: "string \<Rightarrow> string" where
  "trim s = rev (dropWhile is_blank (rev (dropWhile is_blank s)))"

end
