(* ===== verification/Gms_Number.thy ===== *)
theory Gms_Number
  imports Complex_Main "HOL-Library.Log_Nat"
begin

text \<open>
  JavaScript numbers. A finite number is a rational; every arithmetic operation of the code
  rounds the exact result to the nearest number with a 53-bit significand, ties to even, as
  IEEE 754 double arithmetic does. The exponent range is not bounded here: the request DTOs
  admit no NaN and no infinity, and overflow and subnormal results of weight arithmetic are
  outside the model.
\<close>

type_synonym num = rat

section \<open>Binary exponents\<close>

definition pow2 :: "int \<Rightarrow> rat" where
  "pow2 e = (if 0 \<le> e then 2 ^ nat e else 1 / 2 ^ nat (- e))"

lemma pow2_pos [simp]: "0 < pow2 e"
  by (simp add: pow2_def)

lemma pow2_0 [simp]: "pow2 0 = 1"
  by (simp add: pow2_def)

lemma pow2_nat: "0 \<le> e \<Longrightarrow> pow2 e = of_int (2 ^ nat e)"
  by (simp add: pow2_def)

lemma pow2_neg: "pow2 (- e) = 1 / pow2 e"
  by (auto simp: pow2_def)

lemma pow2_Suc: "pow2 (e + 1) = 2 * pow2 e"
proof (cases "0 \<le> e")
  case True
  then show ?thesis by (simp add: pow2_def nat_add_distrib)
next
  case False
  then obtain n where n: "e = - int (Suc n)"
    by (metis int_cases not_le of_nat_0_le_iff)
  show ?thesis unfolding n pow2_def by (simp add: nat_add_distrib)
qed

lemma pow2_add_nat: "pow2 (e + int n) = pow2 e * 2 ^ n"
proof (induction n)
  case (Suc n)
  have "pow2 (e + int (Suc n)) = pow2 ((e + int n) + 1)" by (simp add: algebra_simps)
  also have "\<dots> = 2 * pow2 (e + int n)" by (rule pow2_Suc)
  finally show ?case using Suc by simp
qed simp

lemma pow2_add: "pow2 (a + b) = pow2 a * pow2 b"
proof (cases "0 \<le> b")
  case True
  then show ?thesis using pow2_add_nat [of a "nat b"] by (simp add: pow2_def)
next
  case False
  then have "pow2 a = pow2 (a + b) * 2 ^ nat (- b)"
    using pow2_add_nat [of "a + b" "nat (- b)"] by simp
  with False show ?thesis by (simp add: pow2_def)
qed

text \<open>The exponent of a positive rational: the largest \<open>e\<close> with \<open>2 ^ e \<le> x\<close>.\<close>

definition ilog2 :: "rat \<Rightarrow> int" where
  "ilog2 x =
     (let (p, q) = quotient_of x; e = bitlen p - bitlen q
      in if pow2 e \<le> x then e else e - 1)"

lemma ilog2_lower: 
  assumes "0 < x"
  shows "pow2 (ilog2 x) \<le> x"
proof -
  obtain p q where pq: "quotient_of x = (p, q)" by fastforce
  let ?e = "bitlen p - bitlen q"
  have q: "0 < q" and x: "x = of_int p / of_int q"
    using quotient_of_denom_pos [OF pq] quotient_of_div [OF pq] by simp_all
  with assms have p: "0 < p"
    by (simp add: zero_less_divide_iff)
  have bp: "2 ^ nat (bitlen p - 1) \<le> p" and bq: "q < 2 ^ nat (bitlen q)"
    using bitlen_bounds [OF p] bitlen_bounds [OF q] by simp_all
  have pos: "1 \<le> bitlen p" "1 \<le> bitlen q"
    using p q bitlen_nonneg [of p] bitlen_nonneg [of q] bitlen_eq_zero_iff [of p] bitlen_eq_zero_iff [of q]
    by linarith+
  have "pow2 (bitlen p - 1) \<le> of_int p"
    using bp pos by (simp add: pow2_nat del: of_int_power)
  moreover have "of_int q \<le> pow2 (bitlen q)"
    using bq pos by (simp add: pow2_nat del: of_int_power)
  ultimately have "pow2 (bitlen p - 1) / pow2 (bitlen q) \<le> x"
    unfolding x using q p by (intro frac_le) simp_all
  moreover have "pow2 (bitlen p - 1) / pow2 (bitlen q) = pow2 (?e - 1)"
    using pow2_add [of "bitlen p - 1" "- bitlen q"] by (simp add: pow2_neg algebra_simps)
  ultimately show ?thesis
    by (simp add: ilog2_def pq Let_def)
qed

section \<open>Rounding\<close>

definition round_even :: "rat \<Rightarrow> int" where
  "round_even x =
     (let f = \<lfloor>x\<rfloor>; d = x - of_int f
      in if d < 1 / 2 then f else if 1 / 2 < d then f + 1 else if even f then f else f + 1)"

definition fl :: "rat \<Rightarrow> num" where
  "fl x = (if x = 0 then 0
     else (let e = ilog2 \<bar>x\<bar> - 52 in sgn x * of_int (round_even (\<bar>x\<bar> * pow2 (- e))) * pow2 e))"

lemma round_even_of_int [simp]: "round_even (of_int n) = n"
  by (simp add: round_even_def)

lemma round_even_ge: "of_int n \<le> x \<Longrightarrow> n \<le> round_even x"
proof -
  assume "of_int n \<le> x"
  then have "n \<le> \<lfloor>x\<rfloor>" by (simp add: le_floor_iff)
  then show ?thesis by (auto simp: round_even_def Let_def)
qed

lemma round_even_error: "\<bar>of_int (round_even x) - x\<bar> \<le> 1 / 2"
proof -
  have "of_int \<lfloor>x\<rfloor> \<le> x" "x < of_int \<lfloor>x\<rfloor> + 1"
    by (simp, rule floor_correct [THEN conjunct2, simplified])
  then show ?thesis unfolding round_even_def Let_def by (simp add: abs_if) linarith
qed

lemma fl_zero [simp]: "fl 0 = 0"
  by (simp add: fl_def)

lemma fl_minus: "fl (- x) = - fl x"
  by (simp add: fl_def Let_def)

lemma fl_pos: "0 < x \<Longrightarrow> 0 < fl x"
proof -
  assume x: "0 < x"
  let ?e = "ilog2 x - 52"
  have "pow2 (ilog2 x) \<le> x" using ilog2_lower [OF x] .
  then have "pow2 (ilog2 x) * pow2 (- ?e) \<le> x * pow2 (- ?e)"
    by (intro mult_right_mono) (simp_all add: less_imp_le)
  moreover have "pow2 (ilog2 x) * pow2 (- ?e) = pow2 52"
    by (simp add: pow2_add [symmetric])
  moreover have "pow2 52 = of_int (2 ^ 52)" by (simp add: pow2_def)
  ultimately have "2 ^ 52 \<le> round_even (x * pow2 (- ?e))"
    by (metis round_even_ge)
  then have "0 < round_even (x * pow2 (- ?e))" by (rule less_le_trans [rotated]) simp
  with x show ?thesis by (simp add: fl_def Let_def)
qed

lemma fl_neg: "x < 0 \<Longrightarrow> fl x < 0"
  using fl_pos [of "- x"] by (simp add: fl_minus)

lemma fl_pos_iff [simp]: "0 < fl x \<longleftrightarrow> 0 < x"
  using fl_pos fl_neg by (metis fl_zero less_asym linorder_less_linear)

lemma fl_nonneg_iff [simp]: "0 \<le> fl x \<longleftrightarrow> 0 \<le> x"
  using fl_pos fl_neg by (metis fl_zero leD le_less linorder_not_le)

text \<open>A result that a 53-bit significand can hold is exact; so are all integers up to \<open>2 ^ 53\<close>.\<close>

lemma fl_exact:
  assumes "\<bar>x\<bar> * pow2 (52 - ilog2 \<bar>x\<bar>) \<in> \<int>"
  shows "fl x = x"
proof (cases "x = 0")
  case False
  obtain n where n: "\<bar>x\<bar> * pow2 (52 - ilog2 \<bar>x\<bar>) = of_int n"
    using assms by (auto elim: Ints_cases)
  have "pow2 (52 - ilog2 \<bar>x\<bar>) * pow2 (ilog2 \<bar>x\<bar> - 52) = 1"
    by (simp add: pow2_add [symmetric])
  then have "of_int n * pow2 (ilog2 \<bar>x\<bar> - 52) = \<bar>x\<bar>"
    by (metis n mult.assoc mult.right_neutral)
  with False n show ?thesis
    by (simp add: fl_def Let_def mult.assoc sgn_mult_abs)
qed simp

lemma pow2_mono: "a \<le> b \<Longrightarrow> pow2 a \<le> pow2 b"
proof -
  assume "a \<le> b"
  then have "pow2 b = pow2 a * 2 ^ nat (b - a)"
    using pow2_add_nat [of a "nat (b - a)"] by simp
  moreover have "(1::rat) \<le> 2 ^ nat (b - a)" by simp
  ultimately show ?thesis by (simp add: less_imp_le)
qed

lemma fl_of_int:
  assumes "\<bar>n\<bar> \<le> 2 ^ 53"
  shows "fl (of_int n) = of_int n"
proof (cases "n = 0")
  case False
  let ?x = "\<bar>of_int n\<bar> :: rat"
  let ?e = "ilog2 ?x"
  have x: "?x = of_int \<bar>n\<bar>" "0 < ?x" using False by simp_all
  have le: "pow2 ?e \<le> ?x" using x(2) by (rule ilog2_lower)
  have "?x * pow2 (52 - ?e) \<in> \<int>"
  proof (cases "?e \<le> 52")
    case True
    then have "pow2 (52 - ?e) = of_int (2 ^ nat (52 - ?e))" by (simp add: pow2_nat)
    with x show ?thesis by (metis Ints_of_int of_int_mult)
  next
    case False
    then have "pow2 53 \<le> pow2 ?e" by (intro pow2_mono) simp
    moreover have "?x \<le> pow2 53" using assms unfolding x(1) by (simp add: pow2_def)
    ultimately have eq: "?x = pow2 53" "pow2 ?e = pow2 53" using le by linarith+
    have "?x * pow2 (52 - ?e) = pow2 53 * (pow2 52 / pow2 ?e)"
      using pow2_add [of 52 "- ?e"] by (simp add: eq(1) pow2_neg)
    also have "\<dots> = pow2 52" unfolding eq(2) by (simp add: pow2_def)
    finally have "?x * pow2 (52 - ?e) = pow2 52" .
    then show ?thesis by (simp add: pow2_def)
  qed
  then show ?thesis by (rule fl_exact)
qed simp

lemma fl_numeral [simp]: "(numeral n :: int) \<le> 2 ^ 53 \<Longrightarrow> fl (numeral n) = numeral n"
  using fl_of_int [of "numeral n"] by simp

lemma fl_one [simp]: "fl 1 = 1"
  using fl_of_int [of 1] by simp

text \<open>Unbounded weights are rounded by at most half a unit in the last of 53 places.\<close>

lemma fl_error: "\<bar>fl x - x\<bar> \<le> \<bar>x\<bar> / 2 ^ 53"
proof (cases "x = 0")
  case False
  let ?e = "ilog2 \<bar>x\<bar> - 52"
  let ?m = "\<bar>x\<bar> * pow2 (- ?e)"
  have one: "pow2 (- ?e) * pow2 ?e = 1" by (simp add: pow2_add [symmetric])
  have abs: "\<bar>x\<bar> = ?m * pow2 ?e" by (metis one mult.assoc mult.right_neutral)
  have "fl x - x = sgn x * ((of_int (round_even ?m) - ?m) * pow2 ?e)"
    using False abs by (simp add: fl_def Let_def left_diff_distrib right_diff_distrib
      mult.assoc sgn_mult_abs [symmetric])
  then have "\<bar>fl x - x\<bar> = \<bar>of_int (round_even ?m) - ?m\<bar> * pow2 ?e"
    using False by (simp add: abs_mult abs_sgn_eq less_imp_le)
  also have "\<dots> \<le> 1 / 2 * pow2 ?e"
    by (intro mult_right_mono round_even_error) (simp add: less_imp_le)
  also have "\<dots> = pow2 (ilog2 \<bar>x\<bar>) / 2 ^ 53"
    using pow2_add [of "ilog2 \<bar>x\<bar>" "- 52"] by (simp add: pow2_def)
  also have "\<dots> \<le> \<bar>x\<bar> / 2 ^ 53"
    using ilog2_lower [of "\<bar>x\<bar>"] False by (intro divide_right_mono) simp_all
  finally show ?thesis .
qed simp

section \<open>The operations the services use\<close>

definition js_sub :: "num \<Rightarrow> num \<Rightarrow> num" where
  "js_sub a b = fl (a - b)"

definition js_mul :: "num \<Rightarrow> num \<Rightarrow> num" where
  "js_mul a b = fl (a * b)"

definition js_div :: "num \<Rightarrow> num \<Rightarrow> num" where
  "js_div a b = fl (a / b)"

definition js_add :: "num \<Rightarrow> num \<Rightarrow> num" where
  "js_add a b = fl (a + b)"

lemma js_sub_pos_iff [simp]: "0 < js_sub a b \<longleftrightarrow> b < a"
  by (simp add: js_sub_def)

lemma js_sub_nonneg_iff [simp]: "0 \<le> js_sub a b \<longleftrightarrow> b \<le> a"
  by (simp add: js_sub_def)

lemma js_sub_same [simp]: "js_sub a a = 0"
  by (simp add: js_sub_def)

text \<open>Whole-kilogram readings below \<open>2 ^ 52\<close> are subtracted exactly.\<close>

lemma js_sub_int:
  assumes "\<bar>a\<bar> \<le> 2 ^ 52" "\<bar>b\<bar> \<le> 2 ^ 52"
  shows "js_sub (of_int a) (of_int b) = of_int (a - b)"
proof -
  have "\<bar>a - b\<bar> \<le> 2 ^ 53" using assms by simp
  then show ?thesis using fl_of_int [of "a - b"] by (simp add: js_sub_def)
qed

end
