(* ===== verification/Gms_Domain.thy ===== *)
theory Gms_Domain
  imports Gms_Prelude Gms_Number
begin

text \<open>
  The data the services share: the enumerations and tables of the Prisma schema, the
  authenticated user of a request, the database as one record of tables, the errors the
  services raise, and the audit log every handler writes.

  Identifiers are drawn from a counter (the code draws UUIDs; only their freshness matters).
  An instant is a number of milliseconds. A handler reads the clock with several
  \<open>new Date()\<close> calls; the model gives all of them the one instant \<open>now\<close> of the request.
\<close>

type_synonym ident = nat
type_synonym instant = int

section \<open>Enumerations\<close>

datatype role = ADMIN | SECURITY | WAREHOUSE | QC

datatype process_type = GBB | GBJ | GSP

datatype cargo_process_type = INBOUND | OUTBOUND

datatype weighbridge_type = IN | OUT

datatype warehouse_unit = KG | PCS | BAG | ROLL | PALLET

datatype warehouse_condition = GOOD | DAMAGED | HOLD | PARTIAL | OTHER_CONDITION

datatype transaction_status =
    REGISTERED
  | WEIGH_IN_DONE
  | QC_VEHICLE_PENDING
  | QC_VEHICLE_IN_PROGRESS
  | QC_VEHICLE_PASSED
  | QC_VEHICLE_REJECTED
  | WAREHOUSE_IN_PROGRESS
  | WAREHOUSE_DONE
  | INCOMING_CHECK_PENDING
  | INCOMING_CHECK_IN_PROGRESS
  | INCOMING_CHECK_PASSED
  | INCOMING_CHECK_REJECTED
  | WEIGH_OUT_DONE
  | COMPLETED
  | CANCELLED

datatype qc_result = QC_PASS | QC_REJECT

datatype check_result = PASS | REJECT | NA

datatype qc_vehicle_decision_mode = NORMAL_PASS | APPROVED_WITH_DEVIATION | REJECTED

datatype attachment_type = PHOTO | DOCUMENT | SAMPLE | OTHER_ATTACHMENT

datatype risk_level = PENDING_DATA | SAFE | WARNING | CRITICAL_RISK | INVALID_DATA

datatype correction_action = CORRECT_DATA | CORRECT_RECORDED_STATUS | REOPEN_WORKFLOW

datatype correction_target_module =
    TM_TRANSACTION | TM_WEIGHBRIDGE | TM_QC_VEHICLE | TM_QC_MATERIAL | TM_INCOMING_MATERIAL
  | TM_WAREHOUSE | TM_STATUS | TM_ATTACHMENT | TM_REMARK

text \<open>The statuses are enumerable, so a claim about every status evaluates.\<close>

instantiation transaction_status :: enum
begin

definition enum_transaction_status :: "transaction_status list" where
  "enum_transaction_status =
     [REGISTERED, WEIGH_IN_DONE, QC_VEHICLE_PENDING, QC_VEHICLE_IN_PROGRESS, QC_VEHICLE_PASSED,
      QC_VEHICLE_REJECTED, WAREHOUSE_IN_PROGRESS, WAREHOUSE_DONE, INCOMING_CHECK_PENDING,
      INCOMING_CHECK_IN_PROGRESS, INCOMING_CHECK_PASSED, INCOMING_CHECK_REJECTED,
      WEIGH_OUT_DONE, COMPLETED, CANCELLED]"

definition enum_all_transaction_status :: "(transaction_status \<Rightarrow> bool) \<Rightarrow> bool" where
  "enum_all_transaction_status P = list_all P enum_class.enum"

definition enum_ex_transaction_status :: "(transaction_status \<Rightarrow> bool) \<Rightarrow> bool" where
  "enum_ex_transaction_status P = list_ex P enum_class.enum"

instance
proof
  show univ: "(UNIV :: transaction_status set) = set enum_class.enum"
    by (auto simp: enum_transaction_status_def intro: transaction_status.exhaust)
  show "distinct (enum_class.enum :: transaction_status list)"
    by (simp add: enum_transaction_status_def)
  show "enum_class.enum_all P \<longleftrightarrow> Ball UNIV P" for P :: "transaction_status \<Rightarrow> bool"
    by (simp add: enum_all_transaction_status_def univ list_all_iff)
  show "enum_class.enum_ex P \<longleftrightarrow> Bex UNIV P" for P :: "transaction_status \<Rightarrow> bool"
    by (simp add: enum_ex_transaction_status_def univ list_ex_iff)
qed

end

section \<open>JSON values\<close>

datatype jsv =
    JNull
  | JBool bool
  | JNum num
  | JStr string
  | JArr "jsv list"
  | JObj "(string \<times> jsv) list"

section \<open>Users of requests\<close>

text \<open>The JwtPayloadUser that JwtStrategy.validate puts on the request.\<close>

record jwt_user =
  ju_id :: ident
  ju_email :: string
  ju_name :: string
  ju_role :: role
  ju_warehouseAccess :: "process_type list"

section \<open>Tables\<close>

record user_row =
  u_id :: ident
  u_email :: string
  u_username :: string
  u_name :: string
  u_role :: role
  u_isActive :: bool
  u_isDeleted :: bool
  u_passwordHash :: string
  u_refreshTokenHash :: "string option"
  u_lastLoginAt :: "instant option"
  u_mustChangePassword :: bool
  u_passwordChangedAt :: "instant option"
  u_temporaryPasswordExpiresAt :: "instant option"
  u_tokenVersion :: nat
  u_createdAt :: instant
  u_phone :: "string option"
  u_department :: "string option"
  u_site :: "string option"
  u_area :: "string option"
  u_avatarUrl :: "string option"

record user_warehouse_access =
  wa_userId :: ident
  wa_processType :: process_type

record transaction =
  tx_id :: ident
  transactionNumber :: string
  plateNumber :: string
  driverName :: string
  driverPhone :: string
  vendorName :: string
  vehicleType :: string
  processType :: process_type
  cargoType :: string
  cargoSubType :: "string option"
  cargoProcessType :: cargo_process_type
  suratJalanNumber :: "string option"
  poNumber :: "string option"
  permitCardNumber :: "string option"
  guestIdNumber :: "string option"
  status :: transaction_status
  gateInAt :: "instant option"
  gateOutAt :: "instant option"
  completedAt :: "instant option"
  cancelledAt :: "instant option"
  cancellationReason :: "string option"
  createdById :: "ident option"
  cancelledById :: "ident option"
  isVoided :: bool
  voidedAt :: "instant option"
  voidedById :: "ident option"
  voidReasonCode :: "string option"
  voidReason :: "string option"
  remarks :: "string option"
  grossWeight :: "num option"
  tareWeight :: "num option"
  netWeight :: "num option"
  weighInAt :: "instant option"
  weighOutAt :: "instant option"
  weighInById :: "ident option"
  weighOutById :: "ident option"
  warehouseStartAt :: "instant option"
  warehouseEndAt :: "instant option"
  warehouseStartById :: "ident option"
  warehouseEndById :: "ident option"
  actualWeight :: "num option"
  actualQuantity :: "int option"
  warehouseUnit :: "warehouse_unit option"
  qcStartAt :: "instant option"
  qcEndAt :: "instant option"
  incomingQcStartAt :: "instant option"
  qcAnalysisCompleted :: bool
  qcAnalysisCompletedAt :: "instant option"
  createdAt :: instant
  revision :: nat

record status_history =
  sh_id :: ident
  sh_transactionId :: ident
  sh_oldStatus :: "transaction_status option"
  sh_newStatus :: transaction_status
  sh_changedById :: "ident option"
  sh_notes :: "string option"
  sh_changedAt :: instant

text \<open>The columns all revisioned detail tables have.\<close>

record versioned =
  v_id :: ident
  v_transactionId :: ident
  v_createdAt :: instant
  v_isCurrent :: bool
  v_supersededAt :: "instant option"
  v_supersededByCorrectionId :: "ident option"
  v_revision :: nat

record weighbridge_record = versioned +
  wr_type :: weighbridge_type
  wr_weight :: num
  wr_ticketNumber :: "string option"
  wr_operatorId :: "ident option"
  wr_remarks :: "string option"

record warehouse_process = versioned +
  wp_processType :: process_type
  wp_startAt :: "instant option"
  wp_endAt :: "instant option"
  wp_startById :: "ident option"
  wp_endById :: "ident option"
  wp_actualWeight :: "num option"
  wp_actualQuantity :: "int option"
  wp_unit :: "warehouse_unit option"
  wp_palletCount :: "int option"
  wp_bagCount :: "int option"
  wp_rollCount :: "int option"
  wp_condition :: "warehouse_condition option"
  wp_remarks :: "string option"
  wp_checklistItems :: "jsv option"

record qc_vehicle_check = versioned +
  qv_result :: "qc_result option"
  qv_decisionMode :: "qc_vehicle_decision_mode option"
  qv_hasDeviation :: "bool option"
  qv_deviationReason :: "string option"
  qv_vehicleCleanliness :: "check_result option"
  qv_vehicleOdor :: "check_result option"
  qv_pestEvidence :: "check_result option"
  qv_vehicleCondition :: "check_result option"
  qv_documentCompleteness :: "check_result option"
  qv_sealCondition :: "check_result option"
  qv_notes :: "string option"
  qv_checklistItems :: "jsv option"
  qv_checkedById :: "ident option"
  qv_startedAt :: "instant option"
  qv_completedAt :: "instant option"

record incoming_material_check = versioned +
  im_result :: "qc_result option"
  im_odor :: "check_result option"
  im_color :: "check_result option"
  im_moisture :: "num option"
  im_foreignMatter :: "num option"
  im_beanCondition :: "check_result option"
  im_sampleWeight :: "num option"
  im_goodBeanPercentage :: "num option"
  im_itemCondition :: "check_result option"
  im_packagingCondition :: "check_result option"
  im_quantityCheck :: "check_result option"
  im_documentCheck :: "check_result option"
  im_visualInspection :: "check_result option"
  im_defectNotes :: "string option"
  im_notes :: "string option"
  im_checklistItems :: "jsv option"
  im_checkedById :: "ident option"
  im_startedAt :: "instant option"
  im_completedAt :: "instant option"

record attachment = versioned +
  at_attachmentLineageId :: ident
  at_module :: string
  at_attachmentType :: attachment_type
  at_originalName :: string
  at_fileName :: string
  at_filePath :: string
  at_mimeType :: string
  at_size :: nat
  at_description :: "string option"
  at_uploadedById :: "ident option"
  at_sha256 :: "string option"

record fraud_check =
  fc_id :: ident
  fc_transactionId :: ident
  fc_riskLevel :: risk_level
  fc_deviationKg :: num
  fc_deviationPercent :: num
  fc_createdAt :: instant

text \<open>
  An activity log row. The column \<open>description\<close> holds text; a structured description is kept
  here as the JSON value whose text the code stores.
\<close>

record activity_log =
  al_id :: ident
  al_userId :: "ident option"
  al_userName :: "string option"
  al_role :: "role option"
  al_action :: string
  al_module :: string
  al_description :: "jsv option"
  al_referenceId :: "ident option"
  al_status :: string
  al_createdAt :: instant

record correction =
  tc_id :: ident
  tc_transactionId :: ident
  tc_correctedById :: ident
  tc_correctionNumber :: string
  tc_action :: correction_action
  tc_reasonCode :: string
  tc_reason :: string
  tc_remark :: string
  tc_evidenceUrl :: "string option"
  tc_oldValues :: "(string \<times> jsv) list"
  tc_newValues :: "(string \<times> jsv) list"
  tc_expectedRevision :: nat
  tc_ipAddress :: "string option"
  tc_createdAt :: instant

text \<open>A corrected field; absent values are null.\<close>

record correction_item_row =
  xi_id :: ident
  xi_correctionId :: ident
  xi_targetModule :: correction_target_module
  xi_targetRecordId :: ident
  xi_replacementRecordId :: "ident option"
  xi_fieldName :: string
  xi_oldValue :: "jsv option"
  xi_newValue :: "jsv option"
  xi_itemRemark :: "string option"

record db =
  nextId :: ident
  users :: "user_row list"
  userWarehouseAccess :: "user_warehouse_access list"
  transactions :: "transaction list"
  statusHistories :: "status_history list"
  weighbridgeRecords :: "weighbridge_record list"
  warehouseProcesses :: "warehouse_process list"
  qcVehicleChecks :: "qc_vehicle_check list"
  incomingMaterialChecks :: "incoming_material_check list"
  attachments :: "attachment list"
  fraudChecks :: "fraud_check list"
  activityLogs :: "activity_log list"
  corrections :: "correction list"
  correctionItems :: "correction_item_row list"

definition empty_db :: db where
  "empty_db = \<lparr>nextId = 0, users = [], userWarehouseAccess = [], transactions = [],
     statusHistories = [], weighbridgeRecords = [], warehouseProcesses = [],
     qcVehicleChecks = [], incomingMaterialChecks = [], attachments = [], fraudChecks = [],
     activityLogs = [], corrections = [], correctionItems = []\<rparr>"

end
