(* ===== verification/Gms_Versioned.thy ===== *)
theory Gms_Versioned
  imports Gms_Domain
begin

text \<open>
  Revisioned tables. The detail tables of a transaction (weighbridge records, warehouse
  processes, vehicle checks, incoming checks) are append-only: a row is superseded by clearing
  \<open>isCurrent\<close>, a replacement gets the next revision. The interface every one of them satisfies
  is a locale; its lemmas say what appending and superseding do to the number of current rows
  and to the uniqueness of revisions, and each table is an interpretation.
\<close>

section \<open>Superseding\<close>

text \<open>The data of every \<open>updateMany\<close> that supersedes rows.\<close>

definition supersede :: "instant \<Rightarrow> ident \<Rightarrow> 'a versioned_scheme \<Rightarrow> 'a versioned_scheme" where
  "supersede now cid r =
     r\<lparr>v_isCurrent := False, v_supersededAt := Some now, v_supersededByCorrectionId := Some cid\<rparr>"

lemma supersede_simps [simp]:
  "v_isCurrent (supersede now cid r) = False"
  "v_transactionId (supersede now cid r) = v_transactionId r"
  "v_revision (supersede now cid r) = v_revision r"
  "v_id (supersede now cid r) = v_id r"
  by (simp_all add: supersede_def)

lemma wr_type_supersede [simp]: "wr_type (supersede now cid r) = wr_type r"
  by (simp add: supersede_def)

lemma wp_endAt_supersede [simp]: "wp_endAt (supersede now cid r) = wp_endAt r"
  by (simp add: supersede_def)

section \<open>Counting current rows and comparing revisions\<close>

definition current_count :: "('r \<Rightarrow> 'k) \<Rightarrow> ('r \<Rightarrow> bool) \<Rightarrow> 'r list \<Rightarrow> 'k \<Rightarrow> nat" where
  "current_count key cur t k = count_where (\<lambda>r. key r = k \<and> cur r) t"

definition revisions_of :: "('r \<Rightarrow> 'k) \<Rightarrow> ('r \<Rightarrow> nat) \<Rightarrow> 'r list \<Rightarrow> 'k \<Rightarrow> nat list" where
  "revisions_of key revn t k = map revn (filter (\<lambda>r. key r = k) t)"

text \<open>The unique index on (key, revision).\<close>

definition revisions_unique :: "('r \<Rightarrow> 'k) \<Rightarrow> ('r \<Rightarrow> nat) \<Rightarrow> 'r list \<Rightarrow> bool" where
  "revisions_unique key revn t \<longleftrightarrow> distinct (map (\<lambda>r. (key r, revn r)) t)"

lemma unique_append_fresh:
  "revisions_unique key revn t \<Longrightarrow> \<not> list_ex (\<lambda>s. key s = key r \<and> revn s = revn r) t \<Longrightarrow>
     revisions_unique key revn (t @ [r])"
  by (auto simp: revisions_unique_def list_ex_iff)

text \<open>The primary key, and that new identifiers come from the counter.\<close>

definition ids_below :: "ident \<Rightarrow> 'a versioned_scheme list \<Rightarrow> bool" where
  "ids_below n t \<longleftrightarrow> distinct (map v_id t) \<and> (\<forall>r \<in> set t. v_id r < n)"

lemma ids_below_Nil [simp]: "ids_below n []"
  by (simp add: ids_below_def)

lemma ids_below_mono: "ids_below n t \<Longrightarrow> n \<le> m \<Longrightarrow> ids_below m t"
  by (auto simp: ids_below_def intro: less_le_trans)

lemma ids_below_append: "ids_below n t \<Longrightarrow> v_id r = n \<Longrightarrow> ids_below (Suc n) (t @ [r])"
  by (auto simp: ids_below_def less_Suc_eq)

lemma ids_below_map: "ids_below n t = (distinct (map v_id t) \<and> list_all (\<lambda>x. x < n) (map v_id t))"
  by (simp add: ids_below_def list_all_iff)

lemma ids_below_cong: "map v_id t' = map v_id t \<Longrightarrow> ids_below n t' = ids_below n t"
  unfolding ids_below_map by simp

section \<open>The interface\<close>

locale versioned_table =
  fixes key :: "'r \<Rightarrow> 'k"
    and cur :: "'r \<Rightarrow> bool"
    and revn :: "'r \<Rightarrow> nat"
    and retire :: "'r \<Rightarrow> 'r"
  assumes key_retire: "key (retire r) = key r"
    and rev_retire: "revn (retire r) = revn r"
    and cur_retire: "\<not> cur (retire r)"
begin

lemma count_append:
  "current_count key cur (t @ [r]) k = current_count key cur t k + (if key r = k \<and> cur r then 1 else 0)"
  by (simp add: current_count_def)

lemma count_retire_key:
  "current_count key cur (update_many (\<lambda>r. key r = k \<and> cur r) retire t) k' =
     (if k' = k then 0 else current_count key cur t k')"
proof (cases "k' = k")
  case True
  then show ?thesis
    by (auto simp: current_count_def count_where_0_iff set_update_many cur_retire)
next
  case False
  then show ?thesis
    unfolding current_count_def
    by (auto intro!: count_where_update_many_same simp: key_retire)
qed

lemma unique_append:
  assumes "revisions_unique key revn t"
    and "revn r = next_revision (revisions_of key revn t (key r))"
  shows "revisions_unique key revn (t @ [r])"
proof -
  have "(key r, revn r) \<notin> (\<lambda>r. (key r, revn r)) ` set t"
  proof
    assume "(key r, revn r) \<in> (\<lambda>r. (key r, revn r)) ` set t"
    then have "revn r \<in> set (revisions_of key revn t (key r))"
      by (auto simp: revisions_of_def)
    then show False
      using next_revision_greater assms(2) by fastforce
  qed
  with assms(1) show ?thesis by (simp add: revisions_unique_def)
qed

lemma unique_update:
  assumes "\<And>r. r \<in> set t \<Longrightarrow> p r \<Longrightarrow> key (f r) = key r \<and> revn (f r) = revn r"
  shows "revisions_unique key revn (update_many p f t) = revisions_unique key revn t"
  unfolding revisions_unique_def
  using map_update_many [of t p "\<lambda>r. (key r, revn r)" f] assms by simp

lemma unique_retire: "revisions_unique key revn (update_many p retire t) = revisions_unique key revn t"
  by (rule unique_update) (simp add: key_retire rev_retire)

end

section \<open>The tables of the program\<close>

definition wr_key :: "weighbridge_record \<Rightarrow> ident \<times> weighbridge_type" where
  "wr_key r = (v_transactionId r, wr_type r)"

definition wp_key :: "warehouse_process \<Rightarrow> ident \<times> process_type" where
  "wp_key r = (v_transactionId r, wp_processType r)"

interpretation wpt: versioned_table wp_key v_isCurrent v_revision "supersede now cid" for now cid
  by unfold_locales (simp_all add: wp_key_def supersede_def)

interpretation wrt: versioned_table wr_key v_isCurrent v_revision "supersede now cid" for now cid
  by unfold_locales (simp_all add: wr_key_def)

interpretation vt: versioned_table v_transactionId v_isCurrent v_revision "supersede now cid"
  for now cid
  by unfold_locales simp_all

text \<open>A revision above all of the transaction is above all of the transaction and process type.\<close>

lemma wp_unique_append:
  assumes "revisions_unique wp_key v_revision t"
    and "v_revision r = next_revision (revisions_of v_transactionId v_revision t (v_transactionId r))"
  shows "revisions_unique wp_key v_revision (t @ [r])"
proof (rule unique_append_fresh [OF assms(1)])
  have "v_revision s < v_revision r" if "s \<in> set t" "wp_key s = wp_key r" for s
    unfolding assms(2) using that by (intro next_revision_greater) (auto simp: revisions_of_def wp_key_def)
  then show "\<not> list_ex (\<lambda>s. wp_key s = wp_key r \<and> v_revision s = v_revision r) t"
    by (fastforce simp: list_ex_iff)
qed

text \<open>The rows the services look for before they write.\<close>

definition current_wr :: "ident \<Rightarrow> weighbridge_type \<Rightarrow> weighbridge_record \<Rightarrow> bool" where
  "current_wr i ty r \<longleftrightarrow> v_transactionId r = i \<and> wr_type r = ty \<and> v_isCurrent r"

definition current_row :: "ident \<Rightarrow> 'a versioned_scheme \<Rightarrow> bool" where
  "current_row i r \<longleftrightarrow> v_transactionId r = i \<and> v_isCurrent r"

definition open_process :: "ident \<Rightarrow> warehouse_process \<Rightarrow> bool" where
  "open_process i r \<longleftrightarrow> v_transactionId r = i \<and> v_isCurrent r \<and> wp_endAt r = None"

lemma current_wr_iff: "current_wr i ty r \<longleftrightarrow> wr_key r = (i, ty) \<and> v_isCurrent r"
  by (auto simp: current_wr_def wr_key_def)

lemma count_current_wr: "count_where (current_wr i ty) t = current_count wr_key v_isCurrent t (i, ty)"
  by (auto simp: current_count_def current_wr_iff intro: count_where_cong)

lemma count_current_row: "count_where (current_row i) t = current_count v_transactionId v_isCurrent t i"
  by (auto simp: current_count_def current_row_def intro: count_where_cong)

end
