(* ===== verification/Gms_Store.thy ===== *)
theory Gms_Store
  imports Gms_Versioned
begin

text \<open>
  The database calls and the errors the services share: the compare-and-swap claim of a
  transaction row, the creation of status-history rows, and the audit log
  (\<open>ActivityLogsService.logAction\<close>, activity-logs/activity-logs.service.ts). The body of a
  \<open>prisma.$transaction\<close> runs atomically and is rolled back by an exception; a database that
  fails is not modelled, so \<open>logAction\<close> always stores its row and the fallback file of
  \<open>writeFallbackLog\<close> is not used.
\<close>

section \<open>Errors\<close>

text \<open>
  An exception of a handler: the class the code throws with a reason of the component's own
  type, or one of the exceptions thrown by the shared helpers (the state machine and the
  authorization scope).
\<close>

datatype 'r error =
    NotFound 'r
  | BadRequest 'r
  | Conflict 'r
  | Forbidden 'r
  | Unauthorized 'r
  | InternalError 'r
  | FinalStatus transaction_status
  | InvalidTransition transaction_status transaction_status
  | ScopeEmpty role
  | ScopeDenied process_type

fun http_status :: "'r error \<Rightarrow> nat" where
  "http_status (NotFound r) = 404"
| "http_status (BadRequest r) = 400"
| "http_status (Conflict r) = 409"
| "http_status (Forbidden r) = 403"
| "http_status (Unauthorized r) = 401"
| "http_status (InternalError r) = 500"
| "http_status (FinalStatus s) = 400"
| "http_status (InvalidTransition s s') = 400"
| "http_status (ScopeEmpty r) = 403"
| "http_status (ScopeDenied p) = 403"

type_synonym ('r, 'a) outcome = "db \<times> ('r error + 'a)"

section \<open>Transaction rows\<close>

definition find_tx :: "db \<Rightarrow> ident \<Rightarrow> transaction option" where
  "find_tx d i = find_first (\<lambda>t. tx_id t = i) (transactions d)"

definition find_user :: "db \<Rightarrow> ident \<Rightarrow> user_row option" where
  "find_user d i = find_first (\<lambda>u. u_id u = i) (users d)"

text \<open>
  \<open>tx.transaction.updateMany({ where: { id, ...g }, data: f })\<close> and the count it reports.
\<close>

definition claim :: "ident \<Rightarrow> (transaction \<Rightarrow> bool) \<Rightarrow> (transaction \<Rightarrow> transaction) \<Rightarrow> db \<Rightarrow> db \<times> nat" where
  "claim i g f d =
     (let p = (\<lambda>t. tx_id t = i \<and> g t)
      in (d\<lparr>transactions := update_many p f (transactions d)\<rparr>, count_where p (transactions d)))"

definition add_history ::
  "ident \<Rightarrow> transaction_status option \<Rightarrow> transaction_status \<Rightarrow> ident option \<Rightarrow> string option \<Rightarrow> instant \<Rightarrow> db \<Rightarrow> db"
where
  "add_history i old new by_id notes now d =
     d\<lparr>statusHistories := statusHistories d @
          [\<lparr>sh_id = nextId d, sh_transactionId = i, sh_oldStatus = old, sh_newStatus = new,
            sh_changedById = by_id, sh_notes = notes, sh_changedAt = now\<rparr>],
       nextId := Suc (nextId d)\<rparr>"

section \<open>Audit log\<close>

record log_data =
  ld_userId :: "ident option"
  ld_userName :: "string option"
  ld_role :: "role option"
  ld_action :: string
  ld_module :: string
  ld_description :: "jsv option"
  ld_referenceId :: "ident option"
  ld_status :: string

definition logAction :: "log_data \<Rightarrow> instant \<Rightarrow> db \<Rightarrow> db" where
  "logAction data now d =
     (let name = truthy_col (ld_userName data);
          found = (case ld_userId data of
              None \<Rightarrow> None
            | Some uid \<Rightarrow> (if name = None \<or> ld_role data = None then find_user d uid else None));
          userName = (case found of None \<Rightarrow> ld_userName data | Some u \<Rightarrow> Some (val_or name (u_name u)));
          rl = (case found of None \<Rightarrow> ld_role data | Some u \<Rightarrow> Some (val_or (ld_role data) (u_role u)))
      in d\<lparr>activityLogs := activityLogs d @
              [\<lparr>al_id = nextId d, al_userId = ld_userId data, al_userName = userName, al_role = rl,
                al_action = ld_action data, al_module = ld_module data,
                al_description = ld_description data, al_referenceId = ld_referenceId data,
                al_status = ld_status data, al_createdAt = now\<rparr>],
           nextId := Suc (nextId d)\<rparr>)"

text \<open>The shape most handlers use: acting user, action, module, reference, description, status.\<close>

definition audit ::
  "ident \<Rightarrow> string \<Rightarrow> string \<Rightarrow> ident option \<Rightarrow> jsv option \<Rightarrow> string \<Rightarrow> instant \<Rightarrow> db \<Rightarrow> db"
where
  "audit uid action mdl ref desc st now =
     logAction \<lparr>ld_userId = Some uid, ld_userName = None, ld_role = None, ld_action = action,
       ld_module = mdl, ld_description = desc, ld_referenceId = ref, ld_status = st\<rparr> now"

text \<open>
  A property of a structured description: \<open>JSON.stringify\<close> omits undefined and keeps null.
\<close>

fun json_str :: "string \<Rightarrow> string field \<Rightarrow> (string \<times> jsv) list" where
  "json_str key Undefined = []"
| "json_str key Null = [(key, JNull)]"
| "json_str key (Value s) = [(key, JStr s)]"

fun json_num :: "string \<Rightarrow> num field \<Rightarrow> (string \<times> jsv) list" where
  "json_num key Undefined = []"
| "json_num key Null = [(key, JNull)]"
| "json_num key (Value x) = [(key, JNum x)]"

section \<open>Paged listings\<close>

text \<open>
  \<open>Promise.all([count({ where }), findMany({ where, skip, take, orderBy: { createdAt: 'desc' } })])\<close>
  with the meta block of the response. Rows with the same creation instant keep table order.
\<close>

record page_meta =
  pm_page :: nat
  pm_limit :: nat
  pm_total :: nat
  pm_totalPages :: nat

definition newest_first :: "('a \<Rightarrow> instant) \<Rightarrow> 'a list \<Rightarrow> 'a list" where
  "newest_first tm rows = sort_key (\<lambda>r. - tm r) rows"

definition find_page ::
  "nat \<Rightarrow> nat \<Rightarrow> ('a \<Rightarrow> bool) \<Rightarrow> ('a \<Rightarrow> instant) \<Rightarrow> 'a list \<Rightarrow> 'a list \<times> page_meta"
where
  "find_page page limit p tm rows =
     (page_slice page limit (newest_first tm (filter p rows)),
      \<lparr>pm_page = page, pm_limit = limit, pm_total = count_where p rows,
       pm_totalPages = total_pages (count_where p rows) limit\<rparr>)"

lemma set_newest_first [simp]: "set (newest_first tm rows) = set rows"
  by (simp add: newest_first_def)

lemma length_newest_first [simp]: "length (newest_first tm rows) = length rows"
  by (simp add: newest_first_def)

lemma find_page_rows: "r \<in> set (fst (find_page page limit p tm rows)) \<Longrightarrow> r \<in> set rows \<and> p r"
  using set_page_slice [of page limit "newest_first tm (filter p rows)"]
  by (auto simp: find_page_def)

lemma find_page_all:
  "0 < limit \<Longrightarrow>
     concat (map (\<lambda>n. fst (find_page n limit p tm rows))
        [1..<Suc (pm_totalPages (snd (find_page k limit p tm rows)))])
     = newest_first tm (filter p rows)"
  using concat_all_pages [of limit "newest_first tm (filter p rows)"]
  by (simp add: find_page_def count_where_def)

text \<open>A user as the responses include it: identifier, name and role.\<close>

definition user_ref :: "db \<Rightarrow> ident option \<Rightarrow> (ident \<times> string \<times> role) option" where
  "user_ref d oid = (case oid of None \<Rightarrow> None
     | Some i \<Rightarrow> map_option (\<lambda>u. (u_id u, u_name u, u_role u)) (find_user d i))"

text \<open>An uploaded file, as multer describes it.\<close>

record upload_file =
  uf_originalname :: string
  uf_filename :: string
  uf_path :: string
  uf_mimetype :: string
  uf_size :: nat

section \<open>Claims\<close>

lemma find_tx_claim:
  assumes "\<And>t. tx_id (f t) = tx_id t"
  shows "find_tx (fst (claim i g f d)) j =
    (if j = i then map_option (\<lambda>t. if g t then f t else t) (find_tx d i) else find_tx d j)"
proof -
  have "find_first (\<lambda>t. tx_id t = j) (update_many (\<lambda>t. tx_id t = i \<and> g t) f ts) =
    (if j = i then map_option (\<lambda>t. if g t then f t else t) (find_first (\<lambda>t. tx_id t = i) ts)
     else find_first (\<lambda>t. tx_id t = j) ts)" for ts
    using assms by (induction ts) (auto simp: find_first_def update_many_def)
  then show ?thesis by (simp add: claim_def find_tx_def Let_def)
qed

definition tx_ids_distinct :: "db \<Rightarrow> bool" where
  "tx_ids_distinct d \<longleftrightarrow> distinct (map tx_id (transactions d))"

lemma count_id:
  "distinct (map tx_id ts) \<Longrightarrow>
     count_where (\<lambda>t. tx_id t = i \<and> g t) ts =
       (case find_first (\<lambda>t. tx_id t = i) ts of None \<Rightarrow> 0 | Some t \<Rightarrow> if g t then 1 else 0)"
proof (induction ts)
  case (Cons t ts)
  show ?case
  proof (cases "tx_id t = i")
    case True
    with Cons.prems have "\<forall>r \<in> set ts. tx_id r \<noteq> i" by (metis distinct.simps(2) image_eqI list.set_map list.simps(9))
    then have "count_where (\<lambda>t. tx_id t = i \<and> g t) ts = 0"
      by (auto simp: count_where_0_iff)
    with True show ?thesis by (simp add: find_first_def)
  next
    case False
    with Cons show ?thesis by (simp add: find_first_def)
  qed
qed (simp add: find_first_def)

text \<open>A claim reports 1 exactly when the row exists and passes the guard.\<close>

lemma claim_count:
  "tx_ids_distinct d \<Longrightarrow>
     snd (claim i g f d) = (case find_tx d i of None \<Rightarrow> 0 | Some t \<Rightarrow> if g t then 1 else 0)"
  by (simp add: claim_def Let_def find_tx_def tx_ids_distinct_def count_id)

lemma claim_success:
  assumes "tx_ids_distinct d" "snd (claim i g f d) = 1"
  obtains t where "find_tx d i = Some t" "g t"
proof -
  have "(case find_tx d i of None \<Rightarrow> 0 | Some t \<Rightarrow> if g t then 1 else 0) = (1::nat)"
    using claim_count [OF assms(1), of i g f] assms(2) by simp
  with that show ?thesis by (cases "find_tx d i") (auto split: if_splits)
qed

lemma claim_ids: "(\<And>t. tx_id (f t) = tx_id t) \<Longrightarrow> tx_ids_distinct (fst (claim i g f d)) = tx_ids_distinct d"
  by (simp add: tx_ids_distinct_def claim_def Let_def map_update_many)

lemma claim_map_ids:
  "(\<And>t. tx_id (f t) = tx_id t) \<Longrightarrow>
     map tx_id (transactions (fst (claim i g f d))) = map tx_id (transactions d)"
  by (simp add: claim_def Let_def map_update_many)

lemma claim_frame [simp]:
  "users (fst (claim i g f d)) = users d"
  "userWarehouseAccess (fst (claim i g f d)) = userWarehouseAccess d"
  "statusHistories (fst (claim i g f d)) = statusHistories d"
  "weighbridgeRecords (fst (claim i g f d)) = weighbridgeRecords d"
  "warehouseProcesses (fst (claim i g f d)) = warehouseProcesses d"
  "qcVehicleChecks (fst (claim i g f d)) = qcVehicleChecks d"
  "incomingMaterialChecks (fst (claim i g f d)) = incomingMaterialChecks d"
  "attachments (fst (claim i g f d)) = attachments d"
  "fraudChecks (fst (claim i g f d)) = fraudChecks d"
  "activityLogs (fst (claim i g f d)) = activityLogs d"
  "corrections (fst (claim i g f d)) = corrections d"
  "nextId (fst (claim i g f d)) = nextId d"
  by (simp_all add: claim_def Let_def)

lemma find_tx_SomeD: "find_tx d i = Some t \<Longrightarrow> t \<in> set (transactions d) \<and> tx_id t = i"
  using find_first_SomeD unfolding find_tx_def by fastforce

lemma find_tx_cong: "transactions d' = transactions d \<Longrightarrow> find_tx d' i = find_tx d i"
  by (simp add: find_tx_def)

section \<open>What the shared calls leave alone\<close>

text \<open>The part of the database the workflow depends on: everything but the log and the counter.\<close>

definition same_data :: "db \<Rightarrow> db \<Rightarrow> bool" where
  "same_data d d' \<longleftrightarrow> nextId d \<le> nextId d' \<and>
     d'\<lparr>nextId := 0, activityLogs := []\<rparr> = d\<lparr>nextId := 0, activityLogs := []\<rparr>"

lemma same_data_refl [simp]: "same_data d d"
  by (simp add: same_data_def)

lemma same_data_trans: "same_data d1 d2 \<Longrightarrow> same_data d2 d3 \<Longrightarrow> same_data d1 d3"
  by (simp add: same_data_def)

lemma same_data_audit [simp]: "same_data d (audit uid a m r ds st now d)"
  by (simp add: same_data_def audit_def logAction_def Let_def)

lemma logAction_frame [simp]:
  "users (logAction x now d) = users d"
  "userWarehouseAccess (logAction x now d) = userWarehouseAccess d"
  "transactions (logAction x now d) = transactions d"
  "statusHistories (logAction x now d) = statusHistories d"
  "weighbridgeRecords (logAction x now d) = weighbridgeRecords d"
  "warehouseProcesses (logAction x now d) = warehouseProcesses d"
  "qcVehicleChecks (logAction x now d) = qcVehicleChecks d"
  "incomingMaterialChecks (logAction x now d) = incomingMaterialChecks d"
  "attachments (logAction x now d) = attachments d"
  "fraudChecks (logAction x now d) = fraudChecks d"
  "corrections (logAction x now d) = corrections d"
  "nextId (logAction x now d) = Suc (nextId d)"
  by (simp_all add: logAction_def Let_def)

lemma audit_frame [simp]:
  "users (audit u a m r ds st now d) = users d"
  "userWarehouseAccess (audit u a m r ds st now d) = userWarehouseAccess d"
  "transactions (audit u a m r ds st now d) = transactions d"
  "statusHistories (audit u a m r ds st now d) = statusHistories d"
  "weighbridgeRecords (audit u a m r ds st now d) = weighbridgeRecords d"
  "warehouseProcesses (audit u a m r ds st now d) = warehouseProcesses d"
  "qcVehicleChecks (audit u a m r ds st now d) = qcVehicleChecks d"
  "incomingMaterialChecks (audit u a m r ds st now d) = incomingMaterialChecks d"
  "attachments (audit u a m r ds st now d) = attachments d"
  "fraudChecks (audit u a m r ds st now d) = fraudChecks d"
  "corrections (audit u a m r ds st now d) = corrections d"
  "nextId (audit u a m r ds st now d) = Suc (nextId d)"
  by (simp_all add: audit_def)

lemma find_tx_audit [simp]: "find_tx (audit u a m r ds st now d) i = find_tx d i"
  by (simp add: find_tx_def)

lemma add_history_frame [simp]:
  "find_tx (add_history i old new u n now d) j = find_tx d j"
  "users (add_history i old new u n now d) = users d"
  "userWarehouseAccess (add_history i old new u n now d) = userWarehouseAccess d"
  "weighbridgeRecords (add_history i old new u n now d) = weighbridgeRecords d"
  "warehouseProcesses (add_history i old new u n now d) = warehouseProcesses d"
  "qcVehicleChecks (add_history i old new u n now d) = qcVehicleChecks d"
  "incomingMaterialChecks (add_history i old new u n now d) = incomingMaterialChecks d"
  "attachments (add_history i old new u n now d) = attachments d"
  "fraudChecks (add_history i old new u n now d) = fraudChecks d"
  "activityLogs (add_history i old new u n now d) = activityLogs d"
  "corrections (add_history i old new u n now d) = corrections d"
  "transactions (add_history i old new u n now d) = transactions d"
  "nextId (add_history i old new u n now d) = Suc (nextId d)"
  by (simp_all add: add_history_def find_tx_def)

end
