(* ===== verification/Gms_Workflow.thy ===== *)
theory Gms_Workflow
  imports Gms_Store
begin

text \<open>
  The workflow state machine (common/state-machine/workflow-state-machine.ts): the table of
  allowed status transitions, the test and the assertion every status-changing handler calls.
\<close>

section \<open>The transition table\<close>

fun VALID_STATUS_TRANSITIONS :: "transaction_status \<Rightarrow> transaction_status list" where
  "VALID_STATUS_TRANSITIONS REGISTERED = [WEIGH_IN_DONE, QC_VEHICLE_PENDING, CANCELLED]"
| "VALID_STATUS_TRANSITIONS WEIGH_IN_DONE = [QC_VEHICLE_PENDING, CANCELLED]"
| "VALID_STATUS_TRANSITIONS QC_VEHICLE_PENDING =
     [QC_VEHICLE_IN_PROGRESS, QC_VEHICLE_PASSED, QC_VEHICLE_REJECTED, CANCELLED]"
| "VALID_STATUS_TRANSITIONS QC_VEHICLE_IN_PROGRESS =
     [QC_VEHICLE_PASSED, QC_VEHICLE_REJECTED, CANCELLED]"
| "VALID_STATUS_TRANSITIONS QC_VEHICLE_PASSED = [WAREHOUSE_IN_PROGRESS, CANCELLED]"
| "VALID_STATUS_TRANSITIONS QC_VEHICLE_REJECTED = [WEIGH_OUT_DONE, CANCELLED]"
| "VALID_STATUS_TRANSITIONS WAREHOUSE_IN_PROGRESS =
     [INCOMING_CHECK_PENDING, WAREHOUSE_DONE, CANCELLED]"
| "VALID_STATUS_TRANSITIONS WAREHOUSE_DONE = [WEIGH_OUT_DONE, CANCELLED]"
| "VALID_STATUS_TRANSITIONS INCOMING_CHECK_PENDING =
     [INCOMING_CHECK_IN_PROGRESS, INCOMING_CHECK_PASSED, INCOMING_CHECK_REJECTED, CANCELLED]"
| "VALID_STATUS_TRANSITIONS INCOMING_CHECK_IN_PROGRESS =
     [INCOMING_CHECK_PASSED, INCOMING_CHECK_REJECTED, CANCELLED]"
| "VALID_STATUS_TRANSITIONS INCOMING_CHECK_PASSED = [WEIGH_OUT_DONE, CANCELLED]"
| "VALID_STATUS_TRANSITIONS INCOMING_CHECK_REJECTED = [WEIGH_OUT_DONE, CANCELLED]"
| "VALID_STATUS_TRANSITIONS WEIGH_OUT_DONE = [COMPLETED, CANCELLED]"
| "VALID_STATUS_TRANSITIONS COMPLETED = []"
| "VALID_STATUS_TRANSITIONS CANCELLED = []"

definition isValidStatusTransition :: "transaction_status \<Rightarrow> transaction_status \<Rightarrow> bool" where
  "isValidStatusTransition fromStatus toStatus =
     (if fromStatus = toStatus then True
      else toStatus \<in> set (VALID_STATUS_TRANSITIONS fromStatus))"

text \<open>The assertion: \<^term>\<open>None\<close> when it returns, the exception otherwise.\<close>

definition assertValidStatusTransition ::
  "transaction_status \<Rightarrow> transaction_status \<Rightarrow> 'r error option"
where
  "assertValidStatusTransition fromStatus toStatus =
     (if fromStatus = CANCELLED \<or> fromStatus = COMPLETED then Some (FinalStatus fromStatus)
      else if \<not> isValidStatusTransition fromStatus toStatus
        then Some (InvalidTransition fromStatus toStatus)
      else None)"

text \<open>How a status reads in a message: the enum member is its own name.\<close>

fun status_name :: "transaction_status \<Rightarrow> string" where
  "status_name REGISTERED = ''REGISTERED''"
| "status_name WEIGH_IN_DONE = ''WEIGH_IN_DONE''"
| "status_name QC_VEHICLE_PENDING = ''QC_VEHICLE_PENDING''"
| "status_name QC_VEHICLE_IN_PROGRESS = ''QC_VEHICLE_IN_PROGRESS''"
| "status_name QC_VEHICLE_PASSED = ''QC_VEHICLE_PASSED''"
| "status_name QC_VEHICLE_REJECTED = ''QC_VEHICLE_REJECTED''"
| "status_name WAREHOUSE_IN_PROGRESS = ''WAREHOUSE_IN_PROGRESS''"
| "status_name WAREHOUSE_DONE = ''WAREHOUSE_DONE''"
| "status_name INCOMING_CHECK_PENDING = ''INCOMING_CHECK_PENDING''"
| "status_name INCOMING_CHECK_IN_PROGRESS = ''INCOMING_CHECK_IN_PROGRESS''"
| "status_name INCOMING_CHECK_PASSED = ''INCOMING_CHECK_PASSED''"
| "status_name INCOMING_CHECK_REJECTED = ''INCOMING_CHECK_REJECTED''"
| "status_name WEIGH_OUT_DONE = ''WEIGH_OUT_DONE''"
| "status_name COMPLETED = ''COMPLETED''"
| "status_name CANCELLED = ''CANCELLED''"

section \<open>Final statuses\<close>

definition final_status :: "transaction_status \<Rightarrow> bool" where
  "final_status s \<longleftrightarrow> s = COMPLETED \<or> s = CANCELLED"

lemma final_status_simps [simp]:
  "final_status COMPLETED" "final_status CANCELLED"
  "\<not> final_status REGISTERED" "\<not> final_status WEIGH_IN_DONE"
  "\<not> final_status QC_VEHICLE_PENDING" "\<not> final_status QC_VEHICLE_IN_PROGRESS"
  "\<not> final_status QC_VEHICLE_PASSED" "\<not> final_status QC_VEHICLE_REJECTED"
  "\<not> final_status WAREHOUSE_IN_PROGRESS" "\<not> final_status WAREHOUSE_DONE"
  "\<not> final_status INCOMING_CHECK_PENDING" "\<not> final_status INCOMING_CHECK_IN_PROGRESS"
  "\<not> final_status INCOMING_CHECK_PASSED" "\<not> final_status INCOMING_CHECK_REJECTED"
  "\<not> final_status WEIGH_OUT_DONE"
  by (simp_all add: final_status_def)

lemma assert_None_iff:
  "assertValidStatusTransition s s' = None \<longleftrightarrow> \<not> final_status s \<and> isValidStatusTransition s s'"
  by (auto simp: assertValidStatusTransition_def final_status_def)

lemma assert_Some_http:
  "assertValidStatusTransition s s' = Some e \<Longrightarrow> http_status e = 400"
  by (auto simp: assertValidStatusTransition_def split: if_splits)

lemma cancel_valid_iff:
  "assertValidStatusTransition s CANCELLED = None \<longleftrightarrow> \<not> final_status s"
  unfolding assert_None_iff by (cases s) (simp_all add: isValidStatusTransition_def)

lemma complete_valid_iff:
  "assertValidStatusTransition s COMPLETED = None \<longleftrightarrow> s = WEIGH_OUT_DONE"
  unfolding assert_None_iff by (cases s) (simp_all add: isValidStatusTransition_def)

section \<open>Progress through the workflow\<close>

text \<open>A position that every proper transition increases, so no run of transitions is endless.\<close>

fun workflow_rank :: "transaction_status \<Rightarrow> nat" where
  "workflow_rank REGISTERED = 0"
| "workflow_rank WEIGH_IN_DONE = 1"
| "workflow_rank QC_VEHICLE_PENDING = 2"
| "workflow_rank QC_VEHICLE_IN_PROGRESS = 3"
| "workflow_rank QC_VEHICLE_PASSED = 4"
| "workflow_rank QC_VEHICLE_REJECTED = 4"
| "workflow_rank WAREHOUSE_IN_PROGRESS = 5"
| "workflow_rank WAREHOUSE_DONE = 6"
| "workflow_rank INCOMING_CHECK_PENDING = 6"
| "workflow_rank INCOMING_CHECK_IN_PROGRESS = 7"
| "workflow_rank INCOMING_CHECK_PASSED = 8"
| "workflow_rank INCOMING_CHECK_REJECTED = 8"
| "workflow_rank WEIGH_OUT_DONE = 9"
| "workflow_rank COMPLETED = 10"
| "workflow_rank CANCELLED = 10"

lemma valid_transition_rank:
  "isValidStatusTransition s s' \<Longrightarrow> s \<noteq> s' \<Longrightarrow> workflow_rank s < workflow_rank s'"
  by (cases s) (auto simp: isValidStatusTransition_def)

text \<open>A run: each status a proper valid transition away from the one before.\<close>

fun workflow_run :: "transaction_status \<Rightarrow> transaction_status list \<Rightarrow> bool" where
  "workflow_run s [] = True"
| "workflow_run s (s' # ss) =
     (s \<noteq> s' \<and> \<not> final_status s \<and> isValidStatusTransition s s' \<and> workflow_run s' ss)"

lemma workflow_run_rank:
  "workflow_run s ss \<Longrightarrow> workflow_rank s + length ss \<le> workflow_rank (last (s # ss))"
proof (induction ss arbitrary: s)
  case (Cons s' ss)
  then have "workflow_rank s < workflow_rank s'"
    by (auto dest: valid_transition_rank)
  with Cons.IH [of s'] Cons.prems show ?case by simp
qed simp

lemma workflow_rank_le: "workflow_rank s \<le> 10"
  by (cases s) simp_all

text \<open>
  C40. The workflow always ends: a run of valid status changes, from any status, has at most ten
  steps, and a status from which no valid change leads on is COMPLETED or CANCELLED.
\<close>
theorem workflow_terminates:
  "(workflow_run s ss \<longrightarrow> length ss \<le> 10)
   \<and> ((\<forall>s'. s' \<noteq> s \<longrightarrow> assertValidStatusTransition s s' \<noteq> (None :: unit error option)) \<longrightarrow> final_status s)"
proof
  show "workflow_run s ss \<longrightarrow> length ss \<le> 10"
    using workflow_run_rank [of s ss] workflow_rank_le [of "last (s # ss)"] by linarith
  show "(\<forall>s'. s' \<noteq> s \<longrightarrow> assertValidStatusTransition s s' \<noteq> (None :: unit error option)) \<longrightarrow> final_status s"
  proof
    assume stuck: "\<forall>s'. s' \<noteq> s \<longrightarrow> assertValidStatusTransition s s' \<noteq> (None :: unit error option)"
    show "final_status s"
      using stuck [rule_format, of CANCELLED] cancel_valid_iff [of s, where ?'a = unit]
      by (cases "s = CANCELLED") auto
  qed
qed

theorem workflow_terminates_witness:
  "workflow_run REGISTERED
     [QC_VEHICLE_PENDING, QC_VEHICLE_PASSED, WAREHOUSE_IN_PROGRESS, WAREHOUSE_DONE,
      WEIGH_OUT_DONE, COMPLETED]
   \<and> length [QC_VEHICLE_PENDING, QC_VEHICLE_PASSED, WAREHOUSE_IN_PROGRESS, WAREHOUSE_DONE,
      WEIGH_OUT_DONE, COMPLETED] \<le> 10"
proof -
  have "workflow_run REGISTERED
     [QC_VEHICLE_PENDING, QC_VEHICLE_PASSED, WAREHOUSE_IN_PROGRESS, WAREHOUSE_DONE,
      WEIGH_OUT_DONE, COMPLETED]"
    by (simp add: isValidStatusTransition_def)
  then show ?thesis using workflow_terminates by blast
qed

text \<open>A run that finishes the transaction, by the shortest way through the warehouse.\<close>

fun finishing_run :: "transaction_status \<Rightarrow> transaction_status list" where
  "finishing_run REGISTERED =
     [QC_VEHICLE_PENDING, QC_VEHICLE_PASSED, WAREHOUSE_IN_PROGRESS, WAREHOUSE_DONE, WEIGH_OUT_DONE, COMPLETED]"
| "finishing_run WEIGH_IN_DONE =
     [QC_VEHICLE_PENDING, QC_VEHICLE_PASSED, WAREHOUSE_IN_PROGRESS, WAREHOUSE_DONE, WEIGH_OUT_DONE, COMPLETED]"
| "finishing_run QC_VEHICLE_PENDING =
     [QC_VEHICLE_PASSED, WAREHOUSE_IN_PROGRESS, WAREHOUSE_DONE, WEIGH_OUT_DONE, COMPLETED]"
| "finishing_run QC_VEHICLE_IN_PROGRESS =
     [QC_VEHICLE_PASSED, WAREHOUSE_IN_PROGRESS, WAREHOUSE_DONE, WEIGH_OUT_DONE, COMPLETED]"
| "finishing_run QC_VEHICLE_PASSED = [WAREHOUSE_IN_PROGRESS, WAREHOUSE_DONE, WEIGH_OUT_DONE, COMPLETED]"
| "finishing_run WAREHOUSE_IN_PROGRESS = [WAREHOUSE_DONE, WEIGH_OUT_DONE, COMPLETED]"
| "finishing_run INCOMING_CHECK_PENDING = [INCOMING_CHECK_PASSED, WEIGH_OUT_DONE, COMPLETED]"
| "finishing_run INCOMING_CHECK_IN_PROGRESS = [INCOMING_CHECK_PASSED, WEIGH_OUT_DONE, COMPLETED]"
| "finishing_run WEIGH_OUT_DONE = [COMPLETED]"
| "finishing_run COMPLETED = []"
| "finishing_run CANCELLED = []"
| "finishing_run _ = [WEIGH_OUT_DONE, COMPLETED]"

lemma finishing_run_valid:
  "\<not> final_status s \<Longrightarrow> workflow_run s (finishing_run s) \<and> last (s # finishing_run s) = COMPLETED"
  by (cases s) (simp_all add: isValidStatusTransition_def)

text \<open>
  A transaction can always be finished: from every status that is not final a run of valid
  changes leads to COMPLETED, and CANCELLED is one valid change away.
\<close>
lemma workflow_can_finish:
  "final_status s \<or>
   ((\<exists>ss. workflow_run s ss \<and> last (s # ss) = COMPLETED) \<and>
    assertValidStatusTransition s CANCELLED = (None :: unit error option))"
  using finishing_run_valid [of s] cancel_valid_iff [of s, where ?'a = unit] by blast

end
