(* ===== verification/Gms_Truck.thy ===== *)
theory Gms_Truck
  imports Gms_Workflow
begin

text \<open>
  The abstract specification: one truck on its way through the plant. A truck is what the
  workflow depends on for one transaction: its status, revision and process type, how many
  current detail records of each kind it has, and its status history. The step relation has one
  rule per handler that changes a transaction. The invariant says how status, records and
  history agree. The handlers of the services refine these steps (the other theories), and
  \<open>truck_of\<close> is the abstraction function.
\<close>

section \<open>Reachable states and invariants\<close>

inductive reach :: "('s \<Rightarrow> bool) \<Rightarrow> ('s \<Rightarrow> 's \<Rightarrow> bool) \<Rightarrow> 's \<Rightarrow> bool" for start step where
  reach_start: "start s \<Longrightarrow> reach start step s"
| reach_step: "reach start step s \<Longrightarrow> step s s' \<Longrightarrow> reach start step s'"

text \<open>Interface: an invariant holds at the start and is kept by every step.\<close>

locale invariant_system =
  fixes start :: "'s \<Rightarrow> bool" and step :: "'s \<Rightarrow> 's \<Rightarrow> bool" and inv :: "'s \<Rightarrow> bool"
  assumes inv_start: "start s \<Longrightarrow> inv s"
    and inv_step: "inv s \<Longrightarrow> step s s' \<Longrightarrow> inv s'"
begin

lemma reach_inv: "reach start step s \<Longrightarrow> inv s"
  by (induction rule: reach.induct) (auto intro: inv_start inv_step)

lemma steps_inv: "step\<^sup>*\<^sup>* s s' \<Longrightarrow> inv s \<Longrightarrow> inv s'"
  by (induction rule: rtranclp_induct) (auto intro: inv_step)

end

section \<open>Trucks\<close>

record truck =
  tk_process :: process_type
  tk_status :: transaction_status
  tk_revision :: nat
  tk_voided :: bool
  tk_in :: nat
  tk_out :: nat
  tk_vehicle :: nat
  tk_warehouse :: nat
  tk_open :: nat
  tk_incoming :: nat
  tk_history :: "(transaction_status option \<times> transaction_status) list"

definition bump :: "truck \<Rightarrow> truck" where
  "bump k = k\<lparr>tk_revision := Suc (tk_revision k)\<rparr>"

definition move :: "transaction_status \<Rightarrow> truck \<Rightarrow> truck" where
  "move s k = (bump k)\<lparr>tk_status := s, tk_history := tk_history k @ [(Some (tk_status k), s)]\<rparr>"

fun weigh_out_from :: "process_type \<Rightarrow> transaction_status list" where
  "weigh_out_from GBJ = [WAREHOUSE_DONE, QC_VEHICLE_REJECTED]"
| "weigh_out_from _ =
     [INCOMING_CHECK_PASSED, INCOMING_CHECK_REJECTED, QC_VEHICLE_REJECTED, WAREHOUSE_DONE]"

fun after_warehouse :: "process_type \<Rightarrow> transaction_status" where
  "after_warehouse GBJ = WAREHOUSE_DONE"
| "after_warehouse _ = INCOMING_CHECK_PENDING"

fun reopen_targets :: "process_type \<Rightarrow> transaction_status list" where
  "reopen_targets GBJ = [REGISTERED, QC_VEHICLE_PENDING, QC_VEHICLE_PASSED]"
| "reopen_targets _ = [REGISTERED, QC_VEHICLE_PENDING, QC_VEHICLE_PASSED, INCOMING_CHECK_PENDING]"

lemma in_weigh_out_from:
  "s \<in> set (weigh_out_from p) \<longleftrightarrow> s = WAREHOUSE_DONE \<or> s = QC_VEHICLE_REJECTED \<or>
     p \<noteq> GBJ \<and> (s = INCOMING_CHECK_PASSED \<or> s = INCOMING_CHECK_REJECTED)"
  by (cases p) auto

lemma after_warehouse_eq:
  "after_warehouse p = (if p = GBJ then WAREHOUSE_DONE else INCOMING_CHECK_PENDING)"
  by (cases p) auto

lemma in_reopen_targets:
  "s \<in> set (reopen_targets p) \<longleftrightarrow> s = REGISTERED \<or> s = QC_VEHICLE_PENDING \<or> s = QC_VEHICLE_PASSED \<or>
     p \<noteq> GBJ \<and> s = INCOMING_CHECK_PENDING"
  by (cases p) auto

lemmas target_sets = in_weigh_out_from after_warehouse_eq in_reopen_targets

text \<open>Which current records a reopening leaves: those of the stages before its target.\<close>

definition reset_for :: "transaction_status \<Rightarrow> truck \<Rightarrow> truck" where
  "reset_for s k = k\<lparr>
     tk_out := 0,
     tk_in := (if s = REGISTERED then 0 else tk_in k),
     tk_vehicle := (if s = REGISTERED \<or> s = QC_VEHICLE_PENDING then 0 else tk_vehicle k),
     tk_warehouse := (if s = INCOMING_CHECK_PENDING then tk_warehouse k else 0),
     tk_open := (if s = INCOMING_CHECK_PENDING then tk_open k else 0),
     tk_incoming := 0\<rparr>"

inductive truck_step :: "truck \<Rightarrow> truck \<Rightarrow> bool" where
  weigh_in: "tk_status k = REGISTERED \<Longrightarrow> tk_in k = 0 \<Longrightarrow>
     truck_step k ((move QC_VEHICLE_PENDING k)\<lparr>tk_in := Suc (tk_in k)\<rparr>)"
| start_vehicle_qc: "tk_status k = QC_VEHICLE_PENDING \<Longrightarrow>
     truck_step k (move QC_VEHICLE_IN_PROGRESS k)"
| vehicle_result: "tk_status k \<in> {QC_VEHICLE_PENDING, QC_VEHICLE_IN_PROGRESS} \<Longrightarrow> tk_vehicle k = 0 \<Longrightarrow>
     s \<in> {QC_VEHICLE_PASSED, QC_VEHICLE_REJECTED} \<Longrightarrow>
     truck_step k ((move s k)\<lparr>tk_vehicle := Suc (tk_vehicle k)\<rparr>)"
| start_warehouse: "tk_status k = QC_VEHICLE_PASSED \<Longrightarrow>
     truck_step k ((move WAREHOUSE_IN_PROGRESS k)
       \<lparr>tk_warehouse := Suc (tk_warehouse k), tk_open := Suc (tk_open k)\<rparr>)"
| complete_open: "tk_status k = WAREHOUSE_IN_PROGRESS \<Longrightarrow> 0 < tk_open k \<Longrightarrow>
     truck_step k ((move (after_warehouse (tk_process k)) k)\<lparr>tk_open := tk_open k - 1\<rparr>)"
| complete_fallback: "tk_status k = WAREHOUSE_IN_PROGRESS \<Longrightarrow> tk_open k = 0 \<Longrightarrow>
     truck_step k ((move (after_warehouse (tk_process k)) k)\<lparr>tk_warehouse := Suc (tk_warehouse k)\<rparr>)"
| analysis: "tk_status k = WAREHOUSE_IN_PROGRESS \<Longrightarrow> tk_process k = GBB \<Longrightarrow> truck_step k (bump k)"
| start_incoming_qc: "tk_status k = INCOMING_CHECK_PENDING \<Longrightarrow>
     truck_step k (move INCOMING_CHECK_IN_PROGRESS k)"
| incoming_result: "tk_status k \<in> {INCOMING_CHECK_PENDING, INCOMING_CHECK_IN_PROGRESS} \<Longrightarrow>
     tk_process k \<noteq> GBJ \<Longrightarrow> tk_incoming k = 0 \<Longrightarrow> s \<in> {INCOMING_CHECK_PASSED, INCOMING_CHECK_REJECTED} \<Longrightarrow>
     truck_step k ((move s k)\<lparr>tk_incoming := Suc (tk_incoming k)\<rparr>)"
| warehouse_incoming_result: "tk_status k = INCOMING_CHECK_PENDING \<Longrightarrow> tk_process k \<noteq> GBJ \<Longrightarrow>
     s \<in> {INCOMING_CHECK_PASSED, INCOMING_CHECK_REJECTED} \<Longrightarrow>
     truck_step k ((move s k)\<lparr>tk_incoming := Suc (tk_incoming k)\<rparr>)"
| weigh_out: "tk_status k \<in> set (weigh_out_from (tk_process k)) \<Longrightarrow> tk_out k = 0 \<Longrightarrow>
     truck_step k ((move WEIGH_OUT_DONE k)\<lparr>tk_out := Suc (tk_out k)\<rparr>)"
| check_out: "tk_status k = WEIGH_OUT_DONE \<Longrightarrow> truck_step k (move COMPLETED k)"
| cancel: "\<not> final_status (tk_status k) \<Longrightarrow> truck_step k (move CANCELLED k)"
| void: "tk_status k \<noteq> COMPLETED \<Longrightarrow> \<not> tk_voided k \<Longrightarrow>
     truck_step k ((if tk_status k = CANCELLED then bump k else move CANCELLED k)\<lparr>tk_voided := True\<rparr>)"
| correct: "final_status (tk_status k) \<Longrightarrow> n \<le> tk_open k \<Longrightarrow> truck_step k ((bump k)\<lparr>tk_open := n\<rparr>)"
| reopen: "final_status (tk_status k) \<Longrightarrow> \<not> tk_voided k \<Longrightarrow> s \<in> set (reopen_targets (tk_process k)) \<Longrightarrow>
     truck_step k (reset_for s (move s k))"

inductive_cases truck_stepE: "truck_step k k'"

section \<open>The invariant\<close>

text \<open>A link of the history: a valid proper change of a live transaction, or a reopening.\<close>

definition history_link :: "process_type \<Rightarrow> transaction_status \<Rightarrow> transaction_status \<Rightarrow> bool" where
  "history_link p s s' \<longleftrightarrow>
     s \<noteq> s' \<and> (\<not> final_status s \<and> isValidStatusTransition s s' \<or> final_status s \<and> s' \<in> set (reopen_targets p))"

fun linked :: "process_type \<Rightarrow> transaction_status \<Rightarrow> (transaction_status option \<times> transaction_status) list \<Rightarrow> transaction_status \<Rightarrow> bool" where
  "linked p s [] s' = (s = s')"
| "linked p s ((old, new) # h) s' = (old = Some s \<and> history_link p s new \<and> linked p new h s')"

definition history_ok :: "process_type \<Rightarrow> (transaction_status option \<times> transaction_status) list \<Rightarrow> transaction_status \<Rightarrow> bool" where
  "history_ok p h s \<longleftrightarrow> (\<exists>h'. h = (None, REGISTERED) # h' \<and> linked p REGISTERED h' s)"

lemma linked_snoc: "linked p s h s' \<Longrightarrow> history_link p s' s'' \<Longrightarrow> linked p s (h @ [(Some s', s'')]) s''"
  by (induction p s h s' rule: linked.induct) auto

lemma history_ok_snoc:
  "history_ok p h s \<Longrightarrow> history_link p s s' \<Longrightarrow> history_ok p (h @ [(Some s, s')]) s'"
  by (auto simp: history_ok_def linked_snoc)

text \<open>
  Records of a later stage than the status do not exist: a current record is only there when the
  status has reached the stage that creates it. While a truck is in the warehouse it has exactly
  one current process record, and that record is open.
\<close>

definition stage_ok :: "truck \<Rightarrow> bool" where
  "stage_ok k \<longleftrightarrow>
     (let n = workflow_rank (tk_status k)
      in (n < 2 \<longrightarrow> tk_in k = 0) \<and> (n < 4 \<longrightarrow> tk_vehicle k = 0) \<and> (n < 5 \<longrightarrow> tk_warehouse k = 0) \<and>
         (n < 8 \<longrightarrow> tk_incoming k = 0) \<and> (n < 9 \<longrightarrow> tk_out k = 0) \<and>
         (tk_status k = WAREHOUSE_IN_PROGRESS \<longrightarrow> tk_open k = 1 \<and> tk_warehouse k = 1))"

definition one_current :: "truck \<Rightarrow> bool" where
  "one_current k \<longleftrightarrow> tk_in k \<le> 1 \<and> tk_out k \<le> 1 \<and> tk_vehicle k \<le> 1 \<and> tk_warehouse k \<le> 1 \<and>
     tk_incoming k \<le> 1 \<and> tk_open k \<le> tk_warehouse k"

text \<open>Which statuses a process type can be in: GBJ has no incoming check, the others no bare
  WAREHOUSE_DONE, and no handler ever sets WEIGH_IN_DONE.\<close>

definition status_fits :: "process_type \<Rightarrow> transaction_status \<Rightarrow> bool" where
  "status_fits p s \<longleftrightarrow> s \<noteq> WEIGH_IN_DONE \<and>
     (if p = GBJ
      then s \<notin> {INCOMING_CHECK_PENDING, INCOMING_CHECK_IN_PROGRESS, INCOMING_CHECK_PASSED, INCOMING_CHECK_REJECTED}
      else s \<noteq> WAREHOUSE_DONE)"

definition truck_ok :: "truck \<Rightarrow> bool" where
  "truck_ok k \<longleftrightarrow> one_current k \<and> stage_ok k \<and> status_fits (tk_process k) (tk_status k) \<and>
     history_ok (tk_process k) (tk_history k) (tk_status k) \<and> 1 \<le> tk_revision k \<and>
     (tk_voided k \<longrightarrow> tk_status k = CANCELLED)"

definition new_truck :: "process_type \<Rightarrow> truck" where
  "new_truck p = \<lparr>tk_process = p, tk_status = REGISTERED, tk_revision = 1, tk_voided = False,
     tk_in = 0, tk_out = 0, tk_vehicle = 0, tk_warehouse = 0, tk_open = 0, tk_incoming = 0,
     tk_history = [(None, REGISTERED)]\<rparr>"

lemma new_truck_ok: "truck_ok (new_truck p)"
  by (auto simp: truck_ok_def new_truck_def one_current_def stage_ok_def status_fits_def history_ok_def)

lemma move_simps [simp]:
  "tk_process (move s k) = tk_process k" "tk_status (move s k) = s"
  "tk_revision (move s k) = Suc (tk_revision k)" "tk_voided (move s k) = tk_voided k"
  "tk_in (move s k) = tk_in k" "tk_out (move s k) = tk_out k" "tk_vehicle (move s k) = tk_vehicle k"
  "tk_warehouse (move s k) = tk_warehouse k" "tk_open (move s k) = tk_open k"
  "tk_incoming (move s k) = tk_incoming k"
  "tk_history (move s k) = tk_history k @ [(Some (tk_status k), s)]"
  by (simp_all add: move_def bump_def)

lemma bump_simps [simp]:
  "tk_process (bump k) = tk_process k" "tk_status (bump k) = tk_status k"
  "tk_revision (bump k) = Suc (tk_revision k)" "tk_voided (bump k) = tk_voided k"
  "tk_in (bump k) = tk_in k" "tk_out (bump k) = tk_out k" "tk_vehicle (bump k) = tk_vehicle k"
  "tk_warehouse (bump k) = tk_warehouse k" "tk_open (bump k) = tk_open k"
  "tk_incoming (bump k) = tk_incoming k" "tk_history (bump k) = tk_history k"
  by (simp_all add: bump_def)

lemma reset_simps [simp]:
  "tk_process (reset_for s k) = tk_process k" "tk_status (reset_for s k) = tk_status k"
  "tk_revision (reset_for s k) = tk_revision k" "tk_voided (reset_for s k) = tk_voided k"
  "tk_history (reset_for s k) = tk_history k"
  by (simp_all add: reset_for_def)

subsection \<open>Every step keeps it\<close>

lemma step_process: "truck_step k k' \<Longrightarrow> tk_process k' = tk_process k"
  by (induction rule: truck_step.induct) simp_all

lemma step_revision: "truck_step k k' \<Longrightarrow> tk_revision k' = Suc (tk_revision k)"
  by (induction rule: truck_step.induct) simp_all

lemma step_link:
  "truck_step k k' \<Longrightarrow>
     tk_history k' = tk_history k \<and> tk_status k' = tk_status k \<or>
     tk_history k' = tk_history k @ [(Some (tk_status k), tk_status k')] \<and>
       history_link (tk_process k) (tk_status k) (tk_status k')"
proof (induction rule: truck_step.induct)
  case (reopen k s)
  then show ?case by (auto simp: history_link_def target_sets)
next
  case (cancel k)
  then show ?case by (cases "tk_status k") (auto simp: history_link_def isValidStatusTransition_def)
next
  case (void k)
  then show ?case by (cases "tk_status k") (auto simp: history_link_def isValidStatusTransition_def)
qed (auto simp: history_link_def isValidStatusTransition_def target_sets)

lemma step_history:
  "truck_step k k' \<Longrightarrow> history_ok (tk_process k) (tk_history k) (tk_status k) \<Longrightarrow>
     history_ok (tk_process k') (tk_history k') (tk_status k')"
  using step_link [of k k'] step_process [of k k'] history_ok_snoc by metis

lemma step_one_current:
  "truck_step k k' \<Longrightarrow> stage_ok k \<Longrightarrow> one_current k \<Longrightarrow> one_current k'"
  by (induction rule: truck_step.induct) (auto simp: one_current_def stage_ok_def reset_for_def)

lemma step_status_fits:
  "truck_step k k' \<Longrightarrow> status_fits (tk_process k) (tk_status k) \<Longrightarrow> status_fits (tk_process k') (tk_status k')"
  by (induction rule: truck_step.induct) (auto simp: status_fits_def target_sets)

lemma step_stage: "truck_step k k' \<Longrightarrow> stage_ok k \<Longrightarrow> one_current k \<Longrightarrow> stage_ok k'"
proof (induction rule: truck_step.induct)
  case (correct k n)
  then show ?case by (auto simp: stage_ok_def final_status_def)
qed (auto simp: stage_ok_def reset_for_def target_sets one_current_def split: if_splits)

lemma step_voided:
  "truck_step k k' \<Longrightarrow> (tk_voided k \<longrightarrow> tk_status k = CANCELLED) \<Longrightarrow>
     (tk_voided k' \<longrightarrow> tk_status k' = CANCELLED)"
  by (induction rule: truck_step.induct) (auto simp: target_sets)

lemma step_truck_ok: "truck_ok k \<Longrightarrow> truck_step k k' \<Longrightarrow> truck_ok k'"
  unfolding truck_ok_def
  using step_one_current step_stage step_status_fits step_history step_revision step_voided by fastforce

interpretation trk: invariant_system "\<lambda>k. \<exists>p. k = new_truck p" truck_step truck_ok
  by unfold_locales (auto intro: new_truck_ok step_truck_ok)

end
