(* ===== verification/Gms_Calendar.thy ===== *)
theory Gms_Calendar
  imports Gms_Prelude
begin

text \<open>
  Calendar dates and the plant day: leap years and month lengths as
  dashboard/utils/dashboard-date-range.util.ts defines them, the date of a day number and back
  (what \<open>Date.prototype.toISOString\<close> and the Date constructor compute, for days from 1970 on),
  and \<open>getPlantDay\<close> of common/utils/plant-day.util.ts.
\<close>

section \<open>Years and months\<close>

definition isLeapYear :: "nat \<Rightarrow> bool" where
  "isLeapYear year \<longleftrightarrow> (year mod 4 = 0 \<and> year mod 100 \<noteq> 0) \<or> year mod 400 = 0"

definition getDaysInMonth :: "nat \<Rightarrow> nat \<Rightarrow> nat" where
  "getDaysInMonth year month =
     (if month \<in> {1, 3, 5, 7, 8, 10, 12} then 31
      else if month \<in> {4, 6, 9, 11} then 30
      else if month = 2 then (if isLeapYear year then 29 else 28)
      else 0)"

definition year_days :: "nat \<Rightarrow> nat" where
  "year_days y = (if isLeapYear y then 366 else 365)"

lemma year_days_pos [simp]: "0 < year_days y"
  by (simp add: year_days_def)

section \<open>Day numbers and dates\<close>

function year_of :: "nat \<Rightarrow> nat \<Rightarrow> nat \<times> nat" where
  "year_of y n = (if n < year_days y then (y, n) else year_of (Suc y) (n - year_days y))"
  by pat_completeness auto
termination
proof (relation "measure snd")
  fix y n :: nat
  assume "\<not> n < year_days y"
  moreover have "0 < year_days y" by (rule year_days_pos)
  ultimately have "n - year_days y < n" by linarith
  then show "((Suc y, n - year_days y), y, n) \<in> measure snd" by simp
qed simp

function month_of :: "nat \<Rightarrow> nat \<Rightarrow> nat \<Rightarrow> nat \<times> nat" where
  "month_of y m n =
     (if 12 \<le> m \<or> n < getDaysInMonth y m then (m, n)
      else month_of y (Suc m) (n - getDaysInMonth y m))"
  by pat_completeness auto
termination
  by (relation "measure (\<lambda>(y, m, n). 12 - m)") auto

declare year_of.simps [simp del] month_of.simps [simp del]

text \<open>Years and months from 1, days of the month from 1; day 0 is 1970-01-01.\<close>

definition date_of_day :: "nat \<Rightarrow> nat \<times> nat \<times> nat" where
  "date_of_day n = (case year_of 1970 n of (y, r) \<Rightarrow> case month_of y 1 r of (m, d) \<Rightarrow> (y, m, Suc d))"

definition day_of_date :: "nat \<Rightarrow> nat \<Rightarrow> nat \<Rightarrow> nat" where
  "day_of_date y m d =
     sum_list (map year_days [1970..<y]) + sum_list (map (getDaysInMonth y) [1..<m]) + (d - 1)"

lemma upt_sum_Suc:
  fixes f :: "nat \<Rightarrow> nat"
  assumes "Suc a \<le> b"
  shows "f a + sum_list (map f [Suc a..<b]) = sum_list (map f [a..<b])"
  using assms by (simp add: upt_conv_Cons)

lemma year_of_sound:
  "year_of y n = (y', r) \<Longrightarrow> y \<le> y' \<and> n = sum_list (map year_days [y..<y']) + r \<and> r < year_days y'"
proof (induction y n rule: year_of.induct)
  case (1 y n)
  show ?case
  proof (cases "n < year_days y")
    case True
    with 1 show ?thesis by (auto simp: year_of.simps [of y n])
  next
    case False
    with 1 have *: "Suc y \<le> y' \<and> n - year_days y = sum_list (map year_days [Suc y..<y']) + r \<and> r < year_days y'"
      by (simp add: year_of.simps [of y n])
    moreover have "year_days y + sum_list (map year_days [Suc y..<y']) = sum_list (map year_days [y..<y'])"
      using * by (intro upt_sum_Suc) simp
    ultimately show ?thesis using False by linarith
  qed
qed

lemma month_of_sound:
  "month_of y m n = (m', r) \<Longrightarrow> m \<le> m' \<and> n = sum_list (map (getDaysInMonth y) [m..<m']) + r"
proof (induction y m n rule: month_of.induct)
  case (1 y m n)
  show ?case
  proof (cases "12 \<le> m \<or> n < getDaysInMonth y m")
    case True
    with 1 show ?thesis by (auto simp: month_of.simps [of y m n])
  next
    case False
    with 1 have *: "Suc m \<le> m' \<and> n - getDaysInMonth y m = sum_list (map (getDaysInMonth y) [Suc m..<m']) + r"
      by (simp add: month_of.simps [of y m n])
    moreover have "getDaysInMonth y m + sum_list (map (getDaysInMonth y) [Suc m..<m'])
        = sum_list (map (getDaysInMonth y) [m..<m'])"
      using * by (intro upt_sum_Suc) simp
    ultimately show ?thesis using False by linarith
  qed
qed

lemma day_of_date_of_day: "date_of_day n = (y, m, d) \<Longrightarrow> day_of_date y m d = n"
  unfolding date_of_day_def day_of_date_def
  by (auto split: prod.splits dest!: year_of_sound month_of_sound)

lemma date_of_day_inject: "date_of_day n = date_of_day k \<Longrightarrow> n = k"
  by (metis day_of_date_of_day prod_cases3)

section \<open>Digits\<close>

definition digit_char :: "nat \<Rightarrow> char" where
  "digit_char d = char_of (48 + d mod 10)"

fun decimal :: "nat \<Rightarrow> string" where
  "decimal n = (if n < 10 then [digit_char n] else decimal (n div 10) @ [digit_char n])"

declare decimal.simps [simp del]

text \<open>\<open>String.prototype.padStart(w, '0')\<close>.\<close>

definition padStart0 :: "nat \<Rightarrow> string \<Rightarrow> string" where
  "padStart0 w s = replicate (w - length s) (CHR ''0'') @ s"

section \<open>The plant day\<close>

definition WIB_OFFSET_MS :: int where
  "WIB_OFFSET_MS = 7 * 60 * 60 * 1000"

definition DAY_MS :: int where
  "DAY_MS = 24 * 60 * 60 * 1000"

record plant_day =
  dateKey :: string
  pd_start :: int
  pd_end :: int

text \<open>
  \<open>localDate\<close> is the date part of the ISO string of \<open>now + 7h\<close>; \<open>start\<close> parses it back as a UTC
  midnight and subtracts the offset.
\<close>

definition getPlantDay :: "int \<Rightarrow> plant_day" where
  "getPlantDay now =
     (case date_of_day (nat ((now + WIB_OFFSET_MS) div DAY_MS)) of
        (y, m, d) \<Rightarrow>
          let start = int (day_of_date y m d) * DAY_MS - WIB_OFFSET_MS
          in \<lparr>dateKey = padStart0 4 (decimal y) @ padStart0 2 (decimal m) @ padStart0 2 (decimal d),
              pd_start = start, pd_end = start + DAY_MS\<rparr>)"

lemma plant_day_start:
  "0 \<le> now \<Longrightarrow> pd_start (getPlantDay now) = ((now + WIB_OFFSET_MS) div DAY_MS) * DAY_MS - WIB_OFFSET_MS"
  by (auto simp: getPlantDay_def Let_def DAY_MS_def WIB_OFFSET_MS_def split: prod.splits
      dest!: day_of_date_of_day)

lemma plant_day_end: "pd_end (getPlantDay now) = pd_start (getPlantDay now) + DAY_MS"
  by (simp add: getPlantDay_def Let_def split: prod.splits)

lemma plant_day_facts:
  assumes "0 \<le> now" and "0 \<le> now'"
  shows "pd_start (getPlantDay now) \<le> now \<and> now < pd_end (getPlantDay now)
    \<and> (pd_start (getPlantDay now) + WIB_OFFSET_MS) mod DAY_MS = 0
    \<and> (pd_start (getPlantDay now) \<le> now' \<and> now' < pd_end (getPlantDay now)
        \<longleftrightarrow> getPlantDay now' = getPlantDay now)"
proof -
  have in_day: "pd_start (getPlantDay t) \<le> t \<and> t < pd_end (getPlantDay t)" if "0 \<le> t" for t
  proof -
    have "(t + WIB_OFFSET_MS) div DAY_MS * DAY_MS + (t + WIB_OFFSET_MS) mod DAY_MS = t + WIB_OFFSET_MS"
      by (rule div_mult_mod_eq)
    then have "(t + WIB_OFFSET_MS) div DAY_MS * DAY_MS = t + WIB_OFFSET_MS - (t + WIB_OFFSET_MS) mod DAY_MS"
      by linarith
    moreover have "0 \<le> (t + WIB_OFFSET_MS) mod DAY_MS" "(t + WIB_OFFSET_MS) mod DAY_MS < DAY_MS"
      by (simp_all add: DAY_MS_def)
    ultimately show ?thesis using that by (simp add: plant_day_start plant_day_end)
  qed
  have same: "getPlantDay now' = getPlantDay now"
    if "pd_start (getPlantDay now) \<le> now'" "now' < pd_end (getPlantDay now)"
  proof -
    let ?q = "(now + WIB_OFFSET_MS) div DAY_MS"
    have "(now' + WIB_OFFSET_MS) div DAY_MS = ?q"
      using that assms(1) by (intro int_div_pos_eq [where r = "now' + WIB_OFFSET_MS - ?q * DAY_MS"])
        (simp_all add: plant_day_start plant_day_end algebra_simps)
    then show ?thesis by (simp add: getPlantDay_def)
  qed
  have "pd_start (getPlantDay now) \<le> now' \<and> now' < pd_end (getPlantDay now)
      \<longleftrightarrow> getPlantDay now' = getPlantDay now"
    using in_day [OF assms(2)] same by metis
  moreover have "(pd_start (getPlantDay now) + WIB_OFFSET_MS) mod DAY_MS = 0"
    using assms(1) by (simp add: plant_day_start)
  ultimately show ?thesis using in_day [OF assms(1)] by blast
qed

text \<open>
  The plant day of an instant is the 24-hour window from local midnight (UTC+7) that contains
  it, and two instants have the same window exactly when neither lies outside the other's.
\<close>
lemma plant_day_window:
  assumes "0 \<le> now" and "0 \<le> now'"
  shows "pd_start (getPlantDay now) \<le> now \<and> now < pd_end (getPlantDay now)
    \<and> (pd_start (getPlantDay now) + WIB_OFFSET_MS) mod DAY_MS = 0
    \<and> (pd_start (getPlantDay now) \<le> now' \<and> now' < pd_end (getPlantDay now)
        \<longleftrightarrow> getPlantDay now' = getPlantDay now)"
  using plant_day_facts [OF assms] .

lemma plant_day_window_applied:
  "pd_start (getPlantDay 61200000) \<le> 61200000 \<and> 61200000 < pd_end (getPlantDay 61200000)"
proof -
  have "(0::int) \<le> 61200000" by simp
  then show ?thesis using plant_day_window [of 61200000 61200000] by blast
qed

section \<open>End of a local day\<close>

text \<open>
  \<open>end.setHours(23, 59, 59, 999)\<close> in the server's time zone, whose offset from UTC is \<open>tz\<close>.
\<close>

definition end_of_day :: "int \<Rightarrow> int \<Rightarrow> int" where
  "end_of_day tz t = ((t + tz) div DAY_MS) * DAY_MS + DAY_MS - 1 - tz"

definition within_dates :: "int \<Rightarrow> int option \<Rightarrow> int option \<Rightarrow> int \<Rightarrow> bool" where
  "within_dates tz startDate endDate t \<longleftrightarrow>
     (case startDate of None \<Rightarrow> True | Some s \<Rightarrow> s \<le> t) \<and>
     (case endDate of None \<Rightarrow> True | Some e \<Rightarrow> t \<le> end_of_day tz e)"

end
