(* ===== verification/Gms_Numbering.thy ===== *)
theory Gms_Numbering
  imports Gms_Store Gms_Calendar
begin

text \<open>
  Transaction numbers (\<open>GateService.generateTransactionNumber\<close>): the prefix GMS, the date of the
  plant day and the running number within that day. The invariant says that the n-th transaction
  of a day has number n; it makes the numbers unique, so the unique index never rejects a check-in.
\<close>

section \<open>Decimal strings are injective\<close>

definition digits_value :: "string \<Rightarrow> nat" where
  "digits_value s = foldl (\<lambda>a c. 10 * a + (of_char c - 48)) 0 s"

lemma of_digit_char [simp]: "(of_char (digit_char n) :: nat) - 48 = n mod 10"
  by (simp add: digit_char_def)

lemma value_decimal: "digits_value (decimal n) = n"
proof (induction n rule: decimal.induct)
  case (1 n)
  then show ?case
    by (cases "n < 10") (simp_all add: digits_value_def decimal.simps [of n])
qed

lemma value_padStart0: "digits_value (padStart0 w s) = digits_value s"
proof -
  have "foldl (\<lambda>a c. 10 * a + (of_char c - 48)) 0 (replicate k (CHR ''0'')) = (0::nat)" for k
    by (induction k) simp_all
  then show ?thesis by (simp add: digits_value_def padStart0_def)
qed

lemma padded_inject: "padStart0 w (decimal n) = padStart0 w' (decimal k) \<Longrightarrow> n = k"
  by (metis value_decimal value_padStart0)

lemma decimal_no_dash: "CHR ''-'' \<notin> set (decimal n)"
proof (induction n rule: decimal.induct)
  case (1 n)
  have "digit_char n \<noteq> CHR ''-''"
  proof
    assume "digit_char n = CHR ''-''"
    then have "(of_char (digit_char n) :: nat) = of_char (CHR ''-'')" by simp
    then have "48 + n mod 10 = 45" by (simp add: digit_char_def)
    then show False by simp
  qed
  then show ?case using 1 by (cases "n < 10") (simp_all add: decimal.simps [of n])
qed

lemma padded_no_dash: "CHR ''-'' \<notin> set (padStart0 w (decimal n))"
  using decimal_no_dash by (auto simp: padStart0_def)

lemma length_decimal2: "n < 100 \<Longrightarrow> length (padStart0 2 (decimal n)) = 2"
  by (auto simp: padStart0_def decimal.simps [of n] decimal.simps [of "n div 10"])

section \<open>Dates have two-digit months and days\<close>

lemma year_days_sum: "year_days y = sum_list (map (getDaysInMonth y) [1..<12]) + 31"
  by (simp add: year_days_def getDaysInMonth_def upt_rec)

lemma month_of_bounds:
  "month_of y m n = (m', r) \<Longrightarrow> m \<le> 12 \<Longrightarrow> m' \<le> 12 \<and> (m' < 12 \<longrightarrow> r < getDaysInMonth y m')"
proof (induction y m n rule: month_of.induct)
  case (1 y m n)
  then show ?case
    by (cases "12 \<le> m \<or> n < getDaysInMonth y m") (auto simp: month_of.simps [of y m n])
qed

lemma date_bounds:
  assumes "date_of_day n = (y, m, d)"
  shows "m \<le> 12 \<and> d \<le> 31"
proof -
  obtain r d' where y: "year_of 1970 n = (y, r)" and m: "month_of y 1 r = (m, d')" and d: "d = Suc d'"
    using assms by (auto simp: date_of_day_def split: prod.splits)
  have "m \<le> 12" "m < 12 \<longrightarrow> d' < getDaysInMonth y m" using month_of_bounds [OF m] by simp_all
  moreover have "d' < 31" if "m = 12"
    using year_of_sound [OF y] month_of_sound [OF m] that year_days_sum [of y] by auto
  ultimately show ?thesis using d
    by (cases "m = 12") (auto simp: getDaysInMonth_def split: if_splits)
qed

lemma dateKey_inject:
  assumes "dateKey (getPlantDay a) = dateKey (getPlantDay b)"
  shows "getPlantDay a = getPlantDay b"
proof -
  obtain y m d where a: "date_of_day (nat ((a + WIB_OFFSET_MS) div DAY_MS)) = (y, m, d)" by (metis prod_cases3)
  obtain y' m' d' where b: "date_of_day (nat ((b + WIB_OFFSET_MS) div DAY_MS)) = (y', m', d')" by (metis prod_cases3)
  have l: "length (padStart0 2 (decimal m)) = 2" "length (padStart0 2 (decimal d)) = 2"
    "length (padStart0 2 (decimal m')) = 2" "length (padStart0 2 (decimal d')) = 2"
    using date_bounds [OF a] date_bounds [OF b] by (simp_all add: length_decimal2)
  have "padStart0 4 (decimal y) @ padStart0 2 (decimal m) @ padStart0 2 (decimal d)
      = padStart0 4 (decimal y') @ padStart0 2 (decimal m') @ padStart0 2 (decimal d')"
    using assms by (simp add: getPlantDay_def a b Let_def)
  then have "padStart0 4 (decimal y) = padStart0 4 (decimal y') \<and> padStart0 2 (decimal m) = padStart0 2 (decimal m')
      \<and> padStart0 2 (decimal d) = padStart0 2 (decimal d')"
    using l append_eq_append_conv [of "padStart0 4 (decimal y)" "padStart0 4 (decimal y')"
        "padStart0 2 (decimal m) @ padStart0 2 (decimal d)" "padStart0 2 (decimal m') @ padStart0 2 (decimal d')"]
    by simp
  then have "y = y' \<and> m = m' \<and> d = d'" using padded_inject by blast
  then show ?thesis by (simp add: getPlantDay_def a b)
qed

lemma dateKey_no_dash: "CHR ''-'' \<notin> set (dateKey (getPlantDay a))"
  using padded_no_dash by (auto simp: getPlantDay_def Let_def split: prod.splits)

section \<open>The numbers\<close>

definition transaction_number :: "instant \<Rightarrow> nat \<Rightarrow> string" where
  "transaction_number now k = ''GMS-'' @ dateKey (getPlantDay now) @ ''-'' @ padStart0 4 (decimal k)"

definition generateTransactionNumber :: "db \<Rightarrow> instant \<Rightarrow> string" where
  "generateTransactionNumber d now =
     (let day = getPlantDay now;
          prefix = ''GMS-'' @ dateKey day @ ''-'';
          n = count_where (\<lambda>t. pd_start day \<le> createdAt t \<and> createdAt t < pd_end day) (transactions d);
          sequence = n + 1
      in prefix @ padStart0 4 (decimal sequence))"

lemma split_at_dash:
  "a @ CHR ''-'' # b = a' @ CHR ''-'' # b' \<Longrightarrow> CHR ''-'' \<notin> set a \<Longrightarrow> CHR ''-'' \<notin> set a' \<Longrightarrow> a = a' \<and> b = b'"
proof (induction a arbitrary: a')
  case Nil
  then show ?case by (cases a') auto
next
  case (Cons c a)
  then show ?case by (cases a') auto
qed

lemma transaction_number_inject:
  assumes "transaction_number t k = transaction_number t' k'"
  shows "getPlantDay t = getPlantDay t' \<and> k = k'"
proof -
  have "dateKey (getPlantDay t) @ CHR ''-'' # padStart0 4 (decimal k)
      = dateKey (getPlantDay t') @ CHR ''-'' # padStart0 4 (decimal k')"
    using assms by (simp add: transaction_number_def)
  from split_at_dash [OF this dateKey_no_dash dateKey_no_dash]
  show ?thesis using dateKey_inject padded_inject by blast
qed

section \<open>The numbering invariant\<close>

text \<open>Number and creation instant of every transaction, in the order of registration.\<close>

definition tx_numbers :: "db \<Rightarrow> (string \<times> instant) list" where
  "tx_numbers d = map (\<lambda>t. (transactionNumber t, createdAt t)) (transactions d)"

definition day_count :: "(string \<times> instant) list \<Rightarrow> instant \<Rightarrow> nat" where
  "day_count ps now = count_where (\<lambda>p. pd_start (getPlantDay now) \<le> snd p \<and> snd p < pd_end (getPlantDay now)) ps"

definition numbers_ok :: "(string \<times> instant) list \<Rightarrow> bool" where
  "numbers_ok ps \<longleftrightarrow> (\<forall>n < length ps. 0 \<le> snd (ps ! n) \<and>
     fst (ps ! n) = transaction_number (snd (ps ! n)) (Suc (day_count (take n ps) (snd (ps ! n)))))"

lemma generate_is_next: "generateTransactionNumber d now = transaction_number now (Suc (day_count (tx_numbers d) now))"
  by (simp add: generateTransactionNumber_def Let_def transaction_number_def day_count_def tx_numbers_def
      count_where_def filter_map comp_def)

lemma numbers_ok_Nil [simp]: "numbers_ok []"
  by (simp add: numbers_ok_def)

lemma numbers_ok_snoc:
  assumes "numbers_ok ps" "0 \<le> now" "number = transaction_number now (Suc (day_count ps now))"
  shows "numbers_ok (ps @ [(number, now)])"
  using assms by (auto simp: numbers_ok_def nth_append less_Suc_eq)

lemma number_earlier:
  assumes "numbers_ok ps" "m < n" "n < length ps"
  shows "fst (ps ! m) \<noteq> fst (ps ! n)"
proof
  assume eq: "fst (ps ! m) = fst (ps ! n)"
  have m: "m < length ps" using assms(2,3) by simp
  have num: "fst (ps ! j) = transaction_number (snd (ps ! j)) (Suc (day_count (take j ps) (snd (ps ! j))))"
    "0 \<le> snd (ps ! j)" if "j < length ps" for j
    using assms(1) that by (simp_all add: numbers_ok_def)
  have day: "getPlantDay (snd (ps ! m)) = getPlantDay (snd (ps ! n))"
      and cnt: "day_count (take m ps) (snd (ps ! m)) = day_count (take n ps) (snd (ps ! n))"
    using transaction_number_inject eq num(1) [OF m] num(1) [OF assms(3)] by (metis Suc_inject)+
  have "pd_start (getPlantDay (snd (ps ! m))) \<le> snd (ps ! m) \<and> snd (ps ! m) < pd_end (getPlantDay (snd (ps ! m)))"
    using plant_day_facts [OF num(2) [OF m] num(2) [OF m]] by blast
  then have "day_count (take m ps @ [ps ! m]) (snd (ps ! m)) = Suc (day_count (take m ps) (snd (ps ! m)))"
    by (simp add: day_count_def)
  moreover have "take (Suc m) (take n ps) = take m ps @ [ps ! m]"
    using assms(2) by (simp add: min_def take_Suc_conv_app_nth [OF m])
  then obtain rest where "take n ps = (take m ps @ [ps ! m]) @ rest"
    using append_take_drop_id [of "Suc m" "take n ps"] by metis
  then have "day_count (take n ps) (snd (ps ! m)) \<ge> day_count (take m ps @ [ps ! m]) (snd (ps ! m))"
    by (simp add: day_count_def)
  ultimately show False using cnt by (simp add: day_count_def day)
qed

lemma numbers_distinct: "numbers_ok ps \<Longrightarrow> distinct (map fst ps)"
  by (auto simp: distinct_conv_nth) (metis linorder_neqE_nat number_earlier)

text \<open>The next number is a new one.\<close>

lemma generate_fresh:
  assumes "numbers_ok (tx_numbers d)" "0 \<le> now"
  shows "generateTransactionNumber d now \<notin> transactionNumber ` set (transactions d)"
proof -
  have "distinct (map fst (tx_numbers d @ [(generateTransactionNumber d now, now)]))"
    by (intro numbers_distinct numbers_ok_snoc assms) (rule generate_is_next)
  then show ?thesis by (force simp: tx_numbers_def)
qed

end
