(* ===== verification/Gms_Refine.thy ===== *)
theory Gms_Refine
  imports Gms_Truck Gms_Numbering
begin

text \<open>
  From database states to trucks: the abstraction function, the invariant of the database, and
  the three kinds of database step the handlers make (a committed change of one transaction, the
  registration of a new one, a write to the audit log only). Every handler is proved to make one
  of these steps; that the steps keep the invariant is proved here, once.
\<close>

section \<open>Abstraction\<close>

definition history_of :: "db \<Rightarrow> ident \<Rightarrow> (transaction_status option \<times> transaction_status) list" where
  "history_of d i =
     map (\<lambda>h. (sh_oldStatus h, sh_newStatus h)) (filter (\<lambda>h. sh_transactionId h = i) (statusHistories d))"

definition truck_for :: "db \<Rightarrow> ident \<Rightarrow> transaction \<Rightarrow> truck" where
  "truck_for d i t = \<lparr>
     tk_process = processType t, tk_status = status t, tk_revision = revision t, tk_voided = isVoided t,
     tk_in = count_where (current_wr i IN) (weighbridgeRecords d),
     tk_out = count_where (current_wr i OUT) (weighbridgeRecords d),
     tk_vehicle = count_where (current_row i) (qcVehicleChecks d),
     tk_warehouse = count_where (current_row i) (warehouseProcesses d),
     tk_open = count_where (open_process i) (warehouseProcesses d),
     tk_incoming = count_where (current_row i) (incomingMaterialChecks d),
     tk_history = history_of d i\<rparr>"

definition truck_of :: "db \<Rightarrow> ident \<Rightarrow> truck option" where
  "truck_of d i = map_option (truck_for d i) (find_tx d i)"

section \<open>The database invariant\<close>

definition tx_refs :: "db \<Rightarrow> ident set" where
  "tx_refs d = sh_transactionId ` set (statusHistories d)
     \<union> v_transactionId ` set (weighbridgeRecords d) \<union> v_transactionId ` set (qcVehicleChecks d)
     \<union> v_transactionId ` set (warehouseProcesses d) \<union> v_transactionId ` set (incomingMaterialChecks d)"

definition refs_ok :: "db \<Rightarrow> bool" where
  "refs_ok d \<longleftrightarrow> tx_refs d \<subseteq> tx_id ` set (transactions d) \<and> (\<forall>t \<in> set (transactions d). tx_id t < nextId d)"

text \<open>The primary keys of the detail tables and the unique indexes on their revisions.\<close>

definition revs_ok :: "db \<Rightarrow> bool" where
  "revs_ok d \<longleftrightarrow>
     revisions_unique wr_key v_revision (weighbridgeRecords d) \<and>
     revisions_unique v_transactionId v_revision (qcVehicleChecks d) \<and>
     revisions_unique wp_key v_revision (warehouseProcesses d) \<and>
     revisions_unique v_transactionId v_revision (incomingMaterialChecks d) \<and>
     ids_below (nextId d) (weighbridgeRecords d) \<and> ids_below (nextId d) (qcVehicleChecks d) \<and>
     ids_below (nextId d) (warehouseProcesses d) \<and> ids_below (nextId d) (incomingMaterialChecks d)"

lemma revs_ok_same:
  assumes "revs_ok d" "nextId d \<le> nextId d'"
    and "weighbridgeRecords d' = weighbridgeRecords d" "qcVehicleChecks d' = qcVehicleChecks d"
      "warehouseProcesses d' = warehouseProcesses d" "incomingMaterialChecks d' = incomingMaterialChecks d"
  shows "revs_ok d'"
  using assms by (auto simp: revs_ok_def intro: ids_below_mono)

definition db_ok :: "db \<Rightarrow> bool" where
  "db_ok d \<longleftrightarrow> tx_ids_distinct d \<and> refs_ok d \<and> revs_ok d \<and> numbers_ok (tx_numbers d) \<and>
     (\<forall>i k. truck_of d i = Some k \<longrightarrow> truck_ok k)"

section \<open>Changes local to one transaction\<close>

definition local_change :: "('r \<Rightarrow> ident) \<Rightarrow> ident \<Rightarrow> 'r list \<Rightarrow> 'r list \<Rightarrow> bool" where
  "local_change owner i t t' \<longleftrightarrow> filter (\<lambda>r. owner r \<noteq> i) t' = filter (\<lambda>r. owner r \<noteq> i) t"

lemma local_change_refl [simp]: "local_change owner i t t"
  by (simp add: local_change_def)

lemma local_change_append [simp]:
  "owner r = i \<Longrightarrow> local_change owner i t (t @ [r])"
  by (simp add: local_change_def)

lemma local_change_update [simp]:
  assumes "\<And>r. p r \<Longrightarrow> owner r = i \<and> owner (f r) = i"
  shows "local_change owner i t (update_many p f t)"
  using assms by (induction t) (auto simp: local_change_def update_many_def)

lemma local_change_trans:
  "local_change owner i t t' \<Longrightarrow> local_change owner i t' t'' \<Longrightarrow> local_change owner i t t''"
  by (simp add: local_change_def)

lemma count_where_filter: "(\<And>r. q r \<Longrightarrow> p r) \<Longrightarrow> count_where q t = count_where q (filter p t)"
  by (induction t) auto

lemma local_change_count:
  "local_change owner i t t' \<Longrightarrow> (\<And>r. q r \<Longrightarrow> owner r \<noteq> i) \<Longrightarrow> count_where q t' = count_where q t"
  unfolding local_change_def using count_where_filter [of q "\<lambda>r. owner r \<noteq> i"] by metis

lemma local_change_filter:
  "local_change owner i t t' \<Longrightarrow> j \<noteq> i \<Longrightarrow> filter (\<lambda>r. owner r = j) t' = filter (\<lambda>r. owner r = j) t"
proof -
  assume "local_change owner i t t'" "j \<noteq> i"
  moreover have "filter (\<lambda>r. owner r = j) s = filter (\<lambda>r. owner r = j) (filter (\<lambda>r. owner r \<noteq> i) s)"
    if "j \<noteq> i" for s
    using that by (induction s) auto
  ultimately show ?thesis unfolding local_change_def by metis
qed

lemma local_change_owners:
  "local_change owner i t t' \<Longrightarrow> owner ` set t' \<subseteq> insert i (owner ` set t)"
proof -
  assume "local_change owner i t t'"
  then have "{r \<in> set t'. owner r \<noteq> i} = {r \<in> set t. owner r \<noteq> i}"
    unfolding local_change_def by (metis set_filter)
  then show ?thesis by blast
qed

text \<open>The columns no handler ever changes.\<close>

definition tx_key :: "transaction \<Rightarrow> ident \<times> string \<times> instant" where
  "tx_key t = (tx_id t, transactionNumber t, createdAt t)"

lemma tx_key_simps [simp]:
  "fst \<circ> tx_key = tx_id" "fst (tx_key t) = tx_id t"
  "snd \<circ> tx_key = (\<lambda>t. (transactionNumber t, createdAt t))"
  by (simp_all add: tx_key_def fun_eq_iff)

definition local_to :: "ident \<Rightarrow> db \<Rightarrow> db \<Rightarrow> bool" where
  "local_to i d d' \<longleftrightarrow>
     (\<forall>j. j \<noteq> i \<longrightarrow> find_tx d' j = find_tx d j) \<and>
     map tx_key (transactions d') = map tx_key (transactions d) \<and> nextId d \<le> nextId d' \<and>
     local_change sh_transactionId i (statusHistories d) (statusHistories d') \<and>
     local_change v_transactionId i (weighbridgeRecords d) (weighbridgeRecords d') \<and>
     local_change v_transactionId i (qcVehicleChecks d) (qcVehicleChecks d') \<and>
     local_change v_transactionId i (warehouseProcesses d) (warehouseProcesses d') \<and>
     local_change v_transactionId i (incomingMaterialChecks d) (incomingMaterialChecks d')"

lemma local_to_keys:
  assumes "local_to i d d'"
  shows "map tx_id (transactions d') = map tx_id (transactions d)" "tx_numbers d' = tx_numbers d"
proof -
  have "map tx_key (transactions d') = map tx_key (transactions d)" using assms by (simp add: local_to_def)
  from arg_cong [OF this, of "map fst"] arg_cong [OF this, of "map snd"]
  show "map tx_id (transactions d') = map tx_id (transactions d)" "tx_numbers d' = tx_numbers d"
    by (simp_all add: tx_numbers_def)
qed

lemma truck_of_other:
  assumes "local_to i d d'" "j \<noteq> i"
  shows "truck_of d' j = truck_of d j"
proof -
  have "truck_for d' j t = truck_for d j t" for t
    using assms unfolding local_to_def truck_for_def history_of_def
    by (auto simp: current_wr_def current_row_def open_process_def
        intro!: local_change_count [where i = i] arg_cong [where f = "map _"] local_change_filter)
  then have "truck_for d' j = truck_for d j" by (rule ext)
  with assms show ?thesis by (simp add: truck_of_def local_to_def)
qed

lemma local_to_refs:
  assumes "local_to i d d'" "find_tx d i \<noteq> None" "refs_ok d"
  shows "refs_ok d'"
proof -
  have ids: "tx_id ` set (transactions d') = tx_id ` set (transactions d)"
    using local_to_keys(1) [OF assms(1)] by (metis list.set_map)
  have "i \<in> tx_id ` set (transactions d)" using assms(2) find_tx_SomeD by fastforce
  moreover have "tx_refs d' \<subseteq> insert i (tx_refs d)"
    using assms(1) unfolding local_to_def tx_refs_def
    by (auto dest!: local_change_owners)
  ultimately have "tx_refs d' \<subseteq> tx_id ` set (transactions d')"
    using assms(3) by (auto simp: ids refs_ok_def)
  moreover have "\<forall>t \<in> set (transactions d'). tx_id t < nextId d'"
  proof
    fix t assume "t \<in> set (transactions d')"
    then have "tx_id t \<in> tx_id ` set (transactions d)" using ids by blast
    then have "tx_id t < nextId d" using assms(3) by (auto simp: refs_ok_def)
    then show "tx_id t < nextId d'" using assms(1) by (simp add: local_to_def)
  qed
  ultimately show ?thesis by (simp add: refs_ok_def)
qed

section \<open>Database steps\<close>

definition commit_step :: "ident \<Rightarrow> db \<Rightarrow> db \<Rightarrow> bool" where
  "commit_step i d d' \<longleftrightarrow> local_to i d d' \<and> (revs_ok d \<longrightarrow> revs_ok d') \<and>
     (\<exists>k k'. truck_of d i = Some k \<and> truck_of d' i = Some k' \<and> truck_step k k')"

definition register_step :: "db \<Rightarrow> db \<Rightarrow> bool" where
  "register_step d d' \<longleftrightarrow> (\<exists>t h. transactions d' = transactions d @ [t] \<and> tx_id t = nextId d \<and>
     0 \<le> createdAt t \<and> transactionNumber t = generateTransactionNumber d (createdAt t) \<and>
     status t = REGISTERED \<and> revision t = 1 \<and> \<not> isVoided t \<and>
     statusHistories d' = statusHistories d @ [h] \<and> sh_transactionId h = nextId d \<and>
     sh_oldStatus h = None \<and> sh_newStatus h = REGISTERED \<and> nextId d < nextId d' \<and>
     weighbridgeRecords d' = weighbridgeRecords d \<and> qcVehicleChecks d' = qcVehicleChecks d \<and>
     warehouseProcesses d' = warehouseProcesses d \<and> incomingMaterialChecks d' = incomingMaterialChecks d)"

text \<open>A step that leaves the workflow alone: logs, attachments, users, corrections, fraud checks.\<close>

definition untouched :: "db \<Rightarrow> db \<Rightarrow> bool" where
  "untouched d d' \<longleftrightarrow> transactions d' = transactions d \<and> statusHistories d' = statusHistories d \<and>
     weighbridgeRecords d' = weighbridgeRecords d \<and> qcVehicleChecks d' = qcVehicleChecks d \<and>
     warehouseProcesses d' = warehouseProcesses d \<and> incomingMaterialChecks d' = incomingMaterialChecks d \<and>
     nextId d \<le> nextId d'"

inductive db_step :: "db \<Rightarrow> db \<Rightarrow> bool" where
  db_commit: "commit_step i d d' \<Longrightarrow> db_step d d'"
| db_register: "register_step d d' \<Longrightarrow> db_step d d'"
| db_quiet: "untouched d d' \<Longrightarrow> db_step d d'"

lemma same_data_untouched: "same_data d d' \<Longrightarrow> untouched d d'"
  unfolding same_data_def untouched_def by (cases d, cases d') simp

lemma untouched_refl [simp]: "untouched d d"
  by (simp add: untouched_def)

lemma untouched_trans: "untouched d d1 \<Longrightarrow> untouched d1 d2 \<Longrightarrow> untouched d d2"
  by (simp add: untouched_def)

lemma untouched_views:
  assumes "untouched d d'"
  shows "find_tx d' i = find_tx d i" "truck_of d' i = truck_of d i"
  using assms
  by (simp_all add: untouched_def find_tx_def truck_of_def truck_for_def [abs_def] history_of_def)

lemmas same_data_views = untouched_views [OF same_data_untouched]

lemma quiet_ok: "untouched d d' \<Longrightarrow> db_ok d \<Longrightarrow> db_ok d'"
  using untouched_views(2) [of d d'] revs_ok_same [of d d']
  by (auto simp: untouched_def db_ok_def tx_ids_distinct_def refs_ok_def tx_refs_def tx_numbers_def
      intro: less_le_trans)

lemma commit_ok:
  assumes "commit_step i d d'" "db_ok d"
  shows "db_ok d'"
proof -
  have loc: "local_to i d d'" using assms(1) by (simp add: commit_step_def)
  obtain k k' where k: "truck_of d i = Some k" "truck_of d' i = Some k'" "truck_step k k'"
    using assms(1) by (auto simp: commit_step_def)
  have "truck_ok k" using assms(2) k(1) by (simp add: db_ok_def)
  then have ok: "truck_ok k'" using k(3) step_truck_ok by blast
  have "find_tx d i \<noteq> None" using k(1) by (auto simp: truck_of_def)
  then have "refs_ok d'" using local_to_refs loc assms(2) by (simp add: db_ok_def)
  moreover have "tx_ids_distinct d'"
    using local_to_keys(1) [OF loc] assms(2) by (simp add: db_ok_def tx_ids_distinct_def)
  moreover have "truck_ok k''" if "truck_of d' j = Some k''" for j k''
    using that ok k(2) truck_of_other [OF loc] assms(2) by (cases "j = i") (auto simp: db_ok_def)
  ultimately show ?thesis
    using assms local_to_keys(2) [OF loc] by (simp add: db_ok_def commit_step_def)
qed

lemma find_tx_append:
  "find_first p (ts @ [t]) = (case find_first p ts of Some r \<Rightarrow> Some r | None \<Rightarrow> if p t then Some t else None)"
  by (induction ts) (auto simp: find_first_def)

lemma fresh_empty:
  assumes "refs_ok d"
  shows "find_tx d (nextId d) = None"
    and "history_of d (nextId d) = []"
    and "count_where (current_wr (nextId d) ty) (weighbridgeRecords d) = 0"
    and "count_where (current_row (nextId d)) (qcVehicleChecks d) = 0"
    and "count_where (current_row (nextId d)) (warehouseProcesses d) = 0"
    and "count_where (open_process (nextId d)) (warehouseProcesses d) = 0"
    and "count_where (current_row (nextId d)) (incomingMaterialChecks d) = 0"
proof -
  have fresh: "nextId d \<notin> tx_refs d"
  proof
    assume "nextId d \<in> tx_refs d"
    then obtain t where "t \<in> set (transactions d)" "tx_id t = nextId d"
      using assms by (force simp: refs_ok_def)
    with assms show False by (auto simp: refs_ok_def)
  qed
  show "find_tx d (nextId d) = None"
    using assms by (auto simp: find_tx_def find_first_None_iff refs_ok_def)
  show "history_of d (nextId d) = []"
    using fresh by (auto simp: history_of_def tx_refs_def filter_empty_conv image_iff)
  show "count_where (current_wr (nextId d) ty) (weighbridgeRecords d) = 0"
    "count_where (current_row (nextId d)) (qcVehicleChecks d) = 0"
    "count_where (current_row (nextId d)) (warehouseProcesses d) = 0"
    "count_where (open_process (nextId d)) (warehouseProcesses d) = 0"
    "count_where (current_row (nextId d)) (incomingMaterialChecks d) = 0"
    using fresh
    by (auto simp: count_where_0_iff current_wr_def current_row_def open_process_def tx_refs_def image_iff)
qed

lemma register_trucks:
  assumes "register_step d d'" "refs_ok d"
  shows "truck_of d' j = (if j = nextId d then Some (new_truck (processType (last (transactions d')))) else truck_of d j)"
proof -
  obtain t h where r: "transactions d' = transactions d @ [t]" "tx_id t = nextId d"
      "status t = REGISTERED" "revision t = 1" "\<not> isVoided t"
      "statusHistories d' = statusHistories d @ [h]" "sh_transactionId h = nextId d"
      "sh_oldStatus h = None" "sh_newStatus h = REGISTERED"
      "weighbridgeRecords d' = weighbridgeRecords d" "qcVehicleChecks d' = qcVehicleChecks d"
      "warehouseProcesses d' = warehouseProcesses d" "incomingMaterialChecks d' = incomingMaterialChecks d"
    using assms(1) by (auto simp: register_step_def)
  note fresh = fresh_empty [OF assms(2)]
  show ?thesis
  proof (cases "j = nextId d")
    case True
    have "find_tx d' j = Some t"
      using fresh(1) by (simp add: True find_tx_def r(1,2) find_tx_append)
    then show ?thesis
      using fresh by (simp add: True truck_of_def truck_for_def new_truck_def history_of_def r)
  next
    case False
    then have "find_tx d' j = find_tx d j"
      by (simp add: find_tx_def r(1,2) find_tx_append split: option.splits)
    with False show ?thesis
      by (simp add: truck_of_def truck_for_def [abs_def] history_of_def r)
  qed
qed

lemma register_ok:
  assumes "register_step d d'" "db_ok d"
  shows "db_ok d'"
proof -
  have refs: "refs_ok d" using assms(2) by (simp add: db_ok_def)
  have "tx_ids_distinct d'"
    using assms refs by (fastforce simp: register_step_def db_ok_def tx_ids_distinct_def refs_ok_def)
  moreover have "refs_ok d'"
  proof -
    have "tx_refs d' = insert (nextId d) (tx_refs d)"
      using assms(1) by (auto simp: register_step_def tx_refs_def)
    then show ?thesis
      using assms(1) refs by (fastforce simp: register_step_def refs_ok_def)
  qed
  moreover have "revs_ok d'"
    using assms revs_ok_same [of d d'] by (auto simp: register_step_def db_ok_def)
  moreover have "numbers_ok (tx_numbers d')"
  proof -
    obtain t where t: "transactions d' = transactions d @ [t]" "0 \<le> createdAt t"
        "transactionNumber t = generateTransactionNumber d (createdAt t)"
      using assms(1) by (auto simp: register_step_def)
    have "tx_numbers d' = tx_numbers d @ [(transactionNumber t, createdAt t)]"
      by (simp add: tx_numbers_def t(1))
    then show ?thesis
      using assms(2) by (simp add: db_ok_def numbers_ok_snoc t generate_is_next)
  qed
  ultimately show ?thesis
    using register_trucks [OF assms(1) refs] new_truck_ok assms(2)
    by (auto simp: db_ok_def split: if_splits)
qed

lemma db_step_ok: "db_ok d \<Longrightarrow> db_step d d' \<Longrightarrow> db_ok d'"
  by (erule db_step.cases) (auto intro: commit_ok register_ok quiet_ok)

text \<open>A database without transactions: whatever users and logs it has.\<close>

definition initial_db :: "db \<Rightarrow> bool" where
  "initial_db d \<longleftrightarrow> transactions d = [] \<and> statusHistories d = [] \<and> weighbridgeRecords d = [] \<and>
     qcVehicleChecks d = [] \<and> warehouseProcesses d = [] \<and> incomingMaterialChecks d = []"

lemma initial_db_ok: "initial_db d \<Longrightarrow> db_ok d"
  by (auto simp: initial_db_def db_ok_def tx_ids_distinct_def refs_ok_def tx_refs_def revs_ok_def
      revisions_unique_def truck_of_def find_tx_def find_first_def tx_numbers_def)

interpretation gms: invariant_system initial_db db_step db_ok
  by unfold_locales (auto intro: initial_db_ok db_step_ok)

section \<open>Optimistic concurrency\<close>

text \<open>
  Interface: rows with a revision that every change of the row raises. Between a read and a later
  moment a row with the same revision is the same row, so a compare-and-swap on the revision
  succeeds only if the row read is still the row stored.
\<close>

locale revisioned_rows =
  fixes lookup :: "'s \<Rightarrow> 'k \<Rightarrow> 'r option" and revn :: "'r \<Rightarrow> nat"
    and good :: "'s \<Rightarrow> bool" and step :: "'s \<Rightarrow> 's \<Rightarrow> bool"
  assumes good_step: "good s \<Longrightarrow> step s s' \<Longrightarrow> good s'"
    and row_step: "good s \<Longrightarrow> step s s' \<Longrightarrow> lookup s k = Some r \<Longrightarrow>
      \<exists>r'. lookup s' k = Some r' \<and> (r' = r \<or> revn r < revn r')"
begin

lemma row_steps:
  assumes "step\<^sup>*\<^sup>* s s'" "good s" "lookup s k = Some r"
  shows "good s' \<and> (\<exists>r'. lookup s' k = Some r' \<and> (r' = r \<or> revn r < revn r'))"
  using assms(1)
proof (induction rule: rtranclp_induct)
  case base
  then show ?case using assms by simp
next
  case (step t u)
  then obtain r' where r': "good t" "lookup t k = Some r'" "r' = r \<or> revn r < revn r'" by blast
  then obtain r'' where "lookup u k = Some r''" "r'' = r' \<or> revn r' < revn r''"
    using row_step step.hyps(2) by blast
  with r' good_step step.hyps(2) show ?case by auto
qed

lemma same_revision_same_row:
  assumes "step\<^sup>*\<^sup>* s s'" "good s" "lookup s k = Some r" "lookup s' k = Some r'" "revn r' = revn r"
  shows "r' = r"
  using row_steps [OF assms(1-3)] assms(4,5) by auto

end

lemma db_step_row:
  assumes "db_ok d" "db_step d d'" "find_tx d i = Some t"
  shows "\<exists>t'. find_tx d' i = Some t' \<and> (t' = t \<or> revision t < revision t')"
  using assms(2)
proof (cases rule: db_step.cases)
  case (db_commit j)
  show ?thesis
  proof (cases "i = j")
    case True
    obtain k k' where k: "truck_of d i = Some k" "truck_of d' i = Some k'" "truck_step k k'"
      using db_commit True by (auto simp: commit_step_def)
    then have "tk_revision k = revision t" using assms(3) by (auto simp: truck_of_def truck_for_def)
    moreover obtain t' where "find_tx d' i = Some t'" "tk_revision k' = revision t'"
      using k(2) by (auto simp: truck_of_def truck_for_def)
    ultimately show ?thesis using step_revision [OF k(3)] by auto
  next
    case False
    then show ?thesis using db_commit assms(3) by (simp add: commit_step_def local_to_def)
  qed
next
  case db_register
  then show ?thesis
    using assms(3) by (auto simp: register_step_def find_tx_def find_tx_append)
next
  case db_quiet
  then show ?thesis using assms(3) untouched_views(1) by simp
qed

interpretation occ: revisioned_rows find_tx revision db_ok db_step
  by unfold_locales (auto intro: db_step_ok db_step_row)

end
