(* ===== verification/Gms_Commit.thy ===== *)
theory Gms_Commit
  imports Gms_Refine
begin

text \<open>
  The building blocks of a committed change and what each does to the truck it belongs to: the
  claim of the transaction row, the status-history row, and the detail rows. A handler's commit
  is a composition of them, so its refinement proof is a rewriting with these lemmas.
\<close>

section \<open>Frames\<close>

lemma find_tx_frame [simp]:
  "find_tx (d\<lparr>weighbridgeRecords := a\<rparr>) i = find_tx d i"
  "find_tx (d\<lparr>warehouseProcesses := b\<rparr>) i = find_tx d i"
  "find_tx (d\<lparr>qcVehicleChecks := c\<rparr>) i = find_tx d i"
  "find_tx (d\<lparr>incomingMaterialChecks := m\<rparr>) i = find_tx d i"
  "find_tx (d\<lparr>statusHistories := h\<rparr>) i = find_tx d i"
  "find_tx (d\<lparr>fraudChecks := f\<rparr>) i = find_tx d i"
  "find_tx (d\<lparr>attachments := ats\<rparr>) i = find_tx d i"
  "find_tx (d\<lparr>activityLogs := al\<rparr>) i = find_tx d i"
  "find_tx (d\<lparr>corrections := co\<rparr>) i = find_tx d i"
  "find_tx (d\<lparr>nextId := n\<rparr>) i = find_tx d i"
  by (simp_all add: find_tx_def)

lemma tx_ids_frame [simp]:
  "tx_ids_distinct (d\<lparr>weighbridgeRecords := a\<rparr>) = tx_ids_distinct d"
  "tx_ids_distinct (d\<lparr>warehouseProcesses := b\<rparr>) = tx_ids_distinct d"
  "tx_ids_distinct (d\<lparr>qcVehicleChecks := c\<rparr>) = tx_ids_distinct d"
  "tx_ids_distinct (d\<lparr>incomingMaterialChecks := m\<rparr>) = tx_ids_distinct d"
  "tx_ids_distinct (d\<lparr>statusHistories := h\<rparr>) = tx_ids_distinct d"
  "tx_ids_distinct (d\<lparr>fraudChecks := f\<rparr>) = tx_ids_distinct d"
  "tx_ids_distinct (d\<lparr>attachments := ats\<rparr>) = tx_ids_distinct d"
  "tx_ids_distinct (d\<lparr>corrections := co\<rparr>) = tx_ids_distinct d"
  "tx_ids_distinct (d\<lparr>nextId := n\<rparr>) = tx_ids_distinct d"
  by (simp_all add: tx_ids_distinct_def)

lemma tx_ids_add_history [simp]: "tx_ids_distinct (add_history i old new u n now d) = tx_ids_distinct d"
  by (simp add: tx_ids_distinct_def)

lemma tx_ids_audit [simp]: "tx_ids_distinct (audit u a m r ds st now d) = tx_ids_distinct d"
  by (simp add: tx_ids_distinct_def)

lemma same_data_idsD: "same_data d d' \<Longrightarrow> tx_ids_distinct d' = tx_ids_distinct d"
  by (drule same_data_untouched) (simp add: untouched_def tx_ids_distinct_def)

section \<open>Locality\<close>

lemma local_to_refl [simp]: "local_to i d d"
  by (simp add: local_to_def)

lemma local_to_trans: "local_to i d d1 \<Longrightarrow> local_to i d1 d2 \<Longrightarrow> local_to i d d2"
  by (simp add: local_to_def local_change_def)

lemma local_to_quiet: "same_data d d' \<Longrightarrow> local_to i d d'"
  using same_data_untouched [of d d'] same_data_views(1) [of d d'] by (simp add: local_to_def untouched_def)

lemma tx_key_id: "tx_key (f t) = tx_key t \<Longrightarrow> tx_id (f t) = tx_id t"
  by (simp add: tx_key_def)

lemma local_to_claim:
  assumes "\<And>t. tx_key (f t) = tx_key t"
  shows "local_to i d (fst (claim i g f d))"
proof -
  have "map tx_key (transactions (fst (claim i g f d))) = map tx_key (transactions d)"
    using assms by (simp add: claim_def Let_def map_update_many)
  moreover have "\<And>t. tx_id (f t) = tx_id t" using assms by (rule tx_key_id)
  ultimately show ?thesis by (simp add: local_to_def find_tx_claim)
qed

lemma local_to_history: "local_to i d (add_history i old new u n now d)"
  by (simp add: local_to_def add_history_def find_tx_def)

section \<open>Trucks after the shared calls\<close>

lemma truck_for_history [simp]:
  "truck_for (add_history i old new u n now d) i t =
     (truck_for d i t)\<lparr>tk_history := tk_history (truck_for d i t) @ [(old, new)]\<rparr>"
  by (simp add: truck_for_def history_of_def add_history_def)

lemma truck_for_claim [simp]: "truck_for (fst (claim i g f d)) = truck_for d"
  by (intro ext) (simp add: truck_for_def history_of_def)

lemma truck_for_audit [simp]: "truck_for (audit u a m r ds st now d) = truck_for d"
  by (intro ext) (simp add: truck_for_def history_of_def)

lemma truck_for_nextId [simp]: "truck_for (d\<lparr>nextId := n\<rparr>) = truck_for d"
  by (intro ext) (simp add: truck_for_def history_of_def)

lemma truck_for_fraud [simp]: "truck_for (d\<lparr>fraudChecks := f\<rparr>) = truck_for d"
  by (intro ext) (simp add: truck_for_def history_of_def)

lemma revs_ok_frame [simp]:
  "revs_ok d \<Longrightarrow> revs_ok (add_history i old new u n now d)"
  "revs_ok (fst (claim i g f d)) = revs_ok d"
  "revs_ok d \<Longrightarrow> revs_ok (audit uid a m r ds st now d)"
  "revs_ok (d\<lparr>fraudChecks := fc\<rparr>) = revs_ok d"
  by (simp_all add: revs_ok_def add_history_def ids_below_mono [OF _ le_SucI [OF order_refl]])

lemma truck_of_simps:
  "truck_of d i = Some k \<longleftrightarrow> (\<exists>t. find_tx d i = Some t \<and> k = truck_for d i t)"
  by (auto simp: truck_of_def)

section \<open>Committing\<close>

text \<open>
  What a handler's commit has to show: the change is local to its transaction, keeps the
  revisions unique, and moves the truck by one step of the specification.
\<close>

lemma commitI:
  assumes "local_to i d d'" "revs_ok d \<Longrightarrow> revs_ok d'"
    and "find_tx d i = Some t" "find_tx d' i = Some t'"
    and "truck_for d' i t' = k'" "truck_step (truck_for d i t) k'"
  shows "commit_step i d d'"
  using assms by (auto simp: commit_step_def truck_of_def)

lemma same_data_revs: "same_data d d' \<Longrightarrow> revs_ok d \<Longrightarrow> revs_ok d'"
  by (drule same_data_untouched) (simp add: untouched_def revs_ok_same)

lemma commit_step_quiet: "commit_step i d d' \<Longrightarrow> same_data d' d'' \<Longrightarrow> commit_step i d d''"
  unfolding commit_step_def
  using local_to_trans local_to_quiet same_data_revs same_data_views(2) by metis

lemma quiet_commit_step: "same_data d d' \<Longrightarrow> commit_step i d' d'' \<Longrightarrow> commit_step i d d''"
  unfolding commit_step_def
  using local_to_trans local_to_quiet same_data_revs same_data_views(2) by metis

text \<open>
  The shape of a handler's outcome, when it works with the row \<open>tx\<close> it read: a refusal changes
  nothing but the log; a success found that row still stored and committed.
\<close>

definition commits :: "transaction \<Rightarrow> ident \<Rightarrow> db \<Rightarrow> ('r, 'a) outcome \<Rightarrow> bool" where
  "commits tx i d res = (case snd res of
       Inl e \<Rightarrow> same_data d (fst res)
     | Inr a \<Rightarrow> find_tx d i = Some tx \<and> commit_step i d (fst res))"

lemma commits_simps [simp]:
  "commits tx i d (d', Inl e) = same_data d d'"
  "commits tx i d (d', Inr a) \<longleftrightarrow> find_tx d i = Some tx \<and> commit_step i d d'"
  by (simp_all add: commits_def)

lemma commits_step: "commits tx i d res \<Longrightarrow> db_step d (fst res)"
  by (cases res; cases "snd res") (auto simp: commits_def intro: db_step.intros same_data_untouched)

text \<open>The next revision the handlers compute.\<close>

definition next_wr_revision :: "ident \<Rightarrow> weighbridge_type \<Rightarrow> db \<Rightarrow> nat" where
  "next_wr_revision i ty d = next_revision (revisions_of wr_key v_revision (weighbridgeRecords d) (i, ty))"

definition next_row_revision :: "ident \<Rightarrow> 'a versioned_scheme list \<Rightarrow> nat" where
  "next_row_revision i t = next_revision (revisions_of v_transactionId v_revision t i)"

section \<open>Snapshots\<close>

text \<open>
  A handler works with a row it read earlier. The snapshot is harmless when the stored row either
  is that row or has another revision; a claim on the revision then only succeeds on the row read.
\<close>

definition snapshot_ok :: "transaction \<Rightarrow> ident \<Rightarrow> db \<Rightarrow> bool" where
  "snapshot_ok tx i d \<longleftrightarrow> (\<forall>t. find_tx d i = Some t \<longrightarrow> revision t = revision tx \<longrightarrow> t = tx)"

lemma snapshot_current: "find_tx d i = Some tx \<Longrightarrow> snapshot_ok tx i d"
  by (simp add: snapshot_ok_def)

lemma snapshot_kept:
  assumes "db_ok d" "find_tx d i = Some tx" "db_step\<^sup>*\<^sup>* d d'"
  shows "snapshot_ok tx i d'"
  unfolding snapshot_ok_def using occ.same_revision_same_row [OF assms(3,1,2)] by blast

lemma snapshot_frame: "find_tx d' i = find_tx d i \<Longrightarrow> snapshot_ok tx i d' = snapshot_ok tx i d"
  by (simp add: snapshot_ok_def)

text \<open>A claim changes nothing but the transaction row.\<close>

definition row_only :: "db \<Rightarrow> db \<Rightarrow> bool" where
  "row_only d1 d2 \<longleftrightarrow> d2\<lparr>transactions := []\<rparr> = d1\<lparr>transactions := []\<rparr>"

lemma row_only_claim: "row_only d (fst (claim i g f d))"
  by (simp add: row_only_def claim_def Let_def)

lemma row_only_tables:
  assumes "row_only d1 d2"
  shows "statusHistories d2 = statusHistories d1" "weighbridgeRecords d2 = weighbridgeRecords d1"
    "qcVehicleChecks d2 = qcVehicleChecks d1" "warehouseProcesses d2 = warehouseProcesses d1"
    "incomingMaterialChecks d2 = incomingMaterialChecks d1" "users d2 = users d1" "nextId d2 = nextId d1"
    "fraudChecks d2 = fraudChecks d1" "corrections d2 = corrections d1" "activityLogs d2 = activityLogs d1"
  using assms unfolding row_only_def by (cases d1, cases d2, simp)+

lemma row_only_views:
  assumes "row_only d1 d2"
  shows "truck_for d2 = truck_for d1" "revs_ok d2 = revs_ok d1"
    "next_wr_revision j ty d2 = next_wr_revision j ty d1"
  using row_only_tables [OF assms]
  by (simp_all add: truck_for_def [abs_def] history_of_def revs_ok_def next_wr_revision_def)

lemmas row_only = row_only_tables row_only_views

lemma claimed:
  assumes "claim i g f d1 = (d2, n)" "n = 1" "tx_ids_distinct d1" "snapshot_ok tx i d1"
    and "\<And>t. g t \<Longrightarrow> revision t = revision tx" "\<And>t. tx_key (f t) = tx_key t"
  shows "find_tx d1 i = Some tx \<and> g tx \<and> find_tx d2 i = Some (f tx) \<and> local_to i d1 d2 \<and> row_only d1 d2"
proof -
  have "snd (claim i g f d1) = 1" using assms(1,2) by simp
  then obtain t where t: "find_tx d1 i = Some t" "g t"
    using claim_success [OF assms(3)] by metis
  then have "t = tx" using assms(4,5) by (simp add: snapshot_ok_def)
  moreover have "d2 = fst (claim i g f d1)" using assms(1) by simp
  moreover have "\<And>t. tx_id (f t) = tx_id t" using assms(6) by (rule tx_key_id)
  ultimately show ?thesis
    using t assms(6) find_tx_claim [of f i g d1 i] local_to_claim [of f i d1 g] row_only_claim by simp
qed

text \<open>The usual end of a handler: run the transaction, read the row back, log, respond.\<close>

lemma commit_step_found: "commit_step i d d' \<Longrightarrow> \<exists>t. find_tx d' i = Some t"
  by (auto simp: commit_step_def truck_of_def)

lemma commits_respond:
  assumes "\<And>d'. c = Inr d' \<Longrightarrow> find_tx d i = Some tx \<and> commit_step i d d'" "\<And>d' t. same_data d' (wlog d' t)"
  shows "commits tx i d (case c of Inl e \<Rightarrow> (d, Inl e)
     | Inr d' \<Rightarrow> (case find_tx d' i of None \<Rightarrow> (d', Inl x) | Some t \<Rightarrow> (wlog d' t, Inr (view d' t))))"
proof (cases c)
  case (Inr d')
  have com: "find_tx d i = Some tx" "commit_step i d d'" using assms(1) [OF Inr] by blast+
  then show ?thesis
    using Inr commit_step_found [OF com(2)] commit_step_quiet [OF com(2) assms(2)] by auto
qed simp

lemma respond_Inr:
  assumes "(case c of Inl e \<Rightarrow> (d, Inl e)
     | Inr d' \<Rightarrow> (case find_tx d' i of None \<Rightarrow> (d', Inl x) | Some t \<Rightarrow> (wlog d' t, Inr (view d' t)))) = (d2, Inr v)"
    and "\<And>d' t. same_data d' (wlog d' t)"
  shows "\<exists>d1 t. c = Inr d1 \<and> find_tx d1 i = Some t \<and> same_data d1 d2 \<and> v = view d1 t"
  using assms by (cases c) (auto split: option.splits)

lemma commits_respond_plain:
  assumes "\<And>d'. c = Inr d' \<Longrightarrow> find_tx d i = Some tx \<and> commit_step i d d'" "\<And>d'. same_data d' (wlog d')"
  shows "commits tx i d (case c of Inl e \<Rightarrow> (d, Inl e) | Inr d' \<Rightarrow> (wlog d', Inr (view d')))"
proof (cases c)
  case (Inr d')
  have com: "find_tx d i = Some tx" "commit_step i d d'" using assms(1) [OF Inr] by blast+
  then show ?thesis using Inr commit_step_quiet [OF com(2) assms(2)] by simp
qed simp

section \<open>Detail rows\<close>

definition add_weighbridge :: "weighbridge_record \<Rightarrow> db \<Rightarrow> db" where
  "add_weighbridge r d = d\<lparr>weighbridgeRecords := weighbridgeRecords d @ [r], nextId := Suc (nextId d)\<rparr>"

definition add_vehicle_check :: "qc_vehicle_check \<Rightarrow> db \<Rightarrow> db" where
  "add_vehicle_check r d = d\<lparr>qcVehicleChecks := qcVehicleChecks d @ [r], nextId := Suc (nextId d)\<rparr>"

definition add_process :: "warehouse_process \<Rightarrow> db \<Rightarrow> db" where
  "add_process r d = d\<lparr>warehouseProcesses := warehouseProcesses d @ [r], nextId := Suc (nextId d)\<rparr>"

definition add_incoming_check :: "incoming_material_check \<Rightarrow> db \<Rightarrow> db" where
  "add_incoming_check r d =
     d\<lparr>incomingMaterialChecks := incomingMaterialChecks d @ [r], nextId := Suc (nextId d)\<rparr>"

lemmas add_row_defs = add_weighbridge_def add_vehicle_check_def add_process_def add_incoming_check_def

lemma add_row_frames [simp]:
  "find_tx (add_weighbridge w d) i = find_tx d i"
  "find_tx (add_vehicle_check v d) i = find_tx d i"
  "find_tx (add_process p d) i = find_tx d i"
  "find_tx (add_incoming_check c d) i = find_tx d i"
  "tx_ids_distinct (add_weighbridge w d) = tx_ids_distinct d"
  "tx_ids_distinct (add_vehicle_check v d) = tx_ids_distinct d"
  "tx_ids_distinct (add_process p d) = tx_ids_distinct d"
  "tx_ids_distinct (add_incoming_check c d) = tx_ids_distinct d"
  "users (add_weighbridge w d) = users d"
  "users (add_vehicle_check v d) = users d"
  "users (add_process p d) = users d"
  "users (add_incoming_check c d) = users d"
  by (simp_all add: add_row_defs)

lemma local_to_rows:
  "v_transactionId w = i \<Longrightarrow> local_to i d (add_weighbridge w d)"
  "v_transactionId v = i \<Longrightarrow> local_to i d (add_vehicle_check v d)"
  "v_transactionId p = i \<Longrightarrow> local_to i d (add_process p d)"
  "v_transactionId c = i \<Longrightarrow> local_to i d (add_incoming_check c d)"
  by (simp_all add: local_to_def add_row_defs)

text \<open>The same, backwards: what was done before is local, and so is the next call.\<close>

lemmas local_back =
  local_to_trans [OF _ local_to_history]
  local_to_trans [OF _ local_to_rows(1)] local_to_trans [OF _ local_to_rows(2)]
  local_to_trans [OF _ local_to_rows(3)] local_to_trans [OF _ local_to_rows(4)]
  local_to_trans [OF _ local_to_quiet [OF same_data_audit]]

lemma truck_for_rows [simp]:
  "v_transactionId w = i \<Longrightarrow> v_isCurrent w \<Longrightarrow> wr_type w = IN \<Longrightarrow>
     truck_for (add_weighbridge w d) i t = (truck_for d i t)\<lparr>tk_in := Suc (tk_in (truck_for d i t))\<rparr>"
  "v_transactionId w = i \<Longrightarrow> v_isCurrent w \<Longrightarrow> wr_type w = OUT \<Longrightarrow>
     truck_for (add_weighbridge w d) i t = (truck_for d i t)\<lparr>tk_out := Suc (tk_out (truck_for d i t))\<rparr>"
  "v_transactionId v = i \<Longrightarrow> v_isCurrent v \<Longrightarrow>
     truck_for (add_vehicle_check v d) i t = (truck_for d i t)\<lparr>tk_vehicle := Suc (tk_vehicle (truck_for d i t))\<rparr>"
  "v_transactionId c = i \<Longrightarrow> v_isCurrent c \<Longrightarrow>
     truck_for (add_incoming_check c d) i t = (truck_for d i t)\<lparr>tk_incoming := Suc (tk_incoming (truck_for d i t))\<rparr>"
  "v_transactionId p = i \<Longrightarrow> v_isCurrent p \<Longrightarrow>
     truck_for (add_process p d) i t = (truck_for d i t)
       \<lparr>tk_warehouse := Suc (tk_warehouse (truck_for d i t)),
        tk_open := (if wp_endAt p = None then Suc (tk_open (truck_for d i t)) else tk_open (truck_for d i t))\<rparr>"
  by (simp_all add: truck_for_def history_of_def add_row_defs current_wr_def current_row_def open_process_def)

lemma revs_ok_rows:
  "revs_ok d \<Longrightarrow> v_id w = nextId d \<Longrightarrow> v_revision w = next_wr_revision (v_transactionId w) (wr_type w) d \<Longrightarrow> revs_ok (add_weighbridge w d)"
  "revs_ok d \<Longrightarrow> v_id v = nextId d \<Longrightarrow> v_revision v = next_row_revision (v_transactionId v) (qcVehicleChecks d) \<Longrightarrow> revs_ok (add_vehicle_check v d)"
  "revs_ok d \<Longrightarrow> v_id p = nextId d \<Longrightarrow> v_revision p = next_row_revision (v_transactionId p) (warehouseProcesses d) \<Longrightarrow> revs_ok (add_process p d)"
  "revs_ok d \<Longrightarrow> v_id c = nextId d \<Longrightarrow> v_revision c = next_row_revision (v_transactionId c) (incomingMaterialChecks d) \<Longrightarrow> revs_ok (add_incoming_check c d)"
  unfolding revs_ok_def add_row_defs next_wr_revision_def next_row_revision_def
  by (simp_all add: wrt.unique_append vt.unique_append wp_unique_append wr_key_def ids_below_append
      ids_below_mono [OF _ le_SucI [OF order_refl]])

text \<open>A change of the open warehouse process.\<close>

definition update_open_process :: "ident \<Rightarrow> (warehouse_process \<Rightarrow> warehouse_process) \<Rightarrow> db \<Rightarrow> db" where
  "update_open_process i f d = d\<lparr>warehouseProcesses := update_found (open_process i) f (warehouseProcesses d)\<rparr>"

lemma update_open_process_frame [simp]:
  "find_tx (update_open_process i f d) j = find_tx d j"
  "tx_ids_distinct (update_open_process i f d) = tx_ids_distinct d"
  "users (update_open_process i f d) = users d"
  by (simp_all add: update_open_process_def)

lemma local_to_open_process:
  assumes "\<And>r. v_transactionId (f r) = v_transactionId r"
  shows "local_to i d (update_open_process i f d)"
proof -
  have "filter (\<lambda>r. v_transactionId r \<noteq> i) (update_found (open_process i) f (warehouseProcesses d))
      = filter (\<lambda>r. v_transactionId r \<noteq> i) (warehouseProcesses d)"
    by (rule filter_update_found) (auto simp: open_process_def assms)
  then show ?thesis by (simp add: local_to_def update_open_process_def local_change_def)
qed

lemma revs_ok_open_process:
  assumes "\<And>r. v_transactionId (f r) = v_transactionId r" "\<And>r. v_revision (f r) = v_revision r"
    "\<And>r. v_id (f r) = v_id r" "\<And>r. wp_processType (f r) = wp_processType r"
  shows "revs_ok (update_open_process i f d) = revs_ok d"
  using map_update_found [of "open_process i" "\<lambda>r. (wp_key r, v_revision r)" f "warehouseProcesses d"] assms
    ids_below_cong [OF map_update_found [of "open_process i" v_id f "warehouseProcesses d"]]
  by (simp add: revs_ok_def update_open_process_def revisions_unique_def wp_key_def)

lemma truck_for_open_process:
  assumes "\<And>r. v_transactionId (f r) = v_transactionId r" "\<And>r. v_isCurrent (f r) = v_isCurrent r"
  shows "truck_for (update_open_process i f d) i t = (truck_for d i t)
    \<lparr>tk_open := count_where (open_process i) (update_found (open_process i) f (warehouseProcesses d))\<rparr>"
  using assms
  by (simp add: truck_for_def history_of_def update_open_process_def count_update_found_same current_row_def)

section \<open>The commit of a handler\<close>

text \<open>
  Calls before the claim, the claim on the row that was read, calls after it: if the change of the
  truck is a step of the specification, the whole is a commit.
\<close>

lemma claim_commit:
  assumes "claim i g f d1 = (d2, n)" "n = 1" "db_ok d" "snapshot_ok tx i d"
    and "local_to i d d1" "revs_ok d \<Longrightarrow> revs_ok d1" "find_tx d1 i = find_tx d i"
      "tx_ids_distinct d1 = tx_ids_distinct d"
    and "\<And>t. g t \<Longrightarrow> revision t = revision tx" "\<And>t. tx_key (f t) = tx_key t"
    and "local_to i d2 d'" "revs_ok d2 \<Longrightarrow> revs_ok d'" "find_tx d' i = find_tx d2 i"
    and "find_tx d i = Some tx \<Longrightarrow> g tx \<Longrightarrow> row_only d1 d2 \<Longrightarrow> truck_for d' i (f tx) = k'"
    and "find_tx d i = Some tx \<Longrightarrow> g tx \<Longrightarrow> truck_step (truck_for d i tx) k'"
  shows "find_tx d i = Some tx \<and> g tx \<and> find_tx d' i = Some (f tx) \<and> row_only d1 d2 \<and> commit_step i d d'"
proof -
  have c: "find_tx d1 i = Some tx \<and> g tx \<and> find_tx d2 i = Some (f tx) \<and> local_to i d1 d2 \<and> row_only d1 d2"
    by (rule claimed [OF assms(1,2)]) (use assms(3,4,7-10) in \<open>simp_all add: db_ok_def snapshot_ok_def\<close>)
  then have "find_tx d i = Some tx" "find_tx d' i = Some (f tx)" using assms(7,13) by simp_all
  moreover have "local_to i d d'" using assms(5,11) c local_to_trans by blast
  moreover have "revs_ok d'" using assms(3,6,12) c row_only_views(2) by (auto simp: db_ok_def)
  ultimately show ?thesis using assms(14,15) c commitI by metis
qed

text \<open>A claim followed by a history row, on a row whose other columns the truck does not see.\<close>

lemma move_commit:
  assumes "claim i g f d = (d1, n)" "n = 1" "d' = add_history i (Some (status tx)) s u notes now d1"
    and "db_ok d" "snapshot_ok tx i d"
    and "\<And>t. g t \<Longrightarrow> revision t = revision tx" "\<And>t. tx_key (f t) = tx_key t"
    and "status (f tx) = s" "revision (f tx) = Suc (revision tx)" "processType (f tx) = processType tx"
      "isVoided (f tx) = isVoided tx"
    and "g tx \<Longrightarrow> truck_step (truck_for d i tx) (move s (truck_for d i tx))"
  shows "find_tx d i = Some tx \<and> g tx \<and> find_tx d' i = Some (f tx) \<and> row_only d d1 \<and> commit_step i d d'"
proof (rule claim_commit [OF assms(1,2,4,5)])
  show "truck_for d' i (f tx) = move s (truck_for d i tx)" if "row_only d d1"
    using assms(8-11) by (simp add: assms(3) row_only [OF that] move_def bump_def) (simp add: truck_for_def)
  show "local_to i d1 d'" unfolding assms(3) by (rule local_to_history)
  show "revision t = revision tx" if "g t" for t using that by (rule assms(6))
qed (simp_all add: assms(3,7,12))

text \<open>An existing current row shows in the truck's count.\<close>

lemma no_current_iff:
  "find_first (current_wr i IN) (weighbridgeRecords d) = None \<longleftrightarrow> tk_in (truck_for d i t) = 0"
  "find_first (current_wr i OUT) (weighbridgeRecords d) = None \<longleftrightarrow> tk_out (truck_for d i t) = 0"
  "find_first (current_row i) (qcVehicleChecks d) = None \<longleftrightarrow> tk_vehicle (truck_for d i t) = 0"
  "find_first (current_row i) (warehouseProcesses d) = None \<longleftrightarrow> tk_warehouse (truck_for d i t) = 0"
  "find_first (open_process i) (warehouseProcesses d) = None \<longleftrightarrow> tk_open (truck_for d i t) = 0"
  "find_first (current_row i) (incomingMaterialChecks d) = None \<longleftrightarrow> tk_incoming (truck_for d i t) = 0"
  by (simp_all add: truck_for_def find_first_None_iff count_where_0_iff)

lemma truck_for_view [simp]:
  "tk_status (truck_for d i t) = status t" "tk_revision (truck_for d i t) = revision t"
  "tk_process (truck_for d i t) = processType t" "tk_voided (truck_for d i t) = isVoided t"
  by (simp_all add: truck_for_def)

end
