(* ===== verification/Gms_Json.thy ===== *)
theory Gms_Json
  imports Gms_Domain Gms_Calendar
begin

text \<open>
  The text of a JSON value, for the services that store a checklist inside a remark:
  \<open>JSON.stringify\<close> for objects and arrays and \<open>String\<close> for the other truthy values. The text of a
  number is a parameter (\<open>Number.prototype.toString\<close>).
\<close>

definition hex_digit :: "nat \<Rightarrow> char" where
  "hex_digit n = (if n < 10 then char_of (48 + n) else char_of (87 + n))"

definition escape_char :: "char \<Rightarrow> string" where
  "escape_char c =
     (let n = of_char c :: nat; bs = CHR 0x5C
      in if n = 34 then [bs, CHR 0x22] else if n = 92 then [bs, bs]
         else if n = 8 then [bs, CHR ''b''] else if n = 12 then [bs, CHR ''f'']
         else if n = 10 then [bs, CHR ''n''] else if n = 13 then [bs, CHR ''r'']
         else if n = 9 then [bs, CHR ''t'']
         else if n < 32 then [bs] @ ''u00'' @ [hex_digit (n div 16), hex_digit (n mod 16)]
         else [c])"

definition quoted :: "string \<Rightarrow> string" where
  "quoted s = [CHR 0x22] @ concat (map escape_char s) @ [CHR 0x22]"

fun join_with :: "string \<Rightarrow> string list \<Rightarrow> string" where
  "join_with sep [] = []"
| "join_with sep [x] = x"
| "join_with sep (x # xs) = x @ sep @ join_with sep xs"

fun json_text :: "(num \<Rightarrow> string) \<Rightarrow> jsv \<Rightarrow> string" where
  "json_text nt JNull = ''null''"
| "json_text nt (JBool b) = (if b then ''true'' else ''false'')"
| "json_text nt (JNum x) = nt x"
| "json_text nt (JStr s) = quoted s"
| "json_text nt (JArr js) = ''['' @ join_with '','' (map (json_text nt) js) @ '']''"
| "json_text nt (JObj kvs) =
     ''{'' @ join_with '','' (map (\<lambda>kv. quoted (fst kv) @ '':'' @ json_text nt (snd kv)) kvs) @ ''}''"

text \<open>\<open>typeof x === 'object' ? JSON.stringify(x) : String(x)\<close> for a truthy \<open>x\<close>.\<close>

fun checklist_text :: "(num \<Rightarrow> string) \<Rightarrow> jsv \<Rightarrow> string" where
  "checklist_text nt (JStr s) = s"
| "checklist_text nt j = json_text nt j"

text \<open>\<open>x || null\<close> on a JSON value.\<close>

fun truthy_json :: "jsv field \<Rightarrow> jsv option" where
  "truthy_json (Value JNull) = None"
| "truthy_json (Value (JBool False)) = None"
| "truthy_json (Value (JNum x)) = (if x = 0 then None else Some (JNum x))"
| "truthy_json (Value (JStr s)) = (if s = [] then None else Some (JStr s))"
| "truthy_json (Value j) = Some j"
| "truthy_json _ = None"

end
