(* ===== verification/Gms_Plate.thy ===== *)
theory Gms_Plate
  imports Gms_Prelude
begin

text \<open>
  Vehicle plates (common/utils/normalize-plate.util.ts). Plates are ASCII strings: JavaScript's toUpperCase maps a few
  characters beyond ASCII to ASCII letters, which is outside the model.
\<close>

section \<open>Characters\<close>

definition is_letter :: "char \<Rightarrow> bool" where
  "is_letter c = (let n = of_char c :: nat in 65 \<le> n \<and> n \<le> 90)"

definition is_digit :: "char \<Rightarrow> bool" where
  "is_digit c = (let n = of_char c :: nat in 48 \<le> n \<and> n \<le> 57)"

definition is_alnum :: "char \<Rightarrow> bool" where
  "is_alnum c \<longleftrightarrow> is_letter c \<or> is_digit c"

abbreviation space :: char where "space \<equiv> CHR '' ''"

lemma letter_not_digit: "is_letter c \<Longrightarrow> \<not> is_digit c"
  by (auto simp: is_letter_def is_digit_def Let_def)

lemma space_not_alnum [simp]: "\<not> is_letter space" "\<not> is_digit space" "\<not> is_alnum space"
  by (simp_all add: is_letter_def is_digit_def is_alnum_def)

lemma ascii_upper_alnum: "is_alnum c \<Longrightarrow> ascii_upper c = c"
  by (auto simp: is_alnum_def is_letter_def is_digit_def ascii_upper_def Let_def)

lemma ascii_upper_space [simp]: "ascii_upper space = space"
  by (simp add: ascii_upper_def)

section \<open>Words\<close>

text \<open>
  \<open>.replace(/[^A-Z0-9]/g, ' ').trim().replace(/\s+/g, ' ')\<close> splits the upper-cased string into its
  maximal runs of letters and digits and joins them with single spaces.
\<close>

fun alnum_words :: "string \<Rightarrow> string \<Rightarrow> string list" where
  "alnum_words acc [] = (if acc = [] then [] else [rev acc])"
| "alnum_words acc (c # cs) =
     (if is_alnum c then alnum_words (c # acc) cs
      else if acc = [] then alnum_words [] cs
      else rev acc # alnum_words [] cs)"

fun join_spaces :: "string list \<Rightarrow> string" where
  "join_spaces [] = []"
| "join_spaces [w] = w"
| "join_spaces (w # ws) = w @ space # join_spaces ws"

definition cleaned :: "string \<Rightarrow> string" where
  "cleaned s = join_spaces (alnum_words [] (upper s))"

definition good_words :: "string list \<Rightarrow> bool" where
  "good_words ws \<longleftrightarrow> (\<forall>w \<in> set ws. w \<noteq> [] \<and> list_all is_alnum w)"

lemma alnum_words_good: "list_all is_alnum acc \<Longrightarrow> good_words (alnum_words acc s)"
proof (induction acc s rule: alnum_words.induct)
  case (1 acc)
  then show ?case by (simp add: good_words_def list_all_iff)
next
  case (2 acc c cs)
  show ?case
  proof (cases "is_alnum c")
    case True
    with 2 show ?thesis by simp
  next
    case False
    with 2 have "good_words (alnum_words [] cs)" by (cases "acc = []") simp_all
    then have "good_words (rev acc # alnum_words [] cs)" if "acc \<noteq> []"
      using that "2.prems" by (auto simp: good_words_def list_all_iff)
    with False \<open>good_words (alnum_words [] cs)\<close> show ?thesis by simp
  qed
qed

lemma alnum_words_run:
  "list_all is_alnum w \<Longrightarrow> alnum_words acc (w @ s) = alnum_words (rev w @ acc) s"
  by (induction w arbitrary: acc) auto

lemma alnum_words_join: "good_words ws \<Longrightarrow> alnum_words [] (join_spaces ws) = ws"
proof (induction ws rule: join_spaces.induct)
  case (2 w)
  then have w: "list_all is_alnum w" "w \<noteq> []" by (simp_all add: good_words_def)
  with alnum_words_run [of w "[]" "[]"] show ?case by simp
next
  case (3 w v vs)
  let ?r = "join_spaces (v # vs)"
  have w: "list_all is_alnum w" "w \<noteq> []" using 3 by (simp_all add: good_words_def)
  with alnum_words_run [of w "[]" "space # ?r"]
  have "alnum_words [] (w @ space # ?r) = w # alnum_words [] ?r" by simp
  with 3 show ?case by (simp add: good_words_def)
qed simp

lemma upper_join: "good_words ws \<Longrightarrow> upper (join_spaces ws) = join_spaces ws"
proof (induction ws rule: join_spaces.induct)
  case (3 w v vs)
  then have "upper w = w" by (auto simp: good_words_def upper_def list_all_iff ascii_upper_alnum intro!: map_idI)
  with 3 show ?case by (simp add: good_words_def upper_def)
qed (auto simp: good_words_def upper_def list_all_iff ascii_upper_alnum intro!: map_idI)

lemma cleaned_join: "good_words ws \<Longrightarrow> cleaned (join_spaces ws) = join_spaces ws"
  by (simp add: cleaned_def upper_join alnum_words_join)

lemma cleaned_good: "\<exists>ws. good_words ws \<and> cleaned s = join_spaces ws"
  unfolding cleaned_def using alnum_words_good [of "[]"] by auto

lemma cleaned_idem [simp]: "cleaned (cleaned s) = cleaned s"
  using cleaned_good [of s] cleaned_join by auto

section \<open>The plate pattern\<close>

text \<open>
  \<open>/^([A-Z]{1,2})\s*(\d{1,4})\s*([A-Z]{1,3})$/\<close>. Letters, digits and spaces are disjoint, so the
  groups are the maximal runs and the matcher never has to backtrack.
\<close>

definition plate_match :: "string \<Rightarrow> (string \<times> string \<times> string) option" where
  "plate_match s =
     (let g1 = takeWhile is_letter s; r1 = dropWhile (\<lambda>c. c = space) (dropWhile is_letter s);
          g2 = takeWhile is_digit r1; r2 = dropWhile (\<lambda>c. c = space) (dropWhile is_digit r1);
          g3 = takeWhile is_letter r2; r3 = dropWhile is_letter r2
      in if 1 \<le> length g1 \<and> length g1 \<le> 2 \<and> 1 \<le> length g2 \<and> length g2 \<le> 4 \<and>
            1 \<le> length g3 \<and> length g3 \<le> 3 \<and> r3 = []
         then Some (g1, g2, g3) else None)"

definition normalizePlateNumber :: "string \<Rightarrow> string" where
  "normalizePlateNumber p =
     (if p = [] then []
      else (case plate_match (cleaned p) of
          Some (a, b, c) \<Rightarrow> a @ space # b @ space # c
        | None \<Rightarrow> cleaned p))"

definition getRawPlateNumber :: "string \<Rightarrow> string" where
  "getRawPlateNumber p = filter (\<lambda>c. c \<noteq> space) (normalizePlateNumber p)"

text \<open>A plate is well-formed when its parts are what the pattern's groups capture.\<close>

definition plate_parts :: "string \<Rightarrow> string \<Rightarrow> string \<Rightarrow> bool" where
  "plate_parts a b c \<longleftrightarrow>
     list_all is_letter a \<and> list_all is_digit b \<and> list_all is_letter c \<and>
     1 \<le> length a \<and> length a \<le> 2 \<and> 1 \<le> length b \<and> length b \<le> 4 \<and> 1 \<le> length c \<and> length c \<le> 3"

lemma plate_match_parts: "plate_match s = Some (a, b, c) \<Longrightarrow> plate_parts a b c"
  by (auto simp: plate_match_def plate_parts_def Let_def list_all_iff
      dest: set_takeWhileD split: if_splits)

lemma takeWhile_run: "list_all P a \<Longrightarrow> (xs = [] \<or> \<not> P (hd xs)) \<Longrightarrow> takeWhile P (a @ xs) = a \<and> dropWhile P (a @ xs) = xs"
  by (induction a) (cases xs; auto)+

definition spaces :: "nat \<Rightarrow> string" where
  "spaces n = replicate n space"

lemma dropWhile_spaces:
  "xs \<noteq> [] \<Longrightarrow> hd xs \<noteq> space \<Longrightarrow> dropWhile (\<lambda>c. c = space) (spaces n @ xs) = xs"
  by (induction n) (auto simp: spaces_def neq_Nil_conv)

lemma hd_spaces: "xs \<noteq> [] \<Longrightarrow> hd (spaces n @ xs) = (if n = 0 then hd xs else space)"
  by (cases n) (simp_all add: spaces_def)

lemma plate_match_spaced:
  assumes "plate_parts a b c"
  shows "plate_match (a @ spaces m @ b @ spaces n @ c) = Some (a, b, c)"
proof -
  obtain b1 bs c1 cs where bc: "b = b1 # bs" "c = c1 # cs"
    using assms by (cases b; cases c) (auto simp: plate_parts_def)
  have b1: "is_digit b1" "\<not> is_letter b1" "b1 \<noteq> space" and c1: "is_letter c1" "\<not> is_digit c1" "c1 \<noteq> space"
    using assms bc letter_not_digit by (auto simp: plate_parts_def)
  let ?t = "spaces n @ c" and ?u = "spaces m @ b @ spaces n @ c"
  have 1: "takeWhile is_letter (a @ ?u) = a \<and> dropWhile is_letter (a @ ?u) = ?u"
    using assms bc b1 by (intro takeWhile_run) (auto simp: plate_parts_def hd_spaces)
  have 2: "dropWhile (\<lambda>c. c = space) ?u = b @ ?t"
    using bc b1 by (intro dropWhile_spaces) auto
  have 3: "takeWhile is_digit (b @ ?t) = b \<and> dropWhile is_digit (b @ ?t) = ?t"
    using assms bc c1 by (intro takeWhile_run) (auto simp: plate_parts_def hd_spaces)
  have 4: "dropWhile (\<lambda>c. c = space) ?t = c"
    using bc c1 by (intro dropWhile_spaces) auto
  have 5: "takeWhile is_letter c = c \<and> dropWhile is_letter c = []"
    using takeWhile_run [of is_letter c "[]"] assms unfolding plate_parts_def by simp
  show ?thesis
    unfolding plate_match_def Let_def using 1 2 3 4 assms
    by (simp add: plate_parts_def conjunct1 [OF 5] conjunct2 [OF 5] del: takeWhile_eq_all_conv)
qed

lemma plate_parts_good: "plate_parts a b c \<Longrightarrow> good_words [a, b, c]"
  by (auto simp: plate_parts_def good_words_def is_alnum_def list_all_iff)

lemma normalize_canonical:
  assumes "plate_parts a b c"
  shows "normalizePlateNumber (a @ space # b @ space # c) = a @ space # b @ space # c"
proof -
  have "cleaned (a @ space # b @ space # c) = a @ space # b @ space # c"
    using cleaned_join [OF plate_parts_good [OF assms]] by simp
  moreover have "plate_match (a @ space # b @ space # c) = Some (a, b, c)"
    using plate_match_spaced [OF assms, of 1 1] by (simp add: spaces_def)
  ultimately show ?thesis
    using assms by (simp add: normalizePlateNumber_def)
qed

text \<open>
  Normalising a plate is idempotent, so a stored plate is found again by the normal form of
  itself.
\<close>
lemma normalizePlateNumber_idempotent:
  "normalizePlateNumber (normalizePlateNumber p) = normalizePlateNumber p"
proof (cases "plate_match (cleaned p)")
  case None
  then show ?thesis by (simp add: normalizePlateNumber_def)
next
  case (Some t)
  then obtain a b c where abc: "plate_match (cleaned p) = Some (a, b, c)" by (cases t) auto
  show ?thesis
  proof (cases "p = []")
    case False
    with abc have "normalizePlateNumber p = a @ space # b @ space # c"
      by (simp add: normalizePlateNumber_def)
    with normalize_canonical [OF plate_match_parts [OF abc]] show ?thesis by simp
  qed (simp add: normalizePlateNumber_def)
qed

text \<open>
  However a well-formed plate is spaced, it has one canonical form: the three groups joined
  by single spaces, whose raw form is the groups run together.
\<close>
lemma normalizePlateNumber_canonical:
  assumes "plate_parts a b c"
  shows "normalizePlateNumber (a @ b @ c) = a @ space # b @ space # c
    \<and> normalizePlateNumber (a @ space # b @ space # c) = a @ space # b @ space # c
    \<and> getRawPlateNumber (a @ b @ c) = a @ b @ c"
proof -
  have "good_words [a @ b @ c]"
    using plate_parts_good [OF assms] assms by (auto simp: good_words_def plate_parts_def)
  then have "cleaned (a @ b @ c) = a @ b @ c" using cleaned_join by fastforce
  moreover have "plate_match (a @ b @ c) = Some (a, b, c)"
    using plate_match_spaced [OF assms, of 0 0] by (simp add: spaces_def)
  ultimately have n: "normalizePlateNumber (a @ b @ c) = a @ space # b @ space # c"
    using assms by (auto simp: normalizePlateNumber_def plate_parts_def)
  have "filter (\<lambda>c. c \<noteq> space) w = w" if "list_all is_alnum w" for w
    using that by (induction w) auto
  with plate_parts_good [OF assms] have "getRawPlateNumber (a @ b @ c) = a @ b @ c"
    by (simp add: getRawPlateNumber_def n good_words_def)
  with n normalize_canonical [OF assms] show ?thesis by simp
qed

lemma normalizePlateNumber_canonical_applied:
  "plate_parts ''B'' ''1234'' ''XYZ'' \<and> normalizePlateNumber ''B1234XYZ'' = ''B 1234 XYZ''
    \<and> getRawPlateNumber ''B1234XYZ'' = ''B1234XYZ''"
proof -
  have h: "plate_parts ''B'' ''1234'' ''XYZ''" by (simp add: plate_parts_def is_letter_def is_digit_def)
  show ?thesis using h normalizePlateNumber_canonical [OF h] by simp
qed

end
