(* ===== verification/Gms_JsValues.thy ===== *)
theory Gms_JsValues
  imports Gms_Json Gms_Numbering Gms_Plate
begin

text \<open>
  The conversions a correction applies to a submitted value: \<open>Number\<close>, \<open>String\<close>, \<open>new Date\<close> and
  \<open>Date.prototype.toJSON\<close>, and the check of the database client that a value has the type of its
  column. The text of a number and \<open>Date.parse\<close> of a string are parameters; a number that is
  infinite counts as not a number.
\<close>

section \<open>Number\<close>

definition digits_of :: "string \<Rightarrow> string \<times> string" where
  "digits_of s = (takeWhile is_digit s, dropWhile is_digit s)"

definition exponent_of :: "string \<Rightarrow> int option" where
  "exponent_of s =
     (case s of
        [] \<Rightarrow> Some 0
      | c # r \<Rightarrow>
          if c \<noteq> CHR ''e'' \<and> c \<noteq> CHR ''E'' then None
          else
            let (neg, ds) = (case r of
                  [] \<Rightarrow> (False, [])
                | x # xs \<Rightarrow> if x = CHR ''-'' then (True, xs) else if x = CHR ''+'' then (False, xs) else (False, r))
            in if ds = [] \<or> \<not> list_all is_digit ds then None
               else Some (if neg then - int (digits_value ds) else int (digits_value ds)))"

definition power_of_ten :: "int \<Rightarrow> num" where
  "power_of_ten e = (if 0 \<le> e then 10 ^ nat e else 1 / 10 ^ nat (- e))"

text \<open>An unsigned decimal literal, rounded once.\<close>

definition decimal_of :: "string \<Rightarrow> num option" where
  "decimal_of s =
     (let (a, r) = digits_of s;
          (b, r') = (case r of x # xs \<Rightarrow> if x = CHR ''.'' then digits_of xs else ([], r) | [] \<Rightarrow> ([], []))
      in if a = [] \<and> b = [] then None
         else map_option (\<lambda>e. fl (of_nat (digits_value (a @ b)) * power_of_ten (e - int (length b)))) (exponent_of r'))"

definition digit_value :: "char \<Rightarrow> nat option" where
  "digit_value c =
     (let n = of_char c :: nat
      in if 48 \<le> n \<and> n \<le> 57 then Some (n - 48)
         else if 65 \<le> n \<and> n \<le> 70 then Some (n - 55)
         else if 97 \<le> n \<and> n \<le> 102 then Some (n - 87) else None)"

fun radix_of :: "nat \<Rightarrow> nat \<Rightarrow> string \<Rightarrow> num option" where
  "radix_of b a [] = Some (fl (of_nat a))"
| "radix_of b a (c # s) = (case digit_value c of
     Some n \<Rightarrow> if n < b then radix_of b (b * a + n) s else None
   | None \<Rightarrow> None)"

definition number_of_string :: "string \<Rightarrow> num option" where
  "number_of_string s =
     (case trim s of
        [] \<Rightarrow> Some 0
      | c # r \<Rightarrow>
          if c = CHR ''-'' then map_option uminus (decimal_of r)
          else if c = CHR ''+'' then decimal_of r
          else if c = CHR ''0'' \<and> r \<noteq> [] \<and> hd r \<in> set ''xXoObB'' then
            (if tl r = [] then None
             else radix_of (if hd r \<in> set ''xX'' then 16 else if hd r \<in> set ''oO'' then 8 else 2) 0 (tl r))
          else decimal_of (c # r))"

fun js_number :: "jsv \<Rightarrow> num option" where
  "js_number JNull = Some 0"
| "js_number (JBool b) = Some (if b then 1 else 0)"
| "js_number (JNum x) = Some x"
| "js_number (JStr s) = number_of_string s"
| "js_number (JArr []) = Some 0"
| "js_number (JArr [JBool b]) = None"
| "js_number (JArr [j]) = js_number j"
| "js_number (JArr js) = None"
| "js_number (JObj kvs) = None"

section \<open>String and Date\<close>

fun js_string :: "(num \<Rightarrow> string) \<Rightarrow> jsv \<Rightarrow> string" where
  "js_string nt JNull = ''null''"
| "js_string nt (JBool b) = (if b then ''true'' else ''false'')"
| "js_string nt (JNum x) = nt x"
| "js_string nt (JStr s) = s"
| "js_string nt (JArr js) = join_with '','' (map (\<lambda>j. if j = JNull then [] else js_string nt j) js)"
| "js_string nt (JObj kvs) = ''[object Object]''"

definition time_clip :: "num \<Rightarrow> instant option" where
  "time_clip x = (let n = (if 0 \<le> x then \<lfloor>x\<rfloor> else \<lceil>x\<rceil>) in if \<bar>n\<bar> \<le> 8640000000000000 then Some n else None)"

definition js_date :: "(num \<Rightarrow> string) \<Rightarrow> (string \<Rightarrow> instant option) \<Rightarrow> jsv \<Rightarrow> instant option" where
  "js_date nt parse j =
     (case j of
        JNull \<Rightarrow> Some 0
      | JBool b \<Rightarrow> Some (if b then 1 else 0)
      | JNum x \<Rightarrow> time_clip x
      | _ \<Rightarrow> parse (js_string nt j))"

text \<open>\<open>toISOString\<close>, for instants from 1970 on.\<close>

definition iso_string :: "instant \<Rightarrow> string" where
  "iso_string t =
     (let n = nat t; ms = n mod 86400000;
          (y, mo, dd) = date_of_day (n div 86400000);
          p2 = (\<lambda>k. padStart0 2 (decimal k))
      in padStart0 4 (decimal y) @ ''-'' @ p2 mo @ ''-'' @ p2 dd @ ''T'' @ p2 (ms div 3600000) @ '':'' @
         p2 (ms div 60000 mod 60) @ '':'' @ p2 (ms div 1000 mod 60) @ ''.'' @ padStart0 3 (decimal (ms mod 1000)) @ ''Z'')"

section \<open>Columns as JSON\<close>

definition col_str :: "string option \<Rightarrow> jsv" where
  "col_str c = (case c of None \<Rightarrow> JNull | Some s \<Rightarrow> JStr s)"

definition col_num :: "num option \<Rightarrow> jsv" where
  "col_num c = (case c of None \<Rightarrow> JNull | Some x \<Rightarrow> JNum x)"

definition col_int :: "int option \<Rightarrow> jsv" where
  "col_int c = (case c of None \<Rightarrow> JNull | Some n \<Rightarrow> JNum (of_int n))"

definition col_date :: "instant option \<Rightarrow> jsv" where
  "col_date c = (case c of None \<Rightarrow> JNull | Some t \<Rightarrow> JStr (iso_string t))"

definition col_json :: "jsv option \<Rightarrow> jsv" where
  "col_json c = (case c of None \<Rightarrow> JNull | Some j \<Rightarrow> j)"

fun check_name :: "check_result \<Rightarrow> string" where
  "check_name PASS = ''PASS''"
| "check_name REJECT = ''REJECT''"
| "check_name NA = ''NA''"

fun qc_result_name :: "qc_result \<Rightarrow> string" where
  "qc_result_name QC_PASS = ''PASS''"
| "qc_result_name QC_REJECT = ''REJECT''"

fun unit_name :: "warehouse_unit \<Rightarrow> string" where
  "unit_name KG = ''KG''"
| "unit_name PCS = ''PCS''"
| "unit_name BAG = ''BAG''"
| "unit_name ROLL = ''ROLL''"
| "unit_name PALLET = ''PALLET''"

fun condition_name :: "warehouse_condition \<Rightarrow> string" where
  "condition_name GOOD = ''GOOD''"
| "condition_name DAMAGED = ''DAMAGED''"
| "condition_name HOLD = ''HOLD''"
| "condition_name PARTIAL = ''PARTIAL''"
| "condition_name OTHER_CONDITION = ''OTHER''"

definition col_enum :: "('e \<Rightarrow> string) \<Rightarrow> 'e option \<Rightarrow> jsv" where
  "col_enum name c = (case c of None \<Rightarrow> JNull | Some e \<Rightarrow> JStr (name e))"

section \<open>What a column accepts\<close>

text \<open>None: the database client rejects the value; \<open>Some None\<close>: null.\<close>

fun as_str :: "jsv \<Rightarrow> string option option" where
  "as_str JNull = Some None"
| "as_str (JStr s) = Some (Some s)"
| "as_str _ = None"

fun as_num :: "jsv \<Rightarrow> num option option" where
  "as_num JNull = Some None"
| "as_num (JNum x) = Some (Some x)"
| "as_num _ = None"

definition int32 :: "num \<Rightarrow> int option" where
  "int32 x = (if of_int \<lfloor>x\<rfloor> = x \<and> - 2147483648 \<le> x \<and> x \<le> 2147483647 then Some \<lfloor>x\<rfloor> else None)"

fun as_int :: "jsv \<Rightarrow> int option option" where
  "as_int JNull = Some None"
| "as_int (JNum x) = map_option Some (int32 x)"
| "as_int _ = None"

text \<open>Whether the client takes a bare null for a JSON column is a parameter.\<close>

fun as_json :: "bool \<Rightarrow> jsv \<Rightarrow> jsv option option" where
  "as_json nullable JNull = (if nullable then Some None else None)"
| "as_json nullable j = Some (Some j)"

definition as_enum :: "('e \<Rightarrow> string) \<Rightarrow> 'e list \<Rightarrow> jsv \<Rightarrow> 'e option option" where
  "as_enum name es j =
     (case j of
        JNull \<Rightarrow> Some None
      | JStr s \<Rightarrow> map_option Some (find_first (\<lambda>e. name e = s) es)
      | _ \<Rightarrow> None)"

definition as_check :: "jsv \<Rightarrow> check_result option option" where
  "as_check = as_enum check_name [PASS, REJECT, NA]"

definition as_result :: "jsv \<Rightarrow> qc_result option option" where
  "as_result = as_enum qc_result_name [QC_PASS, QC_REJECT]"

definition as_unit :: "jsv \<Rightarrow> warehouse_unit option option" where
  "as_unit = as_enum unit_name [KG, PCS, BAG, ROLL, PALLET]"

definition as_condition :: "jsv \<Rightarrow> warehouse_condition option option" where
  "as_condition = as_enum condition_name [GOOD, DAMAGED, HOLD, PARTIAL, OTHER_CONDITION]"

text \<open>What a column stores is read back as the value it accepted.\<close>

lemma col_as:
  "as_str j = Some c \<Longrightarrow> col_str c = j" "as_num j = Some x \<Longrightarrow> col_num x = j" "as_json b j = Some y \<Longrightarrow> col_json y = j"
  by (cases j; auto simp: col_str_def col_num_def col_json_def split: if_splits)+

lemma col_as_int: "as_int j = Some c \<Longrightarrow> col_int c = j"
  by (cases j) (auto simp: col_int_def int32_def split: if_splits)

lemma col_as_enum: "as_enum name es j = Some c \<Longrightarrow> col_enum name c = j"
  by (auto simp: as_enum_def col_enum_def dest: find_first_SomeD split: jsv.splits)

end
