(* ===== verification/Gms_CorrectionData.thy ===== *)
theory Gms_CorrectionData
  imports Gms_Commit Gms_JsValues
begin

text \<open>
  The reading half of a correction of the operation log
  (transactions/operation-log-correction.service.ts): the request, the fields that may be
  corrected, the checks of the submitted values, the records they are about, and the summary of
  old and new values (\<open>correctOperationLog\<close> up to the no-op check). Records, fields and values are
  data here: a field is named by a string and a value is JSON.
\<close>

section \<open>Requests\<close>

text \<open>What the service knows of the database client and the JavaScript runtime, as parameters.\<close>

record client =
  cl_numberText :: "num \<Rightarrow> string"
  cl_parseDate :: "string \<Rightarrow> instant option"
  cl_jsonNull :: bool

text \<open>An empty \<open>targetRecordId\<close> is falsy and counts as absent.\<close>

record oc_item =
  it_targetModule :: correction_target_module
  it_targetRecordId :: "ident option"
  it_fieldName :: string
  it_newValue :: jsv
  it_itemRemark :: "string field"

text \<open>The action is null only when the request says so; an absent one is CORRECT_DATA.\<close>

record oc_dto =
  co_action :: "correction_action option"
  co_reopenTargetStatus :: "transaction_status option"
  co_reasonCode :: string
  co_remark :: string
  co_evidenceUrl :: "string field"
  co_evidenceAttachmentId :: "ident option"
  co_expectedRevision :: nat
  co_items :: "oc_item list"

datatype oc_reason =
    OC_AdminOnly | OC_StatusActionDisabled | OC_TargetRequired | OC_ReopenWithItems | OC_TargetWithoutReopen
  | OC_ItemsRequired | OC_NotFound | OC_NotTerminal | OC_VoidedReopen | OC_StaleRevision
  | OC_EvidenceMissing | OC_EvidenceUnverified | OC_Protected correction_target_module string
  | OC_NotPositive string | OC_NotPercentage string | OC_NotDate string | OC_NotCount string | OC_StatusField
  | OC_NoRecord correction_target_module | OC_NotOwned correction_target_module
  | OC_NoOp | OC_GrossBelowTare | OC_StartAfterEnd | OC_Superseded | OC_UniqueIndex | OC_ClientRejects
  | OC_ReopenTarget transaction_status | OC_AuditUnavailable

section \<open>Fields\<close>

fun FIELD_ALLOWLIST :: "correction_target_module \<Rightarrow> string list" where
  "FIELD_ALLOWLIST TM_TRANSACTION =
     [''driverName'', ''driverPhone'', ''vendorName'', ''vehicleType'', ''cargoType'', ''cargoSubType'',
      ''suratJalanNumber'', ''poNumber'', ''remarks'', ''grossWeight'', ''tareWeight'', ''actualWeight'',
      ''actualQuantity'', ''permitCardNumber'', ''guestIdNumber'']"
| "FIELD_ALLOWLIST TM_WEIGHBRIDGE = [''weight'', ''ticketNumber'', ''remarks'']"
| "FIELD_ALLOWLIST TM_QC_VEHICLE =
     [''result'', ''vehicleCleanliness'', ''vehicleOdor'', ''pestEvidence'', ''vehicleCondition'',
      ''documentCompleteness'', ''sealCondition'', ''notes'', ''checklistItems'']"
| "FIELD_ALLOWLIST TM_QC_MATERIAL =
     [''result'', ''odor'', ''color'', ''moisture'', ''foreignMatter'', ''beanCondition'', ''sampleWeight'',
      ''goodBeanPercentage'', ''itemCondition'', ''packagingCondition'', ''quantityCheck'', ''documentCheck'',
      ''visualInspection'', ''defectNotes'', ''notes'', ''checklistItems'']"
| "FIELD_ALLOWLIST TM_INCOMING_MATERIAL =
     [''result'', ''odor'', ''color'', ''moisture'', ''foreignMatter'', ''beanCondition'', ''sampleWeight'',
      ''goodBeanPercentage'', ''itemCondition'', ''packagingCondition'', ''quantityCheck'', ''documentCheck'',
      ''visualInspection'', ''defectNotes'', ''notes'', ''checklistItems'']"
| "FIELD_ALLOWLIST TM_WAREHOUSE =
     [''startAt'', ''endAt'', ''actualWeight'', ''actualQuantity'', ''unit'', ''palletCount'', ''bagCount'',
      ''rollCount'', ''condition'', ''remarks'', ''checklistItems'']"
| "FIELD_ALLOWLIST TM_STATUS = [''status'']"
| "FIELD_ALLOWLIST TM_ATTACHMENT = [''originalName'', ''description'']"
| "FIELD_ALLOWLIST TM_REMARK = [''remarks'', ''cancellationReason'', ''notes'', ''description'']"

fun oc_module_name :: "correction_target_module \<Rightarrow> string" where
  "oc_module_name TM_TRANSACTION = ''TRANSACTION''"
| "oc_module_name TM_WEIGHBRIDGE = ''WEIGHBRIDGE''"
| "oc_module_name TM_QC_VEHICLE = ''QC_VEHICLE''"
| "oc_module_name TM_QC_MATERIAL = ''QC_MATERIAL''"
| "oc_module_name TM_INCOMING_MATERIAL = ''INCOMING_MATERIAL''"
| "oc_module_name TM_WAREHOUSE = ''WAREHOUSE''"
| "oc_module_name TM_STATUS = ''STATUS''"
| "oc_module_name TM_ATTACHMENT = ''ATTACHMENT''"
| "oc_module_name TM_REMARK = ''REMARK''"

text \<open>\<open>validateDomain\<close>: the exception, when there is one. \<open>js_number\<close> is None on NaN.\<close>

definition validateDomain :: "client \<Rightarrow> string \<Rightarrow> jsv \<Rightarrow> oc_reason error option" where
  "validateDomain cl f v =
     (if f \<in> set [''grossWeight'', ''tareWeight'', ''actualWeight'', ''sampleWeight'', ''weight'']
         \<and> (case js_number v of None \<Rightarrow> True | Some n \<Rightarrow> n \<le> 0)
      then Some (BadRequest (OC_NotPositive f))
      else if f \<in> set [''moisture'', ''foreignMatter'', ''goodBeanPercentage'']
         \<and> (case js_number v of None \<Rightarrow> True | Some n \<Rightarrow> n < 0 \<or> 100 < n)
      then Some (BadRequest (OC_NotPercentage f))
      else if f \<in> set [''startAt'', ''endAt''] \<and> js_date (cl_numberText cl) (cl_parseDate cl) v = None
      then Some (BadRequest (OC_NotDate f))
      else if f \<in> set [''actualQuantity'', ''palletCount'', ''bagCount'', ''rollCount'']
         \<and> (case js_number v of None \<Rightarrow> True | Some n \<Rightarrow> n < 0 \<or> of_int \<lfloor>n\<rfloor> \<noteq> n)
      then Some (BadRequest (OC_NotCount f))
      else if f = ''status'' then Some (BadRequest OC_StatusField)
      else None)"

text \<open>The spellings of a result that are accepted for PASS and REJECT.\<close>

definition normalisedValue :: "string \<Rightarrow> jsv \<Rightarrow> jsv" where
  "normalisedValue f v =
     (case v of
        JStr s \<Rightarrow>
          if f = ''result'' then
            if upper s \<in> set [''APPROVED'', ''PASS'', ''APPROVED_WITH_NOTE''] then JStr ''PASS''
            else if upper s \<in> set [''REJECTED'', ''REJECT''] then JStr ''REJECT'' else v
          else v
      | _ \<Rightarrow> v)"

section \<open>Records\<close>

text \<open>A record of the transaction that items are about.\<close>

datatype target =
    OnWeighbridge weighbridge_record
  | OnWarehouse warehouse_process
  | OnVehicle qc_vehicle_check
  | OnMaterial incoming_material_check
  | OnAttachment attachment

fun target_id :: "target \<Rightarrow> ident" where
  "target_id (OnWeighbridge r) = v_id r"
| "target_id (OnWarehouse r) = v_id r"
| "target_id (OnVehicle r) = v_id r"
| "target_id (OnMaterial r) = v_id r"
| "target_id (OnAttachment r) = v_id r"

text \<open>The columns a correction may read, as the JSON values of the row object.\<close>

definition tx_columns :: "transaction \<Rightarrow> (string \<times> jsv) list" where
  "tx_columns t =
     [(''driverName'', JStr (driverName t)), (''driverPhone'', JStr (driverPhone t)),
      (''vendorName'', JStr (vendorName t)), (''vehicleType'', JStr (vehicleType t)),
      (''cargoType'', JStr (cargoType t)), (''cargoSubType'', col_str (cargoSubType t)),
      (''suratJalanNumber'', col_str (suratJalanNumber t)), (''poNumber'', col_str (poNumber t)),
      (''remarks'', col_str (remarks t)), (''grossWeight'', col_num (grossWeight t)),
      (''tareWeight'', col_num (tareWeight t)), (''actualWeight'', col_num (actualWeight t)),
      (''actualQuantity'', col_int (actualQuantity t)), (''permitCardNumber'', col_str (permitCardNumber t)),
      (''guestIdNumber'', col_str (guestIdNumber t)), (''cancellationReason'', col_str (cancellationReason t))]"

fun target_columns :: "target \<Rightarrow> (string \<times> jsv) list" where
  "target_columns (OnWeighbridge r) =
     [(''weight'', JNum (wr_weight r)), (''ticketNumber'', col_str (wr_ticketNumber r)),
      (''remarks'', col_str (wr_remarks r))]"
| "target_columns (OnWarehouse r) =
     [(''startAt'', col_date (wp_startAt r)), (''endAt'', col_date (wp_endAt r)),
      (''actualWeight'', col_num (wp_actualWeight r)), (''actualQuantity'', col_int (wp_actualQuantity r)),
      (''unit'', col_enum unit_name (wp_unit r)), (''palletCount'', col_int (wp_palletCount r)),
      (''bagCount'', col_int (wp_bagCount r)), (''rollCount'', col_int (wp_rollCount r)),
      (''condition'', col_enum condition_name (wp_condition r)), (''remarks'', col_str (wp_remarks r)),
      (''checklistItems'', col_json (wp_checklistItems r))]"
| "target_columns (OnVehicle r) =
     [(''result'', col_enum qc_result_name (qv_result r)),
      (''vehicleCleanliness'', col_enum check_name (qv_vehicleCleanliness r)),
      (''vehicleOdor'', col_enum check_name (qv_vehicleOdor r)),
      (''pestEvidence'', col_enum check_name (qv_pestEvidence r)),
      (''vehicleCondition'', col_enum check_name (qv_vehicleCondition r)),
      (''documentCompleteness'', col_enum check_name (qv_documentCompleteness r)),
      (''sealCondition'', col_enum check_name (qv_sealCondition r)),
      (''notes'', col_str (qv_notes r)), (''checklistItems'', col_json (qv_checklistItems r))]"
| "target_columns (OnMaterial r) =
     [(''result'', col_enum qc_result_name (im_result r)), (''odor'', col_enum check_name (im_odor r)),
      (''color'', col_enum check_name (im_color r)), (''moisture'', col_num (im_moisture r)),
      (''foreignMatter'', col_num (im_foreignMatter r)), (''beanCondition'', col_enum check_name (im_beanCondition r)),
      (''sampleWeight'', col_num (im_sampleWeight r)), (''goodBeanPercentage'', col_num (im_goodBeanPercentage r)),
      (''itemCondition'', col_enum check_name (im_itemCondition r)),
      (''packagingCondition'', col_enum check_name (im_packagingCondition r)),
      (''quantityCheck'', col_enum check_name (im_quantityCheck r)),
      (''documentCheck'', col_enum check_name (im_documentCheck r)),
      (''visualInspection'', col_enum check_name (im_visualInspection r)),
      (''defectNotes'', col_str (im_defectNotes r)), (''notes'', col_str (im_notes r)),
      (''checklistItems'', col_json (im_checklistItems r))]"
| "target_columns (OnAttachment r) =
     [(''originalName'', JStr (at_originalName r)), (''description'', col_str (at_description r))]"

text \<open>\<open>targetRecordId ? rows.find(...) : rows[rows.length - 1]\<close>\<close>

definition pick :: "'a versioned_scheme list \<Rightarrow> ident option \<Rightarrow> 'a versioned_scheme option" where
  "pick rows rid = (case rid of
       Some k \<Rightarrow> find_first (\<lambda>r. v_id r = k) rows
     | None \<Rightarrow> if rows = [] then None else Some (last rows))"

definition conflict_pick ::
  "correction_target_module \<Rightarrow> ('a versioned_scheme \<Rightarrow> target) \<Rightarrow> 'a versioned_scheme list \<Rightarrow> ident option
     \<Rightarrow> oc_reason error + target option"
where
  "conflict_pick m f rows rid =
     (case pick rows rid of None \<Rightarrow> Inl (Conflict (OC_NoRecord m)) | Some r \<Rightarrow> Inr (Some (f r)))"

definition request_pick ::
  "correction_target_module \<Rightarrow> ('a versioned_scheme \<Rightarrow> target) \<Rightarrow> 'a versioned_scheme list \<Rightarrow> ident option
     \<Rightarrow> oc_reason error + target option"
where
  "request_pick m f rows rid =
     (if rows = [] then Inl (BadRequest (OC_NoRecord m))
      else case pick rows rid of None \<Rightarrow> Inl (BadRequest (OC_NotOwned m)) | Some r \<Rightarrow> Inr (Some (f r)))"

text \<open>The record an item is about; none for the modules that correct the transaction row.\<close>

fun target_of :: "db \<Rightarrow> ident \<Rightarrow> correction_target_module \<Rightarrow> ident option \<Rightarrow> oc_reason error + target option" where
  "target_of d i TM_TRANSACTION rid = Inr None"
| "target_of d i TM_STATUS rid = Inr None"
| "target_of d i TM_REMARK rid = Inr None"
| "target_of d i TM_WEIGHBRIDGE rid =
     request_pick TM_WEIGHBRIDGE OnWeighbridge (filter (current_row i) (weighbridgeRecords d)) rid"
| "target_of d i TM_WAREHOUSE rid =
     conflict_pick TM_WAREHOUSE OnWarehouse (filter (current_row i) (warehouseProcesses d)) rid"
| "target_of d i TM_QC_VEHICLE rid =
     conflict_pick TM_QC_VEHICLE OnVehicle (filter (current_row i) (qcVehicleChecks d)) rid"
| "target_of d i TM_INCOMING_MATERIAL rid =
     conflict_pick TM_INCOMING_MATERIAL OnMaterial (filter (current_row i) (incomingMaterialChecks d)) rid"
| "target_of d i TM_QC_MATERIAL rid =
     conflict_pick TM_QC_MATERIAL OnMaterial (filter (current_row i) (incomingMaterialChecks d)) rid"
| "target_of d i TM_ATTACHMENT rid =
     request_pick TM_ATTACHMENT OnAttachment (filter (current_row i) (attachments d)) rid"

text \<open>The Map from \<open>module:record\<close> to the items about that record, in insertion order.\<close>

record oc_group =
  og_module :: correction_target_module
  og_target :: target
  og_items :: "oc_item list"

fun add_item :: "oc_group list \<Rightarrow> correction_target_module \<Rightarrow> target \<Rightarrow> oc_item \<Rightarrow> oc_group list" where
  "add_item [] m tg it = [\<lparr>og_module = m, og_target = tg, og_items = [it]\<rparr>]"
| "add_item (g # gs) m tg it =
     (if og_module g = m \<and> target_id (og_target g) = target_id tg
      then g\<lparr>og_items := og_items g @ [it]\<rparr> # gs else g # add_item gs m tg it)"

fun group_items ::
  "client \<Rightarrow> db \<Rightarrow> ident \<Rightarrow> oc_item list \<Rightarrow> oc_item list \<Rightarrow> oc_group list
     \<Rightarrow> oc_reason error + oc_item list \<times> oc_group list"
where
  "group_items cl d i [] roots groups = Inr (roots, groups)"
| "group_items cl d i (it # its) roots groups =
     (if it_fieldName it \<notin> set (FIELD_ALLOWLIST (it_targetModule it))
      then Inl (BadRequest (OC_Protected (it_targetModule it) (it_fieldName it)))
      else case validateDomain cl (it_fieldName it) (it_newValue it) of
        Some e \<Rightarrow> Inl e
      | None \<Rightarrow>
          let it' = it\<lparr>it_newValue := normalisedValue (it_fieldName it) (it_newValue it)\<rparr>
          in case target_of d i (it_targetModule it) (it_targetRecordId it) of
               Inl e \<Rightarrow> Inl e
             | Inr None \<Rightarrow> group_items cl d i its (roots @ [it']) groups
             | Inr (Some tg) \<Rightarrow>
                 group_items cl d i its roots (add_item groups (it_targetModule it) tg it'))"

section \<open>Pass 1\<close>

text \<open>An assignment to a property of a JavaScript object: in place, or at the end.\<close>

fun obj_set :: "string \<Rightarrow> 'v \<Rightarrow> (string \<times> 'v) list \<Rightarrow> (string \<times> 'v) list" where
  "obj_set k v [] = [(k, v)]"
| "obj_set k v ((k', v') # kvs) = (if k' = k then (k, v) # kvs else (k', v') # obj_set k v kvs)"

lemma map_of_obj_set [simp]: "map_of (obj_set k v kvs) = (map_of kvs)(k \<mapsto> v)"
  by (induction k v kvs rule: obj_set.induct) auto

text \<open>A value in \<open>txUpdateData\<close>: a submitted or computed value, or a Date object.\<close>

datatype cell = Json jsv | Date instant

record pass1 =
  p1_data :: "(string \<times> cell) list"
  p1_old :: "(string \<times> jsv) list"
  p1_new :: "(string \<times> jsv) list"
  p1_changed :: bool

text \<open>One item: \<open>JSON.stringify\<close> of old and new value compared, both put in the summaries.\<close>

definition note_item :: "client \<Rightarrow> ident \<Rightarrow> jsv option \<Rightarrow> oc_item \<Rightarrow> pass1 \<Rightarrow> pass1" where
  "note_item cl rid old it p =
     (let key = oc_module_name (it_targetModule it) @ ''.'' @ decimal rid @ ''.'' @ it_fieldName it
      in p\<lparr>p1_changed := p1_changed p \<or>
             map_option (json_text (cl_numberText cl)) old \<noteq> Some (json_text (cl_numberText cl) (it_newValue it)),
           p1_old := (case old of None \<Rightarrow> p1_old p | Some j \<Rightarrow> obj_set key j (p1_old p)),
           p1_new := obj_set key (it_newValue it) (p1_new p)\<rparr>)"

definition note_root :: "client \<Rightarrow> transaction \<Rightarrow> oc_item \<Rightarrow> pass1 \<Rightarrow> pass1" where
  "note_root cl tx it p =
     note_item cl (tx_id tx) (map_of (tx_columns tx) (it_fieldName it)) it
       (p\<lparr>p1_data := obj_set (it_fieldName it) (Json (it_newValue it)) (p1_data p)\<rparr>)"

text \<open>
  The transaction column that follows a corrected record column. The values have passed
  \<open>validateDomain\<close>, so the conversions are defined.
\<close>

fun derived_column :: "client \<Rightarrow> transaction \<Rightarrow> target \<Rightarrow> string \<Rightarrow> jsv \<Rightarrow> (string \<times> cell) option" where
  "derived_column cl tx (OnWeighbridge r) f v =
     (if f = ''weight'' then
        Some (if processType tx = GBJ then (if wr_type r = IN then ''tareWeight'' else ''grossWeight'')
              else (if wr_type r = IN then ''grossWeight'' else ''tareWeight''),
              Json (JNum (val_or (js_number v) 0)))
      else None)"
| "derived_column cl tx (OnWarehouse r) f v =
     (if f = ''actualWeight'' then Some (''actualWeight'', Json (JNum (val_or (js_number v) 0)))
      else if f = ''actualQuantity'' then Some (''actualQuantity'', Json (JNum (val_or (js_number v) 0)))
      else if f = ''unit'' then Some (''warehouseUnit'', Json v)
      else if f = ''startAt'' then
        Some (''warehouseStartAt'', Date (val_or (js_date (cl_numberText cl) (cl_parseDate cl) v) 0))
      else if f = ''endAt'' then
        Some (''warehouseEndAt'', Date (val_or (js_date (cl_numberText cl) (cl_parseDate cl) v) 0))
      else None)"
| "derived_column cl tx tg f v = None"

definition note_record :: "client \<Rightarrow> transaction \<Rightarrow> target \<Rightarrow> oc_item \<Rightarrow> pass1 \<Rightarrow> pass1" where
  "note_record cl tx tg it p =
     note_item cl (target_id tg) (map_of (target_columns tg) (it_fieldName it)) it
       (case derived_column cl tx tg (it_fieldName it) (it_newValue it) of
          None \<Rightarrow> p
        | Some (c, v) \<Rightarrow> p\<lparr>p1_data := obj_set c v (p1_data p)\<rparr>)"

definition evaluate :: "client \<Rightarrow> transaction \<Rightarrow> oc_item list \<Rightarrow> oc_group list \<Rightarrow> pass1" where
  "evaluate cl tx roots groups =
     fold (\<lambda>g. fold (note_record cl tx (og_target g)) (og_items g)) groups
       (fold (note_root cl tx) roots \<lparr>p1_data = [], p1_old = [], p1_new = [], p1_changed = False\<rparr>)"

section \<open>Checks\<close>

text \<open>Step 1: the role and the shape of the request.\<close>

definition correctionRefusal :: "oc_dto \<Rightarrow> jwt_user \<Rightarrow> oc_reason error option" where
  "correctionRefusal dto user =
     (if ju_role user \<noteq> ADMIN then Some (Forbidden OC_AdminOnly)
      else if co_action dto = Some CORRECT_RECORDED_STATUS then Some (BadRequest OC_StatusActionDisabled)
      else if co_action dto = Some REOPEN_WORKFLOW \<and> co_reopenTargetStatus dto = None
        then Some (BadRequest OC_TargetRequired)
      else if co_action dto = Some REOPEN_WORKFLOW \<and> co_items dto \<noteq> [] then Some (BadRequest OC_ReopenWithItems)
      else if co_reopenTargetStatus dto \<noteq> None \<and> co_action dto \<noteq> Some REOPEN_WORKFLOW
        then Some (BadRequest OC_TargetWithoutReopen)
      else if co_items dto = [] \<and> co_action dto \<noteq> Some REOPEN_WORKFLOW then Some (BadRequest OC_ItemsRequired)
      else None)"

text \<open>Steps 2 to 3.5: the row and the evidence attachment.\<close>

definition rowRefusal :: "db \<Rightarrow> ident \<Rightarrow> oc_dto \<Rightarrow> transaction \<Rightarrow> oc_reason error option" where
  "rowRefusal d i dto tx =
     (if status tx \<noteq> COMPLETED \<and> status tx \<noteq> CANCELLED then Some (BadRequest OC_NotTerminal)
      else if co_action dto = Some REOPEN_WORKFLOW \<and> isVoided tx then Some (BadRequest OC_VoidedReopen)
      else if revision tx \<noteq> co_expectedRevision dto then Some (Conflict OC_StaleRevision)
      else case co_evidenceAttachmentId dto of
        None \<Rightarrow> None
      | Some aid \<Rightarrow>
          (case find_first (\<lambda>a. v_id a = aid \<and> v_transactionId a = i \<and> v_isCurrent a) (attachments d) of
             None \<Rightarrow> Some (BadRequest OC_EvidenceMissing)
           | Some a \<Rightarrow> if truthy_col (at_sha256 a) = None then Some (BadRequest OC_EvidenceUnverified) else None))"

text \<open>The weights and times the transaction would have.\<close>

definition proposed_weight :: "string \<Rightarrow> num option \<Rightarrow> (string \<times> cell) list \<Rightarrow> num option" where
  "proposed_weight f old data = (case map_of data f of None \<Rightarrow> old | Some (Json v) \<Rightarrow> js_number v | Some (Date t) \<Rightarrow> None)"

definition proposed_time :: "string \<Rightarrow> instant option \<Rightarrow> (string \<times> cell) list \<Rightarrow> instant option" where
  "proposed_time f old data = (case map_of data f of None \<Rightarrow> old | Some (Date t) \<Rightarrow> Some t | Some (Json v) \<Rightarrow> None)"

definition proposed_gross :: "transaction \<Rightarrow> (string \<times> cell) list \<Rightarrow> num option" where
  "proposed_gross tx = proposed_weight ''grossWeight'' (grossWeight tx)"

definition proposed_tare :: "transaction \<Rightarrow> (string \<times> cell) list \<Rightarrow> num option" where
  "proposed_tare tx = proposed_weight ''tareWeight'' (tareWeight tx)"

fun both_and :: "('a \<Rightarrow> 'a \<Rightarrow> bool) \<Rightarrow> 'a option \<Rightarrow> 'a option \<Rightarrow> bool" where
  "both_and r (Some a) (Some b) = r a b"
| "both_and r _ _ = False"

definition valueRefusal :: "oc_dto \<Rightarrow> transaction \<Rightarrow> pass1 \<Rightarrow> oc_reason error option" where
  "valueRefusal dto tx p =
     (if \<not> p1_changed p \<and> co_action dto = Some CORRECT_DATA then Some (BadRequest OC_NoOp)
      else if both_and (<) (proposed_gross tx (p1_data p)) (proposed_tare tx (p1_data p))
        then Some (BadRequest OC_GrossBelowTare)
      else if both_and (>) (proposed_time ''warehouseStartAt'' (warehouseStartAt tx) (p1_data p))
                (proposed_time ''warehouseEndAt'' (warehouseEndAt tx) (p1_data p))
        then Some (BadRequest OC_StartAfterEnd)
      else None)"

text \<open>Everything up to the correction header: what is read and decided, without a write.\<close>

record oc_plan =
  pl_tx :: transaction
  pl_roots :: "oc_item list"
  pl_groups :: "oc_group list"
  pl_pass1 :: pass1

definition planCorrection :: "client \<Rightarrow> db \<Rightarrow> ident \<Rightarrow> oc_dto \<Rightarrow> oc_reason error + oc_plan" where
  "planCorrection cl d i dto =
     (case find_tx d i of
        None \<Rightarrow> Inl (NotFound OC_NotFound)
      | Some tx \<Rightarrow>
          (case rowRefusal d i dto tx of
             Some e \<Rightarrow> Inl e
           | None \<Rightarrow>
               (case group_items cl d i (co_items dto) [] [] of
                  Inl e \<Rightarrow> Inl e
                | Inr (roots, groups) \<Rightarrow>
                    let p = evaluate cl tx roots groups
                    in (case valueRefusal dto tx p of
                          Some e \<Rightarrow> Inl e
                        | None \<Rightarrow> Inr \<lparr>pl_tx = tx, pl_roots = roots, pl_groups = groups, pl_pass1 = p\<rparr>))))"

end
