(* ===== verification/Gms_Weighbridge.thy ===== *)
theory Gms_Weighbridge
  imports Gms_Commit Gms_Calendar
begin

text \<open>
  The weighbridge (weighbridge/weighbridge.service.ts): the first and second weighing of a truck,
  the net weight and the comparison with the weight the warehouse measured, and the two read
  endpoints. Each handler reads the transaction first and does the rest later; \<open>..._at\<close> takes
  the row that was read and the database of the later moment.
\<close>

section \<open>Requests, reasons and responses\<close>

text \<open>WeighInDto and WeighOutDto, after validation (weight at least 0.01).\<close>

record weigh_dto =
  wd_weight :: num
  wd_ticketNumber :: "string field"
  wd_remarks :: "string field"

datatype wb_reason =
    WB_NotFound
  | WB_Final transaction_status
  | WB_NotRegistered transaction_status
  | WB_AlreadyWeighedIn
  | WB_AlreadyWeighedOut
  | WB_WeighedInConcurrently
  | WB_WeighedOutConcurrently
  | WB_NotInOutQueue transaction_status
  | WB_NoGrossWeight
  | WB_NoTareWeight
  | WB_TareNotBelowGross num num
  | WB_ConcurrencyConflict
  | WB_NotRetrieved

record weigh_view =
  wv_id :: ident
  wv_transactionNumber :: string
  wv_plateNumber :: string
  wv_processType :: process_type
  wv_status :: transaction_status
  wv_grossWeight :: "num option"
  wv_tareWeight :: "num option"
  wv_netWeight :: "num option"
  wv_at :: "instant option"
  wv_by :: "(ident \<times> string \<times> role) option"

definition weigh_record ::
  "ident \<Rightarrow> weighbridge_type \<Rightarrow> weigh_dto \<Rightarrow> jwt_user \<Rightarrow> instant \<Rightarrow> db \<Rightarrow> weighbridge_record"
where
  "weigh_record i ty dto user now d =
     \<lparr>v_id = nextId d, v_transactionId = i, v_createdAt = now, v_isCurrent = True, v_supersededAt = None,
      v_supersededByCorrectionId = None, v_revision = next_wr_revision i ty d, wr_type = ty,
      wr_weight = wd_weight dto, wr_ticketNumber = truthy_str (wd_ticketNumber dto),
      wr_operatorId = Some (ju_id user), wr_remarks = truthy_str (wd_remarks dto)\<rparr>"

definition wb_audit :: "jwt_user \<Rightarrow> string \<Rightarrow> ident option \<Rightarrow> jsv \<Rightarrow> instant \<Rightarrow> db \<Rightarrow> db" where
  "wb_audit user action ref desc now = audit (ju_id user) action ''WEIGHBRIDGE'' ref (Some desc) ''SUCCESS'' now"

section \<open>Weigh-in\<close>

text \<open>The checks before the weights: the log they leave and the exception, if any.\<close>

definition weighInRefusal ::
  "transaction \<Rightarrow> ident \<Rightarrow> jwt_user \<Rightarrow> instant \<Rightarrow> db \<Rightarrow> (db \<times> wb_reason error) option"
where
  "weighInRefusal tx i user now d =
     (if status tx = CANCELLED \<or> status tx = COMPLETED then
        Some (wb_audit user ''WEIGHBRIDGE_FLOW_REJECTED'' (Some i)
                (JStr (''Weigh-in rejected: Transaction is already '' @ status_name (status tx))) now d,
              BadRequest (WB_Final (status tx)))
      else if status tx \<noteq> REGISTERED then
        Some (wb_audit user ''WEIGHBRIDGE_FLOW_REJECTED'' (Some i)
                (JStr (''Weigh-in rejected: Current status is '' @ status_name (status tx) @
                  '', expected REGISTERED'')) now d,
              BadRequest (WB_NotRegistered (status tx)))
      else if find_first (current_wr i IN) (weighbridgeRecords d) \<noteq> None then
        Some (wb_audit user ''WEIGHBRIDGE_DUPLICATE_REJECTED'' (Some i)
                (JStr (''Duplicate weigh-in attempt rejected for transaction '' @ decimal i)) now d,
              BadRequest WB_AlreadyWeighedIn)
      else None)"

text \<open>Gross weight, tare weight and next status; a laden truck is weighed in gross, an empty one tare.\<close>

fun weighInWeights :: "process_type \<Rightarrow> num \<Rightarrow> num option \<times> num option \<times> transaction_status" where
  "weighInWeights GBJ w = (None, Some w, QC_VEHICLE_PENDING)"
| "weighInWeights _ w = (Some w, None, QC_VEHICLE_PENDING)"

text \<open>The data of the claim.\<close>

definition weighedIn ::
  "transaction \<Rightarrow> num option \<Rightarrow> num option \<Rightarrow> transaction_status \<Rightarrow> jwt_user \<Rightarrow> instant \<Rightarrow> transaction \<Rightarrow> transaction"
where
  "weighedIn tx gross tare nextStatus user now t =
     t\<lparr>status := nextStatus, weighInAt := Some now, weighInById := Some (ju_id user),
       revision := revision t + 1, grossWeight := opt_or gross (grossWeight t),
       tareWeight := opt_or tare (tareWeight t),
       qcStartAt := (if nextStatus = QC_VEHICLE_PENDING \<and> qcStartAt tx = None then Some now else qcStartAt t)\<rparr>"

definition weighInCommit ::
  "transaction \<Rightarrow> ident \<Rightarrow> weigh_dto \<Rightarrow> jwt_user \<Rightarrow> instant \<Rightarrow> db \<Rightarrow> wb_reason error + db"
where
  "weighInCommit tx i dto user now d =
     (case weighInWeights (processType tx) (wd_weight dto) of (gross, tare, nextStatus) \<Rightarrow>
      if find_first (current_wr i IN) (weighbridgeRecords d) \<noteq> None
        then Inl (BadRequest WB_WeighedInConcurrently)
      else
        let d1 = add_weighbridge (weigh_record i IN dto user now d) d
        in case assertValidStatusTransition (status tx) nextStatus of
             Some e \<Rightarrow> Inl e
           | None \<Rightarrow>
               let (d2, n) = claim i (\<lambda>t. status t = REGISTERED \<and> revision t = revision tx)
                     (weighedIn tx gross tare nextStatus user now) d1
               in if n \<noteq> 1 then Inl (Conflict WB_ConcurrencyConflict)
                  else Inr (add_history i (Some (status tx)) nextStatus (Some (ju_id user))
                         (Some (str_or (wd_remarks dto) ''Weigh-in processed successfully'')) now d2))"

definition weighView :: "db \<Rightarrow> transaction \<Rightarrow> instant option \<Rightarrow> ident option \<Rightarrow> weigh_view" where
  "weighView d t at_time by_id =
     \<lparr>wv_id = tx_id t, wv_transactionNumber = transactionNumber t, wv_plateNumber = plateNumber t,
      wv_processType = processType t, wv_status = status t, wv_grossWeight = grossWeight t,
      wv_tareWeight = tareWeight t, wv_netWeight = netWeight t, wv_at = at_time, wv_by = user_ref d by_id\<rparr>"

definition submitWeighIn_at ::
  "transaction \<Rightarrow> ident \<Rightarrow> weigh_dto \<Rightarrow> jwt_user \<Rightarrow> instant \<Rightarrow> db \<Rightarrow> (wb_reason, weigh_view) outcome"
where
  "submitWeighIn_at tx i dto user now d =
     (case weighInRefusal tx i user now d of
        Some (d', e) \<Rightarrow> (d', Inl e)
      | None \<Rightarrow>
          (case weighInCommit tx i dto user now d of
             Inl e \<Rightarrow> (d, Inl e)
           | Inr d' \<Rightarrow>
               (case find_tx d' i of
                  None \<Rightarrow> (d', Inl (BadRequest WB_NotRetrieved))
                | Some t \<Rightarrow>
                    (wb_audit user ''WEIGHBRIDGE_IN'' (Some i)
                       (JObj ([(''weight'', JNum (wd_weight dto))] @ json_str ''ticketNumber'' (wd_ticketNumber dto)
                              @ json_str ''remarks'' (wd_remarks dto))) now d',
                     Inr (weighView d' t (weighInAt t) (weighInById t))))))"

definition submitWeighIn ::
  "db \<Rightarrow> ident \<Rightarrow> weigh_dto \<Rightarrow> jwt_user \<Rightarrow> instant \<Rightarrow> (wb_reason, weigh_view) outcome"
where
  "submitWeighIn d i dto user now =
     (case find_tx d i of
        None \<Rightarrow> (d, Inl (NotFound WB_NotFound))
      | Some tx \<Rightarrow> submitWeighIn_at tx i dto user now d)"

lemma same_data_wb_audit [simp]: "same_data d (wb_audit user a r desc now d)"
  by (simp add: wb_audit_def)

lemma weighInWeights_next: "weighInWeights p w = (g, ta, s) \<Longrightarrow> s = QC_VEHICLE_PENDING"
  by (cases p) auto

lemma weigh_record_simps [simp]:
  "v_transactionId (weigh_record i ty dto user now d) = i" "wr_type (weigh_record i ty dto user now d) = ty"
  "v_isCurrent (weigh_record i ty dto user now d)" "wr_weight (weigh_record i ty dto user now d) = wd_weight dto"
  "v_revision (weigh_record i ty dto user now d) = next_wr_revision i ty d"
  "v_id (weigh_record i ty dto user now d) = nextId d"
  by (simp_all add: weigh_record_def)

lemma weighedIn_simps [simp]:
  "tx_key (weighedIn tx g ta s user now t) = tx_key t" "status (weighedIn tx g ta s user now t) = s"
  "revision (weighedIn tx g ta s user now t) = Suc (revision t)"
  "processType (weighedIn tx g ta s user now t) = processType t"
  "isVoided (weighedIn tx g ta s user now t) = isVoided t"
  by (simp_all add: weighedIn_def tx_key_def)

text \<open>What a committed weigh-in does, to the row and to the truck.\<close>

lemma weighIn_commit:
  assumes "weighInCommit tx i dto user now d = Inr d'" "db_ok d" "snapshot_ok tx i d"
  shows "find_tx d i = Some tx \<and>
    (case weighInWeights (processType tx) (wd_weight dto) of (g, ta, s) \<Rightarrow>
       find_tx d' i = Some (weighedIn tx g ta s user now tx)) \<and>
    status tx = REGISTERED \<and> commit_step i d d' \<and> users d' = users d"
proof -
  obtain g ta where w: "weighInWeights (processType tx) (wd_weight dto) = (g, ta, QC_VEHICLE_PENDING)"
    by (cases "processType tx") auto
  obtain d2 where none: "find_first (current_wr i IN) (weighbridgeRecords d) = None"
    and c: "claim i (\<lambda>t. status t = REGISTERED \<and> revision t = revision tx)
      (weighedIn tx g ta QC_VEHICLE_PENDING user now) (add_weighbridge (weigh_record i IN dto user now d) d) = (d2, 1)"
    and d': "d' = add_history i (Some (status tx)) QC_VEHICLE_PENDING (Some (ju_id user))
      (Some (str_or (wd_remarks dto) ''Weigh-in processed successfully'')) now d2"
    using assms(1) by (auto simp: weighInCommit_def w Let_def split: if_splits option.splits prod.splits)
  have ok: "tx_ids_distinct d" "revs_ok d" using assms(2) by (auto simp: db_ok_def)
  let ?g = "\<lambda>t. status t = REGISTERED \<and> revision t = revision tx"
  let ?d1 = "add_weighbridge (weigh_record i IN dto user now d) d"
  let ?f = "weighedIn tx g ta QC_VEHICLE_PENDING user now"
  have cl: "find_tx ?d1 i = Some tx \<and> ?g tx \<and> find_tx d2 i = Some (?f tx) \<and> local_to i ?d1 d2 \<and> row_only ?d1 d2"
    by (rule claimed [OF c refl]) (use ok(1) assms(3) in \<open>simp_all add: snapshot_ok_def\<close>)
  note row = row_only [OF cl [THEN conjunct2, THEN conjunct2, THEN conjunct2, THEN conjunct2]]
  have loc: "local_to i d d2" using cl local_to_trans [OF local_to_rows(1) [OF weigh_record_simps(1)]] by blast
  have "commit_step i d d'"
  proof (rule commitI)
    show "local_to i d d'"
      unfolding d' by (intro local_back loc)
    have "revs_ok ?d1" using ok(2) by (simp add: revs_ok_rows)
    then show "revs_ok d'" by (simp add: d' row)
    show "find_tx d i = Some tx" "find_tx d' i = Some (?f tx)" using cl by (simp_all add: d')
    show "truck_for d' i (?f tx) =
        (move QC_VEHICLE_PENDING (truck_for d i tx))\<lparr>tk_in := Suc (tk_in (truck_for d i tx))\<rparr>"
      using cl by (simp add: d' row move_def bump_def) (simp add: truck_for_def)
    show "truck_step (truck_for d i tx)
        ((move QC_VEHICLE_PENDING (truck_for d i tx))\<lparr>tk_in := Suc (tk_in (truck_for d i tx))\<rparr>)"
      using cl none by (intro truck_step.weigh_in) (simp_all add: no_current_iff [of i d tx])
  qed
  with cl show ?thesis by (simp add: w d' row)
qed

text \<open>
  The handler, on the row it read and the database of the commit: it commits one weigh-in or
  leaves everything but the log alone.
\<close>

lemma weighInRefusal_same: "weighInRefusal tx i user now d = Some (d', e) \<Longrightarrow> same_data d d'"
  by (auto simp: weighInRefusal_def split: if_splits)

lemma submitWeighIn_at_commits:
  assumes "db_ok d" "snapshot_ok tx i d"
  shows "commits tx i d (submitWeighIn_at tx i dto user now d)"
proof (cases "weighInRefusal tx i user now d")
  case None
  then show ?thesis unfolding submitWeighIn_at_def
    by (simp add: commits_respond weighIn_commit [OF _ assms])
next
  case (Some r)
  then show ?thesis by (cases r) (simp add: submitWeighIn_at_def weighInRefusal_same)
qed

lemma submitWeighIn_at_success:
  assumes "submitWeighIn_at tx i dto user now d = (d', Inr v)"
  shows "\<exists>d1 t. weighInCommit tx i dto user now d = Inr d1 \<and> find_tx d1 i = Some t \<and> same_data d1 d' \<and>
    v = weighView d1 t (weighInAt t) (weighInById t)"
proof (cases "weighInRefusal tx i user now d")
  case None
  then show ?thesis using respond_Inr [OF assms [unfolded submitWeighIn_at_def None option.case] same_data_wb_audit] by blast
next
  case (Some r)
  then show ?thesis using assms by (cases r) (simp add: submitWeighIn_at_def)
qed

section \<open>Weigh-out\<close>

fun weighOutStatuses :: "process_type \<Rightarrow> transaction_status list" where
  "weighOutStatuses GBJ = [WAREHOUSE_DONE, QC_VEHICLE_REJECTED]"
| "weighOutStatuses _ = [INCOMING_CHECK_PASSED, INCOMING_CHECK_REJECTED, QC_VEHICLE_REJECTED, WAREHOUSE_DONE]"

fun join_comma :: "string list \<Rightarrow> string" where
  "join_comma [] = []"
| "join_comma [x] = x"
| "join_comma (x # xs) = x @ '', '' @ join_comma xs"

definition weighOutRefusal ::
  "transaction \<Rightarrow> ident \<Rightarrow> jwt_user \<Rightarrow> instant \<Rightarrow> db \<Rightarrow> (db \<times> wb_reason error) option"
where
  "weighOutRefusal tx i user now d =
     (if status tx = CANCELLED \<or> status tx = COMPLETED then
        Some (wb_audit user ''WEIGHBRIDGE_FLOW_REJECTED'' (Some i)
                (JStr (''Weigh-out rejected: Transaction is already '' @ status_name (status tx))) now d,
              BadRequest (WB_Final (status tx)))
      else if status tx \<notin> set (weighOutStatuses (processType tx)) then
        Some (wb_audit user ''WEIGHBRIDGE_FLOW_REJECTED'' (Some i)
                (JStr (''Weigh-out rejected: Current status is '' @ status_name (status tx) @
                  '', expected one of '' @
                  join_comma (map status_name (weighOutStatuses (processType tx))))) now d,
              BadRequest (WB_NotInOutQueue (status tx)))
      else if find_first (current_wr i OUT) (weighbridgeRecords d) \<noteq> None then
        Some (wb_audit user ''WEIGHBRIDGE_DUPLICATE_REJECTED'' (Some i)
                (JStr (''Duplicate weigh-out attempt rejected for transaction '' @ decimal i)) now d,
              BadRequest WB_AlreadyWeighedOut)
      else None)"

text \<open>Final gross and tare weight.\<close>

definition weighOutWeights :: "transaction \<Rightarrow> ident \<Rightarrow> weigh_dto \<Rightarrow> db \<Rightarrow> wb_reason error + num \<times> num" where
  "weighOutWeights tx i dto d =
     (if processType tx = GBB \<or> processType tx = GSP then
        (case opt_or (grossWeight tx)
                (map_option wr_weight (find_first (current_wr i IN) (weighbridgeRecords d))) of
           None \<Rightarrow> Inl (BadRequest WB_NoGrossWeight)
         | Some gross \<Rightarrow> Inr (gross, wd_weight dto))
      else
        (case tareWeight tx of
           None \<Rightarrow> Inl (BadRequest WB_NoTareWeight)
         | Some tare \<Rightarrow> Inr (wd_weight dto, tare)))"

definition isRejected :: "transaction_status \<Rightarrow> bool" where
  "isRejected s \<longleftrightarrow> s = INCOMING_CHECK_REJECTED \<or> s = QC_VEHICLE_REJECTED"

definition weighOutNet :: "transaction_status \<Rightarrow> num \<Rightarrow> num \<Rightarrow> wb_reason error + num" where
  "weighOutNet s gross tare =
     (if \<not> isRejected s \<and> gross \<le> tare then Inl (BadRequest (WB_TareNotBelowGross tare gross))
      else Inr (if isRejected s then max 0 (js_sub gross tare) else js_sub gross tare))"

text \<open>The comparison with the weight measured in the warehouse: deviation, percentage and risk.\<close>

definition deviation :: "num \<Rightarrow> num \<Rightarrow> num" where
  "deviation net actual = \<bar>js_sub net actual\<bar>"

definition deviationPercent :: "num \<Rightarrow> num \<Rightarrow> num" where
  "deviationPercent net actual = (if 0 < net then js_mul (js_div (deviation net actual) net) 100 else 0)"

definition riskLevel :: "num \<Rightarrow> risk_level" where
  "riskLevel percent = (if 5 < percent then CRITICAL_RISK else if 2 < percent then WARNING else SAFE)"

fun risk_name :: "risk_level \<Rightarrow> string" where
  "risk_name PENDING_DATA = ''PENDING_DATA''"
| "risk_name SAFE = ''SAFE''"
| "risk_name WARNING = ''WARNING''"
| "risk_name CRITICAL_RISK = ''CRITICAL''"
| "risk_name INVALID_DATA = ''INVALID_DATA''"

definition weighOutFraud :: "transaction \<Rightarrow> ident \<Rightarrow> num \<Rightarrow> jwt_user \<Rightarrow> instant \<Rightarrow> db \<Rightarrow> db" where
  "weighOutFraud tx i net user now d =
     (case actualWeight tx of
        None \<Rightarrow> d
      | Some actual \<Rightarrow>
          let pct = deviationPercent net actual; risk = riskLevel pct;
              d1 = d\<lparr>fraudChecks := fraudChecks d @
                     [\<lparr>fc_id = nextId d, fc_transactionId = i, fc_riskLevel = risk,
                       fc_deviationKg = deviation net actual, fc_deviationPercent = pct, fc_createdAt = now\<rparr>],
                     nextId := Suc (nextId d)\<rparr>
          in if risk \<noteq> SAFE then
               audit (ju_id user) ''FRAUD_DETECTED'' ''SECURITY'' (Some i)
                 (Some (JObj [(''riskLevel'', JStr (risk_name risk)), (''deviationPercent'', JNum pct),
                              (''deviation'', JNum (deviation net actual)), (''netWeight'', JNum net),
                              (''actualWeight'', JNum actual)])) ''SUCCESS'' now d1
             else d1)"

definition weighedOut :: "num \<Rightarrow> num \<Rightarrow> num \<Rightarrow> jwt_user \<Rightarrow> instant \<Rightarrow> transaction \<Rightarrow> transaction" where
  "weighedOut gross tare net user now t =
     t\<lparr>status := WEIGH_OUT_DONE, weighOutAt := Some now, weighOutById := Some (ju_id user),
       grossWeight := Some gross, tareWeight := Some tare, netWeight := Some net,
       revision := revision t + 1\<rparr>"

definition weighOutCommit ::
  "transaction \<Rightarrow> ident \<Rightarrow> weigh_dto \<Rightarrow> num \<Rightarrow> num \<Rightarrow> num \<Rightarrow> jwt_user \<Rightarrow> instant \<Rightarrow> db \<Rightarrow> wb_reason error + db"
where
  "weighOutCommit tx i dto gross tare net user now d =
     (if find_first (current_wr i OUT) (weighbridgeRecords d) \<noteq> None
        then Inl (BadRequest WB_WeighedOutConcurrently)
      else
        let d1 = add_weighbridge (weigh_record i OUT dto user now d) d
        in case assertValidStatusTransition (status tx) WEIGH_OUT_DONE of
             Some e \<Rightarrow> Inl e
           | None \<Rightarrow>
               let (d2, n) = claim i (\<lambda>t. status t = status tx \<and> revision t = revision tx)
                     (weighedOut gross tare net user now) d1
               in if n \<noteq> 1 then Inl (Conflict WB_ConcurrencyConflict)
                  else Inr (weighOutFraud tx i net user now
                         (add_history i (Some (status tx)) WEIGH_OUT_DONE (Some (ju_id user))
                            (Some (str_or (wd_remarks dto) ''Weigh-out processed successfully'')) now d2)))"

text \<open>Refusals and weights before the transaction: log and exception, or gross, tare and net.\<close>

definition weighOutPrepare ::
  "transaction \<Rightarrow> ident \<Rightarrow> weigh_dto \<Rightarrow> jwt_user \<Rightarrow> instant \<Rightarrow> db \<Rightarrow> db \<times> (wb_reason error + num \<times> num \<times> num)"
where
  "weighOutPrepare tx i dto user now d =
     (case weighOutRefusal tx i user now d of
        Some (d', e) \<Rightarrow> (d', Inl e)
      | None \<Rightarrow>
          (d, case weighOutWeights tx i dto d of
                Inl e \<Rightarrow> Inl e
              | Inr (gross, tare) \<Rightarrow>
                  (case weighOutNet (status tx) gross tare of
                     Inl e \<Rightarrow> Inl e
                   | Inr net \<Rightarrow> Inr (gross, tare, net))))"

definition submitWeighOut_at ::
  "transaction \<Rightarrow> ident \<Rightarrow> weigh_dto \<Rightarrow> jwt_user \<Rightarrow> instant \<Rightarrow> db \<Rightarrow> (wb_reason, weigh_view) outcome"
where
  "submitWeighOut_at tx i dto user now d =
     (case weighOutPrepare tx i dto user now d of
        (d', Inl e) \<Rightarrow> (d', Inl e)
      | (_, Inr (gross, tare, net)) \<Rightarrow>
          (case weighOutCommit tx i dto gross tare net user now d of
             Inl e \<Rightarrow> (d, Inl e)
           | Inr d' \<Rightarrow>
               (case find_tx d' i of
                  None \<Rightarrow> (d', Inl (BadRequest WB_NotRetrieved))
                | Some t \<Rightarrow>
                    (wb_audit user ''WEIGHBRIDGE_OUT'' (Some i)
                       (JObj ([(''weight'', JNum (wd_weight dto))] @ json_str ''ticketNumber'' (wd_ticketNumber dto)
                              @ json_str ''remarks'' (wd_remarks dto) @ [(''netWeight'', JNum net)])) now d',
                     Inr (weighView d' t (weighOutAt t) (weighOutById t))))))"

definition submitWeighOut ::
  "db \<Rightarrow> ident \<Rightarrow> weigh_dto \<Rightarrow> jwt_user \<Rightarrow> instant \<Rightarrow> (wb_reason, weigh_view) outcome"
where
  "submitWeighOut d i dto user now =
     (case find_tx d i of
        None \<Rightarrow> (d, Inl (NotFound WB_NotFound))
      | Some tx \<Rightarrow> submitWeighOut_at tx i dto user now d)"

lemma weighedOut_simps [simp]:
  "tx_key (weighedOut g ta n user now t) = tx_key t" "status (weighedOut g ta n user now t) = WEIGH_OUT_DONE"
  "revision (weighedOut g ta n user now t) = Suc (revision t)"
  "processType (weighedOut g ta n user now t) = processType t"
  "isVoided (weighedOut g ta n user now t) = isVoided t"
  "grossWeight (weighedOut g ta n user now t) = Some g" "tareWeight (weighedOut g ta n user now t) = Some ta"
  "netWeight (weighedOut g ta n user now t) = Some n"
  by (simp_all add: weighedOut_def tx_key_def)

lemma weighOutFraud_frame [simp]:
  "find_tx (weighOutFraud tx i net user now d) j = find_tx d j"
  "truck_for (weighOutFraud tx i net user now d) = truck_for d"
  "revs_ok d \<Longrightarrow> revs_ok (weighOutFraud tx i net user now d)"
  "weighbridgeRecords (weighOutFraud tx i net user now d) = weighbridgeRecords d"
  by (auto simp: weighOutFraud_def Let_def revs_ok_same [of d] split: option.splits)

lemma local_to_fraud: "local_to j d (weighOutFraud tx i net user now d)"
  by (auto simp: local_to_def weighOutFraud_def Let_def split: option.splits)

lemma weighOutStatuses_spec: "weighOutStatuses p = weigh_out_from p"
  by (cases p) auto

lemma weighOut_commit:
  assumes "weighOutCommit tx i dto gross tare net user now d = Inr d'" "db_ok d" "snapshot_ok tx i d"
    and "status tx \<in> set (weighOutStatuses (processType tx))"
  shows "find_tx d i = Some tx \<and> find_tx d' i = Some (weighedOut gross tare net user now tx) \<and>
    weighbridgeRecords d' = weighbridgeRecords d @ [weigh_record i OUT dto user now d] \<and> commit_step i d d'"
proof -
  let ?g = "\<lambda>t. status t = status tx \<and> revision t = revision tx"
  let ?d1 = "add_weighbridge (weigh_record i OUT dto user now d) d"
  let ?f = "weighedOut gross tare net user now"
  obtain d2 where none: "find_first (current_wr i OUT) (weighbridgeRecords d) = None"
    and c: "claim i ?g ?f ?d1 = (d2, 1)"
    and d': "d' = weighOutFraud tx i net user now (add_history i (Some (status tx)) WEIGH_OUT_DONE
      (Some (ju_id user)) (Some (str_or (wd_remarks dto) ''Weigh-out processed successfully'')) now d2)"
    using assms(1) by (auto simp: weighOutCommit_def Let_def split: if_splits option.splits prod.splits)
  have ok: "tx_ids_distinct d" "revs_ok d" using assms(2) by (auto simp: db_ok_def)
  have cl: "find_tx ?d1 i = Some tx \<and> ?g tx \<and> find_tx d2 i = Some (?f tx) \<and> local_to i ?d1 d2 \<and> row_only ?d1 d2"
    by (rule claimed [OF c refl]) (use ok(1) assms(3) in \<open>simp_all add: snapshot_ok_def\<close>)
  note row = row_only [OF cl [THEN conjunct2, THEN conjunct2, THEN conjunct2, THEN conjunct2]]
  have loc: "local_to i d d2" using cl local_to_trans [OF local_to_rows(1) [OF weigh_record_simps(1)]] by blast
  have "commit_step i d d'"
  proof (rule commitI)
    show "local_to i d d'"
      unfolding d' by (intro local_to_trans [OF _ local_to_fraud] local_back loc)
    have "revs_ok ?d1" using ok(2) by (simp add: revs_ok_rows)
    then show "revs_ok d'" by (simp add: d' row)
    show "find_tx d i = Some tx" "find_tx d' i = Some (?f tx)" using cl by (simp_all add: d')
    show "truck_for d' i (?f tx) =
        (move WEIGH_OUT_DONE (truck_for d i tx))\<lparr>tk_out := Suc (tk_out (truck_for d i tx))\<rparr>"
      using cl by (simp add: d' row move_def bump_def) (simp add: truck_for_def)
    show "truck_step (truck_for d i tx)
        ((move WEIGH_OUT_DONE (truck_for d i tx))\<lparr>tk_out := Suc (tk_out (truck_for d i tx))\<rparr>)"
      using assms(4) none
      by (intro truck_step.weigh_out) (simp_all add: no_current_iff [of i d tx] weighOutStatuses_spec)
  qed
  with cl show ?thesis by (simp add: d' row add_weighbridge_def)
qed

lemma weighOutRefusal_same: "weighOutRefusal tx i user now d = Some (d', e) \<Longrightarrow> same_data d d'"
  by (auto simp: weighOutRefusal_def split: if_splits)

lemma weighOutRefusal_None:
  "weighOutRefusal tx i user now d = None \<Longrightarrow> status tx \<in> set (weighOutStatuses (processType tx))"
  by (auto simp: weighOutRefusal_def split: if_splits)

lemma weighOutPrepare_Inl: "weighOutPrepare tx i dto user now d = (d', Inl e) \<Longrightarrow> same_data d d'"
  by (auto simp: weighOutPrepare_def dest: weighOutRefusal_same split: option.splits)

lemma weighOutPrepare_Inr:
  "weighOutPrepare tx i dto user now d = (d', Inr (g, ta, n)) \<Longrightarrow>
     status tx \<in> set (weighOutStatuses (processType tx)) \<and> weighOutWeights tx i dto d = Inr (g, ta) \<and>
     weighOutNet (status tx) g ta = Inr n"
  by (auto simp: weighOutPrepare_def dest: weighOutRefusal_None split: option.splits sum.splits prod.splits)

lemma submitWeighOut_at_commits:
  assumes "db_ok d" "snapshot_ok tx i d"
  shows "commits tx i d (submitWeighOut_at tx i dto user now d)"
proof -
  obtain d' r where p: "weighOutPrepare tx i dto user now d = (d', r)" by fastforce
  show ?thesis
  proof (cases r)
    case (Inl e)
    then show ?thesis using p by (simp add: submitWeighOut_at_def weighOutPrepare_Inl)
  next
    case (Inr w)
    obtain g ta n where w: "w = (g, ta, n)" by (cases w)
    show ?thesis
      using weighOut_commit [OF _ assms] weighOutPrepare_Inr [OF p [unfolded Inr w]]
      by (simp add: submitWeighOut_at_def p Inr w commits_respond)
  qed
qed

lemma submitWeighOut_at_success:
  assumes "submitWeighOut_at tx i dto user now d = (d', Inr v)"
  shows "\<exists>g ta n d1 t. status tx \<in> set (weighOutStatuses (processType tx)) \<and>
    weighOutWeights tx i dto d = Inr (g, ta) \<and> weighOutNet (status tx) g ta = Inr n \<and>
    weighOutCommit tx i dto g ta n user now d = Inr d1 \<and> find_tx d1 i = Some t \<and> same_data d1 d' \<and>
    v = weighView d1 t (weighOutAt t) (weighOutById t)"
proof -
  obtain d0 r where p: "weighOutPrepare tx i dto user now d = (d0, r)" by fastforce
  show ?thesis
  proof (cases r)
    case (Inl e)
    then show ?thesis using p assms by (simp add: submitWeighOut_at_def)
  next
    case (Inr w)
    obtain g ta n where w: "w = (g, ta, n)" by (cases w)
    note a = assms [unfolded submitWeighOut_at_def p Inr w prod.case sum.case]
    have "\<exists>d1 t. weighOutCommit tx i dto g ta n user now d = Inr d1 \<and> find_tx d1 i = Some t \<and> same_data d1 d' \<and>
        v = weighView d1 t (weighOutAt t) (weighOutById t)"
      by (rule respond_Inr [OF a same_data_wb_audit])
    then show ?thesis using weighOutPrepare_Inr [OF p [unfolded Inr w]] by blast
  qed
qed

section \<open>Queue and detail\<close>

text \<open>WeighbridgeQueryDto, with the dates as the instants they denote.\<close>

record wb_query =
  wq_page :: nat
  wq_limit :: nat
  wq_search :: "string option"
  wq_processType :: "process_type option"
  wq_type :: "weighbridge_type option"
  wq_startDate :: "instant option"
  wq_endDate :: "instant option"

definition outQueueStatus :: "transaction \<Rightarrow> bool" where
  "outQueueStatus t \<longleftrightarrow> (processType t, status t) \<in> set
     [(GBB, INCOMING_CHECK_PASSED), (GBB, INCOMING_CHECK_REJECTED), (GBB, QC_VEHICLE_REJECTED), (GBB, WAREHOUSE_DONE),
      (GSP, INCOMING_CHECK_PASSED), (GSP, INCOMING_CHECK_REJECTED), (GSP, QC_VEHICLE_REJECTED), (GSP, WAREHOUSE_DONE),
      (GBJ, WAREHOUSE_DONE), (GBJ, QC_VEHICLE_REJECTED)]"

definition queueStatus :: "weighbridge_type option \<Rightarrow> transaction \<Rightarrow> bool" where
  "queueStatus ty t = (case ty of
       Some IN \<Rightarrow> status t = REGISTERED
     | Some OUT \<Rightarrow> outQueueStatus t
     | None \<Rightarrow> status t = REGISTERED \<or> outQueueStatus t)"

definition weighbridgeWhere :: "int \<Rightarrow> wb_query \<Rightarrow> transaction \<Rightarrow> bool" where
  "weighbridgeWhere tz q t \<longleftrightarrow>
     status t \<notin> {COMPLETED, CANCELLED} \<and>
     (case truthy_col (wq_search q) of None \<Rightarrow> True
      | Some s \<Rightarrow> contains_ci (transactionNumber t) s \<or> contains_ci (plateNumber t) s) \<and>
     (case wq_processType q of None \<Rightarrow> True | Some p \<Rightarrow> processType t = p) \<and>
     within_dates tz (wq_startDate q) (wq_endDate q) (createdAt t) \<and>
     queueStatus (wq_type q) t"

definition weighbridgeQueue ::
  "db \<Rightarrow> int \<Rightarrow> wb_query \<Rightarrow> jwt_user \<Rightarrow> instant \<Rightarrow>
     db \<times> (transaction \<times> weighbridge_record list) list \<times> page_meta"
where
  "weighbridgeQueue d tz q user now =
     (let (rows, meta) = find_page (wq_page q) (wq_limit q) (weighbridgeWhere tz q) createdAt (transactions d)
      in (wb_audit user ''WEIGHBRIDGE_QUEUE_VIEW'' None
            (JStr (''User '' @ ju_email user @ '' viewed weighbridge queue'')) now d,
          map (\<lambda>t. (t, filter (current_row (tx_id t)) (weighbridgeRecords d))) rows, meta))"

record wb_detail =
  wb_tx :: transaction
  wb_weighInTicketNumber :: "string option"
  wb_weighOutTicketNumber :: "string option"
  wb_weighInBy :: "(ident \<times> string \<times> role) option"
  wb_weighOutBy :: "(ident \<times> string \<times> role) option"
  wb_remarks :: "string option"

definition getRecordDetail :: "db \<Rightarrow> ident \<Rightarrow> jwt_user \<Rightarrow> instant \<Rightarrow> (wb_reason, wb_detail) outcome" where
  "getRecordDetail d i user now =
     (case find_tx d i of
        None \<Rightarrow> (d, Inl (NotFound WB_NotFound))
      | Some tx \<Rightarrow>
          let recs = sort_key v_createdAt (filter (current_row i) (weighbridgeRecords d));
              inRec = find_first (\<lambda>r. wr_type r = IN) recs;
              outRec = find_first (\<lambda>r. wr_type r = OUT) recs;
              column = (\<lambda>c r. case r of None \<Rightarrow> None | Some x \<Rightarrow> truthy_col (c x))
          in (wb_audit user ''WEIGHBRIDGE_RECORD_VIEW'' (Some i)
                (JStr (''User '' @ ju_email user @ '' viewed weighbridge record for '' @ transactionNumber tx)) now d,
              Inr \<lparr>wb_tx = tx, wb_weighInTicketNumber = column wr_ticketNumber inRec,
                   wb_weighOutTicketNumber = column wr_ticketNumber outRec,
                   wb_weighInBy = user_ref d (weighInById tx), wb_weighOutBy = user_ref d (weighOutById tx),
                   wb_remarks = opt_or (column wr_remarks outRec)
                     (opt_or (column wr_remarks inRec) (truthy_col (remarks tx)))\<rparr>))"

section \<open>Properties\<close>

text \<open>
  C11. A weigh-in that succeeds was made on a REGISTERED transaction; it moves exactly that
  transaction one step of the workflow, to QC_VEHICLE_PENDING, stores the measured weight as gross
  for GBB and GSP and as tare for GBJ without touching the other weight, and reports the stored row.
  One that fails changes nothing but the audit log.
\<close>
theorem submitWeighIn_correct:
  assumes "db_ok d"
  shows "case submitWeighIn d i dto user now of
      (d', Inl e) \<Rightarrow> same_data d d'
    | (d', Inr v) \<Rightarrow> \<exists>tx t. find_tx d i = Some tx \<and> status tx = REGISTERED \<and> commit_step i d d' \<and>
        find_tx d' i = Some t \<and> status t = QC_VEHICLE_PENDING \<and> weighInAt t = Some now \<and>
        (if processType tx = GBJ
         then tareWeight t = Some (wd_weight dto) \<and> grossWeight t = grossWeight tx
         else grossWeight t = Some (wd_weight dto) \<and> tareWeight t = tareWeight tx) \<and>
        wv_status v = QC_VEHICLE_PENDING \<and> wv_grossWeight v = grossWeight t \<and> wv_tareWeight v = tareWeight t"
proof (cases "find_tx d i")
  case None
  then show ?thesis by (simp add: submitWeighIn_def)
next
  case (Some tx)
  note snap = snapshot_current [OF Some]
  obtain d' r where r: "submitWeighIn_at tx i dto user now d = (d', r)" by fastforce
  have c: "commits tx i d (d', r)" using submitWeighIn_at_commits [OF assms snap] r by metis
  show ?thesis
  proof (cases r)
    case (Inl e)
    with c r Some show ?thesis by (simp add: submitWeighIn_def)
  next
    case (Inr v)
    obtain d1 t where c1: "weighInCommit tx i dto user now d = Inr d1" and t: "find_tx d1 i = Some t"
        and same: "same_data d1 d'" and v: "v = weighView d1 t (weighInAt t) (weighInById t)"
      using submitWeighIn_at_success [OF r [unfolded Inr]] by blast
    obtain g ta s where w: "weighInWeights (processType tx) (wd_weight dto) = (g, ta, s)" by (metis prod_cases3)
    have "t = weighedIn tx g ta s user now tx" "status tx = REGISTERED"
      using weighIn_commit [OF c1 assms snap] t by (auto simp: w)
    moreover have "find_tx d' i = Some t" using same_data_views(1) [OF same] t by simp
    moreover have "if processType tx = GBJ then g = None \<and> ta = Some (wd_weight dto) \<and> s = QC_VEHICLE_PENDING
        else g = Some (wd_weight dto) \<and> ta = None \<and> s = QC_VEHICLE_PENDING"
      using w by (cases "processType tx") auto
    ultimately show ?thesis
      using r Inr Some c v by (auto simp: submitWeighIn_def weighedIn_def weighView_def split: if_splits)
  qed
qed

text \<open>
  C8. A weigh-out that succeeds was made in one of the statuses of the out-queue, commits one step
  to WEIGH_OUT_DONE and stores gross, tare and net: net is the JavaScript difference of gross and
  tare, positive for an accepted load, and for a rejected one that difference or zero, never
  negative. One that fails changes nothing but the audit log.
\<close>
theorem submitWeighOut_correct:
  assumes "db_ok d"
  shows "case submitWeighOut d i dto user now of
      (d', Inl e) \<Rightarrow> same_data d d'
    | (d', Inr v) \<Rightarrow> \<exists>tx t gross tare net. find_tx d i = Some tx \<and>
        status tx \<in> set (weigh_out_from (processType tx)) \<and> commit_step i d d' \<and>
        find_tx d' i = Some t \<and> status t = WEIGH_OUT_DONE \<and>
        grossWeight t = Some gross \<and> tareWeight t = Some tare \<and> netWeight t = Some net \<and>
        (if processType tx = GBJ then gross = wd_weight dto \<and> tareWeight tx = Some tare
         else tare = wd_weight dto \<and> (grossWeight tx = None \<or> grossWeight tx = Some gross)) \<and>
        (if isRejected (status tx) then net = max 0 (js_sub gross tare) \<and> 0 \<le> net
         else net = js_sub gross tare \<and> 0 < net) \<and>
        wv_netWeight v = Some net"
proof (cases "find_tx d i")
  case None
  then show ?thesis by (simp add: submitWeighOut_def)
next
  case (Some tx)
  note snap = snapshot_current [OF Some]
  obtain d' r where r: "submitWeighOut_at tx i dto user now d = (d', r)" by fastforce
  have c: "commits tx i d (d', r)" using submitWeighOut_at_commits [OF assms snap] r by metis
  show ?thesis
  proof (cases r)
    case (Inl e)
    with c r Some show ?thesis by (simp add: submitWeighOut_def)
  next
    case (Inr v)
    obtain g ta n d1 t where st: "status tx \<in> set (weighOutStatuses (processType tx))"
        and w: "weighOutWeights tx i dto d = Inr (g, ta)" and n: "weighOutNet (status tx) g ta = Inr n"
        and c1: "weighOutCommit tx i dto g ta n user now d = Inr d1" and t: "find_tx d1 i = Some t"
        and same: "same_data d1 d'" and v: "v = weighView d1 t (weighOutAt t) (weighOutById t)"
      using submitWeighOut_at_success [OF r [unfolded Inr]] by blast
    have tt: "t = weighedOut g ta n user now tx" using weighOut_commit [OF c1 assms snap st] t by simp
    have "find_tx d' i = Some t" using same_data_views(1) [OF same] t by simp
    moreover have "if processType tx = GBJ then g = wd_weight dto \<and> tareWeight tx = Some ta
         else ta = wd_weight dto \<and> (grossWeight tx = None \<or> grossWeight tx = Some g)"
      using w by (cases "processType tx"; cases "grossWeight tx") (auto simp: weighOutWeights_def split: option.splits)
    moreover have "if isRejected (status tx) then n = max 0 (js_sub g ta) \<and> 0 \<le> n else n = js_sub g ta \<and> 0 < n"
      using n by (auto simp: weighOutNet_def split: if_splits)
    ultimately show ?thesis
      using r Inr Some c v st tt
      by (simp add: submitWeighOut_def weighOutStatuses_spec weighView_def)
  qed
qed

lemma db_ok_stage: "db_ok d \<Longrightarrow> find_tx d i = Some t \<Longrightarrow> truck_ok (truck_for d i t)"
  by (auto simp: db_ok_def truck_of_def)

text \<open>In a database that satisfies the invariant the duplicate checks never fire.\<close>

lemma no_duplicate_out:
  assumes "db_ok d" "find_tx d i = Some t" "status t \<in> set (weighOutStatuses (processType t))"
  shows "find_first (current_wr i OUT) (weighbridgeRecords d) = None"
  using db_ok_stage [OF assms(1,2)] assms(3)
  by (auto simp: no_current_iff [of i d t] truck_ok_def stage_ok_def weighOutStatuses_spec in_weigh_out_from)

lemma no_duplicate_in:
  assumes "db_ok d" "find_tx d i = Some t" "status t = REGISTERED"
  shows "find_first (current_wr i IN) (weighbridgeRecords d) = None"
  using db_ok_stage [OF assms(1,2)] assms(3)
  by (auto simp: no_current_iff [of i d t] truck_ok_def stage_ok_def)

text \<open>The claim of a handler that runs on the row it read always succeeds.\<close>

lemma claim_current:
  assumes "tx_ids_distinct d" "find_tx d i = Some t" "g t"
  shows "claim i g f d = (fst (claim i g f d), 1)"
  using claim_count [OF assms(1), of i g f] assms(2,3) by (simp add: prod_eq_iff)

lemma weighOut_commit_succeeds:
  assumes "db_ok d" "find_tx d i = Some tx" "status tx \<in> set (weighOutStatuses (processType tx))"
  shows "\<exists>d'. weighOutCommit tx i dto g ta n user now d = Inr d'"
proof -
  have "assertValidStatusTransition (status tx) WEIGH_OUT_DONE = (None :: wb_reason error option)"
    using assms(3) by (auto simp: assert_None_iff isValidStatusTransition_def weighOutStatuses_spec in_weigh_out_from)
  moreover have "snd (claim i (\<lambda>t. status t = status tx \<and> revision t = revision tx) f
      (add_weighbridge (weigh_record i OUT dto user now d) d)) = 1" for f
    using assms(1,2) by (subst claim_count) (auto simp: db_ok_def)
  ultimately show ?thesis
    using no_duplicate_out [OF assms] by (simp add: weighOutCommit_def Let_def case_prod_unfold)
qed

text \<open>
  When weigh-out succeeds: on a stored transaction exactly when it is in the out-queue of its
  process, the weight of the first weighing is known, and the load was rejected or its tare lies
  below its gross weight. No duplicate record and no lost claim stands in the way.
\<close>
lemma submitWeighOut_succeeds_iff:
  assumes "db_ok d" and "find_tx d i = Some tx"
  shows "(\<exists>v. snd (submitWeighOut d i dto user now) = Inr v) \<longleftrightarrow>
    status tx \<in> set (weigh_out_from (processType tx)) \<and>
    (\<exists>gross tare. weighOutWeights tx i dto d = Inr (gross, tare) \<and> (isRejected (status tx) \<or> tare < gross))"
proof
  assume "\<exists>v. snd (submitWeighOut d i dto user now) = Inr v"
  then obtain d' v where "submitWeighOut_at tx i dto user now d = (d', Inr v)"
    using assms(2) by (cases "submitWeighOut_at tx i dto user now d") (auto simp: submitWeighOut_def)
  from submitWeighOut_at_success [OF this]
  show "status tx \<in> set (weigh_out_from (processType tx)) \<and>
    (\<exists>gross tare. weighOutWeights tx i dto d = Inr (gross, tare) \<and> (isRejected (status tx) \<or> tare < gross))"
    by (auto simp: weighOutStatuses_spec weighOutNet_def split: if_splits)
next
  assume r: "status tx \<in> set (weigh_out_from (processType tx)) \<and>
    (\<exists>gross tare. weighOutWeights tx i dto d = Inr (gross, tare) \<and> (isRejected (status tx) \<or> tare < gross))"
  then have st: "status tx \<in> set (weighOutStatuses (processType tx))" by (simp add: weighOutStatuses_spec)
  obtain g ta where w: "weighOutWeights tx i dto d = Inr (g, ta)" and "isRejected (status tx) \<or> ta < g"
    using r by blast
  then obtain n where n: "weighOutNet (status tx) g ta = Inr n" by (auto simp: weighOutNet_def)
  have "weighOutRefusal tx i user now d = None"
    using st no_duplicate_out [OF assms st] by (auto simp: weighOutRefusal_def weighOutStatuses_spec in_weigh_out_from)
  then have p: "weighOutPrepare tx i dto user now d = (d, Inr (g, ta, n))"
    by (simp add: weighOutPrepare_def w n)
  obtain d' where c: "weighOutCommit tx i dto g ta n user now d = Inr d'"
    using weighOut_commit_succeeds [OF assms st] by blast
  obtain t where "find_tx d' i = Some t"
    using weighOut_commit [OF c assms(1) snapshot_current [OF assms(2)] st] by blast
  then show "\<exists>v. snd (submitWeighOut d i dto user now) = Inr v"
    by (simp add: submitWeighOut_def assms(2) submitWeighOut_at_def p c)
qed

text \<open>
  The out-queue offers exactly the transactions that weigh-out takes: reading the pages of the
  unfiltered OUT queue one after the other yields each transaction once, and those are the stored
  transactions whose status submitWeighOut accepts for their process type.
\<close>
lemma weighbridge_queue_matches:
  assumes "0 < limit"
  shows "(let page = (\<lambda>n. weighbridgeQueue d tz \<lparr>wq_page = n, wq_limit = limit, wq_search = None,
                wq_processType = None, wq_type = Some OUT, wq_startDate = None, wq_endDate = None\<rparr> user now);
              pages = pm_totalPages (snd (snd (page 1)));
              rows = concat (map (\<lambda>n. map fst (fst (snd (page n)))) [1..<Suc pages])
          in set rows = {t \<in> set (transactions d). status t \<in> set (weigh_out_from (processType t))} \<and>
             length rows = count_where (\<lambda>t. status t \<in> set (weigh_out_from (processType t))) (transactions d))"
proof -
  let ?q = "\<lambda>n. \<lparr>wq_page = n, wq_limit = limit, wq_search = None, wq_processType = None,
    wq_type = Some OUT, wq_startDate = None, wq_endDate = None\<rparr>"
  have w: "weighbridgeWhere tz (?q n) = (\<lambda>t. status t \<in> set (weigh_out_from (processType t)))" for n
    by (rule ext, case_tac "processType t"; case_tac "status t")
      (simp_all add: weighbridgeWhere_def queueStatus_def outQueueStatus_def within_dates_def truthy_col_def)
  have page: "map fst (fst (snd (weighbridgeQueue d tz (?q n) user now))) =
      fst (find_page n limit (\<lambda>t. status t \<in> set (weigh_out_from (processType t))) createdAt (transactions d))"
    "snd (snd (weighbridgeQueue d tz (?q n) user now)) =
      snd (find_page n limit (\<lambda>t. status t \<in> set (weigh_out_from (processType t))) createdAt (transactions d))" for n
    by (simp_all add: weighbridgeQueue_def w comp_def split: prod.splits)
  note all = find_page_all [OF assms, of "\<lambda>t. status t \<in> set (weigh_out_from (processType t))" createdAt "transactions d" 1]
  show ?thesis
    by (simp only: Let_def page all) (auto simp: count_where_def)
qed

section \<open>Risk levels under rounding\<close>

lemma fl_bounds: "0 \<le> y \<Longrightarrow> y * (1 - 1 / 2 ^ 53) \<le> fl y \<and> fl y \<le> y * (1 + 1 / 2 ^ 53)"
  using fl_error [of y] by (simp add: abs_if algebra_simps split: if_splits)

lemma fl_abs: "\<bar>fl x\<bar> = fl \<bar>x\<bar>"
  by (metis abs_of_neg abs_of_nonneg fl_minus fl_neg fl_nonneg_iff not_le)

text \<open>The computed percentage is the exact one up to three roundings.\<close>

lemma deviationPercent_bounds:
  fixes net actual :: num
  assumes "0 < net"
  defines "x \<equiv> 100 * \<bar>net - actual\<bar> / net" and "u \<equiv> 1 / 2 ^ 53"
  shows "x * (1 - u) ^ 3 \<le> deviationPercent net actual \<and> deviationPercent net actual \<le> x * (1 + u) ^ 3"
proof -
  let ?D = "deviation net actual"
  have u: "0 \<le> 1 - u" "0 \<le> 1 + u" by (simp_all add: u_def)
  have D: "\<bar>net - actual\<bar> * (1 - u) \<le> ?D" "?D \<le> \<bar>net - actual\<bar> * (1 + u)"
    using fl_bounds [of "\<bar>net - actual\<bar>"]
    by (simp_all add: deviation_def js_sub_def u_def fl_abs)
  let ?q = "js_div ?D net"
  have D0: "0 \<le> ?D" by (simp add: deviation_def)
  have q: "?D / net * (1 - u) \<le> ?q" "?q \<le> ?D / net * (1 + u)"
    using fl_bounds [of "?D / net"] D0 assms(1) by (simp_all add: js_div_def u_def)
  have q0: "0 \<le> ?q" using D0 assms(1) by (simp add: js_div_def)
  have p: "?q * 100 * (1 - u) \<le> js_mul ?q 100" "js_mul ?q 100 \<le> ?q * 100 * (1 + u)"
    using fl_bounds [of "?q * 100"] q0 by (simp_all add: js_mul_def u_def)
  have "x * (1 - u) ^ 3 = \<bar>net - actual\<bar> * (1 - u) / net * (1 - u) * 100 * (1 - u)"
    by (simp add: x_def power3_eq_cube)
  also have "\<dots> \<le> ?D / net * (1 - u) * 100 * (1 - u)"
    using D(1) assms(1) u by (intro mult_right_mono divide_right_mono) simp_all
  also have "\<dots> \<le> ?q * 100 * (1 - u)" using q(1) u by (intro mult_right_mono) simp_all
  also note p(1)
  finally have lower: "x * (1 - u) ^ 3 \<le> js_mul ?q 100" .
  have "?q * 100 * (1 + u) \<le> ?D / net * (1 + u) * 100 * (1 + u)"
    using q(2) u by (intro mult_right_mono) simp_all
  also have "\<dots> \<le> \<bar>net - actual\<bar> * (1 + u) / net * (1 + u) * 100 * (1 + u)"
    using D(2) assms(1) u by (intro mult_right_mono divide_right_mono) simp_all
  also have "\<dots> = x * (1 + u) ^ 3" by (simp add: x_def power3_eq_cube)
  finally show ?thesis using lower p(2) assms(1) by (simp add: deviationPercent_def)
qed

text \<open>
  C28. The risk level of a weigh-out with positive net weight is the one of the exact deviation
  between net and warehouse weight, rounding included: above 5 percent CRITICAL, between 2 and 5
  WARNING, below 2 SAFE, each up to a relative error of one part in \<open>2 ^ 50\<close> at the thresholds;
  the fraud check is stored with it, and everything but SAFE leaves a FRAUD_DETECTED log.
\<close>
theorem weighOutFraud_risk:
  assumes "0 < net" and "actualWeight tx = Some actual"
  shows "\<exists>risk fc. fraudChecks (weighOutFraud tx i net user now d) = fraudChecks d @ [fc] \<and>
      fc_transactionId fc = i \<and> fc_riskLevel fc = risk \<and>
      (5 * (1 + 1 / 2 ^ 50) \<le> 100 * \<bar>net - actual\<bar> / net \<longrightarrow> risk = CRITICAL_RISK) \<and>
      (2 * (1 + 1 / 2 ^ 50) \<le> 100 * \<bar>net - actual\<bar> / net \<and>
         100 * \<bar>net - actual\<bar> / net \<le> 5 * (1 - 1 / 2 ^ 50) \<longrightarrow> risk = WARNING) \<and>
      (100 * \<bar>net - actual\<bar> / net \<le> 2 * (1 - 1 / 2 ^ 50) \<longrightarrow> risk = SAFE) \<and>
      map al_action (activityLogs (weighOutFraud tx i net user now d)) =
        map al_action (activityLogs d) @ (if risk = SAFE then [] else [''FRAUD_DETECTED''])"
proof -
  let ?p = "deviationPercent net actual" and ?x = "100 * \<bar>net - actual\<bar> / net"
  let ?lo = "(1 - 1 / 2 ^ 53) ^ 3 :: rat" and ?hi = "(1 + 1 / 2 ^ 53) ^ 3 :: rat"
  have b: "?x * ?lo \<le> ?p" "?p \<le> ?x * ?hi"
    using deviationPercent_bounds [OF assms(1), of actual] by simp_all
  have above: "c < ?p" if "c * (1 + 1 / 2 ^ 50) \<le> ?x" "0 < c" for c
  proof -
    have "1 < (1 + 1 / 2 ^ 50) * ?lo" by (simp add: power3_eq_cube)
    then have "c * 1 < c * ((1 + 1 / 2 ^ 50) * ?lo)" using that(2) by (rule mult_strict_left_mono)
    also have "\<dots> \<le> ?x * ?lo" using mult_right_mono [OF that(1), of ?lo] by (simp add: mult.assoc)
    finally show ?thesis using b(1) by simp
  qed
  have below: "?p \<le> c" if "?x \<le> c * (1 - 1 / 2 ^ 50)" "0 < c" for c
  proof -
    have "?x * ?hi \<le> c * ((1 - 1 / 2 ^ 50) * ?hi)"
      using mult_right_mono [OF that(1), of ?hi] by (simp add: mult.assoc)
    also have "(1 - 1 / 2 ^ 50) * ?hi \<le> 1" by (simp add: power3_eq_cube)
    then have "c * ((1 - 1 / 2 ^ 50) * ?hi) \<le> c * 1" using that(2) by (intro mult_left_mono) simp_all
    finally show ?thesis using b(2) by simp
  qed
  have "riskLevel ?p = CRITICAL_RISK" if "5 * (1 + 1 / 2 ^ 50) \<le> ?x"
    using above [OF that] by (simp add: riskLevel_def)
  moreover have "riskLevel ?p = WARNING" if "2 * (1 + 1 / 2 ^ 50) \<le> ?x" "?x \<le> 5 * (1 - 1 / 2 ^ 50)"
    using above [OF that(1)] below [OF that(2)] by (simp add: riskLevel_def)
  moreover have "riskLevel ?p = SAFE" if "?x \<le> 2 * (1 - 1 / 2 ^ 50)"
    using below [OF that] by (simp add: riskLevel_def)
  ultimately show ?thesis
    by (auto simp: weighOutFraud_def assms(2) Let_def audit_def logAction_def)
qed

end
