(* ===== verification/Gms_Correction.thy ===== *)
theory Gms_Correction
  imports Gms_CorrectionData Gms_Weighbridge
begin

text \<open>
  The writing half of a correction (\<open>correctOperationLog\<close> of
  transactions/operation-log-correction.service.ts from the correction header on): the records
  that are superseded and replaced, the correction items, the reopening of the workflow, the
  compare-and-swap of the transaction row, history, fraud check and log. The body of the
  \<open>$transaction\<close> is atomic: an exception leaves the database as it was.
\<close>

section \<open>Writing columns\<close>

text \<open>
  \<open>updatedFields\<close>: the last value submitted for a field counts. Each field is converted as the code
  does it and then has to have the type of its column; None is the rejection by the client.
\<close>

definition updates :: "oc_item list \<Rightarrow> (string \<times> jsv) list" where
  "updates items = fold (\<lambda>it. obj_set (it_fieldName it) (it_newValue it)) items []"

fun apply_fields :: "(string \<Rightarrow> 'v \<Rightarrow> ('r \<Rightarrow> 'r) option) \<Rightarrow> (string \<times> 'v) list \<Rightarrow> ('r \<Rightarrow> 'r) option" where
  "apply_fields wr [] = Some (\<lambda>r. r)"
| "apply_fields wr ((f, v) # kvs) =
     (case (wr f v, apply_fields wr kvs) of (Some a, Some b) \<Rightarrow> Some (\<lambda>r. b (a r)) | _ \<Rightarrow> None)"

definition text_value :: "client \<Rightarrow> jsv \<Rightarrow> string option" where
  "text_value cl v = Some (js_string (cl_numberText cl) v)"

definition date_value :: "client \<Rightarrow> jsv \<Rightarrow> instant option option" where
  "date_value cl v = map_option Some (js_date (cl_numberText cl) (cl_parseDate cl) v)"

definition float_value :: "jsv \<Rightarrow> num option option" where
  "float_value v = map_option Some (js_number v)"

definition int_value :: "jsv \<Rightarrow> int option option" where
  "int_value v = (case js_number v of None \<Rightarrow> None | Some n \<Rightarrow> as_int (JNum n))"

definition wr_write :: "client \<Rightarrow> string \<Rightarrow> jsv \<Rightarrow> (weighbridge_record \<Rightarrow> weighbridge_record) option" where
  "wr_write cl f v =
     (if f = ''weight'' then map_option (\<lambda>n. wr_weight_update (\<lambda>_. n)) (js_number v)
      else if f = ''ticketNumber'' then Some (wr_ticketNumber_update (\<lambda>_. text_value cl v))
      else if f = ''remarks'' then Some (wr_remarks_update (\<lambda>_. text_value cl v))
      else None)"

definition wp_write :: "client \<Rightarrow> string \<Rightarrow> jsv \<Rightarrow> (warehouse_process \<Rightarrow> warehouse_process) option" where
  "wp_write cl f v =
     (if f = ''startAt'' then map_option (\<lambda>c. wp_startAt_update (\<lambda>_. c)) (date_value cl v)
      else if f = ''endAt'' then map_option (\<lambda>c. wp_endAt_update (\<lambda>_. c)) (date_value cl v)
      else if f = ''actualWeight'' then map_option (\<lambda>c. wp_actualWeight_update (\<lambda>_. c)) (float_value v)
      else if f = ''actualQuantity'' then map_option (\<lambda>c. wp_actualQuantity_update (\<lambda>_. c)) (int_value v)
      else if f = ''palletCount'' then map_option (\<lambda>c. wp_palletCount_update (\<lambda>_. c)) (int_value v)
      else if f = ''bagCount'' then map_option (\<lambda>c. wp_bagCount_update (\<lambda>_. c)) (int_value v)
      else if f = ''rollCount'' then map_option (\<lambda>c. wp_rollCount_update (\<lambda>_. c)) (int_value v)
      else if f = ''remarks'' then Some (wp_remarks_update (\<lambda>_. text_value cl v))
      else if f = ''unit'' then map_option (\<lambda>c. wp_unit_update (\<lambda>_. c)) (as_unit v)
      else if f = ''condition'' then map_option (\<lambda>c. wp_condition_update (\<lambda>_. c)) (as_condition v)
      else if f = ''checklistItems'' then map_option (\<lambda>c. wp_checklistItems_update (\<lambda>_. c)) (as_json (cl_jsonNull cl) v)
      else None)"

definition qv_write :: "client \<Rightarrow> string \<Rightarrow> jsv \<Rightarrow> (qc_vehicle_check \<Rightarrow> qc_vehicle_check) option" where
  "qv_write cl f v =
     (if f = ''notes'' then Some (qv_notes_update (\<lambda>_. text_value cl v))
      else if f = ''result'' then map_option (\<lambda>c. qv_result_update (\<lambda>_. c)) (as_result v)
      else if f = ''vehicleCleanliness'' then map_option (\<lambda>c. qv_vehicleCleanliness_update (\<lambda>_. c)) (as_check v)
      else if f = ''vehicleOdor'' then map_option (\<lambda>c. qv_vehicleOdor_update (\<lambda>_. c)) (as_check v)
      else if f = ''pestEvidence'' then map_option (\<lambda>c. qv_pestEvidence_update (\<lambda>_. c)) (as_check v)
      else if f = ''vehicleCondition'' then map_option (\<lambda>c. qv_vehicleCondition_update (\<lambda>_. c)) (as_check v)
      else if f = ''documentCompleteness'' then map_option (\<lambda>c. qv_documentCompleteness_update (\<lambda>_. c)) (as_check v)
      else if f = ''sealCondition'' then map_option (\<lambda>c. qv_sealCondition_update (\<lambda>_. c)) (as_check v)
      else if f = ''checklistItems'' then map_option (\<lambda>c. qv_checklistItems_update (\<lambda>_. c)) (as_json (cl_jsonNull cl) v)
      else None)"

definition im_write :: "client \<Rightarrow> string \<Rightarrow> jsv \<Rightarrow> (incoming_material_check \<Rightarrow> incoming_material_check) option" where
  "im_write cl f v =
     (if f = ''moisture'' then map_option (\<lambda>c. im_moisture_update (\<lambda>_. c)) (float_value v)
      else if f = ''foreignMatter'' then map_option (\<lambda>c. im_foreignMatter_update (\<lambda>_. c)) (float_value v)
      else if f = ''sampleWeight'' then map_option (\<lambda>c. im_sampleWeight_update (\<lambda>_. c)) (float_value v)
      else if f = ''goodBeanPercentage'' then map_option (\<lambda>c. im_goodBeanPercentage_update (\<lambda>_. c)) (float_value v)
      else if f = ''defectNotes'' then Some (im_defectNotes_update (\<lambda>_. text_value cl v))
      else if f = ''notes'' then Some (im_notes_update (\<lambda>_. text_value cl v))
      else if f = ''result'' then map_option (\<lambda>c. im_result_update (\<lambda>_. c)) (as_result v)
      else if f = ''odor'' then map_option (\<lambda>c. im_odor_update (\<lambda>_. c)) (as_check v)
      else if f = ''color'' then map_option (\<lambda>c. im_color_update (\<lambda>_. c)) (as_check v)
      else if f = ''beanCondition'' then map_option (\<lambda>c. im_beanCondition_update (\<lambda>_. c)) (as_check v)
      else if f = ''itemCondition'' then map_option (\<lambda>c. im_itemCondition_update (\<lambda>_. c)) (as_check v)
      else if f = ''packagingCondition'' then map_option (\<lambda>c. im_packagingCondition_update (\<lambda>_. c)) (as_check v)
      else if f = ''quantityCheck'' then map_option (\<lambda>c. im_quantityCheck_update (\<lambda>_. c)) (as_check v)
      else if f = ''documentCheck'' then map_option (\<lambda>c. im_documentCheck_update (\<lambda>_. c)) (as_check v)
      else if f = ''visualInspection'' then map_option (\<lambda>c. im_visualInspection_update (\<lambda>_. c)) (as_check v)
      else if f = ''checklistItems'' then map_option (\<lambda>c. im_checklistItems_update (\<lambda>_. c)) (as_json (cl_jsonNull cl) v)
      else None)"

definition at_write :: "client \<Rightarrow> string \<Rightarrow> jsv \<Rightarrow> (attachment \<Rightarrow> attachment) option" where
  "at_write cl f v =
     (if f = ''originalName'' then Some (at_originalName_update (\<lambda>_. js_string (cl_numberText cl) v))
      else if f = ''description'' then Some (at_description_update (\<lambda>_. text_value cl v))
      else None)"

text \<open>The columns of the transaction; a reopening clears columns with null.\<close>

fun date_cell :: "cell \<Rightarrow> instant option option" where
  "date_cell (Date t) = Some (Some t)"
| "date_cell (Json JNull) = Some None"
| "date_cell (Json _) = None"

fun json_cell :: "(jsv \<Rightarrow> 'c option) \<Rightarrow> cell \<Rightarrow> 'c option" where
  "json_cell conv (Json v) = conv v"
| "json_cell conv (Date t) = None"

fun required_text :: "cell \<Rightarrow> string option" where
  "required_text (Json (JStr s)) = Some s"
| "required_text _ = None"

fun bool_cell :: "cell \<Rightarrow> bool option" where
  "bool_cell (Json (JBool b)) = Some b"
| "bool_cell _ = None"

definition null_cell :: "cell \<Rightarrow> 'a option option" where
  "null_cell c = (if c = Json JNull then Some None else None)"

definition tx_write :: "string \<Rightarrow> cell \<Rightarrow> (transaction \<Rightarrow> transaction) option" where
  "tx_write f c =
     (if f = ''driverName'' then map_option (\<lambda>s. driverName_update (\<lambda>_. s)) (required_text c)
      else if f = ''driverPhone'' then map_option (\<lambda>s. driverPhone_update (\<lambda>_. s)) (required_text c)
      else if f = ''vendorName'' then map_option (\<lambda>s. vendorName_update (\<lambda>_. s)) (required_text c)
      else if f = ''vehicleType'' then map_option (\<lambda>s. vehicleType_update (\<lambda>_. s)) (required_text c)
      else if f = ''cargoType'' then map_option (\<lambda>s. cargoType_update (\<lambda>_. s)) (required_text c)
      else if f = ''cargoSubType'' then map_option (\<lambda>s. cargoSubType_update (\<lambda>_. s)) (json_cell as_str c)
      else if f = ''suratJalanNumber'' then map_option (\<lambda>s. suratJalanNumber_update (\<lambda>_. s)) (json_cell as_str c)
      else if f = ''poNumber'' then map_option (\<lambda>s. poNumber_update (\<lambda>_. s)) (json_cell as_str c)
      else if f = ''remarks'' then map_option (\<lambda>s. remarks_update (\<lambda>_. s)) (json_cell as_str c)
      else if f = ''permitCardNumber'' then map_option (\<lambda>s. permitCardNumber_update (\<lambda>_. s)) (json_cell as_str c)
      else if f = ''guestIdNumber'' then map_option (\<lambda>s. guestIdNumber_update (\<lambda>_. s)) (json_cell as_str c)
      else if f = ''cancellationReason'' then map_option (\<lambda>s. cancellationReason_update (\<lambda>_. s)) (json_cell as_str c)
      else if f = ''grossWeight'' then map_option (\<lambda>x. grossWeight_update (\<lambda>_. x)) (json_cell as_num c)
      else if f = ''tareWeight'' then map_option (\<lambda>x. tareWeight_update (\<lambda>_. x)) (json_cell as_num c)
      else if f = ''netWeight'' then map_option (\<lambda>x. netWeight_update (\<lambda>_. x)) (json_cell as_num c)
      else if f = ''actualWeight'' then map_option (\<lambda>x. actualWeight_update (\<lambda>_. x)) (json_cell as_num c)
      else if f = ''actualQuantity'' then map_option (\<lambda>x. actualQuantity_update (\<lambda>_. x)) (json_cell as_int c)
      else if f = ''warehouseUnit'' then map_option (\<lambda>x. warehouseUnit_update (\<lambda>_. x)) (json_cell as_unit c)
      else if f = ''warehouseStartAt'' then map_option (\<lambda>x. warehouseStartAt_update (\<lambda>_. x)) (date_cell c)
      else if f = ''warehouseEndAt'' then map_option (\<lambda>x. warehouseEndAt_update (\<lambda>_. x)) (date_cell c)
      else if f = ''warehouseStartById'' then map_option (\<lambda>x. warehouseStartById_update (\<lambda>_. x)) (null_cell c)
      else if f = ''warehouseEndById'' then map_option (\<lambda>x. warehouseEndById_update (\<lambda>_. x)) (null_cell c)
      else if f = ''cancelledAt'' then map_option (\<lambda>x. cancelledAt_update (\<lambda>_. x)) (date_cell c)
      else if f = ''cancelledById'' then map_option (\<lambda>x. cancelledById_update (\<lambda>_. x)) (null_cell c)
      else if f = ''completedAt'' then map_option (\<lambda>x. completedAt_update (\<lambda>_. x)) (date_cell c)
      else if f = ''gateOutAt'' then map_option (\<lambda>x. gateOutAt_update (\<lambda>_. x)) (date_cell c)
      else if f = ''weighInAt'' then map_option (\<lambda>x. weighInAt_update (\<lambda>_. x)) (date_cell c)
      else if f = ''weighInById'' then map_option (\<lambda>x. weighInById_update (\<lambda>_. x)) (null_cell c)
      else if f = ''weighOutAt'' then map_option (\<lambda>x. weighOutAt_update (\<lambda>_. x)) (date_cell c)
      else if f = ''weighOutById'' then map_option (\<lambda>x. weighOutById_update (\<lambda>_. x)) (null_cell c)
      else if f = ''qcStartAt'' then map_option (\<lambda>x. qcStartAt_update (\<lambda>_. x)) (date_cell c)
      else if f = ''qcEndAt'' then map_option (\<lambda>x. qcEndAt_update (\<lambda>_. x)) (date_cell c)
      else if f = ''incomingQcStartAt'' then map_option (\<lambda>x. incomingQcStartAt_update (\<lambda>_. x)) (date_cell c)
      else if f = ''qcAnalysisCompleted'' then map_option (\<lambda>b. qcAnalysisCompleted_update (\<lambda>_. b)) (bool_cell c)
      else if f = ''qcAnalysisCompletedAt'' then map_option (\<lambda>x. qcAnalysisCompletedAt_update (\<lambda>_. x)) (date_cell c)
      else None)"

section \<open>Replacing records\<close>

text \<open>\<open>where: { id: rec.id, isCurrent: true, revision: rec.revision }\<close>\<close>

definition same_row :: "'a versioned_scheme \<Rightarrow> 'a versioned_scheme \<Rightarrow> bool" where
  "same_row rec r \<longleftrightarrow> v_id r = v_id rec \<and> v_isCurrent r \<and> v_revision r = v_revision rec"

definition replacement :: "ident \<Rightarrow> instant \<Rightarrow> 'a versioned_scheme \<Rightarrow> 'a versioned_scheme" where
  "replacement n now rec = rec\<lparr>v_id := n, v_createdAt := now, v_isCurrent := True, v_supersededAt := None,
     v_supersededByCorrectionId := None, v_revision := v_revision rec + 1\<rparr>"

definition replace_row ::
  "('a versioned_scheme \<Rightarrow> 'k) \<Rightarrow> ('a versioned_scheme \<Rightarrow> 'a versioned_scheme) option \<Rightarrow> 'a versioned_scheme
     \<Rightarrow> instant \<Rightarrow> ident \<Rightarrow> ident \<Rightarrow> 'a versioned_scheme list \<Rightarrow> oc_reason error + 'a versioned_scheme list"
where
  "replace_row key chg rec now cid n rows =
     (if count_where (same_row rec) rows \<noteq> 1 then Inl (Conflict OC_Superseded)
      else case chg of
        None \<Rightarrow> Inl (InternalError OC_ClientRejects)
      | Some w \<Rightarrow>
          let rows' = update_many (same_row rec) (supersede now cid) rows; r = w (replacement n now rec)
          in if list_ex (\<lambda>s. key s = key r \<and> v_revision s = v_revision r) rows' then Inl (Conflict OC_UniqueIndex)
             else Inr (rows' @ [r]))"

text \<open>A JSON column written back as null.\<close>

definition json_kept :: "client \<Rightarrow> ('r \<Rightarrow> jsv option) \<Rightarrow> 'r \<Rightarrow> ('r \<Rightarrow> 'r) option \<Rightarrow> ('r \<Rightarrow> 'r) option" where
  "json_kept cl col r chg =
     (case chg of None \<Rightarrow> None | Some w \<Rightarrow> if col (w r) = None \<and> \<not> cl_jsonNull cl then None else Some w)"

text \<open>The new vehicle check is created without decisionMode, hasDeviation and deviationReason.\<close>

definition undecided :: "qc_vehicle_check \<Rightarrow> qc_vehicle_check" where
  "undecided r = r\<lparr>qv_decisionMode := None, qv_hasDeviation := None, qv_deviationReason := None\<rparr>"

definition at_key :: "attachment \<Rightarrow> ident" where
  "at_key r = at_attachmentLineageId r"

definition replace_weighing ::
  "client \<Rightarrow> ident \<Rightarrow> instant \<Rightarrow> weighbridge_record \<Rightarrow> (string \<times> jsv) list \<Rightarrow> db \<Rightarrow> oc_reason error + db"
where
  "replace_weighing cl cid now r kvs d =
     map_sum id (\<lambda>rows. d\<lparr>weighbridgeRecords := rows, nextId := Suc (nextId d)\<rparr>)
       (replace_row wr_key (apply_fields (wr_write cl) kvs) r now cid (nextId d) (weighbridgeRecords d))"

definition replace_process ::
  "client \<Rightarrow> ident \<Rightarrow> instant \<Rightarrow> warehouse_process \<Rightarrow> (string \<times> jsv) list \<Rightarrow> db \<Rightarrow> oc_reason error + db"
where
  "replace_process cl cid now r kvs d =
     map_sum id (\<lambda>rows. d\<lparr>warehouseProcesses := rows, nextId := Suc (nextId d)\<rparr>)
       (replace_row wp_key (json_kept cl wp_checklistItems r (apply_fields (wp_write cl) kvs))
         r now cid (nextId d) (warehouseProcesses d))"

definition replace_vehicle_check ::
  "client \<Rightarrow> ident \<Rightarrow> instant \<Rightarrow> qc_vehicle_check \<Rightarrow> (string \<times> jsv) list \<Rightarrow> db \<Rightarrow> oc_reason error + db"
where
  "replace_vehicle_check cl cid now r kvs d =
     map_sum id (\<lambda>rows. d\<lparr>qcVehicleChecks := rows, nextId := Suc (nextId d)\<rparr>)
       (replace_row v_transactionId
         (map_option (\<lambda>w. w \<circ> undecided) (json_kept cl qv_checklistItems r (apply_fields (qv_write cl) kvs)))
         r now cid (nextId d) (qcVehicleChecks d))"

definition replace_incoming_check ::
  "client \<Rightarrow> ident \<Rightarrow> instant \<Rightarrow> incoming_material_check \<Rightarrow> (string \<times> jsv) list \<Rightarrow> db \<Rightarrow> oc_reason error + db"
where
  "replace_incoming_check cl cid now r kvs d =
     map_sum id (\<lambda>rows. d\<lparr>incomingMaterialChecks := rows, nextId := Suc (nextId d)\<rparr>)
       (replace_row v_transactionId (json_kept cl im_checklistItems r (apply_fields (im_write cl) kvs))
         r now cid (nextId d) (incomingMaterialChecks d))"

definition replace_attachment ::
  "client \<Rightarrow> ident \<Rightarrow> instant \<Rightarrow> attachment \<Rightarrow> (string \<times> jsv) list \<Rightarrow> db \<Rightarrow> oc_reason error + db"
where
  "replace_attachment cl cid now r kvs d =
     map_sum id (\<lambda>rows. d\<lparr>attachments := rows, nextId := Suc (nextId d)\<rparr>)
       (replace_row at_key (apply_fields (at_write cl) kvs) r now cid (nextId d) (attachments d))"

definition write_group :: "client \<Rightarrow> ident \<Rightarrow> instant \<Rightarrow> oc_group \<Rightarrow> db \<Rightarrow> oc_reason error + db" where
  "write_group cl cid now g d =
     (let kvs = updates (og_items g)
      in case og_target g of
           OnWeighbridge r \<Rightarrow> replace_weighing cl cid now r kvs d
         | OnWarehouse r \<Rightarrow> replace_process cl cid now r kvs d
         | OnVehicle r \<Rightarrow> replace_vehicle_check cl cid now r kvs d
         | OnMaterial r \<Rightarrow> replace_incoming_check cl cid now r kvs d
         | OnAttachment r \<Rightarrow> replace_attachment cl cid now r kvs d)"

lemmas write_group_defs = write_group_def replace_weighing_def replace_process_def replace_vehicle_check_def
  replace_incoming_check_def replace_attachment_def

section \<open>Correction items\<close>

definition json_column :: "jsv \<Rightarrow> jsv option" where
  "json_column j = (if j = JNull then None else Some j)"

text \<open>A payload of \<open>createMany\<close>; it gets its identifier when it is created.\<close>

definition item_payload :: "ident \<Rightarrow> ident \<Rightarrow> ident option \<Rightarrow> jsv option \<Rightarrow> oc_item \<Rightarrow> ident \<Rightarrow> correction_item_row" where
  "item_payload cid rid new old it n =
     \<lparr>xi_id = n, xi_correctionId = cid, xi_targetModule = it_targetModule it, xi_targetRecordId = rid,
      xi_replacementRecordId = new, xi_fieldName = it_fieldName it,
      xi_oldValue = (case old of None \<Rightarrow> None | Some j \<Rightarrow> json_column j),
      xi_newValue = json_column (it_newValue it), xi_itemRemark = truthy_str (it_itemRemark it)\<rparr>"

definition root_payloads :: "ident \<Rightarrow> transaction \<Rightarrow> oc_item list \<Rightarrow> (ident \<Rightarrow> correction_item_row) list" where
  "root_payloads cid tx roots =
     map (\<lambda>it. item_payload cid (tx_id tx) None (map_of (tx_columns tx) (it_fieldName it)) it) roots"

definition group_payloads :: "ident \<Rightarrow> ident \<Rightarrow> oc_group \<Rightarrow> (ident \<Rightarrow> correction_item_row) list" where
  "group_payloads cid new g =
     map (\<lambda>it. item_payload cid (target_id (og_target g)) (Some new)
         (map_of (target_columns (og_target g)) (it_fieldName it)) it) (og_items g)"

fun write_groups ::
  "client \<Rightarrow> ident \<Rightarrow> instant \<Rightarrow> oc_group list \<Rightarrow> db \<Rightarrow> oc_reason error + db \<times> (ident \<Rightarrow> correction_item_row) list"
where
  "write_groups cl cid now [] d = Inr (d, [])"
| "write_groups cl cid now (g # gs) d =
     (case write_group cl cid now g d of
        Inl e \<Rightarrow> Inl e
      | Inr d' \<Rightarrow>
          (case write_groups cl cid now gs d' of
             Inl e \<Rightarrow> Inl e
           | Inr (d'', ps) \<Rightarrow> Inr (d'', group_payloads cid (nextId d) g @ ps)))"

fun number_items :: "ident \<Rightarrow> (ident \<Rightarrow> correction_item_row) list \<Rightarrow> correction_item_row list" where
  "number_items n [] = []"
| "number_items n (p # ps) = p n # number_items (Suc n) ps"

definition create_items :: "client \<Rightarrow> (ident \<Rightarrow> correction_item_row) list \<Rightarrow> db \<Rightarrow> oc_reason error + db" where
  "create_items cl ps d =
     (let rows = number_items (nextId d) ps
      in if \<not> cl_jsonNull cl \<and> list_ex (\<lambda>x. xi_oldValue x = None \<or> xi_newValue x = None) rows
         then Inl (InternalError OC_ClientRejects)
         else Inr (d\<lparr>correctionItems := correctionItems d @ rows, nextId := nextId d + length rows\<rparr>))"

section \<open>Reopening\<close>

fun REOPEN_ALLOWED_TARGETS :: "process_type \<Rightarrow> transaction_status list" where
  "REOPEN_ALLOWED_TARGETS GBB = [REGISTERED, QC_VEHICLE_PENDING, QC_VEHICLE_PASSED, INCOMING_CHECK_PENDING]"
| "REOPEN_ALLOWED_TARGETS GSP = [REGISTERED, QC_VEHICLE_PENDING, QC_VEHICLE_PASSED, INCOMING_CHECK_PENDING]"
| "REOPEN_ALLOWED_TARGETS GBJ = [REGISTERED, QC_VEHICLE_PENDING, QC_VEHICLE_PASSED]"

definition effectiveTarget :: "transaction_status \<Rightarrow> transaction_status" where
  "effectiveTarget s = (if s = WAREHOUSE_IN_PROGRESS then QC_VEHICLE_PASSED else s)"

definition clear :: "string list \<Rightarrow> (string \<times> cell) list \<Rightarrow> (string \<times> cell) list" where
  "clear fs data = fold (\<lambda>f. obj_set f (Json JNull)) fs data"

text \<open>The columns a reopening at \<open>s\<close> (the requested target) changes.\<close>

definition reopenData :: "transaction \<Rightarrow> transaction_status \<Rightarrow> instant \<Rightarrow> (string \<times> cell) list \<Rightarrow> (string \<times> cell) list" where
  "reopenData tx s now data0 =
     (let data = clear [''cancelledAt'', ''cancelledById'', ''cancellationReason'', ''completedAt'', ''gateOutAt'',
           ''weighOutAt'', ''weighOutById''] data0;
          unanalysed = (\<lambda>x. obj_set ''qcAnalysisCompletedAt'' (Json JNull) (obj_set ''qcAnalysisCompleted'' (Json (JBool False)) x));
          warehouse = [''warehouseStartAt'', ''warehouseEndAt'', ''warehouseStartById'', ''warehouseEndById'',
            ''actualWeight'', ''actualQuantity'', ''warehouseUnit'']
      in if s = REGISTERED then
           clear warehouse (unanalysed (clear [''weighInAt'', ''weighInById'', ''grossWeight'', ''tareWeight'',
             ''netWeight'', ''qcStartAt'', ''qcEndAt'', ''incomingQcStartAt''] data))
         else if s = QC_VEHICLE_PENDING then
           clear (warehouse @ [''qcStartAt'']) (unanalysed (clear [''qcEndAt'', ''incomingQcStartAt''] data))
         else if effectiveTarget s = QC_VEHICLE_PASSED then
           unanalysed (clear [''incomingQcStartAt''] (clear warehouse data))
         else if s = INCOMING_CHECK_PENDING \<or> s = INCOMING_CHECK_IN_PROGRESS then
           unanalysed (obj_set ''incomingQcStartAt''
             (if s = INCOMING_CHECK_IN_PROGRESS then Date (val_or (incomingQcStartAt tx) now) else Json JNull) data)
         else data)"

definition supersede_weighings :: "ident \<Rightarrow> weighbridge_type \<Rightarrow> instant \<Rightarrow> ident \<Rightarrow> db \<Rightarrow> db" where
  "supersede_weighings i ty now cid d =
     d\<lparr>weighbridgeRecords := update_many (current_wr i ty) (supersede now cid) (weighbridgeRecords d)\<rparr>"

definition supersede_vehicle_checks :: "ident \<Rightarrow> instant \<Rightarrow> ident \<Rightarrow> db \<Rightarrow> db" where
  "supersede_vehicle_checks i now cid d =
     d\<lparr>qcVehicleChecks := update_many (current_row i) (supersede now cid) (qcVehicleChecks d)\<rparr>"

definition supersede_incoming_checks :: "ident \<Rightarrow> instant \<Rightarrow> ident \<Rightarrow> db \<Rightarrow> db" where
  "supersede_incoming_checks i now cid d =
     d\<lparr>incomingMaterialChecks := update_many (current_row i) (supersede now cid) (incomingMaterialChecks d)\<rparr>"

definition supersede_processes :: "ident \<Rightarrow> instant \<Rightarrow> ident \<Rightarrow> db \<Rightarrow> db" where
  "supersede_processes i now cid d =
     d\<lparr>warehouseProcesses := update_many (current_row i) (supersede now cid) (warehouseProcesses d)\<rparr>"

definition reopenRows :: "ident \<Rightarrow> transaction_status \<Rightarrow> instant \<Rightarrow> ident \<Rightarrow> db \<Rightarrow> db" where
  "reopenRows i s now cid d0 =
     (let d = supersede_weighings i OUT now cid d0
      in if s = REGISTERED then
           supersede_processes i now cid (supersede_incoming_checks i now cid
             (supersede_vehicle_checks i now cid (supersede_weighings i IN now cid d)))
         else if s = QC_VEHICLE_PENDING then
           supersede_processes i now cid (supersede_incoming_checks i now cid (supersede_vehicle_checks i now cid d))
         else if effectiveTarget s = QC_VEHICLE_PASSED then
           supersede_incoming_checks i now cid (supersede_processes i now cid d)
         else if s = INCOMING_CHECK_PENDING \<or> s = INCOMING_CHECK_IN_PROGRESS then
           supersede_incoming_checks i now cid d
         else d)"

text \<open>The reopening part: new rows, new column values, and the new status.\<close>

definition reopenWorkflow ::
  "transaction \<Rightarrow> oc_dto \<Rightarrow> ident \<Rightarrow> instant \<Rightarrow> ident \<Rightarrow> (string \<times> cell) list \<Rightarrow> db
     \<Rightarrow> oc_reason error + db \<times> (string \<times> cell) list \<times> transaction_status option"
where
  "reopenWorkflow tx dto i now cid data d =
     (if co_action dto \<noteq> Some REOPEN_WORKFLOW then Inr (d, data, None)
      else
        let s = val_or (co_reopenTargetStatus dto) QC_VEHICLE_PENDING
        in if effectiveTarget s \<notin> set (REOPEN_ALLOWED_TARGETS (processType tx)) \<and> s \<noteq> WAREHOUSE_IN_PROGRESS
           then Inl (BadRequest (OC_ReopenTarget s))
           else Inr (reopenRows i s now cid d, reopenData tx s now data, Some (effectiveTarget s)))"

section \<open>The commit\<close>

definition cleanIp :: "string option \<Rightarrow> string option" where
  "cleanIp ip = (case truthy_col ip of
       None \<Rightarrow> None
     | Some s \<Rightarrow> Some (if is_prefix_of ''::ffff:'' s then drop 7 s else trim s))"

text \<open>\<open>year\<close> is that of the server's calendar and \<open>hex\<close> the four random bytes.\<close>

definition correction_number :: "nat \<Rightarrow> string \<Rightarrow> string" where
  "correction_number year hex = ''COR-'' @ decimal year @ ''-'' @ hex"

definition correctionHeader ::
  "ident \<Rightarrow> oc_dto \<Rightarrow> jwt_user \<Rightarrow> string option \<Rightarrow> string \<Rightarrow> instant \<Rightarrow> oc_plan \<Rightarrow> ident \<Rightarrow> correction"
where
  "correctionHeader i dto user ip nr now pl cid =
     \<lparr>tc_id = cid, tc_transactionId = i, tc_correctedById = ju_id user, tc_correctionNumber = nr,
      tc_action = val_or (co_action dto) CORRECT_DATA, tc_reasonCode = co_reasonCode dto,
      tc_reason = co_reasonCode dto, tc_remark = co_remark dto,
      tc_evidenceUrl = (case co_evidenceAttachmentId dto of
          Some a \<Rightarrow> Some (''attachment:'' @ decimal a) | None \<Rightarrow> truthy_str (co_evidenceUrl dto)),
      tc_oldValues = p1_old (pl_pass1 pl), tc_newValues = p1_new (pl_pass1 pl),
      tc_expectedRevision = co_expectedRevision dto, tc_ipAddress = cleanIp ip, tc_createdAt = now\<rparr>"

text \<open>The net weight follows the proposed weights when both are known.\<close>

definition withNetWeight :: "transaction \<Rightarrow> (string \<times> cell) list \<Rightarrow> (string \<times> cell) list" where
  "withNetWeight tx data =
     (case (proposed_gross tx data, proposed_tare tx data) of
        (Some g, Some t) \<Rightarrow> obj_set ''netWeight'' (Json (JNum (js_sub g t))) data
      | _ \<Rightarrow> data)"

definition corrected ::
  "(transaction \<Rightarrow> transaction) \<Rightarrow> transaction_status option \<Rightarrow> transaction \<Rightarrow> transaction"
where
  "corrected w st t = (w t)\<lparr>status := val_or st (status t), revision := revision t + 1\<rparr>"

definition correctionFraud :: "ident \<Rightarrow> instant \<Rightarrow> db \<Rightarrow> db" where
  "correctionFraud i now d =
     (case find_tx d i of
        None \<Rightarrow> d
      | Some t \<Rightarrow>
          (case (netWeight t, actualWeight t) of
             (Some net, Some actual) \<Rightarrow>
               if 0 < net then
                 d\<lparr>fraudChecks := fraudChecks d @
                     [\<lparr>fc_id = nextId d, fc_transactionId = i,
                       fc_riskLevel = riskLevel (deviationPercent net actual),
                       fc_deviationKg = deviation net actual, fc_deviationPercent = deviationPercent net actual,
                       fc_createdAt = now\<rparr>],
                   nextId := Suc (nextId d)\<rparr>
               else d
           | _ \<Rightarrow> d))"

definition correctionNote :: "oc_dto \<Rightarrow> string \<Rightarrow> string" where
  "correctionNote dto nr = ''ADMIN_CORRECTION: '' @ co_remark dto @ '' (Correction: '' @ nr @ '')''"

text \<open>From the updated row on: history of a status change, fraud check, log.\<close>

definition recordCorrection ::
  "transaction \<Rightarrow> ident \<Rightarrow> oc_dto \<Rightarrow> jwt_user \<Rightarrow> string \<Rightarrow> transaction_status option \<Rightarrow> instant \<Rightarrow> db \<Rightarrow> db"
where
  "recordCorrection tx i dto user nr st now d =
     audit (ju_id user) ''OPERATION_LOG_CORRECTED'' ''TRANSACTIONS'' (Some i)
       (Some (JStr (''Admin mengoreksi Operation Log. Correction: '' @ nr))) ''SUCCESS'' now
       (correctionFraud i now
         (case st of
            None \<Rightarrow> d
          | Some s \<Rightarrow> add_history i (Some (status tx)) s (Some (ju_id user)) (Some (correctionNote dto nr)) now d))"

definition commitCorrection ::
  "client \<Rightarrow> ident \<Rightarrow> oc_dto \<Rightarrow> jwt_user \<Rightarrow> string option \<Rightarrow> string \<Rightarrow> instant \<Rightarrow> oc_plan \<Rightarrow> db
     \<Rightarrow> oc_reason error + db"
where
  "commitCorrection cl i dto user ip nr now pl d =
     (let tx = pl_tx pl; cid = nextId d
      in if list_ex (\<lambda>c. tc_correctionNumber c = nr) (corrections d) then Inl (Conflict OC_UniqueIndex)
         else case write_groups cl cid now (pl_groups pl)
             (d\<lparr>corrections := corrections d @ [correctionHeader i dto user ip nr now pl cid], nextId := Suc cid\<rparr>) of
           Inl e \<Rightarrow> Inl e
         | Inr (d2, ps) \<Rightarrow>
             (case create_items cl (root_payloads cid tx (pl_roots pl) @ ps) d2 of
                Inl e \<Rightarrow> Inl e
              | Inr d3 \<Rightarrow>
                  (case reopenWorkflow tx dto i now cid (withNetWeight tx (p1_data (pl_pass1 pl))) d3 of
                     Inl e \<Rightarrow> Inl e
                   | Inr (d4, data, st) \<Rightarrow>
                       (case apply_fields tx_write data of
                          None \<Rightarrow> Inl (InternalError OC_ClientRejects)
                        | Some w \<Rightarrow>
                            (case claim i (\<lambda>t. revision t = co_expectedRevision dto) (corrected w st) d4 of
                               (d5, n) \<Rightarrow>
                                 if n = 0 then Inl (Conflict OC_StaleRevision)
                                 else Inr (recordCorrection tx i dto user nr st now d5))))))"

text \<open>The answer: the row after the update and the correction header.\<close>

definition correctOperationLog ::
  "client \<Rightarrow> nat \<Rightarrow> string \<Rightarrow> db \<Rightarrow> ident \<Rightarrow> oc_dto \<Rightarrow> jwt_user \<Rightarrow> string option \<Rightarrow> instant
     \<Rightarrow> (oc_reason, transaction option \<times> correction) outcome"
where
  "correctOperationLog cl year hex d i dto user ip now =
     (case correctionRefusal dto user of
        Some e \<Rightarrow> (d, Inl e)
      | None \<Rightarrow>
          (case planCorrection cl d i dto of
             Inl e \<Rightarrow> (d, Inl e)
           | Inr pl \<Rightarrow>
               (case commitCorrection cl i dto user ip (correction_number year hex) now pl d of
                  Inl e \<Rightarrow> (d, Inl e)
                | Inr d' \<Rightarrow>
                    (d', Inr (find_tx d' i,
                       correctionHeader i dto user ip (correction_number year hex) now pl (nextId d))))))"

end
