(* ===== verification/Gms_Corrected.thy ===== *)
theory Gms_Corrected
  imports Gms_Correction "HOL-Library.Multiset"
begin

text \<open>
  What a correction does: it refuses without a trace or takes one step of the specification, a
  data correction of a finished transaction or a reopening.
\<close>

section \<open>Writers\<close>

text \<open>A relation that every single write keeps is kept by a list of writes.\<close>

lemma apply_fields_rel:
  assumes "apply_fields writer kvs = Some w" "\<And>f v w r. writer f v = Some w \<Longrightarrow> R r (w r)"
    and "\<And>r. R r r" "\<And>a b c. R a b \<Longrightarrow> R b c \<Longrightarrow> R a c"
  shows "R r (w r)"
  using assms(1)
proof (induction kvs arbitrary: w r)
  case (Cons kv kvs)
  obtain f v where kv: "kv = (f, v)" by (cases kv)
  obtain a b where "writer f v = Some a" "apply_fields writer kvs = Some b" "w = (\<lambda>r. b (a r))"
    using Cons.prems by (auto simp: kv split: option.splits)
  then show ?case using Cons.IH assms(2,4) by blast
qed (auto simp: assms(3))

text \<open>The columns that make a row what it is: no writer changes them.\<close>

definition row_id :: "'a versioned_scheme \<Rightarrow> ident \<times> ident \<times> bool \<times> nat" where
  "row_id r = (v_id r, v_transactionId r, v_isCurrent r, v_revision r)"

lemma wr_write_id: "wr_write cl f v = Some w \<Longrightarrow> row_id (w r) = row_id r \<and> wr_type (w r) = wr_type r"
  by (auto simp: wr_write_def row_id_def split: if_splits)

lemma wp_write_id:
  "wp_write cl f v = Some w \<Longrightarrow> row_id (w r) = row_id r \<and> wp_processType (w r) = wp_processType r \<and>
     (wp_endAt (w r) = None \<longrightarrow> wp_endAt r = None)"
  by (auto simp: wp_write_def row_id_def date_value_def split: if_splits)

lemma qv_write_id: "qv_write cl f v = Some w \<Longrightarrow> row_id (w r) = row_id r"
  by (auto simp: qv_write_def row_id_def split: if_splits)

lemma im_write_id: "im_write cl f v = Some w \<Longrightarrow> row_id (w r) = row_id r"
  by (auto simp: im_write_def row_id_def split: if_splits)

text \<open>What no correction changes of a transaction without the workflow: identity, status, revision,
  process type, plate, gate times of entry, void and creation.\<close>

definition tx_protected :: "transaction \<Rightarrow> _" where
  "tx_protected t = (tx_key t, plateNumber t, processType t, cargoProcessType t, gateInAt t, createdById t,
     (isVoided t, voidedAt t, voidedById t, voidReasonCode t, voidReason t), status t, revision t)"

lemma tx_write_protected: "tx_write f c = Some w \<Longrightarrow> tx_protected (w t) = tx_protected t"
  by (auto simp: tx_write_def tx_protected_def tx_key_def split: if_splits)

section \<open>One replaced record\<close>

text \<open>The record was read from this table, or is no longer there.\<close>

definition row_read :: "ident \<Rightarrow> ident \<Rightarrow> 'a versioned_scheme list \<Rightarrow> 'a versioned_scheme \<Rightarrow> bool" where
  "row_read n i rows rec \<longleftrightarrow> v_transactionId rec = i \<and> v_isCurrent rec \<and> v_id rec < n \<and>
     (\<forall>r \<in> set rows. same_row rec r \<longrightarrow> r = rec)"

lemma row_read_current:
  assumes "ids_below n rows" "rec \<in> set rows" "current_row i rec"
  shows "row_read n i rows rec"
proof -
  have "r = rec" if "r \<in> set rows" "v_id r = v_id rec" for r
    using assms(1,2) that by (auto simp: ids_below_def distinct_map inj_on_def)
  then show ?thesis using assms by (auto simp: row_read_def same_row_def current_row_def ids_below_def)
qed

lemma count_one_row:
  "distinct t \<Longrightarrow> r \<in> set t \<Longrightarrow> \<not> q (f r) \<Longrightarrow>
     count_where q (update_many (\<lambda>x. x = r) f t) + (if q r then 1 else 0) = count_where q t"
proof (induction t)
  case (Cons x t)
  show ?case
  proof (cases "x = r")
    case True
    then have "count_where (\<lambda>y. y = r) t = 0" using Cons.prems(1) by (auto simp: count_where_0_iff)
    then have "update_many (\<lambda>y. y = r) f t = t" by (rule update_many_None)
    then show ?thesis using True Cons.prems(3) by (simp add: update_many_Cons)
  qed (use Cons in \<open>auto simp: update_many_Cons\<close>)
qed simp

lemma local_one_row:
  assumes "v_transactionId rec = i"
  shows "local_change v_transactionId i t (update_many (\<lambda>r. r = rec) (supersede now cid) t)"
  using assms by (intro local_change_update) auto

text \<open>What replacing the record \<open>rec\<close> by \<open>new\<close> does to its table.\<close>

definition replacing ::
  "('a versioned_scheme \<Rightarrow> 'k) \<Rightarrow> ident \<Rightarrow> ident \<Rightarrow> 'a versioned_scheme list \<Rightarrow> 'a versioned_scheme list
     \<Rightarrow> 'a versioned_scheme \<Rightarrow> 'a versioned_scheme \<Rightarrow> bool"
where
  "replacing key i n rows rows' rec new \<longleftrightarrow>
     local_change v_transactionId i rows rows' \<and> ids_below (Suc n) rows' \<and>
     (revisions_unique key v_revision rows \<longrightarrow> revisions_unique key v_revision rows') \<and>
     (\<forall>r. row_read n i rows r \<longrightarrow> row_read (Suc n) i rows' r) \<and>
     (\<forall>q. (\<forall>x. q x \<longrightarrow> v_isCurrent x) \<longrightarrow>
        count_where q rows' + (if q rec then 1 else 0) = count_where q rows + (if q new then 1 else 0))"

lemma replaced:
  fixes rec :: "'a versioned_scheme"
  assumes "replace_row key chg rec now cid n rows = Inr rows'" "row_read n i rows rec" "ids_below n rows"
    and "\<And>w x. chg = Some w \<Longrightarrow> row_id (w x) = row_id x" "\<And>x. key (supersede now cid x) = key x"
  shows "\<exists>w. chg = Some w \<and> rec \<in> set rows \<and>
    rows' = update_many (\<lambda>r. r = rec) (supersede now cid) rows @ [w (replacement n now rec)] \<and>
    replacing key i n rows rows' rec (w (replacement n now rec))"
proof -
  obtain w where w: "chg = Some w" and one: "count_where (same_row rec) rows = 1"
    and fresh: "\<not> list_ex (\<lambda>s. key s = key (w (replacement n now rec)) \<and> v_revision s = v_revision (w (replacement n now rec)))
      (update_many (same_row rec) (supersede now cid) rows)"
    and rows': "rows' = update_many (same_row rec) (supersede now cid) rows @ [w (replacement n now rec)]"
    using assms(1) by (auto simp: replace_row_def Let_def split: if_splits option.splits)
  let ?new = "w (replacement n now rec)" and ?old = "update_many (\<lambda>r. r = rec) (supersede now cid) rows"
  have "row_id ?new = row_id (replacement n now rec)" by (rule assms(4) [OF w])
  then have new: "v_id ?new = n" "v_transactionId ?new = i" "v_isCurrent ?new"
    using assms(2) by (auto simp: row_id_def replacement_def row_read_def)
  have "count_where (same_row rec) rows \<noteq> 0" using one by simp
  then obtain r where "r \<in> set rows" "same_row rec r" by (auto simp: count_where_0_iff)
  then have rec: "rec \<in> set rows" using assms(2) by (auto simp: row_read_def)
  have "same_row rec r \<longleftrightarrow> r = rec" if "r \<in> set rows" for r
    using assms(2) that by (auto simp: row_read_def same_row_def)
  then have old: "update_many (same_row rec) (supersede now cid) rows = ?old"
    by (simp add: update_many_def)
  have dist: "distinct rows" using assms(3) by (auto simp: ids_below_def distinct_map)
  have trec: "v_transactionId rec = i" using assms(2) by (simp add: row_read_def)
  have "replacing key i n rows rows' rec ?new"
    unfolding replacing_def
  proof (intro conjI impI allI)
    show "local_change v_transactionId i rows rows'"
      using local_one_row [OF trec, of rows now cid] new(2) unfolding rows' old by (simp add: local_change_def)
    have "ids_below n ?old" using assms(3) ids_below_cong [of ?old rows n] by (simp add: map_update_many)
    then show "ids_below (Suc n) rows'" unfolding rows' old using new(1) by (rule ids_below_append)
    show "revisions_unique key v_revision rows'" if u: "revisions_unique key v_revision rows"
    proof -
      have "map (\<lambda>r. (key r, v_revision r)) ?old = map (\<lambda>r. (key r, v_revision r)) rows"
        by (rule map_update_many) (simp add: assms(5))
      then have "revisions_unique key v_revision ?old" using u by (simp add: revisions_unique_def)
      then show ?thesis unfolding rows' old by (rule unique_append_fresh) (rule fresh [unfolded old])
    qed
    show "row_read (Suc n) i rows' r" if r: "row_read n i rows r" for r
      using r new(1) unfolding rows' old by (auto simp: row_read_def same_row_def set_update_many)
    show "count_where q rows' + (if q rec then 1 else 0) = count_where q rows + (if q ?new then 1 else 0)"
      if "\<forall>x. q x \<longrightarrow> v_isCurrent x" for q
    proof -
      have "\<not> q (supersede now cid rec)" using that by fastforce
      then show ?thesis using count_one_row [OF dist rec, of q "supersede now cid"] by (simp add: rows' old)
    qed
  qed
  then show ?thesis using w rec by (auto simp: rows' old)
qed

section \<open>One group of items\<close>

lemma wr_changes:
  "apply_fields (wr_write cl) kvs = Some w \<Longrightarrow> row_id (w r) = row_id r \<and> wr_type (w r) = wr_type r"
  by (erule apply_fields_rel [where R = "\<lambda>a b. row_id b = row_id a \<and> wr_type b = wr_type a"])
    (simp_all add: wr_write_id)

lemma wp_changes:
  "apply_fields (wp_write cl) kvs = Some w \<Longrightarrow> row_id (w r) = row_id r \<and> wp_processType (w r) = wp_processType r \<and>
     (wp_endAt (w r) = None \<longrightarrow> wp_endAt r = None)"
  by (erule apply_fields_rel [where R = "\<lambda>a b. row_id b = row_id a \<and> wp_processType b = wp_processType a \<and>
      (wp_endAt b = None \<longrightarrow> wp_endAt a = None)"]) (auto dest: wp_write_id)

lemma qv_changes: "apply_fields (qv_write cl) kvs = Some w \<Longrightarrow> row_id (w r) = row_id r"
  by (erule apply_fields_rel [where R = "\<lambda>a b. row_id b = row_id a"]) (simp_all add: qv_write_id)

lemma im_changes: "apply_fields (im_write cl) kvs = Some w \<Longrightarrow> row_id (w r) = row_id r"
  by (erule apply_fields_rel [where R = "\<lambda>a b. row_id b = row_id a"]) (simp_all add: im_write_id)

lemma json_kept_Some: "json_kept cl col r chg = Some w \<Longrightarrow> chg = Some w"
  by (auto simp: json_kept_def split: option.splits if_splits)

fun target_read :: "db \<Rightarrow> ident \<Rightarrow> target \<Rightarrow> bool" where
  "target_read d i (OnWeighbridge r) = row_read (nextId d) i (weighbridgeRecords d) r"
| "target_read d i (OnWarehouse r) = row_read (nextId d) i (warehouseProcesses d) r"
| "target_read d i (OnVehicle r) = row_read (nextId d) i (qcVehicleChecks d) r"
| "target_read d i (OnMaterial r) = row_read (nextId d) i (incomingMaterialChecks d) r"
| "target_read d i (OnAttachment r) = True"

lemma row_read_mono: "row_read n i rows r \<Longrightarrow> row_read (Suc n) i rows r"
  by (auto simp: row_read_def)

lemma ids_below_Suc: "ids_below n t \<Longrightarrow> ids_below (Suc n) t"
  by (erule ids_below_mono) simp

lemma map_sum_Inr: "map_sum id f x = Inr y \<longleftrightarrow> (\<exists>a. x = Inr a \<and> y = f a)"
  by (cases x) auto

text \<open>A data correction can close the open process; it opens none.\<close>

definition record_step :: "ident \<Rightarrow> db \<Rightarrow> db \<Rightarrow> bool" where
  "record_step i d d' \<longleftrightarrow> local_to i d d' \<and> revs_ok d' \<and> transactions d' = transactions d \<and>
     (\<forall>t. \<exists>n \<le> tk_open (truck_for d i t). truck_for d' i t = (truck_for d i t)\<lparr>tk_open := n\<rparr>) \<and>
     (\<forall>tg. target_read d i tg \<longrightarrow> target_read d' i tg)"

lemma record_stepI:
  assumes "local_to i d d'" "revs_ok d'" "transactions d' = transactions d"
    and "\<And>t. tk_open (truck_for d' i t) \<le> tk_open (truck_for d i t)"
    and "\<And>t. truck_for d' i t = (truck_for d i t)\<lparr>tk_open := tk_open (truck_for d' i t)\<rparr>"
    and "\<And>tg. target_read d i tg \<Longrightarrow> target_read d' i tg"
  shows "record_step i d d'"
  using assms unfolding record_step_def by blast

lemma count_replaced:
  assumes "replacing key i n rows rows' r new" "\<And>x. q x \<Longrightarrow> v_isCurrent x"
  shows "q new = q r \<Longrightarrow> count_where q rows' = count_where q rows"
    and "(q new \<Longrightarrow> q r) \<Longrightarrow> count_where q rows' \<le> count_where q rows"
proof -
  have "count_where q rows' + (if q r then 1 else 0) = count_where q rows + (if q new then 1 else 0)"
    using assms unfolding replacing_def by blast
  then show "q new = q r \<Longrightarrow> count_where q rows' = count_where q rows"
    and "(q new \<Longrightarrow> q r) \<Longrightarrow> count_where q rows' \<le> count_where q rows" by (auto split: if_splits)
qed

lemma current_row_replacement:
  assumes "row_id new = row_id (replacement n now r)" "v_isCurrent r"
  shows "current_row i new = current_row i r" "v_isCurrent new" "v_transactionId new = v_transactionId r"
  using assms by (auto simp: current_row_def row_id_def replacement_def)

lemma write_weighbridge:
  assumes "write_group cl cid now g d = Inr d'" "og_target g = OnWeighbridge r"
    and "target_read d i (OnWeighbridge r)" "revs_ok d"
  shows "record_step i d d'"
proof -
  let ?chg = "apply_fields (wr_write cl) (updates (og_items g))"
  obtain rows where r: "replace_row wr_key ?chg r now cid (nextId d) (weighbridgeRecords d) = Inr rows"
    and d': "d' = d\<lparr>weighbridgeRecords := rows, nextId := Suc (nextId d)\<rparr>"
    using assms(1,2) by (auto simp: write_group_defs Let_def map_sum_Inr)
  have "row_id (w x) = row_id x" if "?chg = Some w" for w x using wr_changes [OF that] by simp
  then obtain w where w: "?chg = Some w"
      and rp: "replacing wr_key i (nextId d) (weighbridgeRecords d) rows r (w (replacement (nextId d) now r))"
    using replaced [OF r, of i] assms(3,4) by (auto simp: revs_ok_def wr_key_def)
  have cur: "v_isCurrent r" using assms(3) by (simp add: row_read_def)
  have "current_wr i ty (w (replacement (nextId d) now r)) = current_wr i ty r" for ty
    using wr_changes [OF w, of "replacement (nextId d) now r"] cur
    by (auto simp: current_wr_def row_id_def replacement_def)
  then have "count_where (current_wr i ty) rows = count_where (current_wr i ty) (weighbridgeRecords d)" for ty
    by (intro count_replaced(1) [OF rp]) (auto simp: current_wr_def)
  then have k: "truck_for d' i t = truck_for d i t" for t by (simp add: truck_for_def d' history_of_def)
  show ?thesis
  proof (rule record_stepI)
    show "local_to i d d'" using rp by (simp add: replacing_def d' local_to_def find_tx_def)
    show "revs_ok d'" using rp assms(4) by (simp add: replacing_def d' revs_ok_def ids_below_Suc)
    show "target_read d' i tg" if "target_read d i tg" for tg
      using that rp by (cases tg) (auto simp: d' replacing_def intro: row_read_mono)
  qed (simp_all add: k, simp add: d')
qed

lemma write_warehouse:
  assumes "write_group cl cid now g d = Inr d'" "og_target g = OnWarehouse r"
    and "target_read d i (OnWarehouse r)" "revs_ok d"
  shows "record_step i d d'"
proof -
  let ?chg = "json_kept cl wp_checklistItems r (apply_fields (wp_write cl) (updates (og_items g)))"
  obtain rows where r: "replace_row wp_key ?chg r now cid (nextId d) (warehouseProcesses d) = Inr rows"
    and d': "d' = d\<lparr>warehouseProcesses := rows, nextId := Suc (nextId d)\<rparr>"
    using assms(1,2) by (auto simp: write_group_defs Let_def map_sum_Inr)
  have "row_id (w x) = row_id x" if "?chg = Some w" for w x using wp_changes [OF json_kept_Some [OF that]] by simp
  then obtain w where w: "?chg = Some w"
      and rp: "replacing wp_key i (nextId d) (warehouseProcesses d) rows r (w (replacement (nextId d) now r))"
    using replaced [OF r, of i] assms(3,4) by (auto simp: revs_ok_def wp_key_def supersede_def)
  let ?new = "w (replacement (nextId d) now r)"
  have cur: "v_isCurrent r" using assms(3) by (simp add: row_read_def)
  note ch = wp_changes [OF json_kept_Some [OF w], of "replacement (nextId d) now r"]
  note rid = current_row_replacement [OF ch [THEN conjunct1] cur]
  have cr: "count_where (current_row i) rows = count_where (current_row i) (warehouseProcesses d)"
    by (rule count_replaced(1) [OF rp _ rid(1)]) (simp add: current_row_def)
  have "open_process i ?new \<Longrightarrow> open_process i r" using rid ch cur by (auto simp: open_process_def replacement_def)
  then have op: "count_where (open_process i) rows \<le> count_where (open_process i) (warehouseProcesses d)"
    by (intro count_replaced(2) [OF rp]) (simp_all add: open_process_def)
  show ?thesis
  proof (rule record_stepI)
    show "local_to i d d'" using rp by (simp add: replacing_def d' local_to_def find_tx_def)
    show "revs_ok d'" using rp assms(4) by (simp add: replacing_def d' revs_ok_def ids_below_Suc)
    show "target_read d' i tg" if "target_read d i tg" for tg
      using that rp by (cases tg) (auto simp: d' replacing_def intro: row_read_mono)
  qed (simp_all add: truck_for_def d' history_of_def cr op)
qed

lemma write_vehicle:
  assumes "write_group cl cid now g d = Inr d'" "og_target g = OnVehicle r"
    and "target_read d i (OnVehicle r)" "revs_ok d"
  shows "record_step i d d'"
proof -
  let ?chg = "map_option (\<lambda>w. w \<circ> undecided)
    (json_kept cl qv_checklistItems r (apply_fields (qv_write cl) (updates (og_items g))))"
  obtain rows where r: "replace_row v_transactionId ?chg r now cid (nextId d) (qcVehicleChecks d) = Inr rows"
    and d': "d' = d\<lparr>qcVehicleChecks := rows, nextId := Suc (nextId d)\<rparr>"
    using assms(1,2) by (auto simp: write_group_defs Let_def map_sum_Inr)
  have chg: "row_id (w x) = row_id x" if c: "?chg = Some w" for w x
  proof -
    obtain w' where w': "apply_fields (qv_write cl) (updates (og_items g)) = Some w'" "w = w' \<circ> undecided"
      using c by (auto dest: json_kept_Some)
    then show ?thesis using qv_changes [OF w'(1), of "undecided x"] by (simp add: row_id_def undecided_def)
  qed
  then obtain w where w: "?chg = Some w"
      and rp: "replacing v_transactionId i (nextId d) (qcVehicleChecks d) rows r (w (replacement (nextId d) now r))"
    using replaced [OF r, of i] assms(3,4) by (auto simp: revs_ok_def)
  have "v_isCurrent r" using assms(3) by (simp add: row_read_def)
  note rid = current_row_replacement [OF chg [OF w] this]
  have cr: "count_where (current_row i) rows = count_where (current_row i) (qcVehicleChecks d)"
    by (rule count_replaced(1) [OF rp _ rid(1)]) (simp add: current_row_def)
  show ?thesis
  proof (rule record_stepI)
    show "local_to i d d'" using rp by (simp add: replacing_def d' local_to_def find_tx_def)
    show "revs_ok d'" using rp assms(4) by (simp add: replacing_def d' revs_ok_def ids_below_Suc)
    show "target_read d' i tg" if "target_read d i tg" for tg
      using that rp by (cases tg) (auto simp: d' replacing_def intro: row_read_mono)
  qed (simp_all add: truck_for_def d' history_of_def cr)
qed

lemma write_material:
  assumes "write_group cl cid now g d = Inr d'" "og_target g = OnMaterial r"
    and "target_read d i (OnMaterial r)" "revs_ok d"
  shows "record_step i d d'"
proof -
  let ?chg = "json_kept cl im_checklistItems r (apply_fields (im_write cl) (updates (og_items g)))"
  obtain rows where r: "replace_row v_transactionId ?chg r now cid (nextId d) (incomingMaterialChecks d) = Inr rows"
    and d': "d' = d\<lparr>incomingMaterialChecks := rows, nextId := Suc (nextId d)\<rparr>"
    using assms(1,2) by (auto simp: write_group_defs Let_def map_sum_Inr)
  have chg: "row_id (w x) = row_id x" if "?chg = Some w" for w x using im_changes [OF json_kept_Some [OF that]] by simp
  then obtain w where w: "?chg = Some w"
      and rp: "replacing v_transactionId i (nextId d) (incomingMaterialChecks d) rows r (w (replacement (nextId d) now r))"
    using replaced [OF r, of i] assms(3,4) by (auto simp: revs_ok_def)
  have "v_isCurrent r" using assms(3) by (simp add: row_read_def)
  note rid = current_row_replacement [OF chg [OF w] this]
  have cr: "count_where (current_row i) rows = count_where (current_row i) (incomingMaterialChecks d)"
    by (rule count_replaced(1) [OF rp _ rid(1)]) (simp add: current_row_def)
  show ?thesis
  proof (rule record_stepI)
    show "local_to i d d'" using rp by (simp add: replacing_def d' local_to_def find_tx_def)
    show "revs_ok d'" using rp assms(4) by (simp add: replacing_def d' revs_ok_def ids_below_Suc)
    show "target_read d' i tg" if "target_read d i tg" for tg
      using that rp by (cases tg) (auto simp: d' replacing_def intro: row_read_mono)
  qed (simp_all add: truck_for_def d' history_of_def cr)
qed

lemma record_step_nextId:
  assumes "revs_ok d" "d' = d\<lparr>attachments := rows, nextId := Suc (nextId d)\<rparr>"
  shows "record_step i d d'"
proof (rule record_stepI)
  show "target_read d' i tg" if "target_read d i tg" for tg
    using that by (cases tg) (auto simp: assms(2) intro: row_read_mono)
qed (use assms(1) in \<open>simp_all add: assms(2) local_to_def find_tx_def revs_ok_def ids_below_Suc truck_for_def history_of_def\<close>)

lemma write_group_step:
  assumes "write_group cl cid now g d = Inr d'" "target_read d i (og_target g)" "revs_ok d"
  shows "record_step i d d'"
proof (cases "og_target g")
  case (OnAttachment r)
  then obtain rows where "d' = d\<lparr>attachments := rows, nextId := Suc (nextId d)\<rparr>"
    using assms(1) by (auto simp: write_group_defs Let_def map_sum_Inr)
  then show ?thesis by (rule record_step_nextId [OF assms(3)])
qed (use assms write_weighbridge write_warehouse write_vehicle write_material in metis)+

lemma record_step_refl: "revs_ok d \<Longrightarrow> record_step i d d"
  by (rule record_stepI) simp_all

lemma record_step_trans:
  assumes "record_step i d1 d2" "record_step i d2 d3"
  shows "record_step i d1 d3"
proof (rule record_stepI)
  fix t
  obtain n2 where n2: "n2 \<le> tk_open (truck_for d1 i t)" "truck_for d2 i t = (truck_for d1 i t)\<lparr>tk_open := n2\<rparr>"
    using assms(1) unfolding record_step_def by blast
  obtain n3 where n3: "n3 \<le> tk_open (truck_for d2 i t)" "truck_for d3 i t = (truck_for d2 i t)\<lparr>tk_open := n3\<rparr>"
    using assms(2) unfolding record_step_def by blast
  show "tk_open (truck_for d3 i t) \<le> tk_open (truck_for d1 i t)" using n2 n3 by simp
  show "truck_for d3 i t = (truck_for d1 i t)\<lparr>tk_open := tk_open (truck_for d3 i t)\<rparr>" using n2 n3 by simp
qed (use assms local_to_trans in \<open>auto simp: record_step_def\<close>)

lemma write_groups_step:
  "write_groups cl cid now gs d = Inr (d', ps) \<Longrightarrow> \<forall>g \<in> set gs. target_read d i (og_target g) \<Longrightarrow> revs_ok d \<Longrightarrow>
     record_step i d d'"
proof (induction gs arbitrary: d ps)
  case (Cons g gs)
  obtain d1 ps' where w: "write_group cl cid now g d = Inr d1" "write_groups cl cid now gs d1 = Inr (d', ps')"
    using Cons.prems(1) by (auto split: sum.splits)
  have 1: "record_step i d d1" using write_group_step [OF w(1)] Cons.prems(2,3) by simp
  have "record_step i d1 d'" using Cons.IH [OF w(2)] 1 Cons.prems(2) by (simp add: record_step_def)
  with 1 show ?case by (rule record_step_trans)
qed (auto intro: record_step_refl)

section \<open>What the plan read\<close>

lemma pick_mem: "pick rows rid = Some r \<Longrightarrow> r \<in> set rows"
  by (auto simp: pick_def dest: find_first_SomeD split: option.splits if_splits)

lemma picked:
  "request_pick m f rows rid = Inr (Some tg) \<Longrightarrow> \<exists>r \<in> set rows. tg = f r"
  "conflict_pick m f rows rid = Inr (Some tg) \<Longrightarrow> \<exists>r \<in> set rows. tg = f r"
  by (auto simp: request_pick_def conflict_pick_def dest: pick_mem split: option.splits if_splits)

lemma target_of_read:
  assumes "target_of d i m rid = Inr (Some tg)" "revs_ok d"
  shows "target_read d i tg"
  using assms(1)
proof (cases m)
  case TM_ATTACHMENT
  then show ?thesis using assms(1) by (auto dest!: picked)
qed (use assms row_read_current in \<open>fastforce dest: picked simp: revs_ok_def\<close>)+

lemma add_item_all:
  "P tg \<Longrightarrow> \<forall>g \<in> set gs. P (og_target g) \<Longrightarrow> \<forall>g \<in> set (add_item gs m tg it). P (og_target g)"
  by (induction gs m tg it rule: add_item.induct) auto

definition normalised :: "oc_item \<Rightarrow> oc_item" where
  "normalised it = it\<lparr>it_newValue := normalisedValue (it_fieldName it) (it_newValue it)\<rparr>"

lemma group_items_Cons:
  "group_items cl d i (it # its) roots gs = Inr res \<longleftrightarrow>
     it_fieldName it \<in> set (FIELD_ALLOWLIST (it_targetModule it)) \<and>
     validateDomain cl (it_fieldName it) (it_newValue it) = None \<and>
     (\<exists>x. target_of d i (it_targetModule it) (it_targetRecordId it) = Inr x \<and>
        (case x of
           None \<Rightarrow> group_items cl d i its (roots @ [normalised it]) gs
         | Some tg \<Rightarrow> group_items cl d i its roots (add_item gs (it_targetModule it) tg (normalised it))) = Inr res)"
  unfolding group_items.simps(2) Let_def normalised_def [symmetric]
  by (cases "validateDomain cl (it_fieldName it) (it_newValue it)";
      cases "target_of d i (it_targetModule it) (it_targetRecordId it)") (simp_all split: option.split)

lemma group_items_read:
  "group_items cl d i its roots gs = Inr (roots', gs') \<Longrightarrow> revs_ok d \<Longrightarrow> \<forall>g \<in> set gs. target_read d i (og_target g) \<Longrightarrow>
     \<forall>g \<in> set gs'. target_read d i (og_target g)"
proof (induction its arbitrary: roots gs)
  case (Cons it its)
  obtain x where x: "target_of d i (it_targetModule it) (it_targetRecordId it) = Inr x"
    and rest: "(case x of
           None \<Rightarrow> group_items cl d i its (roots @ [normalised it]) gs
         | Some tg \<Rightarrow> group_items cl d i its roots (add_item gs (it_targetModule it) tg (normalised it))) = Inr (roots', gs')"
    using Cons.prems(1) unfolding group_items_Cons by blast
  show ?case
  proof (cases x)
    case None
    then show ?thesis using Cons.IH [OF _ Cons.prems(2,3)] rest by simp
  next
    case (Some tg)
    have "target_read d i tg" using target_of_read x Some Cons.prems(2) by blast
    then have "\<forall>g \<in> set (add_item gs (it_targetModule it) tg (normalised it)). target_read d i (og_target g)"
      using Cons.prems(3) by (rule add_item_all)
    then show ?thesis using Cons.IH [OF _ Cons.prems(2)] rest Some by simp
  qed
qed simp

text \<open>A plan is made for a finished transaction at the revision the client expects.\<close>

lemma planned:
  assumes "planCorrection cl d i dto = Inr pl" "revs_ok d"
  shows "find_tx d i = Some (pl_tx pl) \<and> final_status (status (pl_tx pl)) \<and>
    revision (pl_tx pl) = co_expectedRevision dto \<and> (co_action dto = Some REOPEN_WORKFLOW \<longrightarrow> \<not> isVoided (pl_tx pl)) \<and>
    (\<forall>g \<in> set (pl_groups pl). target_read d i (og_target g)) \<and> (co_items dto = [] \<longrightarrow> pl_groups pl = [] \<and> pl_roots pl = [])"
proof -
  obtain tx roots groups where pl: "find_tx d i = Some tx" "rowRefusal d i dto tx = None"
      "group_items cl d i (co_items dto) [] [] = Inr (roots, groups)"
      "pl_tx pl = tx" "pl_roots pl = roots" "pl_groups pl = groups"
    using assms(1) by (auto simp: planCorrection_def Let_def split: option.splits sum.splits)
  have "\<forall>g \<in> set groups. target_read d i (og_target g)" using group_items_read [OF pl(3) assms(2)] by simp
  moreover have "(status tx = COMPLETED \<or> status tx = CANCELLED) \<and> revision tx = co_expectedRevision dto \<and>
      (co_action dto = Some REOPEN_WORKFLOW \<longrightarrow> \<not> isVoided tx)"
    using pl(2) by (auto simp: rowRefusal_def split: if_splits)
  ultimately show ?thesis using pl by (auto simp: final_status_def)
qed

section \<open>The reopened truck\<close>

lemma supersede_frames [simp]:
  "find_tx (supersede_weighings i ty now cid d) j = find_tx d j"
  "find_tx (supersede_vehicle_checks i now cid d) j = find_tx d j"
  "find_tx (supersede_incoming_checks i now cid d) j = find_tx d j"
  "find_tx (supersede_processes i now cid d) j = find_tx d j"
  "transactions (supersede_weighings i ty now cid d) = transactions d"
  "transactions (supersede_vehicle_checks i now cid d) = transactions d"
  "transactions (supersede_incoming_checks i now cid d) = transactions d"
  "transactions (supersede_processes i now cid d) = transactions d"
  by (simp_all add: supersede_weighings_def supersede_vehicle_checks_def supersede_incoming_checks_def supersede_processes_def)

lemma local_to_supersede:
  "local_to i d (supersede_weighings i ty now cid d)"
  "local_to i d (supersede_vehicle_checks i now cid d)"
  "local_to i d (supersede_incoming_checks i now cid d)"
  "local_to i d (supersede_processes i now cid d)"
  by (auto simp: local_to_def find_tx_def supersede_weighings_def supersede_vehicle_checks_def
      supersede_incoming_checks_def supersede_processes_def current_wr_def current_row_def intro!: local_change_update)

lemma ids_below_supersede: "ids_below n (update_many p (supersede now cid) t) = ids_below n t"
  by (rule ids_below_cong) (simp add: map_update_many)

lemma revs_ok_supersede [simp]:
  "revs_ok (supersede_weighings i ty now cid d) = revs_ok d"
  "revs_ok (supersede_vehicle_checks i now cid d) = revs_ok d"
  "revs_ok (supersede_incoming_checks i now cid d) = revs_ok d"
  "revs_ok (supersede_processes i now cid d) = revs_ok d"
  by (simp_all add: revs_ok_def supersede_weighings_def supersede_vehicle_checks_def supersede_incoming_checks_def
      supersede_processes_def wrt.unique_retire wpt.unique_retire vt.unique_retire ids_below_supersede)

lemma count_superseded: "(\<And>r. q r \<Longrightarrow> v_isCurrent r \<and> p r) \<Longrightarrow> count_where q (update_many p (supersede now cid) t) = 0"
  by (fastforce simp: count_where_0_iff set_update_many)

lemma count_not_superseded:
  "(\<And>r. p r \<Longrightarrow> \<not> q r \<and> \<not> q (supersede now cid r)) \<Longrightarrow> count_where q (update_many p (supersede now cid) t) = count_where q t"
  by (rule count_where_update_many_same) blast

lemma truck_for_supersede:
  "truck_for (supersede_weighings i IN now cid d) i t = (truck_for d i t)\<lparr>tk_in := 0\<rparr>"
  "truck_for (supersede_weighings i OUT now cid d) i t = (truck_for d i t)\<lparr>tk_out := 0\<rparr>"
  "truck_for (supersede_vehicle_checks i now cid d) i t = (truck_for d i t)\<lparr>tk_vehicle := 0\<rparr>"
  "truck_for (supersede_incoming_checks i now cid d) i t = (truck_for d i t)\<lparr>tk_incoming := 0\<rparr>"
  "truck_for (supersede_processes i now cid d) i t = (truck_for d i t)\<lparr>tk_warehouse := 0, tk_open := 0\<rparr>"
proof -
  have "count_where (current_wr i IN) (update_many (current_wr i OUT) (supersede now cid) w) = count_where (current_wr i IN) w"
    "count_where (current_wr i OUT) (update_many (current_wr i IN) (supersede now cid) w) = count_where (current_wr i OUT) w" for w
    by (rule count_not_superseded, auto simp: current_wr_def)+
  moreover have "count_where (current_wr i ty) (update_many (current_wr i ty) (supersede now cid) w) = 0" for ty w
    by (rule count_superseded) (simp add: current_wr_def)
  moreover have "count_where (current_row i) (update_many (current_row i) (supersede now cid) w) = 0" for w :: "'a versioned_scheme list"
    by (rule count_superseded) (simp add: current_row_def)
  moreover have "count_where (open_process i) (update_many (current_row i) (supersede now cid) w) = 0" for w
    by (rule count_superseded) (simp add: current_row_def open_process_def)
  ultimately show "truck_for (supersede_weighings i IN now cid d) i t = (truck_for d i t)\<lparr>tk_in := 0\<rparr>"
    "truck_for (supersede_weighings i OUT now cid d) i t = (truck_for d i t)\<lparr>tk_out := 0\<rparr>"
    "truck_for (supersede_processes i now cid d) i t = (truck_for d i t)\<lparr>tk_warehouse := 0, tk_open := 0\<rparr>"
    "truck_for (supersede_vehicle_checks i now cid d) i t = (truck_for d i t)\<lparr>tk_vehicle := 0\<rparr>"
    "truck_for (supersede_incoming_checks i now cid d) i t = (truck_for d i t)\<lparr>tk_incoming := 0\<rparr>"
    by (simp_all add: truck_for_def history_of_def supersede_weighings_def supersede_vehicle_checks_def
        supersede_incoming_checks_def supersede_processes_def)
qed

lemma allowed_targets: "REOPEN_ALLOWED_TARGETS p = reopen_targets p"
  by (cases p) simp_all

definition reopenable :: "process_type \<Rightarrow> transaction_status \<Rightarrow> bool" where
  "reopenable p s \<longleftrightarrow> effectiveTarget s \<in> set (REOPEN_ALLOWED_TARGETS p)"

lemma reopenable_cases:
  "reopenable p s \<longleftrightarrow> s = REGISTERED \<or> s = QC_VEHICLE_PENDING \<or> s = QC_VEHICLE_PASSED \<or> s = WAREHOUSE_IN_PROGRESS \<or>
     s = INCOMING_CHECK_PENDING \<and> p \<noteq> GBJ"
  by (auto simp: reopenable_def effectiveTarget_def allowed_targets in_reopen_targets)

lemmas supersede_back =
  local_to_trans [OF _ local_to_supersede(1)] local_to_trans [OF _ local_to_supersede(2)]
  local_to_trans [OF _ local_to_supersede(3)] local_to_trans [OF _ local_to_supersede(4)]

lemma reopenRows_local: "local_to i d (reopenRows i s now cid d)"
  by (simp add: reopenRows_def Let_def) (intro conjI impI supersede_back local_to_refl)

lemma reopenRows_frame [simp]:
  "transactions (reopenRows i s now cid d) = transactions d" "find_tx (reopenRows i s now cid d) j = find_tx d j"
  "revs_ok (reopenRows i s now cid d) = revs_ok d"
  by (simp_all add: reopenRows_def Let_def)

lemma reopenRows_truck:
  "reopenable p s \<Longrightarrow> truck_for (reopenRows i s now cid d) i t = reset_for (effectiveTarget s) (truck_for d i t)"
  unfolding reopenable_cases
  by (elim disjE conjE) (simp_all add: reopenRows_def Let_def truck_for_supersede reset_for_def effectiveTarget_def)

section \<open>The commit\<close>

lemma tx_changes:
  "apply_fields tx_write data = Some w \<Longrightarrow> tx_protected (w t) = tx_protected t"
  by (erule apply_fields_rel [where R = "\<lambda>a b. tx_protected b = tx_protected a"]) (simp_all add: tx_write_protected)

lemma protected_fields:
  assumes "tx_protected t' = tx_protected t"
  shows "tx_key t' = tx_key t" "processType t' = processType t" "status t' = status t" "revision t' = revision t"
    "isVoided t' = isVoided t"
  using assms by (simp_all add: tx_protected_def)

lemma corrected_simps:
  assumes "apply_fields tx_write data = Some w"
  shows "tx_key (corrected w st t) = tx_key t" "processType (corrected w st t) = processType t"
    "status (corrected w st t) = val_or st (status t)" "revision (corrected w st t) = Suc (revision t)"
    "isVoided (corrected w st t) = isVoided t"
  using protected_fields [OF tx_changes [OF assms, of t]] by (simp_all add: corrected_def tx_key_def)

lemma create_items_frame:
  assumes "create_items cl ps d = Inr d'"
  shows "d' = d\<lparr>correctionItems := correctionItems d @ number_items (nextId d) ps, nextId := nextId d + length ps\<rparr>"
proof -
  have "length (number_items n ps) = length ps" for n by (induction ps arbitrary: n) simp_all
  then show ?thesis using assms by (auto simp: create_items_def Let_def split: if_splits)
qed

lemma create_items_keeps:
  assumes "create_items cl ps d = Inr d'"
  shows "local_to i d d' \<and> (revs_ok d \<longrightarrow> revs_ok d') \<and> transactions d' = transactions d \<and> truck_for d' = truck_for d"
  using create_items_frame [OF assms] revs_ok_same [of d d']
  by (simp add: local_to_def find_tx_def truck_for_def [abs_def] history_of_def)

lemma correctionFraud_frame [simp]:
  "find_tx (correctionFraud i now d) j = find_tx d j" "truck_for (correctionFraud i now d) = truck_for d"
  "revs_ok d \<Longrightarrow> revs_ok (correctionFraud i now d)" "local_to k d (correctionFraud i now d)"
  "corrections (correctionFraud i now d) = corrections d" "correctionItems (correctionFraud i now d) = correctionItems d"
  by (auto simp: correctionFraud_def revs_ok_same [of d] local_to_def find_tx_def truck_for_def [abs_def] history_of_def
      split: option.splits)

text \<open>What a correction that is not refused went through.\<close>

lemma commitCorrection_steps:
  assumes "commitCorrection cl i dto user ip nr now pl d = Inr d'"
  obtains d2 ps d3 d4 data st w where
    "write_groups cl (nextId d) now (pl_groups pl)
       (d\<lparr>corrections := corrections d @ [correctionHeader i dto user ip nr now pl (nextId d)], nextId := Suc (nextId d)\<rparr>)
       = Inr (d2, ps)"
    "create_items cl (root_payloads (nextId d) (pl_tx pl) (pl_roots pl) @ ps) d2 = Inr d3"
    "reopenWorkflow (pl_tx pl) dto i now (nextId d) (withNetWeight (pl_tx pl) (p1_data (pl_pass1 pl))) d3 = Inr (d4, data, st)"
    "apply_fields tx_write data = Some w"
    "snd (claim i (\<lambda>t. revision t = co_expectedRevision dto) (corrected w st) d4) \<noteq> 0"
    "d' = recordCorrection (pl_tx pl) i dto user nr st now
       (fst (claim i (\<lambda>t. revision t = co_expectedRevision dto) (corrected w st) d4))"
  using assms unfolding commitCorrection_def Let_def
  by (auto split: if_splits sum.splits prod.splits option.splits)

lemma reopenWorkflow_cases:
  assumes "reopenWorkflow tx dto i now cid data d = Inr (d4, data4, st)"
  obtains (correction) "co_action dto \<noteq> Some REOPEN_WORKFLOW" "d4 = d" "data4 = data" "st = None"
  | (reopening) s where "co_action dto = Some REOPEN_WORKFLOW" "s = val_or (co_reopenTargetStatus dto) QC_VEHICLE_PENDING"
      "reopenable (processType tx) s" "d4 = reopenRows i s now cid d" "data4 = reopenData tx s now data"
      "st = Some (effectiveTarget s)"
proof (cases "co_action dto = Some REOPEN_WORKFLOW")
  case True
  have "reopenable (processType tx) WAREHOUSE_IN_PROGRESS" by (simp add: reopenable_cases)
  then show ?thesis using True assms reopening
    by (auto simp: reopenWorkflow_def Let_def reopenable_def split: if_splits)
next
  case False
  then show ?thesis using assms correction by (auto simp: reopenWorkflow_def)
qed

text \<open>The header: what the groups are about can still be read behind it.\<close>

lemma header_step:
  assumes "revs_ok d"
  shows "record_step i d (d\<lparr>corrections := cs, nextId := Suc (nextId d)\<rparr>)"
proof (rule record_stepI)
  show "target_read (d\<lparr>corrections := cs, nextId := Suc (nextId d)\<rparr>) i tg" if "target_read d i tg" for tg
    using that by (cases tg) (auto intro: row_read_mono)
qed (use assms in \<open>simp_all add: local_to_def find_tx_def revs_ok_def ids_below_Suc truck_for_def history_of_def\<close>)

lemma recordCorrection_keeps:
  "find_tx (recordCorrection tx i dto user nr st now d) j = find_tx d j"
  "revs_ok d \<Longrightarrow> revs_ok (recordCorrection tx i dto user nr st now d)"
  "local_to i d (recordCorrection tx i dto user nr st now d)"
  "corrections (recordCorrection tx i dto user nr st now d) = corrections d"
  "correctionItems (recordCorrection tx i dto user nr st now d) = correctionItems d"
  "truck_for (recordCorrection tx i dto user nr st now d) i t =
     (case st of None \<Rightarrow> truck_for d i t
      | Some s \<Rightarrow> (truck_for d i t)\<lparr>tk_history := tk_history (truck_for d i t) @ [(Some (status tx), s)]\<rparr>)"
proof -
  have "local_to i d (case st of None \<Rightarrow> d | Some s \<Rightarrow> add_history i old s u n now d)" for old u n
    by (cases st) (simp_all add: local_to_history)
  then show "local_to i d (recordCorrection tx i dto user nr st now d)" unfolding recordCorrection_def
    using local_to_trans local_to_quiet [OF same_data_audit] correctionFraud_frame(4) by meson
  show "correctionItems (recordCorrection tx i dto user nr st now d) = correctionItems d"
    by (cases st) (simp_all add: recordCorrection_def audit_def logAction_def Let_def add_history_def)
  show "corrections (recordCorrection tx i dto user nr st now d) = corrections d"
    by (cases st) (simp_all add: recordCorrection_def)
qed (cases st; simp add: recordCorrection_def)+

lemma write_group_frame:
  "write_group cl cid now g d = Inr d' \<Longrightarrow> corrections d' = corrections d \<and> correctionItems d' = correctionItems d"
  by (cases "og_target g") (auto simp: write_group_defs Let_def map_sum_Inr)

lemma write_groups_frame:
  "write_groups cl cid now gs d = Inr (d', ps) \<Longrightarrow> corrections d' = corrections d \<and> correctionItems d' = correctionItems d"
proof (induction gs arbitrary: d ps)
  case (Cons g gs)
  then obtain d1 ps' where w: "write_group cl cid now g d = Inr d1" "write_groups cl cid now gs d1 = Inr (d', ps')"
    by (auto split: sum.splits)
  show ?case using write_group_frame [OF w(1)] Cons.IH [OF w(2)] by simp
qed simp

lemma reopenRows_corrections [simp]:
  "corrections (reopenRows i s now cid d) = corrections d"
  "correctionItems (reopenRows i s now cid d) = correctionItems d"
  by (simp_all add: reopenRows_def Let_def supersede_weighings_def supersede_vehicle_checks_def
      supersede_incoming_checks_def supersede_processes_def)

lemma correctionItems_claim [simp]: "correctionItems (fst (claim i g f d)) = correctionItems d"
  by (simp add: claim_def Let_def)

text \<open>The row a correction leaves, the header, and the items: one per root item, then those of the groups.\<close>

definition correction_done ::
  "client \<Rightarrow> ident \<Rightarrow> oc_dto \<Rightarrow> jwt_user \<Rightarrow> string option \<Rightarrow> string \<Rightarrow> instant \<Rightarrow> oc_plan \<Rightarrow> db \<Rightarrow> db
     \<Rightarrow> (string \<times> cell) list \<Rightarrow> transaction_status option \<Rightarrow> transaction \<Rightarrow> bool"
where
  "correction_done cl i dto user ip nr now pl d d' data st t \<longleftrightarrow>
     (\<exists>w. apply_fields tx_write data = Some w \<and> t = corrected w st (pl_tx pl)) \<and>
     find_tx d' i = Some t \<and>
     corrections d' = corrections d @ [correctionHeader i dto user ip nr now pl (nextId d)] \<and>
     (\<exists>d2 ps n. write_groups cl (nextId d) now (pl_groups pl)
         (d\<lparr>corrections := corrections d @ [correctionHeader i dto user ip nr now pl (nextId d)], nextId := Suc (nextId d)\<rparr>)
         = Inr (d2, ps) \<and>
        correctionItems d' = correctionItems d @ number_items n (root_payloads (nextId d) (pl_tx pl) (pl_roots pl) @ ps)) \<and>
     (\<exists>d3 d4. reopenWorkflow (pl_tx pl) dto i now (nextId d) (withNetWeight (pl_tx pl) (p1_data (pl_pass1 pl))) d3
        = Inr (d4, data, st))"

lemma commitCorrection_ok:
  assumes "commitCorrection cl i dto user ip nr now pl d = Inr d'" "planCorrection cl d i dto = Inr pl" "db_ok d"
    and "correctionRefusal dto user = None"
  shows "commit_step i d d' \<and> (\<exists>data st t. correction_done cl i dto user ip nr now pl d d' data st t \<and>
    (\<forall>s. st = Some s \<longrightarrow> truck_of d' i = Some (reset_for s (move s (truck_for d i (pl_tx pl))))))"
proof -
  let ?tx = "pl_tx pl" and ?cid = "nextId d"
  let ?d1 = "d\<lparr>corrections := corrections d @ [correctionHeader i dto user ip nr now pl ?cid], nextId := Suc ?cid\<rparr>"
  obtain d2 ps d3 d4 data st w where
      groups: "write_groups cl ?cid now (pl_groups pl) ?d1 = Inr (d2, ps)"
    and items: "create_items cl (root_payloads ?cid ?tx (pl_roots pl) @ ps) d2 = Inr d3"
    and re: "reopenWorkflow ?tx dto i now ?cid (withNetWeight ?tx (p1_data (pl_pass1 pl))) d3 = Inr (d4, data, st)"
    and w: "apply_fields tx_write data = Some w"
    and n: "snd (claim i (\<lambda>t. revision t = co_expectedRevision dto) (corrected w st) d4) \<noteq> 0"
    and d': "d' = recordCorrection ?tx i dto user nr st now
       (fst (claim i (\<lambda>t. revision t = co_expectedRevision dto) (corrected w st) d4))"
    using commitCorrection_steps [OF assms(1)] by metis
  have rv: "revs_ok d" using assms(3) by (simp add: db_ok_def)
  note p = planned [OF assms(2) rv]
  have "record_step i d ?d1" by (rule header_step [OF rv])
  moreover from this have "record_step i ?d1 d2"
    using write_groups_step [OF groups, of i] p by (auto simp: record_step_def)
  ultimately have s2: "record_step i d d2" by (rule record_step_trans)
  have s3: "local_to i d d3" "revs_ok d3" "transactions d3 = transactions d" "truck_for d3 = truck_for d2"
    using create_items_keeps [OF items, of i] s2 local_to_trans by (auto simp: record_step_def)
  have s4: "local_to i d d4" "revs_ok d4" "transactions d4 = transactions d"
    using re s3 by (auto elim!: reopenWorkflow_cases intro: local_to_trans [OF _ reopenRows_local])
  have tx: "find_tx d4 i = Some ?tx" using p find_tx_cong [OF s4(3)] by simp
  let ?d5 = "fst (claim i (\<lambda>t. revision t = co_expectedRevision dto) (corrected w st) d4)"
  note cs = corrected_simps [OF w]
  have tx5: "find_tx ?d5 i = Some (corrected w st ?tx)"
    using find_tx_claim [of "corrected w st" i _ d4 i] tx p cs(1) by (simp add: tx_key_id)
  have "local_to i d4 ?d5" using cs(1) by (rule local_to_claim)
  then have loc: "local_to i d d'" unfolding d'
    by (rule local_to_trans [OF local_to_trans [OF s4(1)] recordCorrection_keeps(3)])
  have found: "find_tx d' i = Some (corrected w st ?tx)" using tx5 by (simp add: d' recordCorrection_keeps)
  have rev': "revs_ok d'" using s4(2) by (simp add: d' recordCorrection_keeps)
  have "corrections d4 = corrections d3 \<and> correctionItems d4 = correctionItems d3"
    using re by (auto elim!: reopenWorkflow_cases)
  then have "correction_done cl i dto user ip nr now pl d d' data st (corrected w st ?tx)"
    unfolding correction_done_def
    using w found groups re write_groups_frame [OF groups] create_items_frame [OF items]
    by (auto simp: d' recordCorrection_keeps)
  moreover have truck: "(st = None \<and> (\<exists>n \<le> tk_open (truck_for d i ?tx).
        truck_for d' i (corrected w st ?tx) = (bump (truck_for d i ?tx))\<lparr>tk_open := n\<rparr>)) \<or>
      (\<exists>s \<in> set (reopen_targets (processType ?tx)). st = Some s \<and> co_action dto = Some REOPEN_WORKFLOW \<and>
        truck_for d' i (corrected w st ?tx) = reset_for s (move s (truck_for d i ?tx)))"
    using re
  proof (cases rule: reopenWorkflow_cases)
    case correction
    obtain n where n: "n \<le> tk_open (truck_for d i (corrected w st ?tx))"
        "truck_for d2 i (corrected w st ?tx) = (truck_for d i (corrected w st ?tx))\<lparr>tk_open := n\<rparr>"
      using s2 unfolding record_step_def by blast
    have "truck_for d' i (corrected w st ?tx) = (bump (truck_for d i ?tx))\<lparr>tk_open := n\<rparr>"
      using n(2) correction cs by (simp add: d' recordCorrection_keeps s3(4) bump_def) (simp add: truck_for_def)
    moreover have "n \<le> tk_open (truck_for d i ?tx)" using n(1) by (simp add: truck_for_def)
    ultimately show ?thesis using correction(4) by blast
  next
    case (reopening s)
    have "co_items dto = []" using assms(4) reopening(1) by (auto simp: correctionRefusal_def split: if_splits)
    then have d2: "d2 = ?d1" using p groups by simp
    have k3: "truck_for d3 = truck_for d"
      unfolding s3(4) d2 by (simp add: truck_for_def [abs_def] history_of_def)
    have "truck_for d' i (corrected w st ?tx) = reset_for (effectiveTarget s) (move (effectiveTarget s) (truck_for d i ?tx))"
      using reopening cs
      by (simp add: d' recordCorrection_keeps reopenRows_truck k3 move_def bump_def reset_for_def) (simp add: truck_for_def)
    moreover have "effectiveTarget s \<in> set (reopen_targets (processType ?tx))"
      using reopening(3) by (simp add: reopenable_def allowed_targets)
    ultimately show ?thesis using reopening(1,6) by blast
  qed
  moreover have "commit_step i d d'"
  proof (rule commitI [OF loc rev' _ found refl])
    show "truck_step (truck_for d i ?tx) (truck_for d' i (corrected w st ?tx))"
      using truck p by (auto simp: truck_step.correct truck_step.reopen)
  qed (use p in blast)
  moreover have "truck_of d' i = Some (truck_for d' i (corrected w st ?tx))"
    using found by (simp add: truck_of_def)
  ultimately show ?thesis by fastforce
qed

section \<open>Columns after the writes\<close>

lemma column_value:
  assumes "\<And>f' c w' t. f' \<noteq> f \<Longrightarrow> writer f' c = Some w' \<Longrightarrow> col (w' t) = col t"
    and "\<And>c w' t. writer f c = Some w' \<Longrightarrow> col (w' t) = conv c"
  shows "apply_fields writer kvs = Some w \<Longrightarrow> distinct (map fst kvs) \<Longrightarrow>
    col (w t) = (case map_of kvs f of None \<Rightarrow> col t | Some c \<Rightarrow> conv c)"
proof (induction kvs arbitrary: w t)
  case (Cons kv kvs)
  obtain k v where kv: "kv = (k, v)" by (cases kv)
  obtain a b where ab: "writer k v = Some a" "apply_fields writer kvs = Some b" "w = (\<lambda>r. b (a r))"
    using Cons.prems(1) by (auto simp: kv split: option.splits)
  have IH: "col (b (a t)) = (case map_of kvs f of None \<Rightarrow> col (a t) | Some c \<Rightarrow> conv c)"
    using Cons.IH [OF ab(2)] Cons.prems(2) by simp
  show ?case
  proof (cases "k = f")
    case True
    then have "map_of kvs f = None" using Cons.prems(2) by (simp add: kv map_of_eq_None_iff)
    then show ?thesis using IH True assms(2) [of v a t] ab by (simp add: kv)
  next
    case False
    then show ?thesis using IH assms(1) [of k v a t] ab by (simp add: kv split: option.splits)
  qed
qed auto

lemma write_accepted:
  "apply_fields writer kvs = Some w \<Longrightarrow> map_of kvs f = Some c \<Longrightarrow> \<exists>w'. writer f c = Some w'"
  by (induction kvs arbitrary: w) (auto split: option.splits if_splits)

lemma keys_obj_set: "fst ` set (obj_set k v kvs) = insert k (fst ` set kvs)"
  by (induction k v kvs rule: obj_set.induct) auto

lemma distinct_obj_set: "distinct (map fst kvs) \<Longrightarrow> distinct (map fst (obj_set k v kvs))"
proof (induction k v kvs rule: obj_set.induct)
  case (2 k v k' v' kvs)
  then show ?case using keys_obj_set [of k v kvs] by auto
qed simp

lemma distinct_clear: "distinct (map fst kvs) \<Longrightarrow> distinct (map fst (clear fs kvs))"
  unfolding clear_def by (induction fs arbitrary: kvs) (simp_all add: distinct_obj_set)

lemma map_of_clear: "map_of (clear fs kvs) f = (if f \<in> set fs then Some (Json JNull) else map_of kvs f)"
  unfolding clear_def by (induction fs arbitrary: kvs) auto

lemma distinct_withNetWeight: "distinct (map fst kvs) \<Longrightarrow> distinct (map fst (withNetWeight tx kvs))"
  by (auto simp: withNetWeight_def intro: distinct_obj_set split: option.split)

lemma distinct_reopenData: "distinct (map fst kvs) \<Longrightarrow> distinct (map fst (reopenData tx s now kvs))"
  by (simp add: reopenData_def Let_def distinct_clear distinct_obj_set)

lemma distinct_evaluate: "distinct (map fst (p1_data (evaluate cl tx roots groups)))"
proof -
  have root: "distinct (map fst (p1_data (note_root cl tx it p)))" if "distinct (map fst (p1_data p))" for it p
    using that by (simp add: note_root_def note_item_def Let_def distinct_obj_set)
  have rec: "distinct (map fst (p1_data (note_record cl tx tg it p)))" if "distinct (map fst (p1_data p))" for tg it p
    using that by (simp add: note_record_def note_item_def Let_def distinct_obj_set split: option.split prod.split)
  have recs: "distinct (map fst (p1_data (fold (note_record cl tx tg) its p)))" if "distinct (map fst (p1_data p))" for tg its p
    using that by (induction its arbitrary: p) (simp_all add: rec)
  have roots: "distinct (map fst (p1_data (fold (note_root cl tx) its p)))" if "distinct (map fst (p1_data p))" for its p
    using that by (induction its arbitrary: p) (simp_all add: root)
  have groups: "distinct (map fst (p1_data (fold (\<lambda>g. fold (note_record cl tx (og_target g)) (og_items g)) gs p)))"
    if "distinct (map fst (p1_data p))" for gs p
    using that by (induction gs arbitrary: p) (simp_all add: recs)
  show ?thesis unfolding evaluate_def by (rule groups, rule roots) simp
qed

text \<open>The columns of the transaction the properties speak of.\<close>

lemma tx_write_others:
  "tx_write f c = Some w \<Longrightarrow>
     (f \<noteq> ''grossWeight'' \<longrightarrow> grossWeight (w t) = grossWeight t) \<and> (f \<noteq> ''tareWeight'' \<longrightarrow> tareWeight (w t) = tareWeight t) \<and>
     (f \<noteq> ''netWeight'' \<longrightarrow> netWeight (w t) = netWeight t) \<and> (f \<noteq> ''completedAt'' \<longrightarrow> completedAt (w t) = completedAt t) \<and>
     (f \<noteq> ''gateOutAt'' \<longrightarrow> gateOutAt (w t) = gateOutAt t) \<and> (f \<noteq> ''cancelledAt'' \<longrightarrow> cancelledAt (w t) = cancelledAt t) \<and>
     (f \<noteq> ''weighInAt'' \<longrightarrow> weighInAt (w t) = weighInAt t) \<and> (f \<noteq> ''weighOutAt'' \<longrightarrow> weighOutAt (w t) = weighOutAt t) \<and>
     (f \<noteq> ''warehouseStartAt'' \<longrightarrow> warehouseStartAt (w t) = warehouseStartAt t) \<and>
     (f \<noteq> ''qcAnalysisCompleted'' \<longrightarrow> qcAnalysisCompleted (w t) = qcAnalysisCompleted t)"
  unfolding tx_write_def by (auto split: if_splits)

lemma tx_column_values:
  assumes "apply_fields tx_write data = Some w" "distinct (map fst data)"
  shows "grossWeight (w t) = (case map_of data ''grossWeight'' of None \<Rightarrow> grossWeight t | Some c \<Rightarrow> the (json_cell as_num c))"
    and "tareWeight (w t) = (case map_of data ''tareWeight'' of None \<Rightarrow> tareWeight t | Some c \<Rightarrow> the (json_cell as_num c))"
    and "netWeight (w t) = (case map_of data ''netWeight'' of None \<Rightarrow> netWeight t | Some c \<Rightarrow> the (json_cell as_num c))"
    and "completedAt (w t) = (case map_of data ''completedAt'' of None \<Rightarrow> completedAt t | Some c \<Rightarrow> the (date_cell c))"
    and "gateOutAt (w t) = (case map_of data ''gateOutAt'' of None \<Rightarrow> gateOutAt t | Some c \<Rightarrow> the (date_cell c))"
    and "cancelledAt (w t) = (case map_of data ''cancelledAt'' of None \<Rightarrow> cancelledAt t | Some c \<Rightarrow> the (date_cell c))"
    and "weighInAt (w t) = (case map_of data ''weighInAt'' of None \<Rightarrow> weighInAt t | Some c \<Rightarrow> the (date_cell c))"
    and "weighOutAt (w t) = (case map_of data ''weighOutAt'' of None \<Rightarrow> weighOutAt t | Some c \<Rightarrow> the (date_cell c))"
    and "warehouseStartAt (w t) = (case map_of data ''warehouseStartAt'' of None \<Rightarrow> warehouseStartAt t | Some c \<Rightarrow> the (date_cell c))"
    and "qcAnalysisCompleted (w t) =
      (case map_of data ''qcAnalysisCompleted'' of None \<Rightarrow> qcAnalysisCompleted t | Some c \<Rightarrow> the (bool_cell c))"
  by (rule column_value [OF _ _ assms], blast dest: tx_write_others, force simp: tx_write_def)+

section \<open>Properties\<close>

lemma correctOperationLog_result:
  assumes "correctOperationLog cl year hex d i dto user ip now = (d', res)" "db_ok d"
  shows "case res of
      Inl e \<Rightarrow> d' = d
    | Inr (row, c) \<Rightarrow> \<exists>pl data st t. correctionRefusal dto user = None \<and> planCorrection cl d i dto = Inr pl \<and>
        correction_done cl i dto user ip (correction_number year hex) now pl d d' data st t \<and> row = Some t \<and>
        c = correctionHeader i dto user ip (correction_number year hex) now pl (nextId d) \<and> commit_step i d d' \<and>
        (\<forall>s. st = Some s \<longrightarrow> truck_of d' i = Some (reset_for s (move s (truck_for d i (pl_tx pl)))))"
proof (cases res)
  case (Inl e)
  then show ?thesis using assms(1) by (auto simp: correctOperationLog_def split: option.splits sum.splits)
next
  case (Inr v)
  obtain row c where v: "v = (row, c)" by (cases v)
  obtain pl where pl: "correctionRefusal dto user = None" "planCorrection cl d i dto = Inr pl"
      "commitCorrection cl i dto user ip (correction_number year hex) now pl d = Inr d'"
      "row = find_tx d' i" "c = correctionHeader i dto user ip (correction_number year hex) now pl (nextId d)"
    using assms(1) by (auto simp: correctOperationLog_def Inr v split: option.splits sum.splits)
  obtain data st t where "commit_step i d d'"
      "correction_done cl i dto user ip (correction_number year hex) now pl d d' data st t"
      "\<forall>s. st = Some s \<longrightarrow> truck_of d' i = Some (reset_for s (move s (truck_for d i (pl_tx pl))))"
    using commitCorrection_ok [OF pl(3,2) assms(2) pl(1)] by blast
  moreover have "row = Some t" using calculation(2) pl(4) by (simp add: correction_done_def)
  ultimately show ?thesis using pl unfolding Inr v by auto
qed

lemma correction_row:
  assumes "correction_done cl i dto user ip nr now pl d d' data st t" "planCorrection cl d i dto = Inr pl" "revs_ok d"
  shows "find_tx d' i = Some t \<and> revision t = Suc (revision (pl_tx pl)) \<and> status t = val_or st (status (pl_tx pl)) \<and>
    tx_protected (t\<lparr>status := status (pl_tx pl), revision := revision (pl_tx pl)\<rparr>) = tx_protected (pl_tx pl)"
proof -
  obtain w where w: "apply_fields tx_write data = Some w" "t = corrected w st (pl_tx pl)"
    using assms(1) by (auto simp: correction_done_def)
  show ?thesis
    using assms(1) corrected_simps [OF w(1)] tx_changes [OF w(1), of "pl_tx pl"]
    by (auto simp: w(2) correction_done_def corrected_def tx_protected_def tx_key_def)
qed

lemma data_correction_history:
  assumes "commit_step i d d'" "find_tx d i = Some tx" "find_tx d' i = Some t" "status t = status tx"
  shows "history_of d' i = history_of d i"
proof -
  have "truck_step (truck_for d i tx) (truck_for d' i t)"
    using assms(1-3) by (auto simp: commit_step_def truck_of_def)
  from step_link [OF this] assms(4) show ?thesis by (auto simp: truck_for_def history_link_def)
qed

lemma accepted_items:
  "group_items cl d i its roots gs = Inr r \<Longrightarrow> it \<in> set its \<Longrightarrow>
     it_fieldName it \<in> set (FIELD_ALLOWLIST (it_targetModule it)) \<and> validateDomain cl (it_fieldName it) (it_newValue it) = None"
proof (induction its arbitrary: roots gs)
  case (Cons a its)
  then obtain x where
      "it_fieldName a \<in> set (FIELD_ALLOWLIST (it_targetModule a)) \<and> validateDomain cl (it_fieldName a) (it_newValue a) = None"
      "(case x of None \<Rightarrow> group_items cl d i its (roots @ [normalised a]) gs
         | Some tg \<Rightarrow> group_items cl d i its roots (add_item gs (it_targetModule a) tg (normalised a))) = Inr r"
    unfolding group_items_Cons by blast
  then show ?case using Cons.IH Cons.prems(2) by (cases x) auto
qed simp

lemma planned_items:
  "planCorrection cl d i dto = Inr pl \<Longrightarrow>
     group_items cl d i (co_items dto) [] [] = Inr (pl_roots pl, pl_groups pl) \<and>
     pl_pass1 pl = evaluate cl (pl_tx pl) (pl_roots pl) (pl_groups pl) \<and> valueRefusal dto (pl_tx pl) (pl_pass1 pl) = None"
  by (auto simp: planCorrection_def Let_def split: option.splits sum.splits)

text \<open>
  C3. A correction of the operation log is all or nothing. A refusal leaves the database as it was. A
  success was asked for by an ADMIN, on a COMPLETED or CANCELLED transaction whose revision is the
  one the request names; every submitted field is on the allowlist of its module and in its domain;
  the transaction takes one step of the specification to the next revision; the header is appended;
  and a data correction changes neither status nor history nor any protected column (identity, plate,
  process type, creation, gate entry, void).
\<close>
theorem correctOperationLog_correct:
  assumes "db_ok d"
  shows "case correctOperationLog cl year hex d i dto user ip now of
      (d', Inl e) \<Rightarrow> d' = d
    | (d', Inr (row, c)) \<Rightarrow> \<exists>tx t. ju_role user = ADMIN \<and> find_tx d i = Some tx \<and> row = Some t \<and> find_tx d' i = Some t \<and>
        status tx \<in> {COMPLETED, CANCELLED} \<and> revision tx = co_expectedRevision dto \<and> revision t = Suc (revision tx) \<and>
        commit_step i d d' \<and> corrections d' = corrections d @ [c] \<and> tc_transactionId c = i \<and>
        (\<forall>it \<in> set (co_items dto). it_fieldName it \<in> set (FIELD_ALLOWLIST (it_targetModule it)) \<and>
           validateDomain cl (it_fieldName it) (it_newValue it) = None) \<and>
        (co_action dto \<noteq> Some REOPEN_WORKFLOW \<longrightarrow>
           tx_protected (t\<lparr>revision := revision tx\<rparr>) = tx_protected tx \<and> history_of d' i = history_of d i)"
proof -
  obtain d' res where r: "correctOperationLog cl year hex d i dto user ip now = (d', res)" by fastforce
  note res = correctOperationLog_result [OF r assms]
  have rv: "revs_ok d" using assms by (simp add: db_ok_def)
  show ?thesis
  proof (cases res)
    case (Inl e)
    then show ?thesis using res by (simp add: r)
  next
    case (Inr v)
    obtain row c where v: "v = (row, c)" by (cases v)
    obtain pl data st t where pl: "correctionRefusal dto user = None" "planCorrection cl d i dto = Inr pl"
        "correction_done cl i dto user ip (correction_number year hex) now pl d d' data st t" "row = Some t"
        "c = correctionHeader i dto user ip (correction_number year hex) now pl (nextId d)" "commit_step i d d'"
      using res unfolding Inr v by auto
    note row = correction_row [OF pl(3,2) rv] and p = planned [OF pl(2) rv]
    have st: "st = None" if "co_action dto \<noteq> Some REOPEN_WORKFLOW"
      using pl(3) that by (auto simp: correction_done_def elim!: reopenWorkflow_cases)
    have data: "tx_protected (t\<lparr>revision := revision (pl_tx pl)\<rparr>) = tx_protected (pl_tx pl) \<and> history_of d' i = history_of d i"
      if "co_action dto \<noteq> Some REOPEN_WORKFLOW"
      using row st [OF that] p data_correction_history [OF pl(6)] by (simp add: tx_protected_def tx_key_def)
    have admin: "ju_role user = ADMIN" using pl(1) by (auto simp: correctionRefusal_def split: if_splits)
    have fin: "status (pl_tx pl) \<in> {COMPLETED, CANCELLED}" using p by (auto simp: final_status_def)
    have items: "\<forall>it \<in> set (co_items dto). it_fieldName it \<in> set (FIELD_ALLOWLIST (it_targetModule it)) \<and>
           validateDomain cl (it_fieldName it) (it_newValue it) = None"
      using accepted_items planned_items [OF pl(2)] by blast
    have hd: "corrections d' = corrections d @ [c]" "tc_transactionId c = i"
      using pl(3,5) by (simp_all add: correction_done_def correctionHeader_def)
    show ?thesis unfolding r Inr v
      using p row pl(4,6) admin fin items hd data by auto
  qed
qed

text \<open>The columns a reopening leaves, and the weights every correction leaves.\<close>

lemma map_of_reopenData:
  assumes "reopenable p s"
  shows "map_of (reopenData tx s now data) ''completedAt'' = Some (Json JNull)"
    "map_of (reopenData tx s now data) ''gateOutAt'' = Some (Json JNull)"
    "map_of (reopenData tx s now data) ''cancelledAt'' = Some (Json JNull)"
    "map_of (reopenData tx s now data) ''weighOutAt'' = Some (Json JNull)"
    "map_of (reopenData tx s now data) ''qcAnalysisCompleted'' = Some (Json (JBool False))"
    "s \<noteq> INCOMING_CHECK_PENDING \<Longrightarrow> map_of (reopenData tx s now data) ''warehouseStartAt'' = Some (Json JNull)"
    "map_of (reopenData tx s now data) ''weighInAt'' =
       (if s = REGISTERED then Some (Json JNull) else map_of data ''weighInAt'')"
    "map_of (reopenData tx s now data) ''grossWeight'' =
       (if s = REGISTERED then Some (Json JNull) else map_of data ''grossWeight'')"
    "map_of (reopenData tx s now data) ''tareWeight'' =
       (if s = REGISTERED then Some (Json JNull) else map_of data ''tareWeight'')"
    "map_of (reopenData tx s now data) ''netWeight'' =
       (if s = REGISTERED then Some (Json JNull) else map_of data ''netWeight'')"
  using assms unfolding reopenable_cases
  by (elim disjE conjE; simp add: reopenData_def Let_def map_of_clear effectiveTarget_def)+

lemma corrected_columns [simp]:
  "completedAt (corrected w st t) = completedAt (w t)" "gateOutAt (corrected w st t) = gateOutAt (w t)"
  "cancelledAt (corrected w st t) = cancelledAt (w t)" "weighOutAt (corrected w st t) = weighOutAt (w t)"
  "weighInAt (corrected w st t) = weighInAt (w t)" "warehouseStartAt (corrected w st t) = warehouseStartAt (w t)"
  "qcAnalysisCompleted (corrected w st t) = qcAnalysisCompleted (w t)" "grossWeight (corrected w st t) = grossWeight (w t)"
  "tareWeight (corrected w st t) = tareWeight (w t)" "netWeight (corrected w st t) = netWeight (w t)"
  by (simp_all add: corrected_def)

lemma done_data:
  assumes "correction_done cl i dto user ip nr now pl d d' data st t" "planCorrection cl d i dto = Inr pl"
  shows "distinct (map fst data)"
    and "(co_action dto \<noteq> Some REOPEN_WORKFLOW \<and> st = None \<and> data = withNetWeight (pl_tx pl) (p1_data (pl_pass1 pl))) \<or>
      (\<exists>s. co_action dto = Some REOPEN_WORKFLOW \<and> s = val_or (co_reopenTargetStatus dto) QC_VEHICLE_PENDING \<and>
        reopenable (processType (pl_tx pl)) s \<and> st = Some (effectiveTarget s) \<and>
        data = reopenData (pl_tx pl) s now (withNetWeight (pl_tx pl) (p1_data (pl_pass1 pl))))"
proof -
  obtain d3 d4 where "reopenWorkflow (pl_tx pl) dto i now (nextId d)
      (withNetWeight (pl_tx pl) (p1_data (pl_pass1 pl))) d3 = Inr (d4, data, st)"
    using assms(1) by (auto simp: correction_done_def)
  then show cases: "(co_action dto \<noteq> Some REOPEN_WORKFLOW \<and> st = None \<and> data = withNetWeight (pl_tx pl) (p1_data (pl_pass1 pl))) \<or>
      (\<exists>s. co_action dto = Some REOPEN_WORKFLOW \<and> s = val_or (co_reopenTargetStatus dto) QC_VEHICLE_PENDING \<and>
        reopenable (processType (pl_tx pl)) s \<and> st = Some (effectiveTarget s) \<and>
        data = reopenData (pl_tx pl) s now (withNetWeight (pl_tx pl) (p1_data (pl_pass1 pl))))"
    by (cases rule: reopenWorkflow_cases) auto
  have "distinct (map fst (p1_data (pl_pass1 pl)))"
    using planned_items [OF assms(2)] distinct_evaluate by simp
  then show "distinct (map fst data)"
    using cases by (auto intro: distinct_withNetWeight distinct_reopenData)
qed

text \<open>A weight the writes leave is the one the business rules were checked on.\<close>

lemma proposed_written:
  assumes "apply_fields tx_write data = Some w" "map_of data f = map_of data0 f" "f \<in> {''grossWeight'', ''tareWeight''}"
    and "(case map_of data f of None \<Rightarrow> old | Some c \<Rightarrow> the (json_cell as_num c)) = Some x"
  shows "proposed_weight f old data0 = Some x"
proof (cases "map_of data f")
  case (Some c)
  obtain w' where "tx_write f c = Some w'" using write_accepted [OF assms(1) Some] by blast
  then obtain y where y: "json_cell as_num c = Some y" using assms(3) by (auto simp: tx_write_def)
  moreover have "y = Some x" using assms(4) Some y by simp
  ultimately obtain v where v: "c = Json v" "as_num v = Some (Some x)" by (cases c) auto
  then have "js_number v = Some x" by (cases v) simp_all
  then show ?thesis by (simp add: proposed_weight_def assms(2) [symmetric] Some v(1))
qed (use assms in \<open>simp add: proposed_weight_def\<close>)

lemma done_weights:
  assumes "correction_done cl i dto user ip nr now pl d d' data st t" "planCorrection cl d i dto = Inr pl"
    and "grossWeight t = Some g" "tareWeight t = Some ta"
  shows "ta \<le> g \<and> netWeight t = Some (js_sub g ta)"
proof -
  let ?p = "p1_data (pl_pass1 pl)" and ?tx = "pl_tx pl"
  obtain w where w: "apply_fields tx_write data = Some w" "t = corrected w st ?tx"
    using assms(1) by (auto simp: correction_done_def)
  note cols = tx_column_values [OF w(1) done_data(1) [OF assms(1,2)], of ?tx]
  have same: "map_of data f = map_of (withNetWeight ?tx ?p) f" if "f \<in> {''grossWeight'', ''tareWeight'', ''netWeight''}" for f
    using done_data(2) [OF assms(1,2)] that cols(1) assms(3) map_of_reopenData(8-10)
    by (auto simp: w(2))
  have same2: "map_of (withNetWeight ?tx ?p) f = map_of ?p f" if "f \<in> {''grossWeight'', ''tareWeight''}" for f
    using that by (auto simp: withNetWeight_def split: option.split)
  have base: "map_of data f = map_of ?p f" if "f \<in> {''grossWeight'', ''tareWeight''}" for f
    using that same [of f] same2 [of f] by auto
  have g: "proposed_gross ?tx ?p = Some g" and ta: "proposed_tare ?tx ?p = Some ta"
    unfolding proposed_gross_def proposed_tare_def
    using assms(3,4) cols(1,2) by (auto simp: w(2) intro!: proposed_written [OF w(1) base])
  have "valueRefusal dto ?tx (pl_pass1 pl) = None" using planned_items [OF assms(2)] by blast
  then have "\<not> g < ta" using g ta by (auto simp: valueRefusal_def split: if_splits)
  moreover have "map_of data ''netWeight'' = Some (Json (JNum (js_sub g ta)))"
    using same [of "''netWeight''"] g ta by (simp add: withNetWeight_def)
  ultimately show ?thesis using cols(3) by (simp add: w(2))
qed

text \<open>
  C13. After any successful correction, reopenings included, a transaction that has both weights has
  gross at least tare, and its net weight is the JavaScript difference of the two.
\<close>
theorem corrected_weights_consistent:
  assumes "db_ok d" and "correctOperationLog cl year hex d i dto user ip now = (d', Inr (Some t, c))"
    and "grossWeight t = Some g" and "tareWeight t = Some ta"
  shows "ta \<le> g \<and> netWeight t = Some (js_sub g ta)"
  using correctOperationLog_result [OF assms(2,1)] done_weights [OF _ _ assms(3,4)] by auto


text \<open>
  A transaction whose recorded gross weight is below its tare (a rejected truck can leave so) can not
  be reopened at any stage: the weight rule of data corrections refuses the request with 400.
\<close>
lemma light_gross_not_reopened:
  assumes "ju_role user = ADMIN" and "find_tx d i = Some tx" and "status tx \<in> {COMPLETED, CANCELLED}" and "\<not> isVoided tx"
    and "grossWeight tx = Some g" and "tareWeight tx = Some ta" and "g < ta"
    and "co_action dto = Some REOPEN_WORKFLOW" and "co_reopenTargetStatus dto = Some s" and "co_items dto = []"
    and "co_expectedRevision dto = revision tx" and "co_evidenceAttachmentId dto = None"
  shows "correctOperationLog cl year hex d i dto user ip now = (d, Inl (BadRequest OC_GrossBelowTare))"
proof -
  have "correctionRefusal dto user = None" using assms by (simp add: correctionRefusal_def)
  moreover have "rowRefusal d i dto tx = None" using assms by (auto simp: rowRefusal_def)
  moreover have "valueRefusal dto tx (evaluate cl tx [] []) = Some (BadRequest OC_GrossBelowTare)"
    using assms by (simp add: valueRefusal_def evaluate_def proposed_gross_def proposed_tare_def proposed_weight_def)
  ultimately show ?thesis using assms(2,10) by (simp add: correctOperationLog_def planCorrection_def)
qed

section \<open>Correction items\<close>

definition item_of :: "ident \<Rightarrow> oc_item \<Rightarrow> ident \<times> correction_target_module \<times> string" where
  "item_of cid it = (cid, it_targetModule it, it_fieldName it)"

definition row_item :: "correction_item_row \<Rightarrow> ident \<times> correction_target_module \<times> string" where
  "row_item x = (xi_correctionId x, xi_targetModule x, xi_fieldName x)"

lemma row_item_payload: "row_item (item_payload cid rid new old it n) = item_of cid it"
  by (simp add: row_item_def item_of_def item_payload_def)

lemma item_of_normalised [simp]: "item_of cid (normalised it) = item_of cid it"
  by (simp add: item_of_def normalised_def)

lemma number_items_append:
  "number_items n (xs @ ys) = number_items n xs @ number_items (n + length xs) ys"
  by (induction xs arbitrary: n) simp_all

lemma number_items_rows:
  "map row_item (number_items n (map (\<lambda>it. item_payload cid r new (old it) it) its)) = map (item_of cid) its"
  by (induction its arbitrary: n) (simp_all add: row_item_payload)

lemma write_groups_items:
  "write_groups cl cid now gs d = Inr (d', ps) \<Longrightarrow>
     map row_item (number_items n ps) = map (item_of cid) (concat (map og_items gs))"
proof (induction gs arbitrary: d ps n)
  case (Cons g gs)
  obtain d1 ps' where w: "write_groups cl cid now gs d1 = Inr (d', ps')" "ps = group_payloads cid (nextId d) g @ ps'"
    using Cons.prems by (auto split: sum.splits)
  then show ?case using Cons.IH [OF w(1)] by (simp add: group_payloads_def number_items_append number_items_rows)
qed simp

lemma add_item_mset:
  "mset (concat (map og_items (add_item gs m tg it))) = add_mset it (mset (concat (map og_items gs)))"
  by (induction gs m tg it rule: add_item.induct) auto

text \<open>Grouping loses and invents no item.\<close>

lemma group_items_mset:
  "group_items cl d i its roots gs = Inr (roots', gs') \<Longrightarrow>
     image_mset (item_of cid) (mset (roots' @ concat (map og_items gs'))) =
     image_mset (item_of cid) (mset (roots @ concat (map og_items gs) @ its))"
proof (induction its arbitrary: roots gs)
  case (Cons it its)
  obtain x where rest: "(case x of
           None \<Rightarrow> group_items cl d i its (roots @ [normalised it]) gs
         | Some tg \<Rightarrow> group_items cl d i its roots (add_item gs (it_targetModule it) tg (normalised it))) = Inr (roots', gs')"
    using Cons.prems unfolding group_items_Cons by blast
  show ?case
  proof (cases x)
    case None
    then show ?thesis using Cons.IH [of "roots @ [normalised it]" gs] rest by simp
  next
    case (Some tg)
    then show ?thesis
      using Cons.IH [of roots "add_item gs (it_targetModule it) tg (normalised it)"] rest by (simp add: add_item_mset)
  qed
qed simp

text \<open>
  C14. The audit trail of a correction is complete: a successful request leaves, under its header, exactly
  one correction item for every submitted item, no more and no less, whatever the order and grouping.
\<close>
theorem correction_items_complete:
  assumes "db_ok d" and "correctOperationLog cl year hex d i dto user ip now = (d', Inr (row, c))"
  shows "\<exists>new. correctionItems d' = correctionItems d @ new \<and>
    mset (map (\<lambda>x. (xi_correctionId x, xi_targetModule x, xi_fieldName x)) new) =
    mset (map (\<lambda>it. (tc_id c, it_targetModule it, it_fieldName it)) (co_items dto))"
proof -
  obtain pl data st t where pl: "planCorrection cl d i dto = Inr pl"
      "correction_done cl i dto user ip (correction_number year hex) now pl d d' data st t"
      "c = correctionHeader i dto user ip (correction_number year hex) now pl (nextId d)"
    using correctOperationLog_result [OF assms(2,1)] by auto
  obtain d1 d2 ps n where w: "write_groups cl (nextId d) now (pl_groups pl) d1 = Inr (d2, ps)"
      "correctionItems d' = correctionItems d @ number_items n (root_payloads (nextId d) (pl_tx pl) (pl_roots pl) @ ps)"
    using pl(2) by (auto simp: correction_done_def)
  let ?new = "number_items n (root_payloads (nextId d) (pl_tx pl) (pl_roots pl) @ ps)"
  have "map row_item ?new = map (item_of (nextId d)) (pl_roots pl @ concat (map og_items (pl_groups pl)))"
    using write_groups_items [OF w(1)] by (simp add: number_items_append root_payloads_def number_items_rows)
  then have "mset (map row_item ?new) = image_mset (item_of (nextId d)) (mset (pl_roots pl @ concat (map og_items (pl_groups pl))))"
    by simp
  also have "\<dots> = mset (map (item_of (nextId d)) (co_items dto))"
    using group_items_mset [of cl d i "co_items dto" "[]" "[]"] planned_items [OF pl(1)] by simp
  finally show ?thesis
    using w(2) by (auto simp: row_item_def [abs_def] item_of_def [abs_def] pl(3) correctionHeader_def)
qed

text \<open>
  A correction of a vehicle check, whatever its fields, makes a current check without the GBJ
  decision of the check it replaces: decisionMode, hasDeviation and deviationReason are not copied.
\<close>
lemma vehicle_correction_drops_decision:
  assumes "write_group cl cid now g d = Inr d'" and "og_target g = OnVehicle r"
  shows "\<exists>new. qcVehicleChecks d' = update_many (same_row r) (supersede now cid) (qcVehicleChecks d) @ [new] \<and>
    v_isCurrent new \<and> v_transactionId new = v_transactionId r \<and> v_revision new = Suc (v_revision r) \<and>
    qv_decisionMode new = None \<and> qv_hasDeviation new = None \<and> qv_deviationReason new = None"
proof -
  obtain w where w: "apply_fields (qv_write cl) (updates (og_items g)) = Some w"
    and d': "qcVehicleChecks d' = update_many (same_row r) (supersede now cid) (qcVehicleChecks d) @
      [w (undecided (replacement (nextId d) now r))]"
    using assms
    by (auto simp: write_group_defs Let_def map_sum_Inr replace_row_def dest!: json_kept_Some split: if_splits option.splits)
  have "qv_decisionMode (w x) = qv_decisionMode x \<and> qv_hasDeviation (w x) = qv_hasDeviation x \<and>
      qv_deviationReason (w x) = qv_deviationReason x" for x
    using w by (rule apply_fields_rel [where R = "\<lambda>a b. qv_decisionMode b = qv_decisionMode a \<and>
        qv_hasDeviation b = qv_hasDeviation a \<and> qv_deviationReason b = qv_deviationReason a"])
      (auto simp: qv_write_def split: if_splits)
  then show ?thesis
    using d' qv_changes [OF w, of "undecided (replacement (nextId d) now r)"]
    by (simp add: row_id_def undecided_def replacement_def)
qed

section \<open>As a step of the database\<close>

lemma correctOperationLog_step:
  assumes "db_ok d"
  shows "db_step d (fst (correctOperationLog cl year hex d i dto user ip now))"
proof -
  obtain d' res where r: "correctOperationLog cl year hex d i dto user ip now = (d', res)" by fastforce
  show ?thesis
    using correctOperationLog_result [OF r assms]
    by (cases res) (auto simp: r intro: db_step.intros)
qed

end
