(* ===== verification/Gms_Scope.thy ===== *)
theory Gms_Scope
  imports Gms_Store
begin

text \<open>
  Who may see and change what: the process scope of WAREHOUSE and QC users
  (auth/authorization-scope.service.ts), the role check of the endpoints
  (common/guards/roles.guard.ts), and the warehouse access list (WarehouseService).
  The Prisma where-clause of a scope is a predicate on the process type of a row.
\<close>

section \<open>Process scope\<close>

definition assertScopeNotEmpty :: "jwt_user \<Rightarrow> 'r error option" where
  "assertScopeNotEmpty user =
     (if ju_role user = ADMIN \<or> ju_role user = SECURITY then None
      else if ju_role user = WAREHOUSE \<or> ju_role user = QC then
        (if length (ju_warehouseAccess user) = 0 then Some (ScopeEmpty (ju_role user)) else None)
      else None)"

definition assertProcessAccess :: "jwt_user \<Rightarrow> process_type \<Rightarrow> 'r error option" where
  "assertProcessAccess user pt =
     (if ju_role user = ADMIN \<or> ju_role user = SECURITY then None
      else if ju_role user = WAREHOUSE \<or> ju_role user = QC then
        (if length (ju_warehouseAccess user) = 0 then Some (ScopeEmpty (ju_role user))
         else if pt \<notin> set (ju_warehouseAccess user) then Some (ScopeDenied pt)
         else None)
      else None)"

datatype tx_scope = EveryProcess | ProcessIn "process_type list"

fun in_scope :: "tx_scope \<Rightarrow> process_type \<Rightarrow> bool" where
  "in_scope EveryProcess pt = True"
| "in_scope (ProcessIn ps) pt = (pt \<in> set ps)"

definition getTransactionScope :: "jwt_user \<Rightarrow> 'r error + tx_scope" where
  "getTransactionScope user =
     (case assertScopeNotEmpty user of
        Some e \<Rightarrow> Inl e
      | None \<Rightarrow>
          if ju_role user = ADMIN \<or> ju_role user = SECURITY then Inr EveryProcess
          else if ju_role user = WAREHOUSE \<or> ju_role user = QC
            then Inr (ProcessIn (ju_warehouseAccess user))
          else Inr (ProcessIn []))"

lemma assertProcessAccess_None_iff:
  "assertProcessAccess u pt = None \<longleftrightarrow>
     (ju_role u = WAREHOUSE \<or> ju_role u = QC \<longrightarrow> pt \<in> set (ju_warehouseAccess u))"
  by (cases "ju_role u") (auto simp: assertProcessAccess_def)

text \<open>
  The list filter and the per-row check agree: the where-clause computed for a user admits
  exactly the process types for which assertProcessAccess does not throw, and the clause is
  refused with 403 only for a WAREHOUSE or QC user without any scope.
\<close>
lemma scope_filter_agrees_with_assert:
  "(\<exists>sc. getTransactionScope u = (Inr sc :: unit error + tx_scope) \<and> in_scope sc pt)
     = (assertProcessAccess u pt = (None :: unit error option))
   \<and> (getTransactionScope u = (Inl e :: unit error + tx_scope)
       \<longleftrightarrow> (ju_role u = WAREHOUSE \<or> ju_role u = QC) \<and> ju_warehouseAccess u = [] \<and> e = ScopeEmpty (ju_role u))"
  by (cases "ju_role u")
    (auto simp: getTransactionScope_def assertScopeNotEmpty_def assertProcessAccess_def)

section \<open>Role guard\<close>

datatype guard_reason = NoUserContext | InsufficientPermissions

fun role_name :: "role \<Rightarrow> string" where
  "role_name ADMIN = ''ADMIN''"
| "role_name SECURITY = ''SECURITY''"
| "role_name WAREHOUSE = ''WAREHOUSE''"
| "role_name QC = ''QC''"

fun process_name :: "process_type \<Rightarrow> string" where
  "process_name GBB = ''GBB''"
| "process_name GBJ = ''GBJ''"
| "process_name GSP = ''GSP''"

text \<open>
  \<open>RolesGuard.canActivate\<close>: \<open>requiredRoles\<close> is the handler's or class's \<open>@Roles\<close> list, absent
  when there is none. A refusal is logged before the exception.
\<close>

definition roles_guard ::
  "jwt_user option \<Rightarrow> role list option \<Rightarrow> string \<Rightarrow> string \<Rightarrow> instant \<Rightarrow> db \<Rightarrow> (guard_reason, bool) outcome"
where
  "roles_guard user requiredRoles url meth now d =
     (case user of
        None \<Rightarrow> (d, Inl (Forbidden NoUserContext))
      | Some u \<Rightarrow>
          if ju_role u = ADMIN then (d, Inr True)
          else (case requiredRoles of
              None \<Rightarrow> (d, Inr True)
            | Some rs \<Rightarrow>
                if rs = [] then (d, Inr True)
                else if list_ex (\<lambda>r. ju_role u = r) rs then (d, Inr True)
                else (audit (ju_id u) ''ACCESS_DENIED'' ''AUTH'' None
                        (Some (JObj [(''requiredRoles'', JArr (map (JStr \<circ> role_name) rs)),
                                     (''userRole'', JStr (role_name (ju_role u))),
                                     (''endpoint'', JStr url), (''method'', JStr meth)])) ''FAILED'' now d,
                      Inl (Forbidden InsufficientPermissions))))"

text \<open>
  The role guard lets a request through exactly when there is a user who is ADMIN, or whose
  role is listed, or the endpoint lists no roles; otherwise it answers 403 and changes nothing
  but the audit log, where a refused user leaves one ACCESS_DENIED row.
\<close>
lemma roles_guard_correct:
  "(snd (roles_guard user rs url meth now d) = Inr True \<longleftrightarrow>
      (\<exists>u. user = Some u \<and> (ju_role u = ADMIN \<or> rs = None \<or> rs = Some [] \<or>
        (\<exists>l. rs = Some l \<and> ju_role u \<in> set l))))
   \<and> (case snd (roles_guard user rs url meth now d) of
        Inr b \<Rightarrow> b \<and> fst (roles_guard user rs url meth now d) = d
      | Inl e \<Rightarrow> http_status e = 403 \<and> same_data d (fst (roles_guard user rs url meth now d))
          \<and> length (activityLogs (fst (roles_guard user rs url meth now d)))
              = length (activityLogs d) + (if user = None then 0 else 1))"
proof (cases user)
  case (Some u)
  then show ?thesis
    by (auto simp: roles_guard_def list_ex_iff audit_def logAction_def Let_def same_data_def
        split: option.splits)
qed (simp add: roles_guard_def)

section \<open>Warehouse access list\<close>

text \<open>\<open>WarehouseService.getWarehouseAccess\<close>: read from the database, not from the token.\<close>

definition getWarehouseAccess :: "db \<Rightarrow> jwt_user \<Rightarrow> process_type list" where
  "getWarehouseAccess d user =
     (if ju_role user = ADMIN then [GBB, GBJ, GSP]
      else map wa_processType (filter (\<lambda>a. wa_userId a = ju_id user) (userWarehouseAccess d)))"

lemma getWarehouseAccess_admin: "ju_role u = ADMIN \<Longrightarrow> pt \<in> set (getWarehouseAccess d u)"
  by (cases pt) (simp_all add: getWarehouseAccess_def)

end
