(* ===== verification/Gms_Gate.thy ===== *)
theory Gms_Gate
  imports Gms_Commit Gms_Plate Gms_Scope
begin

text \<open>
  The gate (gate/gate.service.ts): check-in of a truck, its retry on a number collision, check-out,
  cancellation, the queue and the detail view.
\<close>

section \<open>Check-in\<close>

text \<open>CreateGateCheckInDto after validation.\<close>

record checkin_dto =
  ci_plateNumber :: string
  ci_driverName :: string
  ci_driverPhone :: string
  ci_vendorName :: string
  ci_vehicleType :: string
  ci_processType :: process_type
  ci_cargoType :: string
  ci_cargoSubType :: "string field"
  ci_cargoProcessType :: cargo_process_type
  ci_suratJalanNumber :: "string field"
  ci_poNumber :: "string field"
  ci_permitCardNumber :: "string field"
  ci_guestIdNumber :: "string field"
  ci_remarks :: "string field"

datatype gt_reason = GT_NotFound | GT_PlateActive | GT_Busy | GT_SystemError | GT_ConcurrencyConflict | GT_NotRetrieved

definition new_transaction :: "checkin_dto \<Rightarrow> jwt_user \<Rightarrow> instant \<Rightarrow> ident \<Rightarrow> string \<Rightarrow> transaction" where
  "new_transaction dto user now i number =
     \<lparr>tx_id = i, transactionNumber = number, plateNumber = normalizePlateNumber (ci_plateNumber dto),
      driverName = ci_driverName dto, driverPhone = ci_driverPhone dto, vendorName = ci_vendorName dto,
      vehicleType = ci_vehicleType dto, processType = ci_processType dto, cargoType = ci_cargoType dto,
      cargoSubType = create_field (ci_cargoSubType dto), cargoProcessType = ci_cargoProcessType dto,
      suratJalanNumber = create_field (ci_suratJalanNumber dto), poNumber = create_field (ci_poNumber dto),
      permitCardNumber = create_field (ci_permitCardNumber dto),
      guestIdNumber = create_field (ci_guestIdNumber dto),
      status = REGISTERED, gateInAt = Some now, gateOutAt = None, completedAt = None, cancelledAt = None,
      cancellationReason = None, createdById = Some (ju_id user), cancelledById = None, isVoided = False,
      voidedAt = None, voidedById = None, voidReasonCode = None, voidReason = None,
      remarks = create_field (ci_remarks dto), grossWeight = None, tareWeight = None, netWeight = None,
      weighInAt = None, weighOutAt = None, weighInById = None, weighOutById = None,
      warehouseStartAt = None, warehouseEndAt = None, warehouseStartById = None, warehouseEndById = None,
      actualWeight = None, actualQuantity = None, warehouseUnit = None, qcStartAt = None, qcEndAt = None,
      incomingQcStartAt = None, qcAnalysisCompleted = False, qcAnalysisCompletedAt = None,
      createdAt = now, revision = 1\<rparr>"

text \<open>The transaction that keeps a plate from being registered again.\<close>

definition activePlate :: "string \<Rightarrow> db \<Rightarrow> transaction option" where
  "activePlate plate d =
     find_first (\<lambda>t. (plateNumber t = normalizePlateNumber plate \<or> plateNumber t = getRawPlateNumber plate \<or>
                      plateNumber t = plate) \<and> status t \<notin> {COMPLETED, CANCELLED}) (transactions d)"

text \<open>
  One run of the body of the retry loop. The advisory lock and the isolation of the transaction
  make it atomic; the unique index on transactionNumber raises P2002.
\<close>

datatype attempt = P2002 | Refused "gt_reason error" | Registered db transaction

definition checkInAttempt :: "checkin_dto \<Rightarrow> jwt_user \<Rightarrow> instant \<Rightarrow> db \<Rightarrow> attempt" where
  "checkInAttempt dto user now d =
     (let number = generateTransactionNumber d now
      in case activePlate (ci_plateNumber dto) d of
           Some t \<Rightarrow> Refused (Conflict GT_PlateActive)
         | None \<Rightarrow>
             if list_ex (\<lambda>t. transactionNumber t = number) (transactions d) then P2002
             else let t = new_transaction dto user now (nextId d) number
                  in Registered
                       (add_history (nextId d) None REGISTERED (Some (ju_id user))
                          (Some ''Gate check-in created'') now
                          (d\<lparr>transactions := transactions d @ [t], nextId := Suc (nextId d)\<rparr>)) t)"

text \<open>The loop; \<open>env n\<close> is what other requests do to the database before the attempt with \<open>n\<close> retries left.\<close>

fun checkInLoop ::
  "(nat \<Rightarrow> db \<Rightarrow> db) \<Rightarrow> nat \<Rightarrow> checkin_dto \<Rightarrow> jwt_user \<Rightarrow> instant \<Rightarrow> db \<Rightarrow> (gt_reason, transaction) outcome"
where
  "checkInLoop env 0 dto user now d = (d, Inl (BadRequest GT_SystemError))"
| "checkInLoop env (Suc retries) dto user now d =
     (case checkInAttempt dto user now d of
        Registered d' t \<Rightarrow> (d', Inr t)
      | Refused e \<Rightarrow> (d, Inl e)
      | P2002 \<Rightarrow> if retries = 0 then (d, Inl (BadRequest GT_Busy))
                 else checkInLoop env retries dto user now (env retries d))"

definition gate_audit :: "jwt_user \<Rightarrow> string \<Rightarrow> ident option \<Rightarrow> string \<Rightarrow> instant \<Rightarrow> db \<Rightarrow> db" where
  "gate_audit user action ref desc now = audit (ju_id user) action ''GATE'' ref (Some (JStr desc)) ''SUCCESS'' now"

text \<open>The response: the row with its history, and who created it.\<close>

type_synonym checkin_view = "transaction \<times> status_history list \<times> (ident \<times> string \<times> role)"

definition checkIn ::
  "(nat \<Rightarrow> db \<Rightarrow> db) \<Rightarrow> db \<Rightarrow> checkin_dto \<Rightarrow> jwt_user \<Rightarrow> instant \<Rightarrow> (gt_reason, checkin_view) outcome"
where
  "checkIn env d dto user now =
     (case checkInLoop env 3 dto user now d of
        (d', Inl e) \<Rightarrow> (d', Inl e)
      | (d', Inr t) \<Rightarrow>
          (gate_audit user ''GATE_CHECK_IN'' (Some (tx_id t))
             (''Vehicle '' @ ci_plateNumber dto @ '' checked in'') now d',
           Inr (t, filter (\<lambda>h. sh_transactionId h = tx_id t) (statusHistories d'),
                (ju_id user, ju_name user, ju_role user))))"

lemma same_data_gate_audit [simp]: "same_data d (gate_audit user a r desc now d)"
  by (simp add: gate_audit_def)

lemma new_transaction_simps [simp]:
  "tx_id (new_transaction dto user now i number) = i"
  "transactionNumber (new_transaction dto user now i number) = number"
  "plateNumber (new_transaction dto user now i number) = normalizePlateNumber (ci_plateNumber dto)"
  "status (new_transaction dto user now i number) = REGISTERED"
  "revision (new_transaction dto user now i number) = 1"
  "processType (new_transaction dto user now i number) = ci_processType dto"
  "isVoided (new_transaction dto user now i number) = False"
  "createdAt (new_transaction dto user now i number) = now"
  by (simp_all add: new_transaction_def)

text \<open>The number is always free, so an attempt never collides.\<close>

lemma checkInAttempt_cases:
  assumes "db_ok d" "0 \<le> now"
  shows "checkInAttempt dto user now d =
    (if activePlate (ci_plateNumber dto) d \<noteq> None then Refused (Conflict GT_PlateActive)
     else Registered
       (add_history (nextId d) None REGISTERED (Some (ju_id user)) (Some ''Gate check-in created'') now
          (d\<lparr>transactions := transactions d @
               [new_transaction dto user now (nextId d) (generateTransactionNumber d now)],
             nextId := Suc (nextId d)\<rparr>))
       (new_transaction dto user now (nextId d) (generateTransactionNumber d now)))"
proof -
  have "\<not> list_ex (\<lambda>t. transactionNumber t = generateTransactionNumber d now) (transactions d)"
    using generate_fresh [of d now] assms by (auto simp: db_ok_def list_ex_iff image_iff)
  then show ?thesis by (auto simp: checkInAttempt_def Let_def split: option.splits)
qed

lemma checkIn_cases:
  assumes "db_ok d" "0 \<le> now"
  shows "checkIn env d dto user now =
    (if activePlate (ci_plateNumber dto) d \<noteq> None then (d, Inl (Conflict GT_PlateActive))
     else let t = new_transaction dto user now (nextId d) (generateTransactionNumber d now);
              d' = add_history (nextId d) None REGISTERED (Some (ju_id user)) (Some ''Gate check-in created'') now
                     (d\<lparr>transactions := transactions d @ [t], nextId := Suc (nextId d)\<rparr>)
          in (gate_audit user ''GATE_CHECK_IN'' (Some (nextId d))
                (''Vehicle '' @ ci_plateNumber dto @ '' checked in'') now d',
              Inr (t, filter (\<lambda>h. sh_transactionId h = nextId d) (statusHistories d'),
                   (ju_id user, ju_name user, ju_role user))))"
  by (simp add: checkIn_def numeral_3_eq_3 checkInAttempt_cases [OF assms] Let_def)

lemma gate_audit_frame [simp]:
  "transactions (gate_audit user a r desc now d) = transactions d"
  "statusHistories (gate_audit user a r desc now d) = statusHistories d"
  "weighbridgeRecords (gate_audit user a r desc now d) = weighbridgeRecords d"
  "qcVehicleChecks (gate_audit user a r desc now d) = qcVehicleChecks d"
  "warehouseProcesses (gate_audit user a r desc now d) = warehouseProcesses d"
  "incomingMaterialChecks (gate_audit user a r desc now d) = incomingMaterialChecks d"
  "nextId (gate_audit user a r desc now d) = Suc (nextId d)"
  by (simp_all add: gate_audit_def)

lemma checkIn_step:
  assumes "db_ok d" "0 \<le> now"
  shows "case checkIn env d dto user now of (d', Inl e) \<Rightarrow> d' = d | (d', Inr v) \<Rightarrow> register_step d d'"
  by (auto simp: checkIn_cases [OF assms] Let_def register_step_def assms(2) add_history_def)


section \<open>Check-out\<close>

definition checkedOut :: "instant \<Rightarrow> transaction \<Rightarrow> transaction" where
  "checkedOut now t =
     t\<lparr>revision := revision t + 1, status := COMPLETED, gateOutAt := Some now, completedAt := Some now\<rparr>"

definition checkOutCommit :: "transaction \<Rightarrow> ident \<Rightarrow> jwt_user \<Rightarrow> instant \<Rightarrow> db \<Rightarrow> gt_reason error + db" where
  "checkOutCommit tx i user now d =
     (let (d1, n) = claim i (\<lambda>t. status t = WEIGH_OUT_DONE \<and> revision t = revision tx) (checkedOut now) d
      in if n \<noteq> 1 then Inl (Conflict GT_ConcurrencyConflict)
         else Inr (add_history i (Some (status tx)) COMPLETED (Some (ju_id user))
                     (Some ''Gate check-out processed'') now d1))"

definition checkOut_at :: "transaction \<Rightarrow> ident \<Rightarrow> jwt_user \<Rightarrow> instant \<Rightarrow> db \<Rightarrow> (gt_reason, transaction) outcome" where
  "checkOut_at tx i user now d =
     (case assertValidStatusTransition (status tx) COMPLETED of
        Some e \<Rightarrow> (d, Inl e)
      | None \<Rightarrow>
          (case checkOutCommit tx i user now d of
             Inl e \<Rightarrow> (d, Inl e)
           | Inr d' \<Rightarrow>
               (case find_tx d' i of
                  None \<Rightarrow> (d', Inl (NotFound GT_NotRetrieved))
                | Some t \<Rightarrow>
                    (gate_audit user ''GATE_CHECK_OUT'' (Some i)
                       (''Vehicle '' @ plateNumber tx @ '' checked out'') now d', Inr t))))"

definition checkOut :: "db \<Rightarrow> ident \<Rightarrow> jwt_user \<Rightarrow> instant \<Rightarrow> (gt_reason, transaction) outcome" where
  "checkOut d i user now =
     (case find_tx d i of None \<Rightarrow> (d, Inl (NotFound GT_NotFound)) | Some tx \<Rightarrow> checkOut_at tx i user now d)"

section \<open>Cancellation\<close>

definition cancelled :: "string \<Rightarrow> jwt_user \<Rightarrow> instant \<Rightarrow> transaction \<Rightarrow> transaction" where
  "cancelled reason user now t =
     t\<lparr>revision := revision t + 1, status := CANCELLED, cancelledAt := Some now,
       cancellationReason := Some reason, cancelledById := Some (ju_id user)\<rparr>"

definition cancelCommit ::
  "transaction \<Rightarrow> ident \<Rightarrow> string \<Rightarrow> jwt_user \<Rightarrow> instant \<Rightarrow> db \<Rightarrow> gt_reason error + db"
where
  "cancelCommit tx i reason user now d =
     (let (d1, n) = claim i (\<lambda>t. status t = status tx \<and> revision t = revision tx) (cancelled reason user now) d
      in if n \<noteq> 1 then Inl (Conflict GT_ConcurrencyConflict)
         else Inr (add_history i (Some (status tx)) CANCELLED (Some (ju_id user))
                     (Some (''Cancelled: '' @ reason)) now d1))"

definition cancel_at ::
  "transaction \<Rightarrow> ident \<Rightarrow> string \<Rightarrow> jwt_user \<Rightarrow> instant \<Rightarrow> db \<Rightarrow> (gt_reason, transaction) outcome"
where
  "cancel_at tx i reason user now d =
     (case assertValidStatusTransition (status tx) CANCELLED of
        Some e \<Rightarrow> (d, Inl e)
      | None \<Rightarrow>
          (case cancelCommit tx i reason user now d of
             Inl e \<Rightarrow> (d, Inl e)
           | Inr d' \<Rightarrow>
               (case find_tx d' i of
                  None \<Rightarrow> (d', Inl (NotFound GT_NotRetrieved))
                | Some t \<Rightarrow>
                    (gate_audit user ''TRANSACTION_CANCELLED'' (Some i)
                       (''Transaction '' @ transactionNumber tx @ '' cancelled. Reason: '' @ reason) now d', Inr t))))"

definition cancelTransaction ::
  "db \<Rightarrow> ident \<Rightarrow> string \<Rightarrow> jwt_user \<Rightarrow> instant \<Rightarrow> (gt_reason, transaction) outcome"
where
  "cancelTransaction d i reason user now =
     (case find_tx d i of None \<Rightarrow> (d, Inl (NotFound GT_NotFound)) | Some tx \<Rightarrow> cancel_at tx i reason user now d)"

section \<open>Queue and detail\<close>

record gate_query =
  gq_page :: nat
  gq_limit :: nat
  gq_search :: "string option"
  gq_processType :: "process_type option"
  gq_status :: "transaction_status option"
  gq_startDate :: "instant option"
  gq_endDate :: "instant option"

definition gateWhere :: "gate_query \<Rightarrow> transaction \<Rightarrow> bool" where
  "gateWhere q t \<longleftrightarrow>
     (case gq_status q of Some s \<Rightarrow> status t = s | None \<Rightarrow> status t \<notin> {COMPLETED, CANCELLED}) \<and>
     (case truthy_col (gq_search q) of None \<Rightarrow> True
      | Some s \<Rightarrow> contains_ci (transactionNumber t) s \<or> contains_ci (plateNumber t) s) \<and>
     (case gq_processType q of None \<Rightarrow> True | Some p \<Rightarrow> processType t = p) \<and>
     (case gq_startDate q of None \<Rightarrow> True | Some a \<Rightarrow> a \<le> createdAt t) \<and>
     (case gq_endDate q of None \<Rightarrow> True | Some b \<Rightarrow> createdAt t \<le> b)"

definition history_desc :: "db \<Rightarrow> ident \<Rightarrow> status_history list" where
  "history_desc d i = newest_first sh_changedAt (filter (\<lambda>h. sh_transactionId h = i) (statusHistories d))"

definition gateQueue ::
  "db \<Rightarrow> gate_query \<Rightarrow> jwt_user \<Rightarrow> instant \<Rightarrow> db \<times> (transaction \<times> status_history list) list \<times> page_meta"
where
  "gateQueue d q user now =
     (let (rows, meta) = find_page (gq_page q) (gq_limit q) (gateWhere q) createdAt (transactions d)
      in (gate_audit user ''GATE_QUEUE_VIEW'' None ''User viewed gate queue'' now d,
          map (\<lambda>t. (t, take 1 (history_desc d (tx_id t)))) rows, meta))"

record gate_detail =
  gd_transaction :: transaction
  gd_statusHistory :: "status_history list"
  gd_weighbridgeRecords :: "weighbridge_record list"
  gd_warehouseProcesses :: "warehouse_process list"
  gd_qcVehicleChecks :: "qc_vehicle_check list"
  gd_incomingMaterialChecks :: "incoming_material_check list"
  gd_createdBy :: "(ident \<times> string \<times> role) option"

definition gateDetail :: "db \<Rightarrow> ident \<Rightarrow> jwt_user \<Rightarrow> instant \<Rightarrow> (gt_reason, gate_detail) outcome" where
  "gateDetail d i user now =
     (case find_tx d i of
        None \<Rightarrow> (d, Inl (NotFound GT_NotFound))
      | Some tx \<Rightarrow>
          (gate_audit user ''GATE_DETAIL_VIEW'' (Some i)
             (''User viewed transaction detail '' @ transactionNumber tx) now d,
           Inr \<lparr>gd_transaction = tx,
                gd_statusHistory = sort_key sh_changedAt (filter (\<lambda>h. sh_transactionId h = i) (statusHistories d)),
                gd_weighbridgeRecords = filter (current_row i) (weighbridgeRecords d),
                gd_warehouseProcesses = filter (current_row i) (warehouseProcesses d),
                gd_qcVehicleChecks = filter (current_row i) (qcVehicleChecks d),
                gd_incomingMaterialChecks = filter (current_row i) (incomingMaterialChecks d),
                gd_createdBy = user_ref d (createdById tx)\<rparr>))"

section \<open>Refinement\<close>

lemma checkedOut_simps [simp]:
  "tx_key (checkedOut now t) = tx_key t" "status (checkedOut now t) = COMPLETED"
  "revision (checkedOut now t) = Suc (revision t)" "processType (checkedOut now t) = processType t"
  "isVoided (checkedOut now t) = isVoided t"
  by (simp_all add: checkedOut_def tx_key_def)

lemma cancelled_simps [simp]:
  "tx_key (cancelled reason user now t) = tx_key t" "status (cancelled reason user now t) = CANCELLED"
  "revision (cancelled reason user now t) = Suc (revision t)"
  "processType (cancelled reason user now t) = processType t"
  "isVoided (cancelled reason user now t) = isVoided t"
  by (simp_all add: cancelled_def tx_key_def)

lemma checkOut_commit:
  assumes "checkOutCommit tx i user now d = Inr d'" "db_ok d" "snapshot_ok tx i d"
    and "status tx = WEIGH_OUT_DONE"
  shows "find_tx d i = Some tx \<and> find_tx d' i = Some (checkedOut now tx) \<and> commit_step i d d'"
proof -
  obtain d1 where c: "claim i (\<lambda>t. status t = WEIGH_OUT_DONE \<and> revision t = revision tx) (checkedOut now) d = (d1, 1)"
    and d': "d' = add_history i (Some (status tx)) COMPLETED (Some (ju_id user))
      (Some ''Gate check-out processed'') now d1"
    using assms(1) by (auto simp: checkOutCommit_def split: prod.splits if_splits)
  show ?thesis
    using move_commit [OF c refl d' assms(2,3)] truck_step.check_out [of "truck_for d i tx"] assms(4) by simp
qed

lemma cancel_commit:
  assumes "cancelCommit tx i reason user now d = Inr d'" "db_ok d" "snapshot_ok tx i d"
    and "\<not> final_status (status tx)"
  shows "find_tx d i = Some tx \<and> find_tx d' i = Some (cancelled reason user now tx) \<and> commit_step i d d'"
proof -
  obtain d1 where c: "claim i (\<lambda>t. status t = status tx \<and> revision t = revision tx) (cancelled reason user now) d = (d1, 1)"
    and d': "d' = add_history i (Some (status tx)) CANCELLED (Some (ju_id user))
      (Some (''Cancelled: '' @ reason)) now d1"
    using assms(1) by (auto simp: cancelCommit_def split: prod.splits if_splits)
  show ?thesis
    using move_commit [OF c refl d' assms(2,3)] truck_step.cancel [of "truck_for d i tx"] assms(4) by simp
qed

lemma checkOut_at_commits:
  assumes "db_ok d" "snapshot_ok tx i d"
  shows "commits tx i d (checkOut_at tx i user now d)"
proof (cases "assertValidStatusTransition (status tx) COMPLETED :: gt_reason error option")
  case None
  then have "status tx = WEIGH_OUT_DONE" by (simp add: complete_valid_iff)
  then show ?thesis unfolding checkOut_at_def None option.case
    using checkOut_commit [OF _ assms] by (intro commits_respond) simp_all
qed (simp add: checkOut_at_def)

lemma cancel_at_commits:
  assumes "db_ok d" "snapshot_ok tx i d"
  shows "commits tx i d (cancel_at tx i reason user now d)"
proof (cases "assertValidStatusTransition (status tx) CANCELLED :: gt_reason error option")
  case None
  then have "\<not> final_status (status tx)" by (simp add: cancel_valid_iff)
  then show ?thesis unfolding cancel_at_def None option.case
    using cancel_commit [OF _ assms] by (intro commits_respond) simp_all
qed (simp add: cancel_at_def)

section \<open>Properties\<close>

lemma checkOut_commits: "db_ok d \<Longrightarrow> find_tx d i = Some tx \<Longrightarrow> commits tx i d (checkOut d i user now)"
  by (auto simp: checkOut_def intro: checkOut_at_commits snapshot_current split: option.splits)

lemma cancelTransaction_commits: "db_ok d \<Longrightarrow> find_tx d i = Some tx \<Longrightarrow> commits tx i d (cancelTransaction d i reason user now)"
  by (auto simp: cancelTransaction_def intro: cancel_at_commits snapshot_current split: option.splits)

text \<open>A handler that runs on the row it read is never disturbed: its claim succeeds.\<close>

lemma checkOut_result:
  assumes "db_ok d" "find_tx d i = Some tx" "status tx = WEIGH_OUT_DONE"
  shows "\<exists>d'. checkOut d i user now = (d', Inr (checkedOut now tx)) \<and> find_tx d' i = Some (checkedOut now tx)"
proof -
  have "snd (claim i (\<lambda>t. status t = WEIGH_OUT_DONE \<and> revision t = revision tx) (checkedOut now) d) = 1"
    using assms by (subst claim_count) (auto simp: db_ok_def)
  then obtain d' where c: "checkOutCommit tx i user now d = Inr d'"
    by (simp add: checkOutCommit_def case_prod_unfold)
  have f: "find_tx d' i = Some (checkedOut now tx)"
    using checkOut_commit [OF c assms(1) snapshot_current [OF assms(2)] assms(3)] by blast
  have "assertValidStatusTransition (status tx) COMPLETED = (None :: gt_reason error option)"
    using assms(3) by (simp add: complete_valid_iff)
  then have "checkOut d i user now = (gate_audit user ''GATE_CHECK_OUT'' (Some i)
      (''Vehicle '' @ plateNumber tx @ '' checked out'') now d', Inr (checkedOut now tx))"
    by (simp add: checkOut_def checkOut_at_def assms(2) c f)
  then show ?thesis using f by (simp add: gate_audit_def)
qed

lemma cancel_result:
  assumes "db_ok d" "find_tx d i = Some tx" "\<not> final_status (status tx)"
  shows "\<exists>d'. cancelTransaction d i reason user now = (d', Inr (cancelled reason user now tx)) \<and>
    find_tx d' i = Some (cancelled reason user now tx)"
proof -
  have "snd (claim i (\<lambda>t. status t = status tx \<and> revision t = revision tx) (cancelled reason user now) d) = 1"
    using assms by (subst claim_count) (auto simp: db_ok_def)
  then obtain d' where c: "cancelCommit tx i reason user now d = Inr d'"
    by (simp add: cancelCommit_def case_prod_unfold)
  have f: "find_tx d' i = Some (cancelled reason user now tx)"
    using cancel_commit [OF c assms(1) snapshot_current [OF assms(2)] assms(3)] by blast
  have "assertValidStatusTransition (status tx) CANCELLED = (None :: gt_reason error option)"
    using assms(3) by (simp add: cancel_valid_iff)
  then have "cancelTransaction d i reason user now = (gate_audit user ''TRANSACTION_CANCELLED'' (Some i)
      (''Transaction '' @ transactionNumber tx @ '' cancelled. Reason: '' @ reason) now d',
      Inr (cancelled reason user now tx))"
    by (simp add: cancelTransaction_def cancel_at_def assms(2) c f)
  then show ?thesis using f by (simp add: gate_audit_def)
qed

text \<open>
  Check-out completes a transaction exactly when it is weighed out, with one step to COMPLETED
  that sets gateOutAt and completedAt; for any other status it answers 400, for an unknown
  identifier 404, and changes nothing.
\<close>
lemma checkOut_correct:
  assumes "db_ok d"
  shows "case find_tx d i of
      None \<Rightarrow> checkOut d i user now = (d, Inl (NotFound GT_NotFound))
    | Some tx \<Rightarrow>
        if status tx = WEIGH_OUT_DONE
        then \<exists>d' t. checkOut d i user now = (d', Inr t) \<and> commit_step i d d' \<and> find_tx d' i = Some t \<and>
          status t = COMPLETED \<and> gateOutAt t = Some now \<and> completedAt t = Some now \<and> netWeight t = netWeight tx
        else \<exists>e. checkOut d i user now = (d, Inl e) \<and> http_status e = 400"
proof (cases "find_tx d i")
  case (Some tx)
  show ?thesis
  proof (cases "status tx = WEIGH_OUT_DONE")
    case True
    obtain d' where r: "checkOut d i user now = (d', Inr (checkedOut now tx))" "find_tx d' i = Some (checkedOut now tx)"
      using checkOut_result [OF assms Some True] by blast
    have "commit_step i d d'" using checkOut_commits [OF assms Some, of user now] by (simp add: r)
    with r Some True show ?thesis by (simp add: checkedOut_def)
  next
    case False
    then obtain e where e: "assertValidStatusTransition (status tx) COMPLETED = Some (e :: gt_reason error)"
      using complete_valid_iff [of "status tx", where ?'a = gt_reason] by auto
    with Some False show ?thesis
      by (simp add: checkOut_def checkOut_at_def assert_Some_http [OF e])
  qed
qed (simp add: checkOut_def)

text \<open>
  Cancellation works in every status but the final two: it takes one step to CANCELLED and
  records reason, user and time; a COMPLETED or CANCELLED transaction is refused with 400, an
  unknown one with 404, and nothing changes.
\<close>
lemma cancelTransaction_correct:
  assumes "db_ok d"
  shows "case find_tx d i of
      None \<Rightarrow> cancelTransaction d i reason user now = (d, Inl (NotFound GT_NotFound))
    | Some tx \<Rightarrow>
        if final_status (status tx) then cancelTransaction d i reason user now = (d, Inl (FinalStatus (status tx)))
        else \<exists>d' t. cancelTransaction d i reason user now = (d', Inr t) \<and> commit_step i d d' \<and>
          find_tx d' i = Some t \<and> status t = CANCELLED \<and> cancellationReason t = Some reason \<and>
          cancelledById t = Some (ju_id user) \<and> cancelledAt t = Some now"
proof (cases "find_tx d i")
  case (Some tx)
  show ?thesis
  proof (cases "final_status (status tx)")
    case True
    then have "assertValidStatusTransition (status tx) CANCELLED = Some (FinalStatus (status tx) :: gt_reason error)"
      by (auto simp: assertValidStatusTransition_def final_status_def)
    with Some True show ?thesis by (simp add: cancelTransaction_def cancel_at_def)
  next
    case False
    obtain d' where r: "cancelTransaction d i reason user now = (d', Inr (cancelled reason user now tx))"
        "find_tx d' i = Some (cancelled reason user now tx)"
      using cancel_result [OF assms Some False] by blast
    have "commit_step i d d'" using cancelTransaction_commits [OF assms Some, of reason user now] by (simp add: r)
    with r Some False show ?thesis by (simp add: cancelled_def)
  qed
qed (simp add: cancelTransaction_def)

end
