(* ===== verification/Gms_Checklist.thy ===== *)
theory Gms_Checklist
  imports Gms_Domain
begin

text \<open>
  The vehicle checklist of outbound GBJ trucks: the policy (qc/constants/gbj-checklist-policy.ts),
  the structural validation of the submitted items and the decision matrix of
  \<open>QcService.submitGbjVehicleCheck\<close>. The submitted checklist is arbitrary JSON.
\<close>

section \<open>The policy\<close>

definition GBJ_CHECKLIST_ITEMS :: "string list" where
  "GBJ_CHECKLIST_ITEMS =
     [''Tidak ditemukan hama / No pest found'',
      ''Bebas dari barang haram dan najis / Free of haram and najis material'',
      ''Truk dalam kondisi bersih dan tidak berbau / Truck in clean condition and odour free'',
      ''Tidak ditemukan bahan kimia atau kontaminan lain / No chemical or other contaminant found'',
      ''Terdapat alas jika lantai truk kotor atau berlubang / There is a cover if the floor is holey or dirty'']"

datatype severity = CRITICAL | CONDITIONAL

definition GBJ_CHECKLIST_SEVERITY :: "severity list" where
  "GBJ_CHECKLIST_SEVERITY = [CRITICAL, CRITICAL, CONDITIONAL, CRITICAL, CONDITIONAL]"

definition GBJ_CHECKLIST_COUNT :: nat where
  "GBJ_CHECKLIST_COUNT = length GBJ_CHECKLIST_ITEMS"

definition MAX_PHOTO_DECODED_BYTES :: nat where
  "MAX_PHOTO_DECODED_BYTES = 2 * 1024 * 1024"

definition ALLOWED_PHOTO_MIMES :: "string list" where
  "ALLOWED_PHOTO_MIMES = [''image/jpeg'', ''image/png'', ''image/webp'']"

definition MIN_DEVIATION_REASON_LENGTH :: nat where
  "MIN_DEVIATION_REASON_LENGTH = 10"

lemma checklist_count [simp]: "GBJ_CHECKLIST_COUNT = 5" "length GBJ_CHECKLIST_SEVERITY = 5"
  by (simp_all add: GBJ_CHECKLIST_COUNT_def GBJ_CHECKLIST_ITEMS_def GBJ_CHECKLIST_SEVERITY_def)

section \<open>JSON access and strings\<close>

text \<open>\<open>v?.key\<close> on a parsed JSON value; keys of an object are distinct.\<close>

fun json_get :: "string \<Rightarrow> jsv field \<Rightarrow> jsv field" where
  "json_get key (Value (JObj kvs)) = (case map_of kvs key of None \<Rightarrow> Undefined | Some v \<Rightarrow> Value v)"
| "json_get key _ = Undefined"

definition ascii_lower :: "char \<Rightarrow> char" where
  "ascii_lower c = (let n = of_char c :: nat in if 65 \<le> n \<and> n \<le> 90 then char_of (n + 32) else c)"

definition mime_char :: "char \<Rightarrow> bool" where
  "mime_char c = (let n = of_char c :: nat
     in (65 \<le> n \<and> n \<le> 90) \<or> (97 \<le> n \<and> n \<le> 122) \<or> (48 \<le> n \<and> n \<le> 57) \<or> c \<in> {CHR ''+'', CHR ''.'', CHR ''-''})"

text \<open>
  \<open>photo.match(/^data:(image\/[a-zA-Z0-9+.-]+);base64,/)\<close>: the captured type. The class holds no
  semicolon, so its longest run is the only way to match.
\<close>

definition match_data_uri :: "string \<Rightarrow> string option" where
  "match_data_uri s =
     (if take 11 s \<noteq> ''data:image/'' then None
      else let sub = takeWhile mime_char (drop 11 s); rest = dropWhile mime_char (drop 11 s)
           in if sub \<noteq> [] \<and> take 8 rest = '';base64,'' then Some (''image/'' @ sub) else None)"

text \<open>\<open>Math.ceil((base64Data.length * 3) / 4)\<close> of what follows the first comma.\<close>

definition estimated_bytes :: "string \<Rightarrow> nat" where
  "estimated_bytes photo = (length (tl (dropWhile (\<lambda>c. c \<noteq> CHR '','') photo)) * 3 + 3) div 4"

section \<open>Validation of the items\<close>

datatype checklist_error =
    ItemsNotArray
  | ItemCount nat
  | OkNotBoolean nat
  | PhotoMissing nat
  | PhotoNotDataUri nat
  | PhotoMimeNotAllowed nat string
  | PhotoTooLarge nat nat

type_synonym checked_item = "bool \<times> string option"

definition validatePhoto :: "nat \<Rightarrow> jsv field \<Rightarrow> checklist_error + string" where
  "validatePhoto i ph =
     (case ph of
        Value (JStr s) \<Rightarrow>
          if s = [] then Inl (PhotoMissing i)
          else (case match_data_uri s of
              None \<Rightarrow> Inl (PhotoNotDataUri i)
            | Some m \<Rightarrow>
                let detected = map ascii_lower m
                in if detected \<notin> set ALLOWED_PHOTO_MIMES then Inl (PhotoMimeNotAllowed i detected)
                   else if MAX_PHOTO_DECODED_BYTES < estimated_bytes s
                     then Inl (PhotoTooLarge i (estimated_bytes s))
                   else Inr s)
      | _ \<Rightarrow> Inl (PhotoMissing i))"

definition validateItem :: "nat \<Rightarrow> jsv \<Rightarrow> checklist_error + checked_item" where
  "validateItem i raw =
     (case json_get ''ok'' (Value raw) of
        Value (JBool ok) \<Rightarrow>
          if ok then Inr (True, None)
          else (case validatePhoto i (json_get ''photo'' (Value raw)) of
              Inl e \<Rightarrow> Inl e
            | Inr s \<Rightarrow> Inr (False, Some s))
      | _ \<Rightarrow> Inl (OkNotBoolean i))"

fun validateItemsFrom :: "nat \<Rightarrow> jsv list \<Rightarrow> checklist_error + checked_item list" where
  "validateItemsFrom i [] = Inr []"
| "validateItemsFrom i (raw # raws) =
     (case validateItem i raw of
        Inl e \<Rightarrow> Inl e
      | Inr it \<Rightarrow> (case validateItemsFrom (Suc i) raws of Inl e \<Rightarrow> Inl e | Inr its \<Rightarrow> Inr (it # its)))"

definition validateChecklist :: "jsv field \<Rightarrow> checklist_error + checked_item list" where
  "validateChecklist checklist =
     (case json_get ''items'' checklist of
        Value (JArr raws) \<Rightarrow>
          if length raws \<noteq> GBJ_CHECKLIST_COUNT then Inl (ItemCount (length raws))
          else validateItemsFrom 0 raws
      | _ \<Rightarrow> Inl ItemsNotArray)"

section \<open>The decision matrix\<close>

datatype decision_error =
    BadCombination qc_result bool
  | NormalPassWithDeviation
  | ApprovedWithoutDeviation
  | ApprovedCritical "nat list"
  | ReasonTooShort
  | RejectedWithoutDeviation

definition notOkIndices :: "checked_item list \<Rightarrow> nat list" where
  "notOkIndices items = filter (\<lambda>i. \<not> fst (items ! i)) [0..<length items]"

definition criticalIndices :: "checked_item list \<Rightarrow> nat list" where
  "criticalIndices items = filter (\<lambda>i. GBJ_CHECKLIST_SEVERITY ! i = CRITICAL) (notOkIndices items)"

definition effectiveDecisionMode ::
  "qc_vehicle_decision_mode field \<Rightarrow> qc_result \<Rightarrow> bool \<Rightarrow> decision_error + qc_vehicle_decision_mode"
where
  "effectiveDecisionMode mode result hasDeviation =
     (case mode of
        Value m \<Rightarrow> Inr m
      | _ \<Rightarrow> if result = QC_PASS \<and> \<not> hasDeviation then Inr NORMAL_PASS
             else if result = QC_REJECT \<and> hasDeviation then Inr REJECTED
             else Inl (BadCombination result hasDeviation))"

definition checkDecisionMatrix ::
  "qc_vehicle_decision_mode \<Rightarrow> checked_item list \<Rightarrow> string field \<Rightarrow> decision_error option"
where
  "checkDecisionMatrix m items reason =
     (let hasDeviation = notOkIndices items \<noteq> []
      in if m = NORMAL_PASS \<and> hasDeviation then Some NormalPassWithDeviation
         else if m = APPROVED_WITH_DEVIATION \<and> \<not> hasDeviation then Some ApprovedWithoutDeviation
         else if m = APPROVED_WITH_DEVIATION \<and> criticalIndices items \<noteq> []
           then Some (ApprovedCritical (criticalIndices items))
         else if m = APPROVED_WITH_DEVIATION \<and>
             (case truthy_str reason of None \<Rightarrow> True
              | Some s \<Rightarrow> length (trim s) < MIN_DEVIATION_REASON_LENGTH)
           then Some ReasonTooShort
         else if m = REJECTED \<and> \<not> hasDeviation then Some RejectedWithoutDeviation
         else None)"

definition gbjDecision ::
  "qc_vehicle_decision_mode field \<Rightarrow> qc_result \<Rightarrow> string field \<Rightarrow> checked_item list \<Rightarrow>
     decision_error + qc_vehicle_decision_mode"
where
  "gbjDecision mode result reason items =
     (case effectiveDecisionMode mode result (notOkIndices items \<noteq> []) of
        Inl e \<Rightarrow> Inl e
      | Inr m \<Rightarrow> (case checkDecisionMatrix m items reason of Some e \<Rightarrow> Inl e | None \<Rightarrow> Inr m))"

fun serverResult :: "qc_vehicle_decision_mode \<Rightarrow> qc_result" where
  "serverResult NORMAL_PASS = QC_PASS"
| "serverResult APPROVED_WITH_DEVIATION = QC_PASS"
| "serverResult REJECTED = QC_REJECT"

section \<open>Properties\<close>

lemma validateItemsFrom_length: "validateItemsFrom i raws = Inr items \<Longrightarrow> length items = length raws"
  by (induction i raws arbitrary: items rule: validateItemsFrom.induct) (auto split: sum.splits)

lemma validatePhoto_sound:
  "validatePhoto i ph = Inr s \<Longrightarrow> estimated_bytes s \<le> MAX_PHOTO_DECODED_BYTES \<and>
     (\<exists>m. match_data_uri s = Some m \<and> map ascii_lower m \<in> set ALLOWED_PHOTO_MIMES)"
  by (auto simp: validatePhoto_def Let_def split: field.splits jsv.splits option.splits if_splits)

lemma validateItem_sound:
  "validateItem i raw = Inr (ok, photo) \<Longrightarrow>
     (ok \<longleftrightarrow> photo = None) \<and> json_get ''ok'' (Value raw) = Value (JBool ok) \<and>
     (\<forall>s. photo = Some s \<longrightarrow> estimated_bytes s \<le> MAX_PHOTO_DECODED_BYTES \<and>
        (\<exists>m. match_data_uri s = Some m \<and> map ascii_lower m \<in> set ALLOWED_PHOTO_MIMES))"
  using validatePhoto_sound
  by (fastforce simp: validateItem_def split: field.splits jsv.splits if_splits sum.splits)

lemma validateItemsFrom_sound:
  "validateItemsFrom i raws = Inr items \<Longrightarrow> k < length raws \<Longrightarrow>
     validateItem (i + k) (raws ! k) = Inr (items ! k)"
proof (induction i raws arbitrary: items k rule: validateItemsFrom.induct)
  case (2 i raw raws)
  obtain it its where v: "validateItem i raw = Inr it" "validateItemsFrom (Suc i) raws = Inr its" "items = it # its"
    using "2.prems"(1) by (auto split: sum.splits)
  show ?case
  proof (cases k)
    case 0
    then show ?thesis using v by simp
  next
    case (Suc n)
    then show ?thesis using "2.IH" [OF v(1,2), of n] "2.prems"(2) v(3) by simp
  qed
qed simp

lemma photo_limits:
  "MAX_PHOTO_DECODED_BYTES = 2097152" "set ALLOWED_PHOTO_MIMES = {''image/jpeg'', ''image/png'', ''image/webp''}"
  by (simp_all add: MAX_PHOTO_DECODED_BYTES_def ALLOWED_PHOTO_MIMES_def)

lemma validateChecklist_length: "validateChecklist checklist = Inr items \<Longrightarrow> length items = 5"
  by (auto simp: validateChecklist_def dest: validateItemsFrom_length split: field.splits jsv.splits if_splits)

lemma criticalIndices_Nil:
  assumes "length items = 5"
  shows "criticalIndices items = [] \<longleftrightarrow> fst (items ! 0) \<and> fst (items ! 1) \<and> fst (items ! 3)"
proof -
  have "[0..<5] = [0, 1, 2, 3, 4::nat]" by (simp add: upt_rec)
  then show ?thesis by (simp add: criticalIndices_def notOkIndices_def assms GBJ_CHECKLIST_SEVERITY_def)
qed

lemma gbjDecision_matrix: "gbjDecision mode result reason items = Inr m \<Longrightarrow> checkDecisionMatrix m items reason = None"
  by (auto simp: gbjDecision_def split: sum.splits option.splits)

lemma notOk_Nil_critical: "notOkIndices items = [] \<Longrightarrow> criticalIndices items = []"
  by (simp add: criticalIndices_def)

lemma checklist_critical:
  assumes "validateChecklist cl = Inr items" "gbjDecision mode result reason items = Inr m" "serverResult m = QC_PASS"
  shows "fst (items ! 0) \<and> fst (items ! 1) \<and> fst (items ! 3)"
proof -
  have "criticalIndices items = []"
    using gbjDecision_matrix [OF assms(2)] assms(3) notOk_Nil_critical
    by (cases m) (auto simp: checkDecisionMatrix_def Let_def split: if_splits)
  then show ?thesis using criticalIndices_Nil [OF validateChecklist_length [OF assms(1)]] by simp
qed

text \<open>
  An accepted checklist has exactly five items; the flag stored for each is the boolean that
  was submitted (no string passes for a boolean), and every item that is not OK carries a photo,
  an image/jpeg, image/png or image/webp data URI of at most 2 MB decoded.
\<close>
lemma validateChecklist_sound:
  assumes "validateChecklist checklist = Inr items"
  shows "length items = 5 \<and> (\<exists>raws. json_get ''items'' checklist = Value (JArr raws) \<and> length raws = 5 \<and>
    (\<forall>k < 5. json_get ''ok'' (Value (raws ! k)) = Value (JBool (fst (items ! k))) \<and>
       (fst (items ! k) \<longleftrightarrow> snd (items ! k) = None) \<and>
       (\<forall>s. snd (items ! k) = Some s \<longrightarrow> estimated_bytes s \<le> 2097152 \<and>
          (\<exists>m. match_data_uri s = Some m \<and> map ascii_lower m \<in> {''image/jpeg'', ''image/png'', ''image/webp''}))))"
proof -
  obtain raws where r: "json_get ''items'' checklist = Value (JArr raws)" "length raws = 5"
      "validateItemsFrom 0 raws = Inr items"
    using assms by (auto simp: validateChecklist_def split: field.splits jsv.splits if_splits)
  have v: "validateItem k (raws ! k) = Inr (items ! k)" if "k < 5" for k
    using validateItemsFrom_sound [OF r(3), of k] that r(2) by simp
  show ?thesis
  proof (intro conjI exI [of _ raws] allI impI)
    show "length items = 5" using validateItemsFrom_length [OF r(3)] r(2) by simp
    show "json_get ''items'' checklist = Value (JArr raws)" "length raws = 5" by (fact r)+
    fix k :: nat assume "k < 5"
    then have "validateItem k (raws ! k) = Inr (fst (items ! k), snd (items ! k))" using v by simp
    note sound = validateItem_sound [OF this, unfolded photo_limits]
    show "json_get ''ok'' (Value (raws ! k)) = Value (JBool (fst (items ! k)))"
      "fst (items ! k) \<longleftrightarrow> snd (items ! k) = None"
      using sound by blast+
    show "estimated_bytes s \<le> 2097152"
      "\<exists>m. match_data_uri s = Some m \<and> map ascii_lower m \<in> {''image/jpeg'', ''image/png'', ''image/webp''}"
      if "snd (items ! k) = Some s" for s
      using sound that by blast+
  qed
qed

lemma validateChecklist_sound_applied:
  "length [(True, None), (True, None), (False, Some ''data:image/png;base64,iVBOR''), (True, None), (True, None)] = (5::nat)"
proof -
  have "validateChecklist (Value (JObj [(''items'', JArr
      [JObj [(''ok'', JBool True)], JObj [(''ok'', JBool True)],
       JObj [(''ok'', JBool False), (''photo'', JStr ''data:image/png;base64,iVBOR'')],
       JObj [(''ok'', JBool True)], JObj [(''ok'', JBool True)]])]))
    = Inr [(True, None), (True, None), (False, Some ''data:image/png;base64,iVBOR''), (True, None), (True, None)]"
    by (simp add: validateChecklist_def validateItem_def validatePhoto_def match_data_uri_def mime_char_def
        ascii_lower_def estimated_bytes_def MAX_PHOTO_DECODED_BYTES_def ALLOWED_PHOTO_MIMES_def)
  from validateChecklist_sound [OF this] show ?thesis by (rule conjunct1)
qed

text \<open>
  C29. The GBJ decision matrix. A truck passes only when every critical item (pest, haram or najis
  material, chemical contaminant) is OK, whatever mode or result the client sends; it passes
  normally only when all items are OK, and with deviation only when some item is not and a reason
  of at least ten characters is given; it is rejected only when some item is not OK.
\<close>
theorem gbjDecision_policy:
  assumes "gbjDecision mode result reason items = Inr m" and "length items = 5"
  shows "(serverResult m = QC_PASS \<longrightarrow> fst (items ! 0) \<and> fst (items ! 1) \<and> fst (items ! 3)) \<and>
    (m = NORMAL_PASS \<longrightarrow> (\<forall>k < 5. fst (items ! k))) \<and>
    (m = APPROVED_WITH_DEVIATION \<longrightarrow> (\<exists>k < 5. \<not> fst (items ! k)) \<and>
       (\<exists>s. reason = Value s \<and> 10 \<le> length (trim s))) \<and>
    (m = REJECTED \<longrightarrow> (\<exists>k < 5. \<not> fst (items ! k)))"
proof -
  have n: "notOkIndices items = [] \<longleftrightarrow> (\<forall>k < 5. fst (items ! k))"
    by (auto simp: notOkIndices_def filter_empty_conv assms(2))
  show ?thesis
    using gbjDecision_matrix [OF assms(1)] n criticalIndices_Nil [OF assms(2)]
    by (cases m; cases reason) (auto simp: checkDecisionMatrix_def Let_def MIN_DEVIATION_REASON_LENGTH_def split: if_splits)
qed

theorem gbjDecision_policy_witness:
  "fst ([(True, None), (True, None), (False, Some ''p''), (True, None), (True, None :: string option)] ! 3)"
proof -
  have "gbjDecision (Value APPROVED_WITH_DEVIATION) QC_PASS (Value ''Lantai basah, sudah dikeringkan'')
    [(True, None), (True, None), (False, Some ''p''), (True, None), (True, None)] = Inr APPROVED_WITH_DEVIATION"
    by code_simp
  from gbjDecision_policy [OF this] show ?thesis by simp
qed

end
