(* ===== verification/Gms_Qc.thy ===== *)
theory Gms_Qc
  imports Gms_Commit Gms_Scope Gms_Checklist Gms_Json
begin

text \<open>
  Quality control (qc/qc.service.ts): the start of an inspection, the vehicle check with its GBJ
  path, the incoming material check, the completion of the GBB analysis, and the read endpoints.
  \<open>user\<close> is optional where the service takes it optionally; without it no scope is checked.
\<close>

section \<open>Reasons and shared helpers\<close>

datatype qc_reason =
    QC_NotFound
  | QC_NotPending
  | QC_WrongState
  | QC_WrongProcess
  | QC_AlreadySubmitted
  | QC_ConcurrencyConflict
  | QC_Checklist checklist_error
  | QC_Decision decision_error
  | QC_SegregationOfDuties
  | QC_NotAnalysable
  | QC_FileRequired
  | QC_NotRetrieved

definition mapToCheckResult :: "string field \<Rightarrow> check_result option" where
  "mapToCheckResult val =
     (case truthy_str val of
        None \<Rightarrow> None
      | Some s \<Rightarrow>
          if upper s \<in> {''PASS'', ''NORMAL'', ''OK'', ''GOOD''} then Some PASS
          else if upper s \<in> {''REJECT'', ''ABNORMAL'', ''NOT_OK'', ''BAD'', ''REJECTED''} then Some REJECT
          else if upper s = ''NA'' then Some NA
          else None)"

fun booleanToCheckResult :: "bool field \<Rightarrow> check_result option" where
  "booleanToCheckResult (Value b) = Some (if b then PASS else REJECT)"
| "booleanToCheckResult _ = None"

definition findTransactionWithAccess ::
  "db \<Rightarrow> ident \<Rightarrow> jwt_user option \<Rightarrow> qc_reason error + transaction"
where
  "findTransactionWithAccess d i user =
     (case find_tx d i of
        None \<Rightarrow> Inl (NotFound QC_NotFound)
      | Some tx \<Rightarrow>
          (case user of
             None \<Rightarrow> Inr tx
           | Some u \<Rightarrow>
               (case assertProcessAccess u (processType tx) of Some e \<Rightarrow> Inl e | None \<Rightarrow> Inr tx)))"

fun result_name :: "qc_result \<Rightarrow> string" where
  "result_name QC_PASS = ''PASS''"
| "result_name QC_REJECT = ''REJECT''"

fun mode_name :: "qc_vehicle_decision_mode \<Rightarrow> string" where
  "mode_name NORMAL_PASS = ''NORMAL_PASS''"
| "mode_name APPROVED_WITH_DEVIATION = ''APPROVED_WITH_DEVIATION''"
| "mode_name REJECTED = ''REJECTED''"

definition qc_audit :: "ident \<Rightarrow> string \<Rightarrow> ident \<Rightarrow> jsv option \<Rightarrow> instant \<Rightarrow> db \<Rightarrow> db" where
  "qc_audit userId action ref desc now = audit userId action ''QC'' (Some ref) desc ''SUCCESS'' now"

lemma same_data_qc_audit [simp]: "same_data d (qc_audit u a r desc now d)"
  by (simp add: qc_audit_def)

section \<open>Starting an inspection\<close>

fun startQcStatus :: "transaction_status \<Rightarrow> transaction_status option" where
  "startQcStatus QC_VEHICLE_PENDING = Some QC_VEHICLE_IN_PROGRESS"
| "startQcStatus INCOMING_CHECK_PENDING = Some INCOMING_CHECK_IN_PROGRESS"
| "startQcStatus _ = None"

definition qcStarted :: "transaction \<Rightarrow> transaction_status \<Rightarrow> instant \<Rightarrow> transaction \<Rightarrow> transaction" where
  "qcStarted tx nextStatus now t =
     t\<lparr>status := nextStatus, revision := revision t + 1,
       qcStartAt := (if status tx = QC_VEHICLE_PENDING then Some (val_or (qcStartAt tx) now) else qcStartAt t),
       incomingQcStartAt := (if status tx = INCOMING_CHECK_PENDING
                             then Some (val_or (incomingQcStartAt tx) now) else incomingQcStartAt t)\<rparr>"

definition startQcCommit ::
  "transaction \<Rightarrow> ident \<Rightarrow> transaction_status \<Rightarrow> ident \<Rightarrow> instant \<Rightarrow> db \<Rightarrow> qc_reason error + db"
where
  "startQcCommit tx i nextStatus userId now d =
     (let (d1, n) = claim i (\<lambda>t. status t = status tx \<and> revision t = revision tx) (qcStarted tx nextStatus now) d
      in if n \<noteq> 1 then Inl (Conflict QC_ConcurrencyConflict)
         else Inr (add_history i (Some (status tx)) nextStatus (Some userId) (Some ''QC started'') now d1))"

definition startQc_at ::
  "transaction \<Rightarrow> ident \<Rightarrow> ident \<Rightarrow> instant \<Rightarrow> db \<Rightarrow> (qc_reason, transaction option) outcome"
where
  "startQc_at tx i userId now d =
     (case startQcStatus (status tx) of
        None \<Rightarrow> (d, Inl (BadRequest QC_NotPending))
      | Some nextStatus \<Rightarrow>
          (case assertValidStatusTransition (status tx) nextStatus of
             Some e \<Rightarrow> (d, Inl e)
           | None \<Rightarrow>
               (case startQcCommit tx i nextStatus userId now d of
                  Inl e \<Rightarrow> (d, Inl e)
                | Inr d' \<Rightarrow> (qc_audit userId ''QC_START'' i None now d', Inr (find_tx d' i)))))"

definition startQc ::
  "db \<Rightarrow> ident \<Rightarrow> ident \<Rightarrow> jwt_user option \<Rightarrow> instant \<Rightarrow> (qc_reason, transaction option) outcome"
where
  "startQc d i userId user now =
     (case findTransactionWithAccess d i user of Inl e \<Rightarrow> (d, Inl e) | Inr tx \<Rightarrow> startQc_at tx i userId now d)"

section \<open>Vehicle check\<close>

record vehicle_check_dto =
  vc_result :: qc_result
  vc_decisionMode :: "qc_vehicle_decision_mode field"
  vc_deviationReason :: "string field"
  vc_vehicleCleanliness :: "bool field"
  vc_vehicleOdor :: "bool field"
  vc_pestEvidence :: "bool field"
  vc_vehicleCondition :: "bool field"
  vc_documentCompleteness :: "bool field"
  vc_sealCondition :: "bool field"
  vc_notes :: "string field"
  vc_checklistItems :: "jsv field"

definition vehicleChecked :: "transaction \<Rightarrow> transaction_status \<Rightarrow> instant \<Rightarrow> transaction \<Rightarrow> transaction" where
  "vehicleChecked tx nextStatus now t =
     t\<lparr>status := nextStatus, revision := revision t + 1, qcStartAt := Some (val_or (qcStartAt tx) now),
       qcEndAt := Some now\<rparr>"

definition legacyCheckRow ::
  "transaction \<Rightarrow> ident \<Rightarrow> vehicle_check_dto \<Rightarrow> qc_result \<Rightarrow> ident \<Rightarrow> instant \<Rightarrow> db \<Rightarrow> qc_vehicle_check"
where
  "legacyCheckRow tx i dto result userId now d =
     \<lparr>v_id = nextId d, v_transactionId = i, v_createdAt = now, v_isCurrent = True, v_supersededAt = None,
      v_supersededByCorrectionId = None, v_revision = next_row_revision i (qcVehicleChecks d),
      qv_result = Some result, qv_decisionMode = None, qv_hasDeviation = None, qv_deviationReason = None,
      qv_vehicleCleanliness = booleanToCheckResult (vc_vehicleCleanliness dto),
      qv_vehicleOdor = booleanToCheckResult (vc_vehicleOdor dto),
      qv_pestEvidence = booleanToCheckResult (vc_pestEvidence dto),
      qv_vehicleCondition = booleanToCheckResult (vc_vehicleCondition dto),
      qv_documentCompleteness = booleanToCheckResult (vc_documentCompleteness dto),
      qv_sealCondition = booleanToCheckResult (vc_sealCondition dto),
      qv_notes = create_field (vc_notes dto), qv_checklistItems = truthy_json (vc_checklistItems dto),
      qv_checkedById = Some userId, qv_startedAt = Some (val_or (qcStartAt tx) now), qv_completedAt = Some now\<rparr>"

definition legacyCheckCommit ::
  "transaction \<Rightarrow> ident \<Rightarrow> vehicle_check_dto \<Rightarrow> qc_result \<Rightarrow> transaction_status \<Rightarrow> ident \<Rightarrow> instant \<Rightarrow> db \<Rightarrow> qc_reason error + db"
where
  "legacyCheckCommit tx i dto result nextStatus userId now d =
     (let (d1, n) = claim i (\<lambda>t. status t = status tx \<and> revision t = revision tx) (vehicleChecked tx nextStatus now) d
      in if n \<noteq> 1 then Inl (Conflict QC_ConcurrencyConflict)
         else
           let d2 = add_vehicle_check (legacyCheckRow tx i dto result userId now d1) d1;
               d3 = add_history i (Some (status tx)) nextStatus (Some userId)
                      (Some ((if processType tx = GBJ then ''Vehicle Check'' else ''Initial QC Sampling'')
                             @ '': '' @ result_name result)) now d2
           in Inr (qc_audit userId ''QC_VEHICLE_RESULT'' i
                     (Some (JObj [(''result'', JStr (result_name result))])) now d3))"

subsection \<open>The GBJ path\<close>

fun vehicleStatus :: "qc_result \<Rightarrow> transaction_status" where
  "vehicleStatus QC_PASS = QC_VEHICLE_PASSED"
| "vehicleStatus QC_REJECT = QC_VEHICLE_REJECTED"

fun severity_name :: "severity \<Rightarrow> string" where
  "severity_name CRITICAL = ''CRITICAL''"
| "severity_name CONDITIONAL = ''CONDITIONAL''"

definition serverChecklistItems :: "checked_item list \<Rightarrow> jsv" where
  "serverChecklistItems items =
     JObj [(''items'', JArr (map (\<lambda>k. JObj
        [(''label'', JStr (GBJ_CHECKLIST_ITEMS ! k)), (''ok'', JBool (fst (items ! k))),
         (''photo'', (case snd (items ! k) of None \<Rightarrow> JNull | Some s \<Rightarrow> JStr s)),
         (''severity'', JStr (severity_name (GBJ_CHECKLIST_SEVERITY ! k)))]) [0..<length items]))]"

definition trimmedReason :: "string field \<Rightarrow> string" where
  "trimmedReason reason = trim (case reason of Value s \<Rightarrow> s | _ \<Rightarrow> [])"

definition gbjCheckRow ::
  "transaction \<Rightarrow> vehicle_check_dto \<Rightarrow> checked_item list \<Rightarrow> qc_vehicle_decision_mode \<Rightarrow> ident \<Rightarrow> instant \<Rightarrow> db \<Rightarrow> qc_vehicle_check"
where
  "gbjCheckRow tx dto items m userId now d =
     \<lparr>v_id = nextId d, v_transactionId = tx_id tx, v_createdAt = now, v_isCurrent = True, v_supersededAt = None,
      v_supersededByCorrectionId = None, v_revision = next_row_revision (tx_id tx) (qcVehicleChecks d),
      qv_result = Some (serverResult m), qv_decisionMode = Some m,
      qv_hasDeviation = Some (notOkIndices items \<noteq> []),
      qv_deviationReason =
        (if m = APPROVED_WITH_DEVIATION then Some (trimmedReason (vc_deviationReason dto)) else None),
      qv_vehicleCleanliness = booleanToCheckResult (vc_vehicleCleanliness dto),
      qv_vehicleOdor = booleanToCheckResult (vc_vehicleOdor dto),
      qv_pestEvidence = booleanToCheckResult (vc_pestEvidence dto),
      qv_vehicleCondition = booleanToCheckResult (vc_vehicleCondition dto),
      qv_documentCompleteness = booleanToCheckResult (vc_documentCompleteness dto),
      qv_sealCondition = booleanToCheckResult (vc_sealCondition dto),
      qv_notes = create_field (vc_notes dto), qv_checklistItems = Some (serverChecklistItems items),
      qv_checkedById = Some userId, qv_startedAt = Some (val_or (qcStartAt tx) now), qv_completedAt = Some now\<rparr>"

fun gbjAction :: "qc_vehicle_decision_mode \<Rightarrow> string" where
  "gbjAction NORMAL_PASS = ''QC_VEHICLE_APPROVED''"
| "gbjAction APPROVED_WITH_DEVIATION = ''QC_VEHICLE_APPROVED_WITH_DEVIATION''"
| "gbjAction REJECTED = ''QC_VEHICLE_REJECTED''"

definition gbjDescription ::
  "transaction \<Rightarrow> vehicle_check_dto \<Rightarrow> checked_item list \<Rightarrow> qc_vehicle_decision_mode \<Rightarrow> jsv"
where
  "gbjDescription tx dto items m =
     JObj ([(''decisionMode'', JStr (mode_name m)), (''plateNumber'', JStr (plateNumber tx)),
            (''checklistItemCount'', JNum (of_nat GBJ_CHECKLIST_COUNT)),
            (''notOkCount'', JNum (of_nat (length (notOkIndices items))))]
       @ (if 0 < length (notOkIndices items) then
            [(''notOkItems'', JArr (map (\<lambda>k. JObj [(''index'', JNum (of_nat k)),
                (''label'', JStr (GBJ_CHECKLIST_ITEMS ! k)),
                (''severity'', JStr (severity_name (GBJ_CHECKLIST_SEVERITY ! k)))]) (notOkIndices items)))]
          else [])
       @ (if m = APPROVED_WITH_DEVIATION
          then [(''deviationReason'', JStr (trimmedReason (vc_deviationReason dto)))] else []))"

text \<open>The arrow of the history note in UTF-8.\<close>

definition gbjNotes :: "qc_vehicle_decision_mode \<Rightarrow> string" where
  "gbjNotes m = ''Vehicle Check: '' @ mode_name m @ '' '' @ [CHR 0xE2, CHR 0x86, CHR 0x92] @ '' '' @
     result_name (serverResult m)"

definition gbjCheckCommit ::
  "transaction \<Rightarrow> vehicle_check_dto \<Rightarrow> checked_item list \<Rightarrow> qc_vehicle_decision_mode \<Rightarrow> ident \<Rightarrow> instant \<Rightarrow> db \<Rightarrow> qc_reason error + db"
where
  "gbjCheckCommit tx dto items m userId now d =
     (let nextStatus = vehicleStatus (serverResult m);
          (d1, n) = claim (tx_id tx) (\<lambda>t. status t = status tx \<and> revision t = revision tx)
                      (vehicleChecked tx nextStatus now) d
      in if n \<noteq> 1 then Inl (Conflict QC_ConcurrencyConflict)
         else
           let d2 = add_vehicle_check (gbjCheckRow tx dto items m userId now d1) d1;
               d3 = add_history (tx_id tx) (Some (status tx)) nextStatus (Some userId) (Some (gbjNotes m)) now d2
           in Inr (qc_audit userId (gbjAction m) (tx_id tx) (Some (gbjDescription tx dto items m)) now d3))"

text \<open>The response: the row with all its vehicle checks.\<close>

definition vehicle_view :: "db \<Rightarrow> ident \<Rightarrow> (transaction \<times> qc_vehicle_check list) option" where
  "vehicle_view d i = map_option (\<lambda>t. (t, filter (\<lambda>r. v_transactionId r = i) (qcVehicleChecks d))) (find_tx d i)"

type_synonym vehicle_outcome = "(qc_reason, (transaction \<times> qc_vehicle_check list) option) outcome"

definition submitGbjVehicleCheck ::
  "transaction \<Rightarrow> vehicle_check_dto \<Rightarrow> ident \<Rightarrow> instant \<Rightarrow> db \<Rightarrow> vehicle_outcome"
where
  "submitGbjVehicleCheck tx dto userId now d =
     (case validateChecklist (vc_checklistItems dto) of
        Inl e \<Rightarrow> (d, Inl (BadRequest (QC_Checklist e)))
      | Inr items \<Rightarrow>
          (case gbjDecision (vc_decisionMode dto) (vc_result dto) (vc_deviationReason dto) items of
             Inl e \<Rightarrow> (d, Inl (BadRequest (QC_Decision e)))
           | Inr m \<Rightarrow>
               (case assertValidStatusTransition (status tx) (vehicleStatus (serverResult m)) of
                  Some e \<Rightarrow> (d, Inl e)
                | None \<Rightarrow>
                    (case gbjCheckCommit tx dto items m userId now d of
                       Inl e \<Rightarrow> (d, Inl e)
                     | Inr d' \<Rightarrow> (d', Inr (vehicle_view d' (tx_id tx)))))))"

text \<open>
  \<open>submitted\<close> tells whether the row that was read came with a current vehicle check.
\<close>

definition submitVehicleCheck_at ::
  "transaction \<Rightarrow> bool \<Rightarrow> ident \<Rightarrow> vehicle_check_dto \<Rightarrow> ident \<Rightarrow> instant \<Rightarrow> db \<Rightarrow> vehicle_outcome"
where
  "submitVehicleCheck_at tx submitted i dto userId now d =
     (if processType tx \<notin> {GBJ, GBB, GSP} then (d, Inl (BadRequest QC_WrongProcess))
      else if status tx \<noteq> QC_VEHICLE_IN_PROGRESS \<and> status tx \<noteq> QC_VEHICLE_PENDING
        then (d, Inl (BadRequest QC_WrongState))
      else if submitted then (d, Inl (BadRequest QC_AlreadySubmitted))
      else if processType tx = GBJ then submitGbjVehicleCheck tx dto userId now d
      else
        let nextStatus = vehicleStatus (vc_result dto)
        in case assertValidStatusTransition (status tx) nextStatus of
             Some e \<Rightarrow> (d, Inl e)
           | None \<Rightarrow>
               (case legacyCheckCommit tx i dto (vc_result dto) nextStatus userId now d of
                  Inl e \<Rightarrow> (d, Inl e)
                | Inr d' \<Rightarrow> (d', Inr (vehicle_view d' i))))"

definition submitVehicleCheck ::
  "db \<Rightarrow> ident \<Rightarrow> vehicle_check_dto \<Rightarrow> ident \<Rightarrow> jwt_user option \<Rightarrow> instant \<Rightarrow> vehicle_outcome"
where
  "submitVehicleCheck d i dto userId user now =
     (case findTransactionWithAccess d i user of
        Inl e \<Rightarrow> (d, Inl e)
      | Inr tx \<Rightarrow>
          submitVehicleCheck_at tx (filter (current_row i) (qcVehicleChecks d) \<noteq> []) i dto userId now d)"

section \<open>Incoming check\<close>

record incoming_check_dto =
  ic_result :: qc_result
  ic_odor :: "string field"
  ic_color :: "string field"
  ic_moisture :: "num field"
  ic_foreignMatter :: "num field"
  ic_beanCondition :: "bool field"
  ic_sampleWeight :: "num field"
  ic_goodBeanPercentage :: "num field"
  ic_itemCondition :: "bool field"
  ic_packagingCondition :: "bool field"
  ic_quantityCheck :: "bool field"
  ic_documentCheck :: "bool field"
  ic_visualInspection :: "bool field"
  ic_defectNotes :: "string field"
  ic_notes :: "string field"

fun incomingStatus :: "qc_result \<Rightarrow> transaction_status" where
  "incomingStatus QC_PASS = INCOMING_CHECK_PASSED"
| "incomingStatus QC_REJECT = INCOMING_CHECK_REJECTED"

definition incomingCheckRow ::
  "transaction \<Rightarrow> ident \<Rightarrow> incoming_check_dto \<Rightarrow> ident \<Rightarrow> instant \<Rightarrow> db \<Rightarrow> incoming_material_check"
where
  "incomingCheckRow tx i dto userId now d =
     \<lparr>v_id = nextId d, v_transactionId = i, v_createdAt = now, v_isCurrent = True, v_supersededAt = None,
      v_supersededByCorrectionId = None, v_revision = next_row_revision i (incomingMaterialChecks d),
      im_result = Some (ic_result dto), im_odor = mapToCheckResult (ic_odor dto),
      im_color = mapToCheckResult (ic_color dto), im_moisture = create_field (ic_moisture dto),
      im_foreignMatter = create_field (ic_foreignMatter dto),
      im_beanCondition = booleanToCheckResult (ic_beanCondition dto),
      im_sampleWeight = create_field (ic_sampleWeight dto),
      im_goodBeanPercentage = create_field (ic_goodBeanPercentage dto),
      im_itemCondition = booleanToCheckResult (ic_itemCondition dto),
      im_packagingCondition = booleanToCheckResult (ic_packagingCondition dto),
      im_quantityCheck = booleanToCheckResult (ic_quantityCheck dto),
      im_documentCheck = booleanToCheckResult (ic_documentCheck dto),
      im_visualInspection = booleanToCheckResult (ic_visualInspection dto),
      im_defectNotes = create_field (ic_defectNotes dto), im_notes = create_field (ic_notes dto), im_checklistItems = None,
      im_checkedById = Some userId, im_startedAt = Some (val_or (incomingQcStartAt tx) now),
      im_completedAt = Some now\<rparr>"

definition incomingChecked :: "transaction \<Rightarrow> transaction_status \<Rightarrow> instant \<Rightarrow> transaction \<Rightarrow> transaction" where
  "incomingChecked tx nextStatus now t =
     t\<lparr>status := nextStatus, revision := revision t + 1,
       incomingQcStartAt := Some (val_or (incomingQcStartAt tx) now), qcEndAt := Some now\<rparr>"

definition incomingCheckCommit ::
  "transaction \<Rightarrow> ident \<Rightarrow> incoming_check_dto \<Rightarrow> transaction_status \<Rightarrow> ident \<Rightarrow> instant \<Rightarrow> db \<Rightarrow> qc_reason error + db"
where
  "incomingCheckCommit tx i dto nextStatus userId now d =
     (if 0 < count_where (current_row i) (incomingMaterialChecks d) then Inl (BadRequest QC_AlreadySubmitted)
      else
        let d1 = add_incoming_check (incomingCheckRow tx i dto userId now d) d;
            (d2, n) = claim i (\<lambda>t. status t = status tx \<and> revision t = revision tx)
                        (incomingChecked tx nextStatus now) d1
        in if n \<noteq> 1 then Inl (Conflict QC_ConcurrencyConflict)
           else Inr (add_history i (Some (status tx)) nextStatus (Some userId)
                       (Some (''Incoming Check: '' @ result_name (ic_result dto))) now d2))"

definition incoming_view :: "db \<Rightarrow> ident \<Rightarrow> (transaction \<times> incoming_material_check list) option" where
  "incoming_view d i =
     map_option (\<lambda>t. (t, filter (\<lambda>r. v_transactionId r = i) (incomingMaterialChecks d))) (find_tx d i)"

type_synonym incoming_outcome = "(qc_reason, (transaction \<times> incoming_material_check list) option) outcome"

definition submitIncomingCheck_at ::
  "transaction \<Rightarrow> bool \<Rightarrow> ident \<Rightarrow> incoming_check_dto \<Rightarrow> ident \<Rightarrow> instant \<Rightarrow> db \<Rightarrow> incoming_outcome"
where
  "submitIncomingCheck_at tx submitted i dto userId now d =
     (if processType tx \<notin> {GBB, GSP} then (d, Inl (BadRequest QC_WrongProcess))
      else if status tx \<noteq> INCOMING_CHECK_IN_PROGRESS \<and> status tx \<noteq> INCOMING_CHECK_PENDING
        then (d, Inl (BadRequest QC_WrongState))
      else if submitted then (d, Inl (BadRequest QC_AlreadySubmitted))
      else
        let nextStatus = incomingStatus (ic_result dto)
        in case assertValidStatusTransition (status tx) nextStatus of
             Some e \<Rightarrow> (d, Inl e)
           | None \<Rightarrow>
               (case incomingCheckCommit tx i dto nextStatus userId now d of
                  Inl e \<Rightarrow> (d, Inl e)
                | Inr d' \<Rightarrow>
                    (qc_audit userId ''QC_INCOMING_RESULT'' i
                       (Some (JObj [(''result'', JStr (result_name (ic_result dto)))])) now d',
                     Inr (incoming_view d' i))))"

definition submitIncomingCheck ::
  "db \<Rightarrow> ident \<Rightarrow> incoming_check_dto \<Rightarrow> ident \<Rightarrow> jwt_user option \<Rightarrow> instant \<Rightarrow> incoming_outcome"
where
  "submitIncomingCheck d i dto userId user now =
     (case findTransactionWithAccess d i user of
        Inl e \<Rightarrow> (d, Inl e)
      | Inr tx \<Rightarrow>
          submitIncomingCheck_at tx (filter (current_row i) (incomingMaterialChecks d) \<noteq> []) i dto userId now d)"

section \<open>Completing the GBB analysis\<close>

definition analysisCompleted :: "string field \<Rightarrow> instant \<Rightarrow> transaction \<Rightarrow> transaction" where
  "analysisCompleted rem now t =
     t\<lparr>revision := revision t + 1, qcAnalysisCompleted := True, qcAnalysisCompletedAt := Some now,
       remarks := set_if_truthy rem (remarks t)\<rparr>"

definition analysisCommit :: "transaction \<Rightarrow> ident \<Rightarrow> string field \<Rightarrow> instant \<Rightarrow> db \<Rightarrow> qc_reason error + db" where
  "analysisCommit tx i rem now d =
     (let (d1, n) = claim i (\<lambda>t. status t = WAREHOUSE_IN_PROGRESS \<and> revision t = revision tx)
                      (analysisCompleted rem now) d
      in if n \<noteq> 1 then Inl (Conflict QC_ConcurrencyConflict)
         else Inr (case truthy_str rem of
                     None \<Rightarrow> d1
                   | Some s \<Rightarrow> update_open_process i (\<lambda>p. p\<lparr>wp_remarks := Some s\<rparr>) d1))"

definition completeQcAnalysis_at ::
  "transaction \<Rightarrow> ident \<Rightarrow> jwt_user \<Rightarrow> string field \<Rightarrow> instant \<Rightarrow> db \<Rightarrow>
     (qc_reason, transaction \<times> warehouse_process list \<times> string option) outcome"
where
  "completeQcAnalysis_at tx i user rem now d =
     (if processType tx = GBB \<and> ju_role user = WAREHOUSE then
        (audit (ju_id user) ''SOD_VIOLATION_BLOCKED'' ''QC'' (Some i)
           (Some (JStr ''Blocked Warehouse role from completing GBB QC analysis'')) ''FAILED'' now d,
         Inl (Forbidden QC_SegregationOfDuties))
      else if status tx \<noteq> WAREHOUSE_IN_PROGRESS \<or> processType tx \<noteq> GBB
        then (d, Inl (BadRequest QC_NotAnalysable))
      else
        (case analysisCommit tx i rem now d of
           Inl e \<Rightarrow> (d, Inl e)
         | Inr d' \<Rightarrow>
             (let d'' = qc_audit (ju_id user) ''QC_ANALYSIS_COMPLETED'' i
                    (Some (JStr (''QC analysis marked as completed for '' @ plateNumber tx @ '' by '' @ ju_email user
                      @ (case truthy_str rem of None \<Rightarrow> [] | Some s \<Rightarrow> '' | '' @ s)))) now d'
              in case find_tx d' i of
                   None \<Rightarrow> (d'', Inl (NotFound QC_NotRetrieved))
                 | Some t \<Rightarrow>
                     let procs = take 1 (newest_first v_createdAt (filter (current_row i) (warehouseProcesses d')))
                     in (d'', Inr (t, procs,
                          opt_or (truthy_str rem)
                            (opt_or (case procs of [] \<Rightarrow> None | p # _ \<Rightarrow> truthy_col (wp_remarks p))
                               (truthy_col (remarks t))))))))"

definition completeQcAnalysis ::
  "db \<Rightarrow> ident \<Rightarrow> jwt_user \<Rightarrow> string field \<Rightarrow> instant \<Rightarrow>
     (qc_reason, transaction \<times> warehouse_process list \<times> string option) outcome"
where
  "completeQcAnalysis d i user rem now =
     (case findTransactionWithAccess d i (Some user) of
        Inl e \<Rightarrow> (d, Inl e)
      | Inr tx \<Rightarrow> completeQcAnalysis_at tx i user rem now d)"

section \<open>Reading\<close>

definition qcQueue :: "db \<Rightarrow> jwt_user \<Rightarrow> qc_reason error + transaction list" where
  "qcQueue d user =
     (case getTransactionScope user of
        Inl e \<Rightarrow> Inl e
      | Inr sc \<Rightarrow> Inr (sort_key createdAt (filter (\<lambda>t. status t \<in>
            {QC_VEHICLE_PENDING, QC_VEHICLE_IN_PROGRESS, INCOMING_CHECK_PENDING, INCOMING_CHECK_IN_PROGRESS}
            \<and> in_scope sc (processType t)) (transactions d))))"

record qc_detail =
  qd_transaction :: transaction
  qd_qcVehicleChecks :: "qc_vehicle_check list"
  qd_incomingMaterialChecks :: "incoming_material_check list"
  qd_attachments :: "attachment list"

definition qcDetail :: "db \<Rightarrow> ident \<Rightarrow> jwt_user option \<Rightarrow> qc_reason error + qc_detail" where
  "qcDetail d i user =
     (case findTransactionWithAccess d i user of
        Inl e \<Rightarrow> Inl e
      | Inr tx \<Rightarrow> Inr \<lparr>qd_transaction = tx,
            qd_qcVehicleChecks = filter (current_row i) (qcVehicleChecks d),
            qd_incomingMaterialChecks = filter (current_row i) (incomingMaterialChecks d),
            qd_attachments = filter (\<lambda>a. v_transactionId a = i \<and> at_module a = ''QC'') (attachments d)\<rparr>)"

text \<open>\<open>orderBy: { qcEndAt: 'desc' }\<close>: PostgreSQL puts nulls first.\<close>

definition qcHistory ::
  "db \<Rightarrow> jwt_user \<Rightarrow> qc_reason error + (transaction \<times> qc_vehicle_check list \<times> incoming_material_check list) list"
where
  "qcHistory d user =
     (case getTransactionScope user of
        Inl e \<Rightarrow> Inl e
      | Inr sc \<Rightarrow>
          let rows = filter (\<lambda>t. status t \<in> {QC_VEHICLE_PASSED, QC_VEHICLE_REJECTED, INCOMING_CHECK_PASSED,
                       INCOMING_CHECK_REJECTED, WEIGH_OUT_DONE, COMPLETED} \<and> in_scope sc (processType t))
                       (transactions d);
              ordered = filter (\<lambda>t. qcEndAt t = None) rows @
                newest_first (\<lambda>t. val_or (qcEndAt t) 0) (filter (\<lambda>t. qcEndAt t \<noteq> None) rows)
          in Inr (map (\<lambda>t. (t, filter (current_row (tx_id t)) (qcVehicleChecks d),
                            filter (current_row (tx_id t)) (incomingMaterialChecks d))) (take 100 ordered)))"

definition qcUploadAttachment ::
  "db \<Rightarrow> ident \<Rightarrow> upload_file option \<Rightarrow> attachment_type field \<Rightarrow> string field \<Rightarrow> ident \<Rightarrow> jwt_user option \<Rightarrow> instant \<Rightarrow>
     (qc_reason, attachment) outcome"
where
  "qcUploadAttachment d i file ty desc userId user now =
     (case file of
        None \<Rightarrow> (d, Inl (BadRequest QC_FileRequired))
      | Some f \<Rightarrow>
          (case findTransactionWithAccess d i user of
             Inl e \<Rightarrow> (d, Inl e)
           | Inr tx \<Rightarrow>
               let a = \<lparr>v_id = nextId d, v_transactionId = i, v_createdAt = now, v_isCurrent = True,
                      v_supersededAt = None, v_supersededByCorrectionId = None, v_revision = 1,
                      at_attachmentLineageId = nextId d, at_module = ''QC'', at_attachmentType = (case ty of Value x \<Rightarrow> x | _ \<Rightarrow> PHOTO),
                      at_originalName = uf_originalname f, at_fileName = uf_filename f, at_filePath = uf_path f,
                      at_mimeType = uf_mimetype f, at_size = uf_size f, at_description = create_field desc,
                      at_uploadedById = Some userId, at_sha256 = None\<rparr>
               in (d\<lparr>attachments := attachments d @ [a], nextId := Suc (nextId d)\<rparr>, Inr a)))"

section \<open>Refinement\<close>

lemma qc_update_simps [simp]:
  "tx_key (qcStarted tx s now t) = tx_key t" "status (qcStarted tx s now t) = s"
  "revision (qcStarted tx s now t) = Suc (revision t)" "processType (qcStarted tx s now t) = processType t"
  "isVoided (qcStarted tx s now t) = isVoided t"
  "tx_key (vehicleChecked tx s now t) = tx_key t" "status (vehicleChecked tx s now t) = s"
  "revision (vehicleChecked tx s now t) = Suc (revision t)" "processType (vehicleChecked tx s now t) = processType t"
  "isVoided (vehicleChecked tx s now t) = isVoided t"
  "tx_key (incomingChecked tx s now t) = tx_key t" "status (incomingChecked tx s now t) = s"
  "revision (incomingChecked tx s now t) = Suc (revision t)" "processType (incomingChecked tx s now t) = processType t"
  "isVoided (incomingChecked tx s now t) = isVoided t"
  "tx_key (analysisCompleted rem now t) = tx_key t" "status (analysisCompleted rem now t) = status t"
  "revision (analysisCompleted rem now t) = Suc (revision t)"
  "processType (analysisCompleted rem now t) = processType t" "isVoided (analysisCompleted rem now t) = isVoided t"
  by (simp_all add: qcStarted_def vehicleChecked_def incomingChecked_def analysisCompleted_def tx_key_def)

lemma check_row_simps [simp]:
  "v_transactionId (legacyCheckRow tx i dto r u now d) = i" "v_isCurrent (legacyCheckRow tx i dto r u now d)"
  "v_revision (legacyCheckRow tx i dto r u now d) = next_row_revision i (qcVehicleChecks d)"
  "v_transactionId (gbjCheckRow tx vdto items m u now d) = tx_id tx" "v_isCurrent (gbjCheckRow tx vdto items m u now d)"
  "v_revision (gbjCheckRow tx vdto items m u now d) = next_row_revision (tx_id tx) (qcVehicleChecks d)"
  "v_transactionId (incomingCheckRow tx i idto u now d) = i" "v_isCurrent (incomingCheckRow tx i idto u now d)"
  "v_revision (incomingCheckRow tx i idto u now d) = next_row_revision i (incomingMaterialChecks d)"
  "v_id (incomingCheckRow tx i idto u now d) = nextId d"
  by (simp_all add: legacyCheckRow_def gbjCheckRow_def incomingCheckRow_def)

lemma startQc_commit:
  assumes "startQcCommit tx i s userId now d = Inr d'" "startQcStatus (status tx) = Some s"
    and "db_ok d" "snapshot_ok tx i d"
  shows "find_tx d i = Some tx \<and> find_tx d' i = Some (qcStarted tx s now tx) \<and> commit_step i d d'"
proof -
  obtain d1 where c: "claim i (\<lambda>t. status t = status tx \<and> revision t = revision tx) (qcStarted tx s now) d = (d1, 1)"
    and d': "d' = add_history i (Some (status tx)) s (Some userId) (Some ''QC started'') now d1"
    using assms(1) by (auto simp: startQcCommit_def split: prod.splits if_splits)
  have "truck_step (truck_for d i tx) (move s (truck_for d i tx))"
    using assms(2) truck_step.start_vehicle_qc [of "truck_for d i tx"] truck_step.start_incoming_qc [of "truck_for d i tx"]
    by (cases "status tx") auto
  then show ?thesis
    using move_commit [OF c refl d' assms(3,4)] by simp
qed

lemma startQc_at_commits:
  assumes "db_ok d" "snapshot_ok tx i d"
  shows "commits tx i d (startQc_at tx i userId now d)"
proof (cases "startQcStatus (status tx)")
  case (Some s)
  have v: "assertValidStatusTransition (status tx) s = (None :: qc_reason error option)"
    using Some by (cases "status tx") (auto simp: assert_None_iff isValidStatusTransition_def)
  show ?thesis
    unfolding startQc_at_def Some option.case v
    by (rule commits_respond_plain) (simp_all add: startQc_commit [OF _ Some assms])
qed (simp add: startQc_at_def)

text \<open>Both vehicle-check paths: claim, new check, history, log.\<close>

lemma vehicle_commit:
  assumes "claim i (\<lambda>t. status t = status tx \<and> revision t = revision tx) (vehicleChecked tx s now) d = (d1, 1)"
    and "d' = qc_audit uid a i desc now (add_history i (Some (status tx)) s u notes now (add_vehicle_check row d1))"
    and "db_ok d" "snapshot_ok tx i d"
    and "v_transactionId row = i" "v_isCurrent row" "v_revision row = next_row_revision i (qcVehicleChecks d1)"
      "v_id row = nextId d1"
    and "status tx \<in> {QC_VEHICLE_PENDING, QC_VEHICLE_IN_PROGRESS}" "s \<in> {QC_VEHICLE_PASSED, QC_VEHICLE_REJECTED}"
  shows "find_tx d i = Some tx \<and> find_tx d' i = Some (vehicleChecked tx s now tx) \<and>
    qcVehicleChecks d' = qcVehicleChecks d @ [row] \<and> commit_step i d d'"
proof -
  have "find_tx d i = Some tx \<and> (status tx = status tx \<and> revision tx = revision tx) \<and>
      find_tx d' i = Some (vehicleChecked tx s now tx) \<and> row_only d d1 \<and> commit_step i d d'"
  proof (rule claim_commit [OF assms(1) refl assms(3,4)])
    show "truck_for d' i (vehicleChecked tx s now tx) =
        (move s (truck_for d i tx))\<lparr>tk_vehicle := Suc (tk_vehicle (truck_for d i tx))\<rparr>" if "row_only d d1"
      using assms(5,6)
      by (simp add: assms(2) qc_audit_def row_only [OF that] move_def bump_def) (simp add: truck_for_def)
    show "local_to i d1 d'" unfolding assms(2) qc_audit_def
      by (intro local_back local_to_refl assms(5))
    show "revs_ok d'" if "revs_ok d1" using that assms(5,7,8) by (simp add: assms(2) qc_audit_def revs_ok_rows)
    show "truck_step (truck_for d i tx) ((move s (truck_for d i tx))\<lparr>tk_vehicle := Suc (tk_vehicle (truck_for d i tx))\<rparr>)"
      if "find_tx d i = Some tx"
    proof (rule truck_step.vehicle_result)
      have "truck_ok (truck_for d i tx)" using that assms(3) by (auto simp: db_ok_def truck_of_def)
      then show "tk_vehicle (truck_for d i tx) = 0" using assms(9) by (auto simp: truck_ok_def stage_ok_def)
    qed (use assms(9,10) in simp_all)
  qed (simp_all add: assms(2) qc_audit_def)
  moreover have "qcVehicleChecks d' = qcVehicleChecks d1 @ [row]"
    by (simp add: assms(2) qc_audit_def add_vehicle_check_def add_history_def)
  ultimately show ?thesis using row_only_tables(3) by fastforce
qed

lemma vehicleStatus_range: "vehicleStatus r \<in> {QC_VEHICLE_PASSED, QC_VEHICLE_REJECTED}"
  by (cases r) simp_all

lemma incomingStatus_range: "incomingStatus r \<in> {INCOMING_CHECK_PASSED, INCOMING_CHECK_REJECTED}"
  by (cases r) simp_all

lemma legacy_commit:
  assumes "legacyCheckCommit tx i dto result (vehicleStatus result) userId now d = Inr d'" "db_ok d" "snapshot_ok tx i d"
    and "status tx \<in> {QC_VEHICLE_PENDING, QC_VEHICLE_IN_PROGRESS}"
  shows "find_tx d i = Some tx \<and> find_tx d' i = Some (vehicleChecked tx (vehicleStatus result) now tx) \<and>
    (\<exists>row. qcVehicleChecks d' = qcVehicleChecks d @ [row] \<and> v_transactionId row = i \<and> qv_result row = Some result) \<and>
    commit_step i d d'"
proof -
  obtain d1 where c: "claim i (\<lambda>t. status t = status tx \<and> revision t = revision tx)
        (vehicleChecked tx (vehicleStatus result) now) d = (d1, 1)"
    and d': "d' = qc_audit userId ''QC_VEHICLE_RESULT'' i (Some (JObj [(''result'', JStr (result_name result))])) now
      (add_history i (Some (status tx)) (vehicleStatus result) (Some userId)
         (Some ((if processType tx = GBJ then ''Vehicle Check'' else ''Initial QC Sampling'') @ '': '' @ result_name result))
         now (add_vehicle_check (legacyCheckRow tx i dto result userId now d1) d1))"
    using assms(1) by (auto simp: legacyCheckCommit_def Let_def split: prod.splits if_splits)
  show ?thesis
    using vehicle_commit [OF c d' assms(2,3) _ _ _ _ assms(4) vehicleStatus_range] by (simp add: legacyCheckRow_def)
qed

lemma gbj_commit:
  assumes "gbjCheckCommit tx dto items m userId now d = Inr d'" "db_ok d" "snapshot_ok tx i d" "tx_id tx = i"
    and "status tx \<in> {QC_VEHICLE_PENDING, QC_VEHICLE_IN_PROGRESS}"
  shows "find_tx d i = Some tx \<and> find_tx d' i = Some (vehicleChecked tx (vehicleStatus (serverResult m)) now tx) \<and>
    (\<exists>row. qcVehicleChecks d' = qcVehicleChecks d @ [row] \<and> v_transactionId row = i \<and>
       qv_result row = Some (serverResult m) \<and> qv_decisionMode row = Some m) \<and>
    commit_step i d d'"
proof -
  obtain d1 where c: "claim i (\<lambda>t. status t = status tx \<and> revision t = revision tx)
        (vehicleChecked tx (vehicleStatus (serverResult m)) now) d = (d1, 1)"
    and d': "d' = qc_audit userId (gbjAction m) i (Some (gbjDescription tx dto items m)) now
      (add_history i (Some (status tx)) (vehicleStatus (serverResult m)) (Some userId) (Some (gbjNotes m)) now
         (add_vehicle_check (gbjCheckRow tx dto items m userId now d1) d1))"
    using assms(1,4) by (auto simp: gbjCheckCommit_def Let_def split: prod.splits if_splits)
  show ?thesis
    using vehicle_commit [OF c d' assms(2,3) _ _ _ _ assms(5) vehicleStatus_range] assms(4) by (simp add: gbjCheckRow_def)
qed

text \<open>What a vehicle check that succeeds did.\<close>

definition vehicle_done :: "transaction \<Rightarrow> ident \<Rightarrow> vehicle_check_dto \<Rightarrow> instant \<Rightarrow> db \<Rightarrow> db \<Rightarrow> bool" where
  "vehicle_done tx i dto now d d' \<longleftrightarrow>
     find_tx d i = Some tx \<and> status tx \<in> {QC_VEHICLE_PENDING, QC_VEHICLE_IN_PROGRESS} \<and> commit_step i d d' \<and>
     (\<exists>r row. find_tx d' i = Some (vehicleChecked tx (vehicleStatus r) now tx) \<and>
        qcVehicleChecks d' = qcVehicleChecks d @ [row] \<and> v_transactionId row = i \<and> qv_result row = Some r \<and>
        (if processType tx = GBJ
         then \<exists>items m. validateChecklist (vc_checklistItems dto) = Inr items \<and>
           gbjDecision (vc_decisionMode dto) (vc_result dto) (vc_deviationReason dto) items = Inr m \<and>
           r = serverResult m \<and> qv_decisionMode row = Some m
         else r = vc_result dto))"

lemma submitGbj_result:
  assumes "submitGbjVehicleCheck tx dto userId now d = (d', res)" "db_ok d" "snapshot_ok tx i d" "tx_id tx = i"
    and "status tx \<in> {QC_VEHICLE_PENDING, QC_VEHICLE_IN_PROGRESS}" "processType tx = GBJ"
  shows "case res of Inl e \<Rightarrow> d' = d | Inr v \<Rightarrow> vehicle_done tx i dto now d d'"
proof (cases "\<exists>items m d1. validateChecklist (vc_checklistItems dto) = Inr items \<and>
    gbjDecision (vc_decisionMode dto) (vc_result dto) (vc_deviationReason dto) items = Inr m \<and>
    gbjCheckCommit tx dto items m userId now d = Inr d1")
  case True
  then obtain items m d1 where s: "validateChecklist (vc_checklistItems dto) = Inr items"
    "gbjDecision (vc_decisionMode dto) (vc_result dto) (vc_deviationReason dto) items = Inr m"
    and c: "gbjCheckCommit tx dto items m userId now d = Inr d1" by blast
  have "assertValidStatusTransition (status tx) (vehicleStatus (serverResult m)) = (None :: qc_reason error option)"
    using assms(5) by (cases m) (auto simp: assert_None_iff isValidStatusTransition_def)
  then have "d' = d1" "\<exists>v. res = Inr v" using assms(1) by (auto simp: submitGbjVehicleCheck_def s c)
  then show ?thesis
    using gbj_commit [OF c assms(2,3,4,5)] s assms(5,6) unfolding vehicle_done_def by auto
next
  case False
  then show ?thesis using assms(1)
    by (auto simp: submitGbjVehicleCheck_def split: sum.splits option.splits)
qed

lemma submitVehicleCheck_at_result:
  assumes "submitVehicleCheck_at tx sub i dto userId now d = (d', res)" "db_ok d" "snapshot_ok tx i d" "tx_id tx = i"
  shows "case res of Inl e \<Rightarrow> d' = d | Inr v \<Rightarrow> vehicle_done tx i dto now d d'"
proof (cases "status tx \<in> {QC_VEHICLE_PENDING, QC_VEHICLE_IN_PROGRESS} \<and> \<not> sub")
  case True
  show ?thesis
  proof (cases "processType tx = GBJ")
    case gbj: True
    then have "submitGbjVehicleCheck tx dto userId now d = (d', res)"
      using assms(1) True by (auto simp: submitVehicleCheck_at_def)
    then show ?thesis using submitGbj_result assms(2-4) True gbj by blast
  next
    case False
    then have p: "processType tx = GBB \<or> processType tx = GSP" by (cases "processType tx") auto
    have v: "assertValidStatusTransition (status tx) (vehicleStatus (vc_result dto)) = (None :: qc_reason error option)"
      using True by (cases "vc_result dto") (auto simp: assert_None_iff isValidStatusTransition_def)
    show ?thesis
    proof (cases "legacyCheckCommit tx i dto (vc_result dto) (vehicleStatus (vc_result dto)) userId now d")
      case (Inl e)
      then show ?thesis using assms(1) True p by (auto simp: submitVehicleCheck_at_def v split: if_splits)
    next
      case (Inr d1)
      then have "d' = d1" "\<exists>v. res = Inr v" using assms(1) True p
        by (auto simp: submitVehicleCheck_at_def v split: if_splits)
      then show ?thesis
        using legacy_commit [OF Inr assms(2,3)] True False unfolding vehicle_done_def by auto
    qed
  qed
next
  case False
  then show ?thesis using assms(1) by (auto simp: submitVehicleCheck_at_def split: if_splits)
qed

lemma submitVehicleCheck_at_commits:
  assumes "db_ok d" "snapshot_ok tx i d" "tx_id tx = i"
  shows "commits tx i d (submitVehicleCheck_at tx sub i dto userId now d)"
proof -
  obtain d' res where r: "submitVehicleCheck_at tx sub i dto userId now d = (d', res)" by fastforce
  show ?thesis
    using submitVehicleCheck_at_result [OF r assms] by (cases res) (auto simp: r vehicle_done_def)
qed

lemma incoming_commit:
  assumes "incomingCheckCommit tx i dto (incomingStatus (ic_result dto)) userId now d = Inr d'" "db_ok d" "snapshot_ok tx i d"
    and "status tx \<in> {INCOMING_CHECK_PENDING, INCOMING_CHECK_IN_PROGRESS}" "processType tx \<noteq> GBJ"
  shows "find_tx d i = Some tx \<and> find_tx d' i = Some (incomingChecked tx (incomingStatus (ic_result dto)) now tx) \<and>
    (\<exists>row. incomingMaterialChecks d' = incomingMaterialChecks d @ [row] \<and> v_transactionId row = i \<and>
       im_result row = Some (ic_result dto)) \<and> commit_step i d d'"
proof -
  let ?row = "incomingCheckRow tx i dto userId now d"
  let ?f = "incomingChecked tx (incomingStatus (ic_result dto)) now"
  obtain d2 where none: "count_where (current_row i) (incomingMaterialChecks d) = 0"
    and c: "claim i (\<lambda>t. status t = status tx \<and> revision t = revision tx) ?f (add_incoming_check ?row d) = (d2, 1)"
    and d': "d' = add_history i (Some (status tx)) (incomingStatus (ic_result dto)) (Some userId)
      (Some (''Incoming Check: '' @ result_name (ic_result dto))) now d2"
    using assms(1) by (auto simp: incomingCheckCommit_def Let_def split: prod.splits if_splits)
  have "find_tx d i = Some tx \<and> (status tx = status tx \<and> revision tx = revision tx) \<and>
      find_tx d' i = Some (?f tx) \<and> row_only (add_incoming_check ?row d) d2 \<and> commit_step i d d'"
  proof (rule claim_commit [OF c refl assms(2,3)])
    show "truck_for d' i (?f tx) = (move (incomingStatus (ic_result dto)) (truck_for d i tx))
        \<lparr>tk_incoming := Suc (tk_incoming (truck_for d i tx))\<rparr>" if "row_only (add_incoming_check ?row d) d2"
      by (simp add: d' row_only [OF that] move_def bump_def) (simp add: truck_for_def)
    show "local_to i d (add_incoming_check ?row d)" by (rule local_to_rows) simp
    show "local_to i d2 d'" unfolding d' by (rule local_to_history)
    show "revs_ok (add_incoming_check ?row d)" if "revs_ok d" using that by (simp add: revs_ok_rows)
    show "truck_step (truck_for d i tx) ((move (incomingStatus (ic_result dto)) (truck_for d i tx))
        \<lparr>tk_incoming := Suc (tk_incoming (truck_for d i tx))\<rparr>)"
      using assms(4,5) none incomingStatus_range [of "ic_result dto"]
      by (intro truck_step.incoming_result) (simp_all add: truck_for_def)
  qed (simp_all add: d')
  moreover have "incomingMaterialChecks d' = incomingMaterialChecks (add_incoming_check ?row d)"
    if "row_only (add_incoming_check ?row d) d2"
    using row_only_tables(5) [OF that] by (simp add: d')
  ultimately show ?thesis by (auto simp: add_incoming_check_def incomingCheckRow_def)
qed

lemma submitIncomingCheck_at_result:
  assumes "submitIncomingCheck_at tx sub i dto userId now d = (d', res)" "db_ok d" "snapshot_ok tx i d"
  shows "case res of Inl e \<Rightarrow> d' = d
    | Inr v \<Rightarrow> \<exists>d1. incomingCheckCommit tx i dto (incomingStatus (ic_result dto)) userId now d = Inr d1 \<and>
        same_data d1 d' \<and> processType tx \<noteq> GBJ \<and> status tx \<in> {INCOMING_CHECK_PENDING, INCOMING_CHECK_IN_PROGRESS}"
  using assms(1)
  by (auto simp: submitIncomingCheck_at_def Let_def split: if_splits option.splits sum.splits)

lemma submitIncomingCheck_at_commits:
  assumes "db_ok d" "snapshot_ok tx i d"
  shows "commits tx i d (submitIncomingCheck_at tx sub i dto userId now d)"
proof -
  obtain d' res where r: "submitIncomingCheck_at tx sub i dto userId now d = (d', res)" by fastforce
  note res = submitIncomingCheck_at_result [OF r assms]
  show ?thesis
  proof (cases res)
    case (Inr v)
    then obtain d1 where "incomingCheckCommit tx i dto (incomingStatus (ic_result dto)) userId now d = Inr d1"
        "same_data d1 d'" "processType tx \<noteq> GBJ" "status tx \<in> {INCOMING_CHECK_PENDING, INCOMING_CHECK_IN_PROGRESS}"
      using res by auto
    then show ?thesis using incoming_commit [OF _ assms] commit_step_quiet by (simp add: r Inr) blast
  qed (use res in \<open>simp add: r\<close>)
qed

lemma analysis_commit:
  assumes "analysisCommit tx i rem now d = Inr d'" "db_ok d" "snapshot_ok tx i d" "processType tx = GBB"
  shows "find_tx d i = Some tx \<and> status tx = WAREHOUSE_IN_PROGRESS \<and>
    find_tx d' i = Some (analysisCompleted rem now tx) \<and> commit_step i d d'"
proof -
  let ?g = "\<lambda>t. status t = WAREHOUSE_IN_PROGRESS \<and> revision t = revision tx"
  let ?f = "analysisCompleted rem now"
  obtain d1 where c: "claim i ?g ?f d = (d1, 1)"
    and d': "d' = d1 \<or> (\<exists>s. d' = update_open_process i (\<lambda>p. p\<lparr>wp_remarks := Some s\<rparr>) d1)"
    using assms(1) by (auto simp: analysisCommit_def split: prod.splits if_splits option.splits)
  have same: "count_where (open_process i) (update_found (open_process i) (\<lambda>p. p\<lparr>wp_remarks := Some s\<rparr>) t)
      = count_where (open_process i) t" for s t
    by (rule count_update_found_same) (simp add: open_process_def)
  have k: "truck_for d' i t = truck_for d1 i t" for t
    using d' by (auto simp: truck_for_open_process same) (simp_all add: truck_for_def)
  have "find_tx d i = Some tx \<and> ?g tx \<and> find_tx d' i = Some (?f tx) \<and> row_only d d1 \<and> commit_step i d d'"
  proof (rule claim_commit [OF c refl assms(2,3)])
    show "truck_for d' i (?f tx) = bump (truck_for d i tx)" if "row_only d d1"
      by (simp add: k row_only [OF that] bump_def) (simp add: truck_for_def)
    show "local_to i d1 d'" using d' by (auto intro: local_to_open_process)
    show "revs_ok d'" if "revs_ok d1" using d' that by (auto simp: revs_ok_open_process)
    show "truck_step (truck_for d i tx) (bump (truck_for d i tx))" if "?g tx"
      using that assms(4) by (intro truck_step.analysis) simp_all
  qed (use d' in auto)
  then show ?thesis by blast
qed

lemma completeQcAnalysis_at_result:
  assumes "completeQcAnalysis_at tx i user rem now d = (d', res)" "db_ok d" "snapshot_ok tx i d"
  shows "case res of Inl e \<Rightarrow> same_data d d'
    | Inr v \<Rightarrow> \<exists>d1. analysisCommit tx i rem now d = Inr d1 \<and> same_data d1 d' \<and> processType tx = GBB \<and>
        ju_role user \<noteq> WAREHOUSE"
proof (cases "analysisCommit tx i rem now d")
  case (Inl e)
  then show ?thesis using assms(1) by (auto simp: completeQcAnalysis_at_def split: if_splits)
next
  case (Inr d1)
  show ?thesis
  proof (cases "processType tx = GBB")
    case True
    then have "\<exists>t. find_tx d1 i = Some t" using analysis_commit [OF Inr assms(2,3)] by blast
    then show ?thesis using assms(1) Inr
      by (auto simp: completeQcAnalysis_at_def Let_def split: if_splits)
  next
    case False
    then show ?thesis using assms(1) by (auto simp: completeQcAnalysis_at_def split: if_splits)
  qed
qed

lemma completeQcAnalysis_at_commits:
  assumes "db_ok d" "snapshot_ok tx i d"
  shows "commits tx i d (completeQcAnalysis_at tx i user rem now d)"
proof -
  obtain d' res where r: "completeQcAnalysis_at tx i user rem now d = (d', res)" by fastforce
  note res = completeQcAnalysis_at_result [OF r assms]
  show ?thesis
  proof (cases res)
    case (Inr v)
    then obtain d1 where "analysisCommit tx i rem now d = Inr d1" "same_data d1 d'" "processType tx = GBB"
      using res by auto
    then show ?thesis using analysis_commit [OF _ assms] commit_step_quiet by (simp add: r Inr) blast
  qed (use res in \<open>simp add: r\<close>)
qed

section \<open>Properties\<close>

lemma access_Inr:
  "findTransactionWithAccess d i user = Inr tx \<Longrightarrow>
     find_tx d i = Some tx \<and> tx_id tx = i \<and> snapshot_ok tx i d \<and>
     (\<forall>u. user = Some u \<longrightarrow> (ju_role u = WAREHOUSE \<or> ju_role u = QC \<longrightarrow> processType tx \<in> set (ju_warehouseAccess u)))"
  by (auto simp: findTransactionWithAccess_def snapshot_current assertProcessAccess_None_iff
      dest: find_tx_SomeD split: option.splits)

text \<open>
  C9. A vehicle check that is accepted belongs to a transaction in the user's scope whose vehicle
  check was due, commits one step of the workflow and adds one current check with the result. A
  GBJ truck is passed only if its submitted checklist is valid and pest, haram and contaminant
  items are OK, with the result computed by the server; for GBB and GSP the submitted result
  counts. A refused check changes nothing at all.
\<close>
theorem submitVehicleCheck_correct:
  assumes "db_ok d"
  shows "case submitVehicleCheck d i dto userId user now of
      (d', Inl e) \<Rightarrow> d' = d
    | (d', Inr v) \<Rightarrow> \<exists>tx t row. find_tx d i = Some tx \<and> commit_step i d d' \<and> find_tx d' i = Some t \<and>
        (\<forall>u. user = Some u \<and> ju_role u = QC \<longrightarrow> processType tx \<in> set (ju_warehouseAccess u)) \<and>
        status tx \<in> {QC_VEHICLE_PENDING, QC_VEHICLE_IN_PROGRESS} \<and>
        qcVehicleChecks d' = qcVehicleChecks d @ [row] \<and>
        qv_result row = Some (if status t = QC_VEHICLE_PASSED then QC_PASS else QC_REJECT) \<and>
        (processType tx \<noteq> GBJ \<longrightarrow> qv_result row = Some (vc_result dto)) \<and>
        (processType tx = GBJ \<and> status t = QC_VEHICLE_PASSED \<longrightarrow>
           (\<exists>items. validateChecklist (vc_checklistItems dto) = Inr items \<and>
              fst (items ! 0) \<and> fst (items ! 1) \<and> fst (items ! 3)))"
proof -
  obtain d' res where r: "submitVehicleCheck d i dto userId user now = (d', res)" by fastforce
  show ?thesis
  proof (cases "findTransactionWithAccess d i user")
    case (Inl e)
    then show ?thesis by (simp add: submitVehicleCheck_def)
  next
    case (Inr tx)
    note acc = access_Inr [OF Inr]
    have at: "submitVehicleCheck_at tx (filter (current_row i) (qcVehicleChecks d) \<noteq> []) i dto userId now d = (d', res)"
      using r by (simp add: submitVehicleCheck_def Inr)
    have res: "case res of Inl e \<Rightarrow> d' = d | Inr v \<Rightarrow> vehicle_done tx i dto now d d'"
      using submitVehicleCheck_at_result [OF at assms] acc by blast
    show ?thesis
    proof (cases res)
      case (Inr v)
      then obtain q row where d: "status tx \<in> {QC_VEHICLE_PENDING, QC_VEHICLE_IN_PROGRESS}" "commit_step i d d'"
          "find_tx d' i = Some (vehicleChecked tx (vehicleStatus q) now tx)"
          "qcVehicleChecks d' = qcVehicleChecks d @ [row]" "qv_result row = Some q"
        and gbj: "if processType tx = GBJ
         then \<exists>items m. validateChecklist (vc_checklistItems dto) = Inr items \<and>
           gbjDecision (vc_decisionMode dto) (vc_result dto) (vc_deviationReason dto) items = Inr m \<and>
           q = serverResult m \<and> qv_decisionMode row = Some m
         else q = vc_result dto"
        using res by (auto simp: vehicle_done_def)
      have crit: "\<exists>items. validateChecklist (vc_checklistItems dto) = Inr items \<and>
          fst (items ! 0) \<and> fst (items ! 1) \<and> fst (items ! 3)" if p: "processType tx = GBJ" and pass: "q = QC_PASS"
      proof -
        obtain items m where v: "validateChecklist (vc_checklistItems dto) = Inr items"
            "gbjDecision (vc_decisionMode dto) (vc_result dto) (vc_deviationReason dto) items = Inr m" "q = serverResult m"
          using gbj p by auto
        show ?thesis
          using checklist_critical [OF v(1,2)] v pass by auto
      qed
      show ?thesis
        unfolding r Inr prod.case sum.case
        using d acc gbj crit by (cases q) auto
    qed (use res in \<open>simp add: r\<close>)
  qed
qed

text \<open>
  Starting an inspection succeeds exactly for a transaction in the user's scope that waits for
  its vehicle check or its incoming check, and moves it to the corresponding status in progress;
  the first start time is kept.
\<close>
lemma startQc_correct:
  assumes "db_ok d" and "findTransactionWithAccess d i user = Inr tx"
  shows "if status tx \<in> {QC_VEHICLE_PENDING, INCOMING_CHECK_PENDING}
    then \<exists>d' t. startQc d i userId user now = (d', Inr (Some t)) \<and> commit_step i d d' \<and> find_tx d' i = Some t \<and>
      (if status tx = QC_VEHICLE_PENDING
       then status t = QC_VEHICLE_IN_PROGRESS \<and> qcStartAt t = Some (val_or (qcStartAt tx) now)
       else status t = INCOMING_CHECK_IN_PROGRESS \<and> incomingQcStartAt t = Some (val_or (incomingQcStartAt tx) now))
    else startQc d i userId user now = (d, Inl (BadRequest QC_NotPending))"
proof (cases "startQcStatus (status tx)")
  case None
  then show ?thesis
    by (cases "status tx") (auto simp: startQc_def assms(2) startQc_at_def)
next
  case (Some s)
  note acc = access_Inr [OF assms(2)]
  have pend: "status tx = QC_VEHICLE_PENDING \<and> s = QC_VEHICLE_IN_PROGRESS \<or>
      status tx = INCOMING_CHECK_PENDING \<and> s = INCOMING_CHECK_IN_PROGRESS"
    using Some by (cases "status tx") auto
  have v: "assertValidStatusTransition (status tx) s = (None :: qc_reason error option)"
    using pend by (auto simp: assert_None_iff isValidStatusTransition_def)
  have "snd (claim i (\<lambda>t. status t = status tx \<and> revision t = revision tx) (qcStarted tx s now) d) = 1"
    using acc assms(1) by (subst claim_count) (auto simp: db_ok_def)
  then obtain d1 where c: "startQcCommit tx i s userId now d = Inr d1"
    by (simp add: startQcCommit_def case_prod_unfold)
  note com = startQc_commit [OF c Some assms(1)]
  have "startQc d i userId user now = (qc_audit userId ''QC_START'' i None now d1, Inr (find_tx d1 i))"
    by (simp add: startQc_def assms(2) startQc_at_def Some v c)
  moreover have "commit_step i d (qc_audit userId ''QC_START'' i None now d1)"
    using com acc by (auto intro: commit_step_quiet)
  ultimately show ?thesis
    using com acc pend by (auto simp: qcStarted_def qc_audit_def)
qed

text \<open>
  An incoming check that is accepted belongs to a GBB or GSP transaction in the user's scope
  that waits for it, commits one step to INCOMING_CHECK_PASSED or INCOMING_CHECK_REJECTED as the
  inspector decided, and adds the one current check; otherwise only the log can change.
\<close>
lemma submitIncomingCheck_correct:
  assumes "db_ok d"
  shows "case submitIncomingCheck d i dto userId user now of
      (d', Inl e) \<Rightarrow> d' = d
    | (d', Inr v) \<Rightarrow> \<exists>tx t row. find_tx d i = Some tx \<and> commit_step i d d' \<and> find_tx d' i = Some t \<and>
        (\<forall>u. user = Some u \<and> ju_role u = QC \<longrightarrow> processType tx \<in> set (ju_warehouseAccess u)) \<and>
        processType tx \<in> {GBB, GSP} \<and> status tx \<in> {INCOMING_CHECK_PENDING, INCOMING_CHECK_IN_PROGRESS} \<and>
        status t = (if ic_result dto = QC_PASS then INCOMING_CHECK_PASSED else INCOMING_CHECK_REJECTED) \<and>
        incomingMaterialChecks d' = incomingMaterialChecks d @ [row] \<and> im_result row = Some (ic_result dto) \<and>
        \<not> (\<exists>r \<in> set (incomingMaterialChecks d). current_row i r)"
proof -
  obtain d' res where r: "submitIncomingCheck d i dto userId user now = (d', res)" by fastforce
  show ?thesis
  proof (cases "findTransactionWithAccess d i user")
    case (Inl e)
    then show ?thesis by (simp add: submitIncomingCheck_def)
  next
    case (Inr tx)
    note acc = access_Inr [OF Inr]
    have at: "submitIncomingCheck_at tx (filter (current_row i) (incomingMaterialChecks d) \<noteq> []) i dto userId now d = (d', res)"
      using r by (simp add: submitIncomingCheck_def Inr)
    have res: "case res of Inl e \<Rightarrow> d' = d
      | Inr v \<Rightarrow> \<exists>d1. incomingCheckCommit tx i dto (incomingStatus (ic_result dto)) userId now d = Inr d1 \<and>
          same_data d1 d' \<and> processType tx \<noteq> GBJ \<and> status tx \<in> {INCOMING_CHECK_PENDING, INCOMING_CHECK_IN_PROGRESS}"
      using submitIncomingCheck_at_result [OF at assms] acc by blast
    show ?thesis
    proof (cases res)
      case (Inr v)
      then obtain d1 where c: "incomingCheckCommit tx i dto (incomingStatus (ic_result dto)) userId now d = Inr d1"
          and same: "same_data d1 d'" and p: "processType tx \<noteq> GBJ"
          and st: "status tx \<in> {INCOMING_CHECK_PENDING, INCOMING_CHECK_IN_PROGRESS}"
        using res by auto
      have com: "find_tx d1 i = Some (incomingChecked tx (incomingStatus (ic_result dto)) now tx)" "commit_step i d d1"
          "\<exists>row. incomingMaterialChecks d1 = incomingMaterialChecks d @ [row] \<and> im_result row = Some (ic_result dto)"
        using incoming_commit [OF c assms _ st p] acc by blast+
      have "\<not> (\<exists>r \<in> set (incomingMaterialChecks d). current_row i r)"
        using c by (auto simp: incomingCheckCommit_def count_where_0_iff split: if_splits)
      moreover have "find_tx d' i = find_tx d1 i" "incomingMaterialChecks d' = incomingMaterialChecks d1"
        using same_data_views(1) [OF same] same_data_untouched [OF same] by (simp_all add: untouched_def)
      moreover have "commit_step i d d'" using com(2) same by (rule commit_step_quiet)
      moreover have "processType tx \<in> {GBB, GSP}" using p by (cases "processType tx") auto
      ultimately show ?thesis
        unfolding r Inr prod.case sum.case
        using com(1,3) st acc by (cases "ic_result dto") auto
    qed (use res in \<open>simp add: r\<close>)
  qed
qed

text \<open>
  C27. Segregation of duties: whoever completes the QC analysis of a GBB transaction is not of the
  WAREHOUSE role, the transaction is GBB and in the warehouse, and its status does not change; a
  WAREHOUSE user is refused with 403 and leaves one FAILED log row.
\<close>
theorem completeQcAnalysis_segregation:
  assumes "db_ok d"
  shows "case completeQcAnalysis d i user rem now of
      (d', Inl e) \<Rightarrow> same_data d d' \<and> (ju_role user = WAREHOUSE \<and> GBB \<in> set (ju_warehouseAccess user) \<and>
        (\<exists>tx. find_tx d i = Some tx \<and> processType tx = GBB) \<longrightarrow>
          e = Forbidden QC_SegregationOfDuties \<and>
          (\<exists>al. activityLogs d' = activityLogs d @ [al] \<and> al_status al = ''FAILED''))
    | (d', Inr v) \<Rightarrow> ju_role user \<noteq> WAREHOUSE \<and> (\<exists>tx t. find_tx d i = Some tx \<and> processType tx = GBB \<and>
        status tx = WAREHOUSE_IN_PROGRESS \<and> commit_step i d d' \<and> find_tx d' i = Some t \<and>
        status t = WAREHOUSE_IN_PROGRESS \<and> qcAnalysisCompleted t)"
proof -
  obtain d' res where r: "completeQcAnalysis d i user rem now = (d', res)" by fastforce
  show ?thesis
  proof (cases "findTransactionWithAccess d i (Some user)")
    case (Inl e)
    then show ?thesis
      by (auto simp: completeQcAnalysis_def findTransactionWithAccess_def assertProcessAccess_def
          split: option.splits if_splits)
  next
    case (Inr tx)
    note acc = access_Inr [OF Inr]
    have at: "completeQcAnalysis_at tx i user rem now d = (d', res)" using r by (simp add: completeQcAnalysis_def Inr)
    show ?thesis
    proof (cases "processType tx = GBB \<and> ju_role user = WAREHOUSE")
      case True
      then show ?thesis
        using at acc by (auto simp: r completeQcAnalysis_at_def audit_def logAction_def Let_def same_data_def)
    next
      case False
      have res: "case res of Inl e \<Rightarrow> same_data d d'
        | Inr v \<Rightarrow> \<exists>d1. analysisCommit tx i rem now d = Inr d1 \<and> same_data d1 d' \<and> processType tx = GBB \<and>
            ju_role user \<noteq> WAREHOUSE"
        using completeQcAnalysis_at_result [OF at assms] acc by blast
      show ?thesis
      proof (cases res)
        case (Inr v)
        then obtain d1 where c: "analysisCommit tx i rem now d = Inr d1" and same: "same_data d1 d'"
            and p: "processType tx = GBB" "ju_role user \<noteq> WAREHOUSE"
          using res by auto
        have com: "status tx = WAREHOUSE_IN_PROGRESS" "find_tx d1 i = Some (analysisCompleted rem now tx)" "commit_step i d d1"
          using analysis_commit [OF c assms _ p(1)] acc by blast+
        have "find_tx d' i = Some (analysisCompleted rem now tx)" using same_data_views(1) [OF same] com(2) by simp
        moreover have "commit_step i d d'" using com(3) same by (rule commit_step_quiet)
        ultimately show ?thesis
          unfolding r Inr prod.case sum.case
          using com(1) p acc by (auto simp: analysisCompleted_def)
      qed (use res False acc in \<open>auto simp: r\<close>)
    qed
  qed
qed

end
