(* ===== verification/Gms_Warehouse.thy ===== *)
theory Gms_Warehouse
  imports Gms_Commit Gms_Scope Gms_Json
begin

text \<open>
  The warehouse (warehouse/warehouse.service.ts): start and completion of loading or unloading, the
  incoming check submitted through the warehouse, and the read endpoints. \<open>nt\<close> is the text of a
  number, which only enters the remarks of a delivery checklist.
\<close>

section \<open>Requests, reasons and shared helpers\<close>

datatype wh_reason =
    WH_NotFound
  | WH_NoScope
  | WH_AccessDenied
  | WH_Final transaction_status
  | WH_AlreadyStarted
  | WH_NotPassed transaction_status
  | WH_StartConflict
  | WH_NothingMeasured
  | WH_NotInProgress transaction_status
  | WH_AlreadyCompleted
  | WH_ConcurrencyConflict
  | WH_WrongProcess
  | WH_SegregationOfDuties
  | WH_NotAllowedStatus transaction_status
  | WH_NotRetrieved
  | WH_FileRequired

record start_dto =
  sd_suratJalanNumber :: "string field"
  sd_poNumber :: "string field"
  sd_remarks :: "string field"

record complete_dto =
  cd_actualWeight :: "num field"
  cd_actualQuantity :: "int field"
  cd_unit :: "warehouse_unit field"
  cd_palletCount :: "int field"
  cd_bagCount :: "int field"
  cd_rollCount :: "int field"
  cd_condition :: "warehouse_condition field"
  cd_remarks :: "string field"
  cd_suratJalanNumber :: "string field"
  cd_deliveryChecklist :: "jsv field"

definition wh_audit :: "jwt_user \<Rightarrow> string \<Rightarrow> ident option \<Rightarrow> jsv \<Rightarrow> instant \<Rightarrow> db \<Rightarrow> db" where
  "wh_audit user action ref desc now = audit (ju_id user) action ''WAREHOUSE'' ref (Some desc) ''SUCCESS'' now"

lemma same_data_wh_audit [simp]: "same_data d (wh_audit user a r desc now d)"
  by (simp add: wh_audit_def)

section \<open>Start\<close>

definition startRefusal ::
  "transaction \<Rightarrow> ident \<Rightarrow> jwt_user \<Rightarrow> instant \<Rightarrow> db \<Rightarrow> (db \<times> wh_reason error) option"
where
  "startRefusal tx i user now d =
     (if processType tx \<notin> set (getWarehouseAccess d user) then
        Some (wh_audit user ''WAREHOUSE_ACCESS_DENIED'' (Some i)
                (JStr (''User '' @ ju_email user @
                  '' attempted to start warehouse for unauthorized processType '' @
                  process_name (processType tx))) now d,
              Forbidden WH_AccessDenied)
      else if status tx = CANCELLED \<or> status tx = COMPLETED then
        Some (wh_audit user ''WAREHOUSE_FLOW_REJECTED'' (Some i)
                (JStr (''Warehouse start rejected: Transaction is already '' @ status_name (status tx))) now d,
              BadRequest (WH_Final (status tx)))
      else if status tx = WAREHOUSE_IN_PROGRESS then
        Some (wh_audit user ''WAREHOUSE_DUPLICATE_REJECTED'' (Some i)
                (JStr ''Warehouse start rejected: Transaction already started warehouse process'') now d,
              Conflict WH_AlreadyStarted)
      else if status tx \<noteq> QC_VEHICLE_PASSED then
        Some (wh_audit user ''WAREHOUSE_FLOW_REJECTED'' (Some i)
                (JStr (''Warehouse start rejected: Current status is '' @ status_name (status tx) @
                  '', expected '' @ status_name QC_VEHICLE_PASSED)) now d,
              BadRequest (WH_NotPassed (status tx)))
      else None)"

definition warehouseStarted :: "transaction \<Rightarrow> start_dto \<Rightarrow> jwt_user \<Rightarrow> instant \<Rightarrow> transaction \<Rightarrow> transaction" where
  "warehouseStarted tx dto user now t =
     t\<lparr>revision := revision t + 1, status := WAREHOUSE_IN_PROGRESS,
       warehouseStartAt := Some (val_or (warehouseStartAt tx) now), warehouseStartById := Some (ju_id user),
       suratJalanNumber := set_if_truthy (sd_suratJalanNumber dto) (suratJalanNumber t),
       poNumber := set_if_truthy (sd_poNumber dto) (poNumber t)\<rparr>"

definition startedProcess ::
  "transaction \<Rightarrow> ident \<Rightarrow> nat \<Rightarrow> start_dto \<Rightarrow> jwt_user \<Rightarrow> instant \<Rightarrow> db \<Rightarrow> warehouse_process"
where
  "startedProcess tx i rv dto user now d =
     \<lparr>v_id = nextId d, v_transactionId = i, v_createdAt = now, v_isCurrent = True, v_supersededAt = None,
      v_supersededByCorrectionId = None, v_revision = rv, wp_processType = processType tx, wp_startAt = Some now,
      wp_endAt = None, wp_startById = Some (ju_id user), wp_endById = None, wp_actualWeight = None,
      wp_actualQuantity = None, wp_unit = None, wp_palletCount = None, wp_bagCount = None, wp_rollCount = None,
      wp_condition = None, wp_remarks = truthy_str (sd_remarks dto), wp_checklistItems = None\<rparr>"

definition startCommit ::
  "transaction \<Rightarrow> ident \<Rightarrow> start_dto \<Rightarrow> jwt_user \<Rightarrow> instant \<Rightarrow> db \<Rightarrow> wh_reason error + db"
where
  "startCommit tx i dto user now d =
     (let nextRevision = next_row_revision i (warehouseProcesses d);
          (d1, n) = claim i (\<lambda>t. status t = QC_VEHICLE_PASSED \<and> revision t = revision tx)
                      (warehouseStarted tx dto user now) d
      in if n \<noteq> 1 then Inl (Conflict WH_StartConflict)
         else Inr (add_history i (Some (status tx)) WAREHOUSE_IN_PROGRESS (Some (ju_id user))
                     (Some (str_or (sd_remarks dto) ''Warehouse process started'')) now
                     (add_process (startedProcess tx i nextRevision dto user now d1) d1)))"

record warehouse_view =
  whv_transaction :: transaction
  whv_by :: "(ident \<times> string \<times> role) option"

definition startWarehouse_at ::
  "transaction \<Rightarrow> ident \<Rightarrow> start_dto \<Rightarrow> jwt_user \<Rightarrow> instant \<Rightarrow> db \<Rightarrow> (wh_reason, warehouse_view) outcome"
where
  "startWarehouse_at tx i dto user now d =
     (case startRefusal tx i user now d of
        Some (d', e) \<Rightarrow> (d', Inl e)
      | None \<Rightarrow>
          (case assertValidStatusTransition (status tx) WAREHOUSE_IN_PROGRESS of
             Some e \<Rightarrow> (d, Inl e)
           | None \<Rightarrow>
               (case startCommit tx i dto user now d of
                  Inl e \<Rightarrow> (d, Inl e)
                | Inr d' \<Rightarrow>
                    (case find_tx d' i of
                       None \<Rightarrow> (d', Inl (NotFound WH_NotRetrieved))
                     | Some t \<Rightarrow>
                         (wh_audit user ''WAREHOUSE_START'' (Some i)
                            (JObj (json_str ''remarks'' (sd_remarks dto))) now d',
                          Inr \<lparr>whv_transaction = t, whv_by = user_ref d' (warehouseStartById t)\<rparr>)))))"

definition startWarehouse ::
  "db \<Rightarrow> ident \<Rightarrow> start_dto \<Rightarrow> jwt_user \<Rightarrow> instant \<Rightarrow> (wh_reason, warehouse_view) outcome"
where
  "startWarehouse d i dto user now =
     (case find_tx d i of
        None \<Rightarrow> (d, Inl (NotFound WH_NotFound))
      | Some tx \<Rightarrow> startWarehouse_at tx i dto user now d)"

section \<open>Completion\<close>

definition completeRefusal ::
  "transaction \<Rightarrow> ident \<Rightarrow> jwt_user \<Rightarrow> instant \<Rightarrow> db \<Rightarrow> (db \<times> wh_reason error) option"
where
  "completeRefusal tx i user now d =
     (if processType tx \<notin> set (getWarehouseAccess d user) then
        Some (wh_audit user ''WAREHOUSE_ACCESS_DENIED'' (Some i)
                (JStr (''User '' @ ju_email user @
                  '' attempted to complete warehouse for unauthorized processType '' @
                  process_name (processType tx))) now d,
              Forbidden WH_AccessDenied)
      else if status tx = CANCELLED \<or> status tx = COMPLETED then
        Some (wh_audit user ''WAREHOUSE_FLOW_REJECTED'' (Some i)
                (JStr (''Warehouse complete rejected: Transaction is already '' @ status_name (status tx))) now d,
              BadRequest (WH_Final (status tx)))
      else if status tx \<noteq> WAREHOUSE_IN_PROGRESS then
        Some (wh_audit user ''WAREHOUSE_FLOW_REJECTED'' (Some i)
                (JStr (''Warehouse complete rejected: Transaction is not in WAREHOUSE_IN_PROGRESS status (current: '' @
                  status_name (status tx) @ '')'')) now d,
              BadRequest (WH_NotInProgress (status tx)))
      else if warehouseEndAt tx \<noteq> None then
        Some (wh_audit user ''WAREHOUSE_DUPLICATE_REJECTED'' (Some i)
                (JStr ''Warehouse complete rejected: Transaction already completed warehouse process'') now d,
              BadRequest WH_AlreadyCompleted)
      else None)"

fun completeStatus :: "process_type \<Rightarrow> transaction_status" where
  "completeStatus GBB = INCOMING_CHECK_PENDING"
| "completeStatus GSP = INCOMING_CHECK_PENDING"
| "completeStatus GBJ = WAREHOUSE_DONE"

definition finalRemarks :: "(num \<Rightarrow> string) \<Rightarrow> complete_dto \<Rightarrow> string" where
  "finalRemarks nt dto =
     (let r = str_or (cd_remarks dto) []
      in case truthy_json (cd_deliveryChecklist dto) of
           None \<Rightarrow> r
         | Some j \<Rightarrow> (if r \<noteq> [] then r @ '' | Checklist: '' @ checklist_text nt j
                      else ''Checklist: '' @ checklist_text nt j))"

definition nonempty :: "string \<Rightarrow> string option" where
  "nonempty s = (if s = [] then None else Some s)"

definition completedRemarks :: "string option \<Rightarrow> string \<Rightarrow> string option" where
  "completedRemarks old final =
     (case truthy_col old of
        Some prev \<Rightarrow> (if final \<noteq> [] then Some (prev @ '' | '' @ final) else Some prev)
      | None \<Rightarrow> nonempty final)"

definition warehouseCompleted ::
  "transaction \<Rightarrow> complete_dto \<Rightarrow> string \<Rightarrow> transaction_status \<Rightarrow> jwt_user \<Rightarrow> instant \<Rightarrow> transaction \<Rightarrow> transaction"
where
  "warehouseCompleted tx dto final nextStatus user now t =
     t\<lparr>status := nextStatus, warehouseStartAt := Some (val_or (warehouseStartAt tx) now),
       warehouseStartById := Some (val_or (warehouseStartById tx) (ju_id user)),
       warehouseEndAt := Some now, warehouseEndById := Some (ju_id user),
       actualWeight := set_field (cd_actualWeight dto) (actualWeight t),
       actualQuantity := set_field (cd_actualQuantity dto) (actualQuantity t),
       warehouseUnit := set_field (cd_unit dto) (warehouseUnit t), revision := revision t + 1,
       suratJalanNumber := set_if_truthy (cd_suratJalanNumber dto) (suratJalanNumber t),
       remarks := completedRemarks (remarks tx) final\<rparr>"

definition closedProcess :: "complete_dto \<Rightarrow> string \<Rightarrow> jwt_user \<Rightarrow> instant \<Rightarrow> warehouse_process \<Rightarrow> warehouse_process" where
  "closedProcess dto final user now p =
     p\<lparr>wp_endAt := Some now, wp_endById := Some (ju_id user),
       wp_actualWeight := set_field (cd_actualWeight dto) (wp_actualWeight p),
       wp_actualQuantity := set_field (cd_actualQuantity dto) (wp_actualQuantity p),
       wp_unit := set_field (cd_unit dto) (wp_unit p),
       wp_palletCount := set_field (cd_palletCount dto) (wp_palletCount p),
       wp_bagCount := set_field (cd_bagCount dto) (wp_bagCount p),
       wp_rollCount := set_field (cd_rollCount dto) (wp_rollCount p),
       wp_condition := set_field (cd_condition dto) (wp_condition p), wp_remarks := nonempty final\<rparr>"

text \<open>The fallback row when no open process is found.\<close>

definition fallbackProcess ::
  "transaction \<Rightarrow> ident \<Rightarrow> complete_dto \<Rightarrow> string \<Rightarrow> jwt_user \<Rightarrow> instant \<Rightarrow> db \<Rightarrow> warehouse_process"
where
  "fallbackProcess tx i dto final user now d =
     \<lparr>v_id = nextId d, v_transactionId = i, v_createdAt = now, v_isCurrent = True, v_supersededAt = None,
      v_supersededByCorrectionId = None, v_revision = next_row_revision i (warehouseProcesses d),
      wp_processType = processType tx, wp_startAt = Some (val_or (warehouseStartAt tx) now), wp_endAt = Some now,
      wp_startById = Some (val_or (warehouseStartById tx) (ju_id user)), wp_endById = Some (ju_id user),
      wp_actualWeight = create_field (cd_actualWeight dto), wp_actualQuantity = create_field (cd_actualQuantity dto),
      wp_unit = create_field (cd_unit dto), wp_palletCount = create_field (cd_palletCount dto),
      wp_bagCount = create_field (cd_bagCount dto), wp_rollCount = create_field (cd_rollCount dto),
      wp_condition = create_field (cd_condition dto), wp_remarks = nonempty final,
      wp_checklistItems = None\<rparr>"

definition completeCommit ::
  "(num \<Rightarrow> string) \<Rightarrow> transaction \<Rightarrow> ident \<Rightarrow> complete_dto \<Rightarrow> transaction_status \<Rightarrow> jwt_user \<Rightarrow> instant \<Rightarrow> db \<Rightarrow> wh_reason error + db"
where
  "completeCommit nt tx i dto nextStatus user now d =
     (let final = finalRemarks nt dto;
          (d1, n) = claim i (\<lambda>t. status t = WAREHOUSE_IN_PROGRESS \<and> revision t = revision tx \<and> warehouseEndAt t = None)
                      (warehouseCompleted tx dto final nextStatus user now) d
      in if n \<noteq> 1 then Inl (Conflict WH_ConcurrencyConflict)
         else
           let d2 = (case find_first (open_process i) (warehouseProcesses d1) of
                       Some p \<Rightarrow> update_open_process i (closedProcess dto final user now) d1
                     | None \<Rightarrow> add_process (fallbackProcess tx i dto final user now d1) d1)
           in Inr (add_history i (Some (status tx)) nextStatus (Some (ju_id user))
                     (Some (if final \<noteq> [] then final else ''Warehouse process completed'')) now d2))"

definition completeWarehouse_at ::
  "(num \<Rightarrow> string) \<Rightarrow> transaction \<Rightarrow> ident \<Rightarrow> complete_dto \<Rightarrow> jwt_user \<Rightarrow> instant \<Rightarrow> db \<Rightarrow> (wh_reason, warehouse_view) outcome"
where
  "completeWarehouse_at nt tx i dto user now d =
     (case completeRefusal tx i user now d of
        Some (d', e) \<Rightarrow> (d', Inl e)
      | None \<Rightarrow>
          (case assertValidStatusTransition (status tx) (completeStatus (processType tx)) of
             Some e \<Rightarrow> (d, Inl e)
           | None \<Rightarrow>
               (case completeCommit nt tx i dto (completeStatus (processType tx)) user now d of
                  Inl e \<Rightarrow> (d, Inl e)
                | Inr d' \<Rightarrow>
                    (case find_tx d' i of
                       None \<Rightarrow> (d', Inl (NotFound WH_NotRetrieved))
                     | Some t \<Rightarrow>
                         (wh_audit user ''WAREHOUSE_COMPLETE'' (Some i)
                            (JStr (''Warehouse process completed for vehicle '' @ plateNumber t)) now d',
                          Inr \<lparr>whv_transaction = t, whv_by = user_ref d' (warehouseEndById t)\<rparr>)))))"

definition completeWarehouse ::
  "(num \<Rightarrow> string) \<Rightarrow> db \<Rightarrow> ident \<Rightarrow> complete_dto \<Rightarrow> jwt_user \<Rightarrow> instant \<Rightarrow> (wh_reason, warehouse_view) outcome"
where
  "completeWarehouse nt d i dto user now =
     (if nullish (cd_actualWeight dto) \<and> nullish (cd_actualQuantity dto)
        then (d, Inl (BadRequest WH_NothingMeasured))
      else (case find_tx d i of
          None \<Rightarrow> (d, Inl (NotFound WH_NotFound))
        | Some tx \<Rightarrow> completeWarehouse_at nt tx i dto user now d))"

section \<open>Incoming check through the warehouse\<close>

datatype decision = Decision_passed | Decision_rejected

record wh_incoming_dto =
  wi_decision :: decision
  wi_rejectReason :: "string field"
  wi_remarks :: "string field"

definition whIncomingRefusal ::
  "transaction \<Rightarrow> ident \<Rightarrow> wh_incoming_dto \<Rightarrow> jwt_user \<Rightarrow> instant \<Rightarrow> db \<Rightarrow> (db \<times> wh_reason error) option"
where
  "whIncomingRefusal tx i dto user now d =
     (if processType tx \<notin> set (getWarehouseAccess d user) then Some (d, Forbidden WH_AccessDenied)
      else if processType tx \<notin> {GBB, GSP} then Some (d, BadRequest WH_WrongProcess)
      else if processType tx \<in> {GBB, GSP} \<and> ju_role user = WAREHOUSE then
        Some (audit (ju_id user) ''SOD_VIOLATION_BLOCKED'' ''WAREHOUSE'' (Some i)
                (Some (JStr (''Blocked Warehouse role from executing '' @ process_name (processType tx) @
                   '' incoming check''))) ''FAILED'' now d,
              Forbidden WH_SegregationOfDuties)
      else if status tx \<notin> set ([INCOMING_CHECK_PENDING] @
              (if wi_decision dto = Decision_rejected then [WAREHOUSE_IN_PROGRESS] else []))
        then Some (d, BadRequest (WH_NotAllowedStatus (status tx)))
      else None)"

fun whIncomingStatus :: "decision \<Rightarrow> transaction_status" where
  "whIncomingStatus Decision_passed = INCOMING_CHECK_PASSED"
| "whIncomingStatus Decision_rejected = INCOMING_CHECK_REJECTED"

definition notesContent :: "wh_incoming_dto \<Rightarrow> string" where
  "notesContent dto =
     (case truthy_str (wi_remarks dto) of
        Some s \<Rightarrow> s
      | None \<Rightarrow> str_or (wi_rejectReason dto) ''Incoming check completed via Warehouse'')"

definition whIncomingRow :: "ident \<Rightarrow> wh_incoming_dto \<Rightarrow> jwt_user \<Rightarrow> instant \<Rightarrow> db \<Rightarrow> incoming_material_check" where
  "whIncomingRow i dto user now d =
     \<lparr>v_id = nextId d, v_transactionId = i, v_createdAt = now, v_isCurrent = True, v_supersededAt = None,
      v_supersededByCorrectionId = None, v_revision = next_row_revision i (incomingMaterialChecks d),
      im_result = Some (if wi_decision dto = Decision_passed then QC_PASS else QC_REJECT), im_odor = None,
      im_color = None, im_moisture = None, im_foreignMatter = None, im_beanCondition = None, im_sampleWeight = None,
      im_goodBeanPercentage = None, im_itemCondition = None, im_packagingCondition = None, im_quantityCheck = None,
      im_documentCheck = None, im_visualInspection = None, im_defectNotes = None,
      im_notes = Some (notesContent dto), im_checklistItems = None, im_checkedById = Some (ju_id user), im_startedAt = None,
      im_completedAt = Some now\<rparr>"

definition whIncomingChecked :: "transaction \<Rightarrow> wh_incoming_dto \<Rightarrow> instant \<Rightarrow> transaction \<Rightarrow> transaction" where
  "whIncomingChecked tx dto now t =
     t\<lparr>revision := revision t + 1, status := whIncomingStatus (wi_decision dto), qcEndAt := Some now,
       remarks := (case truthy_str (wi_remarks dto) of
           Some s \<Rightarrow> Some ((case truthy_col (remarks tx) of Some prev \<Rightarrow> prev @ '' | '' | None \<Rightarrow> []) @ ''GSP Check: '' @ s)
         | None \<Rightarrow> remarks tx)\<rparr>"

definition whIncomingCommit ::
  "transaction \<Rightarrow> ident \<Rightarrow> wh_incoming_dto \<Rightarrow> jwt_user \<Rightarrow> instant \<Rightarrow> db \<Rightarrow> wh_reason error + db"
where
  "whIncomingCommit tx i dto user now d =
     (let d1 = add_incoming_check (whIncomingRow i dto user now d) d;
          (d2, n) = claim i (\<lambda>t. status t = status tx \<and> revision t = revision tx) (whIncomingChecked tx dto now) d1
      in if n \<noteq> 1 then Inl (Conflict WH_ConcurrencyConflict)
         else Inr (add_history i (Some (status tx)) (whIncomingStatus (wi_decision dto)) (Some (ju_id user))
                     (Some (notesContent dto)) now d2))"

definition whSubmitIncomingCheck_at ::
  "transaction \<Rightarrow> ident \<Rightarrow> wh_incoming_dto \<Rightarrow> jwt_user \<Rightarrow> instant \<Rightarrow> db \<Rightarrow> (wh_reason, transaction) outcome"
where
  "whSubmitIncomingCheck_at tx i dto user now d =
     (case whIncomingRefusal tx i dto user now d of
        Some (d', e) \<Rightarrow> (d', Inl e)
      | None \<Rightarrow>
          (case assertValidStatusTransition (status tx) (whIncomingStatus (wi_decision dto)) of
             Some e \<Rightarrow> (d, Inl e)
           | None \<Rightarrow>
               (case whIncomingCommit tx i dto user now d of
                  Inl e \<Rightarrow> (d, Inl e)
                | Inr d' \<Rightarrow>
                    (case find_tx d' i of
                       None \<Rightarrow> (d', Inl (NotFound WH_NotRetrieved))
                     | Some t \<Rightarrow> (d', Inr t)))))"

definition whSubmitIncomingCheck ::
  "db \<Rightarrow> ident \<Rightarrow> wh_incoming_dto \<Rightarrow> jwt_user \<Rightarrow> instant \<Rightarrow> (wh_reason, transaction) outcome"
where
  "whSubmitIncomingCheck d i dto user now =
     (case find_tx d i of
        None \<Rightarrow> (d, Inl (NotFound WH_NotFound))
      | Some tx \<Rightarrow> whSubmitIncomingCheck_at tx i dto user now d)"

section \<open>Queue, detail, history and attachments\<close>

record wh_query =
  hq_page :: nat
  hq_limit :: nat
  hq_search :: "string option"
  hq_processType :: "process_type option"
  hq_status :: "transaction_status option"
  hq_startDate :: "instant option"
  hq_endDate :: "instant option"

text \<open>The conditions both listings share: search, status and process type.\<close>

definition warehouseFilter :: "process_type list \<Rightarrow> wh_query \<Rightarrow> transaction \<Rightarrow> bool" where
  "warehouseFilter allowed q t \<longleftrightarrow>
     (case truthy_col (hq_search q) of None \<Rightarrow> True
      | Some s \<Rightarrow> contains_ci (transactionNumber t) s \<or> contains_ci (plateNumber t) s) \<and>
     (case hq_processType q of Some p \<Rightarrow> processType t = p | None \<Rightarrow> processType t \<in> set allowed) \<and>
     (case hq_status q of None \<Rightarrow> True | Some s \<Rightarrow> status t = s)"

definition warehouseQueueWhere :: "int \<Rightarrow> process_type list \<Rightarrow> wh_query \<Rightarrow> transaction \<Rightarrow> bool" where
  "warehouseQueueWhere tz allowed q t \<longleftrightarrow>
     status t \<notin> {COMPLETED, CANCELLED} \<and>
     (processType t, status t) \<in> {(GBB, QC_VEHICLE_PASSED), (GSP, QC_VEHICLE_PASSED), (GBJ, QC_VEHICLE_PASSED)} \<and>
     warehouseFilter allowed q t \<and> within_dates tz (hq_startDate q) (hq_endDate q) (createdAt t)"

definition outside_scope :: "process_type list \<Rightarrow> wh_query \<Rightarrow> bool" where
  "outside_scope allowed q = (case hq_processType q of None \<Rightarrow> False | Some p \<Rightarrow> p \<notin> set allowed)"

definition empty_page :: "wh_query \<Rightarrow> transaction list \<times> page_meta" where
  "empty_page q = ([], \<lparr>pm_page = hq_page q, pm_limit = hq_limit q, pm_total = 0, pm_totalPages = 0\<rparr>)"

definition warehouseQueue ::
  "db \<Rightarrow> int \<Rightarrow> wh_query \<Rightarrow> jwt_user \<Rightarrow> instant \<Rightarrow> (wh_reason, transaction list \<times> page_meta) outcome"
where
  "warehouseQueue d tz q user now =
     (let allowed = getWarehouseAccess d user
      in if ju_role user = WAREHOUSE \<and> length allowed = 0 then (d, Inl (Forbidden WH_NoScope))
         else if outside_scope allowed q then (d, Inr (empty_page q))
         else (wh_audit user ''WAREHOUSE_QUEUE_VIEW'' None
                 (JStr (''User '' @ ju_email user @ '' viewed warehouse queue'')) now d,
               Inr (find_page (hq_page q) (hq_limit q) (warehouseQueueWhere tz allowed q) createdAt (transactions d))))"

record process_detail =
  pd_transaction :: transaction
  pd_palletCount :: "int option"
  pd_bagCount :: "int option"
  pd_rollCount :: "int option"
  pd_condition :: "warehouse_condition option"
  pd_startBy :: "(ident \<times> string \<times> role) option"
  pd_endBy :: "(ident \<times> string \<times> role) option"
  pd_remarks :: "string option"

text \<open>\<open>n || null\<close>: zero is falsy.\<close>

definition truthy_int :: "int option \<Rightarrow> int option" where
  "truthy_int c = (if c = Some 0 then None else c)"

definition getProcessDetail :: "db \<Rightarrow> ident \<Rightarrow> jwt_user \<Rightarrow> instant \<Rightarrow> (wh_reason, process_detail) outcome" where
  "getProcessDetail d i user now =
     (case find_tx d i of
        None \<Rightarrow> (d, Inl (NotFound WH_NotFound))
      | Some tx \<Rightarrow>
          if processType tx \<notin> set (getWarehouseAccess d user) then (d, Inl (Forbidden WH_AccessDenied))
          else
            let procs = newest_first v_createdAt (filter (current_row i) (warehouseProcesses d));
                col = (\<lambda>c. case procs of [] \<Rightarrow> None | p # _ \<Rightarrow> c p)
            in (wh_audit user ''WAREHOUSE_PROCESS_VIEW'' (Some i)
                  (JStr (''User '' @ ju_email user @ '' viewed warehouse process for '' @ transactionNumber tx)) now d,
                Inr \<lparr>pd_transaction = tx, pd_palletCount = col (\<lambda>p. truthy_int (wp_palletCount p)),
                     pd_bagCount = col (\<lambda>p. truthy_int (wp_bagCount p)),
                     pd_rollCount = col (\<lambda>p. truthy_int (wp_rollCount p)),
                     pd_condition = (case procs of [] \<Rightarrow> None | p # _ \<Rightarrow> wp_condition p),
                     pd_startBy = user_ref d (warehouseStartById tx), pd_endBy = user_ref d (warehouseEndById tx),
                     pd_remarks = opt_or (case procs of [] \<Rightarrow> None | p # _ \<Rightarrow> truthy_col (wp_remarks p))
                       (truthy_col (remarks tx))\<rparr>))"

definition warehouseHistoryWhere :: "int \<Rightarrow> process_type list \<Rightarrow> wh_query \<Rightarrow> transaction \<Rightarrow> bool" where
  "warehouseHistoryWhere tz allowed q t \<longleftrightarrow>
     warehouseEndAt t \<noteq> None \<and> warehouseFilter allowed q t \<and>
     within_dates tz (hq_startDate q) (hq_endDate q) (val_or (warehouseEndAt t) 0)"

definition warehouseHistory ::
  "db \<Rightarrow> int \<Rightarrow> wh_query \<Rightarrow> jwt_user \<Rightarrow> instant \<Rightarrow> (wh_reason, transaction list \<times> page_meta) outcome"
where
  "warehouseHistory d tz q user now =
     (let allowed = getWarehouseAccess d user
      in if outside_scope allowed q then (d, Inr (empty_page q))
         else (wh_audit user ''WAREHOUSE_HISTORY_VIEW'' None
                 (JStr (''User '' @ ju_email user @ '' viewed warehouse history'')) now d,
               Inr (find_page (hq_page q) (hq_limit q) (warehouseHistoryWhere tz allowed q)
                      (\<lambda>t. val_or (warehouseEndAt t) 0) (transactions d))))"

definition whUploadAttachment ::
  "db \<Rightarrow> ident \<Rightarrow> upload_file option \<Rightarrow> attachment_type field \<Rightarrow> string field \<Rightarrow> jwt_user \<Rightarrow> instant \<Rightarrow>
     (wh_reason, attachment) outcome"
where
  "whUploadAttachment d i file ty desc user now =
     (case file of
        None \<Rightarrow> (d, Inl (BadRequest WH_FileRequired))
      | Some f \<Rightarrow>
          (case find_tx d i of
             None \<Rightarrow> (d, Inl (NotFound WH_NotFound))
           | Some tx \<Rightarrow>
               if processType tx \<notin> set (getWarehouseAccess d user) then (d, Inl (Forbidden WH_AccessDenied))
               else
                 let a = \<lparr>v_id = nextId d, v_transactionId = i, v_createdAt = now, v_isCurrent = True,
                        v_supersededAt = None, v_supersededByCorrectionId = None, v_revision = 1,
                        at_attachmentLineageId = nextId d, at_module = ''WAREHOUSE'', at_attachmentType = (case ty of Value x \<Rightarrow> x | _ \<Rightarrow> DOCUMENT),
                        at_originalName = uf_originalname f, at_fileName = uf_filename f, at_filePath = uf_path f,
                        at_mimeType = uf_mimetype f, at_size = uf_size f, at_description = create_field desc,
                        at_uploadedById = Some (ju_id user), at_sha256 = None\<rparr>
                 in (d\<lparr>attachments := attachments d @ [a], nextId := Suc (nextId d)\<rparr>, Inr a)))"

lemma uploads_untouched: "untouched d (fst (whUploadAttachment d i file ty desc user now))"
  by (simp add: whUploadAttachment_def untouched_def Let_def split: option.splits)

section \<open>Refinement\<close>

lemma wh_update_simps [simp]:
  "tx_key (warehouseStarted tx sdto u now t) = tx_key t" "status (warehouseStarted tx sdto u now t) = WAREHOUSE_IN_PROGRESS"
  "revision (warehouseStarted tx sdto u now t) = Suc (revision t)"
  "processType (warehouseStarted tx sdto u now t) = processType t" "isVoided (warehouseStarted tx sdto u now t) = isVoided t"
  "tx_key (warehouseCompleted tx cdto fin s u now t) = tx_key t" "status (warehouseCompleted tx cdto fin s u now t) = s"
  "revision (warehouseCompleted tx cdto fin s u now t) = Suc (revision t)"
  "processType (warehouseCompleted tx cdto fin s u now t) = processType t"
  "isVoided (warehouseCompleted tx cdto fin s u now t) = isVoided t"
  "tx_key (whIncomingChecked tx idto now t) = tx_key t"
  "status (whIncomingChecked tx idto now t) = whIncomingStatus (wi_decision idto)"
  "revision (whIncomingChecked tx idto now t) = Suc (revision t)"
  "processType (whIncomingChecked tx idto now t) = processType t" "isVoided (whIncomingChecked tx idto now t) = isVoided t"
  by (simp_all add: warehouseStarted_def warehouseCompleted_def whIncomingChecked_def tx_key_def)

lemma wh_row_simps [simp]:
  "v_transactionId (startedProcess tx i rv sdto u now d) = i" "v_isCurrent (startedProcess tx i rv sdto u now d)"
  "v_revision (startedProcess tx i rv sdto u now d) = rv" "wp_endAt (startedProcess tx i rv sdto u now d) = None"
  "v_transactionId (fallbackProcess tx i cdto fin u now d) = i" "v_isCurrent (fallbackProcess tx i cdto fin u now d)"
  "v_revision (fallbackProcess tx i cdto fin u now d) = next_row_revision i (warehouseProcesses d)"
  "wp_endAt (fallbackProcess tx i cdto fin u now d) = Some now"
  "v_transactionId (closedProcess cdto fin u now p) = v_transactionId p"
  "v_isCurrent (closedProcess cdto fin u now p) = v_isCurrent p" "v_revision (closedProcess cdto fin u now p) = v_revision p"
  "wp_endAt (closedProcess cdto fin u now p) = Some now"
  "v_transactionId (whIncomingRow i idto u now d) = i" "v_isCurrent (whIncomingRow i idto u now d)"
  "v_revision (whIncomingRow i idto u now d) = next_row_revision i (incomingMaterialChecks d)"
  "v_id (startedProcess tx i rv sdto u now d) = nextId d" "v_id (fallbackProcess tx i cdto fin u now d) = nextId d"
  "v_id (closedProcess cdto fin u now p) = v_id p" "wp_processType (closedProcess cdto fin u now p) = wp_processType p"
  "v_id (whIncomingRow i idto u now d) = nextId d"
  by (simp_all add: startedProcess_def fallbackProcess_def closedProcess_def whIncomingRow_def)

lemma start_commit:
  assumes "startCommit tx i dto user now d = Inr d'" "db_ok d" "snapshot_ok tx i d" "status tx = QC_VEHICLE_PASSED"
  shows "find_tx d i = Some tx \<and> find_tx d' i = Some (warehouseStarted tx dto user now tx) \<and>
    (\<exists>p. warehouseProcesses d' = warehouseProcesses d @ [p] \<and> open_process i p) \<and> commit_step i d d'"
proof -
  let ?rv = "next_row_revision i (warehouseProcesses d)"
  let ?f = "warehouseStarted tx dto user now"
  let ?g = "\<lambda>t. status t = QC_VEHICLE_PASSED \<and> revision t = revision tx"
  obtain d1 where c: "claim i ?g ?f d = (d1, 1)"
    and d': "d' = add_history i (Some (status tx)) WAREHOUSE_IN_PROGRESS (Some (ju_id user))
      (Some (str_or (sd_remarks dto) ''Warehouse process started'')) now
      (add_process (startedProcess tx i ?rv dto user now d1) d1)"
    using assms(1) by (auto simp: startCommit_def Let_def split: prod.splits if_splits)
  have "find_tx d i = Some tx \<and> ?g tx \<and> find_tx d' i = Some (?f tx) \<and> row_only d d1 \<and> commit_step i d d'"
  proof (rule claim_commit [OF c refl assms(2,3)])
    show "truck_for d' i (?f tx) = (move WAREHOUSE_IN_PROGRESS (truck_for d i tx))
        \<lparr>tk_warehouse := Suc (tk_warehouse (truck_for d i tx)), tk_open := Suc (tk_open (truck_for d i tx))\<rparr>"
      if "row_only d d1"
      by (simp add: d' row_only [OF that] move_def bump_def) (simp add: truck_for_def)
    show "local_to i d1 d'" unfolding d' by (intro local_back local_to_refl wh_row_simps)
    have "warehouseProcesses d1 = warehouseProcesses d" using c by (auto simp: claim_def Let_def)
    then show "revs_ok d'" if "revs_ok d1" using that by (simp add: d' revs_ok_rows)
    show "truck_step (truck_for d i tx) ((move WAREHOUSE_IN_PROGRESS (truck_for d i tx))
        \<lparr>tk_warehouse := Suc (tk_warehouse (truck_for d i tx)), tk_open := Suc (tk_open (truck_for d i tx))\<rparr>)"
      using assms(4) by (intro truck_step.start_warehouse) simp
  qed (simp_all add: d')
  moreover have "warehouseProcesses d' = warehouseProcesses d1 @ [startedProcess tx i ?rv dto user now d1]"
    by (simp add: d' add_process_def)
  ultimately show ?thesis using row_only_tables(4) [of d d1] by (auto simp: open_process_def)
qed

lemma startRefusal_same: "startRefusal tx i user now d = Some (d', e) \<Longrightarrow> same_data d d'"
  by (auto simp: startRefusal_def split: if_splits)

lemma startRefusal_None:
  "startRefusal tx i user now d = None \<longleftrightarrow>
     processType tx \<in> set (getWarehouseAccess d user) \<and> status tx = QC_VEHICLE_PASSED"
  by (auto simp: startRefusal_def)

lemma start_valid: "assertValidStatusTransition QC_VEHICLE_PASSED WAREHOUSE_IN_PROGRESS = None"
  by (simp add: assert_None_iff isValidStatusTransition_def)

lemma startWarehouse_at_commits:
  assumes "db_ok d" "snapshot_ok tx i d"
  shows "commits tx i d (startWarehouse_at tx i dto user now d)"
proof (cases "startRefusal tx i user now d")
  case None
  then have st: "status tx = QC_VEHICLE_PASSED" by (simp add: startRefusal_None)
  show ?thesis
    unfolding startWarehouse_at_def None option.case st start_valid
    by (rule commits_respond) (simp_all add: start_commit [OF _ assms st])
next
  case (Some r)
  then show ?thesis by (cases r) (simp add: startWarehouse_at_def startRefusal_same)
qed

lemma completeStatus_spec: "completeStatus p = after_warehouse p"
  by (cases p) simp_all

lemma close_count:
  "count_where (open_process i) (update_found (open_process i) (closedProcess dto fin u now) t)
     = count_where (open_process i) t - 1"
  by (rule count_update_found_self) (simp add: open_process_def)

lemma truck_warehouse_counts:
  "tk_open (truck_for d i t) = count_where (open_process i) (warehouseProcesses d)"
  "tk_warehouse (truck_for d i t) = count_where (current_row i) (warehouseProcesses d)"
  by (simp_all add: truck_for_def)

lemma complete_commit:
  assumes "completeCommit nt tx i dto (completeStatus (processType tx)) user now d = Inr d'" "db_ok d" "snapshot_ok tx i d"
    and "status tx = WAREHOUSE_IN_PROGRESS"
  shows "find_tx d i = Some tx \<and> warehouseEndAt tx = None \<and>
    find_tx d' i = Some (warehouseCompleted tx dto (finalRemarks nt dto) (completeStatus (processType tx)) user now tx) \<and>
    count_where (open_process i) (warehouseProcesses d') = count_where (open_process i) (warehouseProcesses d) - 1 \<and>
    count_where (current_row i) (warehouseProcesses d') =
      (if count_where (open_process i) (warehouseProcesses d) = 0 then 1 + count_where (current_row i) (warehouseProcesses d)
       else count_where (current_row i) (warehouseProcesses d)) \<and>
    commit_step i d d'"
proof -
  let ?s = "completeStatus (processType tx)"
  let ?f = "warehouseCompleted tx dto (finalRemarks nt dto) ?s user now"
  let ?g = "\<lambda>t. status t = WAREHOUSE_IN_PROGRESS \<and> revision t = revision tx \<and> warehouseEndAt t = None"
  let ?n = "count_where (open_process i) (warehouseProcesses d)"
  obtain d1 d2 where c: "claim i ?g ?f d = (d1, 1)"
    and d2: "d2 = (case find_first (open_process i) (warehouseProcesses d1) of
        Some p \<Rightarrow> update_open_process i (closedProcess dto (finalRemarks nt dto) user now) d1
      | None \<Rightarrow> add_process (fallbackProcess tx i dto (finalRemarks nt dto) user now d1) d1)"
    and d': "d' = add_history i (Some (status tx)) ?s (Some (ju_id user))
      (Some (if finalRemarks nt dto \<noteq> [] then finalRemarks nt dto else ''Warehouse process completed'')) now d2"
    using assms(1) by (auto simp: completeCommit_def Let_def split: prod.splits if_splits)
  have wp: "warehouseProcesses d1 = warehouseProcesses d" using c by (auto simp: claim_def Let_def)
  have none: "find_first (open_process i) (warehouseProcesses d) = None \<longleftrightarrow> ?n = 0"
    by (simp add: find_first_None_iff count_where_0_iff)
  let ?k' = "if ?n = 0 then (move ?s (truck_for d i tx))\<lparr>tk_warehouse := Suc (tk_warehouse (truck_for d i tx))\<rparr>
    else (move ?s (truck_for d i tx))\<lparr>tk_open := tk_open (truck_for d i tx) - 1\<rparr>"
  have k': "truck_for d' i (?f tx) = ?k'" if row: "row_only d d1"
  proof (cases "?n = 0")
    case True
    then have "d2 = add_process (fallbackProcess tx i dto (finalRemarks nt dto) user now d1) d1"
      using none by (simp add: d2 wp)
    then show ?thesis
      using True by (simp add: d' row_only [OF row] move_def bump_def) (simp add: truck_for_def)
  next
    case False
    then have "d2 = update_open_process i (closedProcess dto (finalRemarks nt dto) user now) d1"
      using none by (auto simp: d2 wp split: option.splits)
    then show ?thesis
      using False
      by (simp add: d' truck_for_open_process close_count row_only [OF row] move_def bump_def) (simp add: truck_for_def)
  qed
  have main: "find_tx d i = Some tx \<and> ?g tx \<and> find_tx d' i = Some (?f tx) \<and> row_only d d1 \<and> commit_step i d d'"
  proof (rule claim_commit [OF c refl assms(2,3)])
    show "truck_for d' i (?f tx) = ?k'" if "row_only d d1" by (rule k' [OF that])
    have "local_to i d1 d2" unfolding d2
      by (cases "find_first (open_process i) (warehouseProcesses d1)") (auto intro: local_to_open_process local_to_rows)
    then show "local_to i d1 d'" unfolding d' by (rule local_back)
    show "revs_ok d'" if "revs_ok d1"
      using that by (simp add: d' d2 revs_ok_open_process revs_ok_rows split: option.splits)
    show "find_tx d' i = find_tx d1 i" by (simp add: d' d2 split: option.splits)
    show "truck_step (truck_for d i tx) ?k'"
      using assms(4) truck_step.complete_fallback [of "truck_for d i tx"] truck_step.complete_open [of "truck_for d i tx"]
      by (auto simp: completeStatus_spec truck_warehouse_counts)
  qed simp_all
  have "count_where (open_process i) (warehouseProcesses d') = tk_open (truck_for d' i (?f tx))"
    "count_where (current_row i) (warehouseProcesses d') = tk_warehouse (truck_for d' i (?f tx))"
    by (simp_all add: truck_warehouse_counts)
  then show ?thesis using main k' by (auto simp: truck_warehouse_counts)
qed

lemma completeRefusal_same: "completeRefusal tx i user now d = Some (d', e) \<Longrightarrow> same_data d d'"
  by (auto simp: completeRefusal_def split: if_splits)

lemma completeRefusal_None:
  "completeRefusal tx i user now d = None \<longleftrightarrow>
     processType tx \<in> set (getWarehouseAccess d user) \<and> status tx = WAREHOUSE_IN_PROGRESS \<and> warehouseEndAt tx = None"
  by (auto simp: completeRefusal_def)

lemma complete_valid: "assertValidStatusTransition WAREHOUSE_IN_PROGRESS (completeStatus p) = None"
  by (cases p) (simp_all add: assert_None_iff isValidStatusTransition_def)

lemma completeWarehouse_at_commits:
  assumes "db_ok d" "snapshot_ok tx i d"
  shows "commits tx i d (completeWarehouse_at nt tx i dto user now d)"
proof (cases "completeRefusal tx i user now d")
  case None
  then have st: "status tx = WAREHOUSE_IN_PROGRESS" by (simp add: completeRefusal_None)
  show ?thesis
    unfolding completeWarehouse_at_def None option.case st complete_valid
    by (rule commits_respond) (simp_all add: complete_commit [OF _ assms st])
next
  case (Some r)
  then show ?thesis by (cases r) (simp add: completeWarehouse_at_def completeRefusal_same)
qed

lemma whIncoming_commit:
  assumes "whIncomingCommit tx i dto user now d = Inr d'" "db_ok d" "snapshot_ok tx i d"
    and "status tx = INCOMING_CHECK_PENDING" "processType tx \<noteq> GBJ"
  shows "find_tx d i = Some tx \<and> find_tx d' i = Some (whIncomingChecked tx dto now tx) \<and>
    (\<exists>row. incomingMaterialChecks d' = incomingMaterialChecks d @ [row] \<and> v_transactionId row = i \<and>
       im_result row = Some (if wi_decision dto = Decision_passed then QC_PASS else QC_REJECT)) \<and> commit_step i d d'"
proof -
  let ?row = "whIncomingRow i dto user now d"
  let ?f = "whIncomingChecked tx dto now"
  let ?s = "whIncomingStatus (wi_decision dto)"
  obtain d2 where c: "claim i (\<lambda>t. status t = status tx \<and> revision t = revision tx) ?f (add_incoming_check ?row d) = (d2, 1)"
    and d': "d' = add_history i (Some (status tx)) ?s (Some (ju_id user)) (Some (notesContent dto)) now d2"
    using assms(1) by (auto simp: whIncomingCommit_def Let_def split: prod.splits if_splits)
  have "find_tx d i = Some tx \<and> (status tx = status tx \<and> revision tx = revision tx) \<and>
      find_tx d' i = Some (?f tx) \<and> row_only (add_incoming_check ?row d) d2 \<and> commit_step i d d'"
  proof (rule claim_commit [OF c refl assms(2,3)])
    show "truck_for d' i (?f tx) = (move ?s (truck_for d i tx))
        \<lparr>tk_incoming := Suc (tk_incoming (truck_for d i tx))\<rparr>" if "row_only (add_incoming_check ?row d) d2"
      by (simp add: d' row_only [OF that] move_def bump_def) (simp add: truck_for_def)
    show "local_to i d (add_incoming_check ?row d)" by (rule local_to_rows) simp
    show "local_to i d2 d'" unfolding d' by (rule local_to_history)
    show "revs_ok (add_incoming_check ?row d)" if "revs_ok d" using that by (simp add: revs_ok_rows)
    show "truck_step (truck_for d i tx) ((move ?s (truck_for d i tx))\<lparr>tk_incoming := Suc (tk_incoming (truck_for d i tx))\<rparr>)"
      using assms(4,5) by (intro truck_step.warehouse_incoming_result) (cases "wi_decision dto"; simp)+
  qed (simp_all add: d')
  moreover have "incomingMaterialChecks d' = incomingMaterialChecks (add_incoming_check ?row d)"
    if "row_only (add_incoming_check ?row d) d2"
    using row_only_tables(5) [OF that] by (simp add: d')
  ultimately show ?thesis by (auto simp: add_incoming_check_def whIncomingRow_def)
qed

text \<open>A rejection from WAREHOUSE_IN_PROGRESS passes the status list but never the state machine.\<close>

lemma whIncoming_valid:
  "assertValidStatusTransition s (whIncomingStatus dec) = (None :: wh_reason error option) \<Longrightarrow>
     s = INCOMING_CHECK_PENDING \<or> s = WAREHOUSE_IN_PROGRESS \<Longrightarrow> s = INCOMING_CHECK_PENDING"
  by (cases dec) (auto simp: assert_None_iff isValidStatusTransition_def)

lemma whSubmitIncomingCheck_at_cases:
  "(\<exists>d' e. whSubmitIncomingCheck_at tx i dto user now d = (d', Inl e) \<and> same_data d d') \<or>
   status tx = INCOMING_CHECK_PENDING \<and> processType tx \<in> {GBB, GSP} \<and> ju_role user \<noteq> WAREHOUSE \<and>
   processType tx \<in> set (getWarehouseAccess d user) \<and>
   whSubmitIncomingCheck_at tx i dto user now d =
     (case whIncomingCommit tx i dto user now d of
        Inl e \<Rightarrow> (d, Inl e)
      | Inr d' \<Rightarrow> (case find_tx d' i of None \<Rightarrow> (d', Inl (NotFound WH_NotRetrieved)) | Some t \<Rightarrow> (d', Inr t)))"
proof (cases "whIncomingRefusal tx i dto user now d")
  case None
  then have n: "processType tx \<in> {GBB, GSP}" "ju_role user \<noteq> WAREHOUSE" "processType tx \<in> set (getWarehouseAccess d user)"
      "status tx = INCOMING_CHECK_PENDING \<or> status tx = WAREHOUSE_IN_PROGRESS"
    by (auto simp: whIncomingRefusal_def split: if_splits)
  show ?thesis
  proof (cases "assertValidStatusTransition (status tx) (whIncomingStatus (wi_decision dto)) :: wh_reason error option")
    case v: None
    then show ?thesis using n whIncoming_valid [OF v n(4)] None by (simp add: whSubmitIncomingCheck_at_def)
  qed (simp add: whSubmitIncomingCheck_at_def None)
next
  case (Some r)
  then show ?thesis
    by (cases r) (auto simp: whSubmitIncomingCheck_at_def whIncomingRefusal_def split: if_splits)
qed

lemma whSubmitIncomingCheck_at_commits:
  assumes "db_ok d" "snapshot_ok tx i d"
  shows "commits tx i d (whSubmitIncomingCheck_at tx i dto user now d)"
  using whSubmitIncomingCheck_at_cases [of tx i dto user now d]
proof (elim disjE conjE exE)
  assume "status tx = INCOMING_CHECK_PENDING" "processType tx \<in> {GBB, GSP}"
    and eq: "whSubmitIncomingCheck_at tx i dto user now d =
     (case whIncomingCommit tx i dto user now d of
        Inl e \<Rightarrow> (d, Inl e)
      | Inr d' \<Rightarrow> (case find_tx d' i of None \<Rightarrow> (d', Inl (NotFound WH_NotRetrieved)) | Some t \<Rightarrow> (d', Inr t)))"
  then show ?thesis
    unfolding eq by (intro commits_respond) (auto dest: whIncoming_commit [OF _ assms])
qed simp

section \<open>Properties\<close>

text \<open>
  Loading starts exactly when the transaction has passed its vehicle check and its process
  type is among the user's warehouse accesses as stored in the database: one step to
  WAREHOUSE_IN_PROGRESS with one new open process record; otherwise nothing but the log changes,
  and a user without access gets 403.
\<close>
lemma startWarehouse_correct:
  assumes "db_ok d" and "find_tx d i = Some tx"
  shows "case startWarehouse d i dto user now of
      (d', Inl e) \<Rightarrow> same_data d d' \<and>
        (processType tx \<notin> set (getWarehouseAccess d user) \<or> status tx \<noteq> QC_VEHICLE_PASSED) \<and>
        (processType tx \<notin> set (getWarehouseAccess d user) \<longrightarrow> http_status e = 403)
    | (d', Inr v) \<Rightarrow> processType tx \<in> set (getWarehouseAccess d user) \<and> status tx = QC_VEHICLE_PASSED \<and>
        commit_step i d d' \<and> find_tx d' i = Some (whv_transaction v) \<and>
        status (whv_transaction v) = WAREHOUSE_IN_PROGRESS \<and>
        (\<exists>p. warehouseProcesses d' = warehouseProcesses d @ [p] \<and> open_process i p)"
proof (cases "startRefusal tx i user now d")
  case None
  then have n: "processType tx \<in> set (getWarehouseAccess d user)" "status tx = QC_VEHICLE_PASSED"
    by (simp_all add: startRefusal_None)
  have "snd (claim i (\<lambda>t. status t = QC_VEHICLE_PASSED \<and> revision t = revision tx) f d) = 1" for f
    using assms n by (subst claim_count) (auto simp: db_ok_def)
  then obtain d1 where c: "startCommit tx i dto user now d = Inr d1"
    by (simp add: startCommit_def Let_def case_prod_unfold)
  note com = start_commit [OF c assms(1) snapshot_current [OF assms(2)] n(2)]
  have "startWarehouse d i dto user now =
    (wh_audit user ''WAREHOUSE_START'' (Some i) (JObj (json_str ''remarks'' (sd_remarks dto))) now d1,
     Inr \<lparr>whv_transaction = warehouseStarted tx dto user now tx,
          whv_by = user_ref d1 (warehouseStartById (warehouseStarted tx dto user now tx))\<rparr>)"
    using com by (simp add: startWarehouse_def assms(2) startWarehouse_at_def None n(2) start_valid c)
  moreover have "commit_step i d (wh_audit user ''WAREHOUSE_START'' (Some i) (JObj (json_str ''remarks'' (sd_remarks dto))) now d1)"
    using com by (auto intro: commit_step_quiet)
  ultimately show ?thesis using com n by (simp add: wh_audit_def)
next
  case (Some r)
  obtain d' e where r: "r = (d', e)" by (cases r)
  have "processType tx \<notin> set (getWarehouseAccess d user) \<or> status tx \<noteq> QC_VEHICLE_PASSED"
    using Some startRefusal_None [of tx i user now d] by auto
  moreover have "processType tx \<notin> set (getWarehouseAccess d user) \<Longrightarrow> http_status e = 403"
    using Some by (auto simp: startRefusal_def r)
  ultimately show ?thesis
    using startRefusal_same [OF Some [unfolded r]]
    by (simp add: startWarehouse_def assms(2) startWarehouse_at_def Some r)
qed

text \<open>
  C10. A completion that succeeds was made in the warehouse stage by a user with access: it closes
  the one open process record (the fallback that would create a second record is not taken),
  stores the measured weight, and moves GBB and GSP on to the incoming check and GBJ to
  WAREHOUSE_DONE. One that fails changes nothing but the log.
\<close>
theorem completeWarehouse_correct:
  assumes "db_ok d"
  shows "case completeWarehouse nt d i dto user now of
      (d', Inl e) \<Rightarrow> same_data d d'
    | (d', Inr v) \<Rightarrow> \<exists>tx t. find_tx d i = Some tx \<and> status tx = WAREHOUSE_IN_PROGRESS \<and>
        processType tx \<in> set (getWarehouseAccess d user) \<and> commit_step i d d' \<and> find_tx d' i = Some t \<and>
        status t = (if processType tx = GBJ then WAREHOUSE_DONE else INCOMING_CHECK_PENDING) \<and>
        actualWeight t = set_field (cd_actualWeight dto) (actualWeight tx) \<and> warehouseEndAt t = Some now \<and>
        count_where (open_process i) (warehouseProcesses d) = 1 \<and>
        count_where (current_row i) (warehouseProcesses d') = 1 \<and>
        count_where (open_process i) (warehouseProcesses d') = 0"
proof -
  obtain d' res where r: "completeWarehouse nt d i dto user now = (d', res)" by fastforce
  show ?thesis
  proof (cases res)
    case (Inl e)
    have "same_data d d'"
      using r completeWarehouse_at_commits [OF assms snapshot_current, of i _ nt dto user now]
      by (auto simp: completeWarehouse_def Inl commits_def split: if_splits option.splits)
    then show ?thesis by (simp add: r Inl)
  next
    case (Inr v)
    then obtain tx where tx: "find_tx d i = Some tx" and at: "completeWarehouse_at nt tx i dto user now d = (d', Inr v)"
      using r by (auto simp: completeWarehouse_def split: if_splits option.splits)
    have ref: "completeRefusal tx i user now d = None"
      using at by (auto simp: completeWarehouse_at_def split: option.splits)
    then have n: "processType tx \<in> set (getWarehouseAccess d user)" "status tx = WAREHOUSE_IN_PROGRESS"
      by (simp_all add: completeRefusal_None)
    obtain d1 where c: "completeCommit nt tx i dto (completeStatus (processType tx)) user now d = Inr d1"
        and same: "same_data d1 d'"
      using respond_Inr [OF at [unfolded completeWarehouse_at_def ref option.case n(2) complete_valid] same_data_wh_audit]
      by blast
    note com = complete_commit [OF c assms snapshot_current [OF tx] n(2)]
    have "truck_ok (truck_for d i tx)" using assms tx by (auto simp: db_ok_def truck_of_def)
    then have one: "count_where (open_process i) (warehouseProcesses d) = 1"
        "count_where (current_row i) (warehouseProcesses d) = 1"
      using n(2) by (simp_all add: truck_ok_def stage_ok_def truck_warehouse_counts)
    have "find_tx d' i = find_tx d1 i" "warehouseProcesses d' = warehouseProcesses d1"
      using same_data_views(1) [OF same] same_data_untouched [OF same] by (simp_all add: untouched_def)
    moreover have "commit_step i d d'" using com same commit_step_quiet by blast
    moreover have "completeStatus (processType tx) = (if processType tx = GBJ then WAREHOUSE_DONE else INCOMING_CHECK_PENDING)"
      by (cases "processType tx") simp_all
    ultimately show ?thesis
      unfolding r Inr prod.case sum.case
      using com one tx n by (auto simp: warehouseCompleted_def)
  qed
qed

text \<open>
  Segregation of duties at the warehouse endpoint: an incoming check submitted there succeeds
  only for a GBB or GSP transaction in INCOMING_CHECK_PENDING and never for a user of the WAREHOUSE
  role. In particular the rejection of a load that is still in the warehouse, which the list of
  allowed statuses provides for, is always refused by the state machine.
\<close>
lemma whSubmitIncomingCheck_correct:
  assumes "db_ok d" and "find_tx d i = Some tx"
  shows "case whSubmitIncomingCheck d i dto user now of
      (d', Inl e) \<Rightarrow> same_data d d' \<and>
        (wi_decision dto = Decision_rejected \<and> status tx = WAREHOUSE_IN_PROGRESS \<and> processType tx \<in> {GBB, GSP} \<and>
           ju_role user = ADMIN \<longrightarrow> e = InvalidTransition WAREHOUSE_IN_PROGRESS INCOMING_CHECK_REJECTED)
    | (d', Inr t) \<Rightarrow> ju_role user \<noteq> WAREHOUSE \<and> processType tx \<in> {GBB, GSP} \<and>
        processType tx \<in> set (getWarehouseAccess d user) \<and> status tx = INCOMING_CHECK_PENDING \<and>
        commit_step i d d' \<and> find_tx d' i = Some t \<and>
        status t = (if wi_decision dto = Decision_passed then INCOMING_CHECK_PASSED else INCOMING_CHECK_REJECTED)"
proof -
  obtain d' res where r: "whSubmitIncomingCheck_at tx i dto user now d = (d', res)" by fastforce
  have eq: "whSubmitIncomingCheck d i dto user now = (d', res)" by (simp add: whSubmitIncomingCheck_def assms(2) r)
  note com = whSubmitIncomingCheck_at_commits [OF assms(1) snapshot_current [OF assms(2)], of dto user now, unfolded r]
  show ?thesis
  proof (cases res)
    case (Inl e)
    have "e = InvalidTransition WAREHOUSE_IN_PROGRESS INCOMING_CHECK_REJECTED"
      if "wi_decision dto = Decision_rejected" "status tx = WAREHOUSE_IN_PROGRESS" "processType tx \<in> {GBB, GSP}"
        "ju_role user = ADMIN"
      using r that by (auto simp: Inl whSubmitIncomingCheck_at_def whIncomingRefusal_def getWarehouseAccess_admin
          assertValidStatusTransition_def isValidStatusTransition_def)
    then show ?thesis using com by (simp add: eq Inl)
  next
    case (Inr t)
    from whSubmitIncomingCheck_at_cases [of tx i dto user now d] r Inr
    have n: "status tx = INCOMING_CHECK_PENDING" "processType tx \<in> {GBB, GSP}" "ju_role user \<noteq> WAREHOUSE"
        "processType tx \<in> set (getWarehouseAccess d user)"
      and a: "(case whIncomingCommit tx i dto user now d of Inl e \<Rightarrow> (d, Inl e)
        | Inr d' \<Rightarrow> (case find_tx d' i of None \<Rightarrow> (d', Inl (NotFound WH_NotRetrieved)) | Some t \<Rightarrow> (d', Inr t))) = (d', Inr t)"
      by auto
    have "processType tx \<noteq> GBJ" using n(2) by auto
    obtain d1 where c: "whIncomingCommit tx i dto user now d = Inr d1" and t: "find_tx d1 i = Some t" "d' = d1"
      using a by (auto split: sum.splits option.splits)
    note w = whIncoming_commit [OF c assms(1) snapshot_current [OF assms(2)] n(1) \<open>processType tx \<noteq> GBJ\<close>]
    have "status t = (if wi_decision dto = Decision_passed then INCOMING_CHECK_PASSED else INCOMING_CHECK_REJECTED)"
      using w t by (cases "wi_decision dto") (auto simp: whIncomingChecked_def)
    then show ?thesis unfolding eq Inr prod.case sum.case
      using w t n by auto
  qed
qed

end
