(* ===== verification/Gms_Transactions.thy ===== *)
theory Gms_Transactions
  imports Gms_Commit Gms_Scope Gms_Json
begin

text \<open>
  The transaction endpoints (transactions/transactions.service.ts): listings with the user's scope,
  cancellation, and the administrative void.
\<close>

datatype tr_reason =
    TR_NotFound
  | TR_AlreadyCancelled
  | TR_Completed
  | TR_ConcurrencyConflict
  | TR_NotAdmin
  | TR_LoadFailed

definition tr_audit :: "jwt_user \<Rightarrow> string \<Rightarrow> ident option \<Rightarrow> jsv \<Rightarrow> instant \<Rightarrow> db \<Rightarrow> db" where
  "tr_audit user action ref desc now = audit (ju_id user) action ''TRANSACTIONS'' ref (Some desc) ''SUCCESS'' now"

lemma same_data_tr_audit [simp]: "same_data d (tr_audit user a r desc now d)"
  by (simp add: tr_audit_def)

section \<open>Reading\<close>

text \<open>\<open>TRANSACTION_CURRENT_RELATIONS_INCLUDE\<close> (prisma/prisma-include.helpers.ts).\<close>

record tx_view =
  tv_transaction :: transaction
  tv_weighbridgeRecords :: "weighbridge_record list"
  tv_warehouseProcesses :: "warehouse_process list"
  tv_qcVehicleChecks :: "qc_vehicle_check list"
  tv_incomingMaterialChecks :: "incoming_material_check list"
  tv_statusHistory :: "status_history list"
  tv_corrections :: "ident list"
  tv_users :: "(ident \<times> string \<times> role) option list"

definition current_view :: "db \<Rightarrow> transaction \<Rightarrow> tx_view" where
  "current_view d t =
     (let i = tx_id t
      in \<lparr>tv_transaction = t,
          tv_weighbridgeRecords = filter (current_row i) (weighbridgeRecords d),
          tv_warehouseProcesses = filter (current_row i) (warehouseProcesses d),
          tv_qcVehicleChecks = filter (current_row i) (qcVehicleChecks d),
          tv_incomingMaterialChecks = filter (current_row i) (incomingMaterialChecks d),
          tv_statusHistory = newest_first sh_changedAt (filter (\<lambda>h. sh_transactionId h = i) (statusHistories d)),
          tv_corrections = map tc_id (filter (\<lambda>c. tc_transactionId c = i) (corrections d)),
          tv_users = map (user_ref d) [weighInById t, weighOutById t, warehouseStartById t, warehouseEndById t]\<rparr>)"

record tr_query =
  tq_page :: nat
  tq_limit :: nat
  tq_status :: "transaction_status option"
  tq_processType :: "process_type option"
  tq_search :: "string option"

definition findAllWhere :: "tx_scope \<Rightarrow> tr_query \<Rightarrow> transaction \<Rightarrow> bool" where
  "findAllWhere sc q t \<longleftrightarrow>
     in_scope sc (processType t) \<and>
     (case tq_status q of None \<Rightarrow> True | Some s \<Rightarrow> status t = s) \<and>
     (case tq_processType q of None \<Rightarrow> True | Some p \<Rightarrow> processType t = p) \<and>
     (case truthy_col (tq_search q) of None \<Rightarrow> True
      | Some s \<Rightarrow> contains_ci (transactionNumber t) s \<or> contains_ci (plateNumber t) s \<or>
                  contains_ci (vendorName t) s \<or> contains_ci (driverName t) s)"

definition findAll ::
  "db \<Rightarrow> tr_query \<Rightarrow> jwt_user \<Rightarrow> instant \<Rightarrow> (tr_reason, tx_view list \<times> page_meta) outcome"
where
  "findAll d q user now =
     (case getTransactionScope user of
        Inl e \<Rightarrow> (d, Inl e)
      | Inr sc \<Rightarrow>
          let page = (if tq_page q = 0 then 1 else tq_page q);
              limit = (if tq_limit q = 0 then 10 else tq_limit q);
              (rows, meta) = find_page page limit (findAllWhere sc q) createdAt (transactions d)
          in (tr_audit user ''TRANSACTIONS_LIST_VIEW'' None (JStr ''User viewed transaction list'') now d,
              Inr (map (current_view d) rows, meta)))"

text \<open>Here the scope check runs inside the try block, whose catch answers 500.\<close>

definition findActive :: "db \<Rightarrow> jwt_user \<Rightarrow> instant \<Rightarrow> (tr_reason, tx_view list) outcome" where
  "findActive d user now =
     (case getTransactionScope user :: tr_reason error + tx_scope of
        Inl e \<Rightarrow> (d, Inl (InternalError TR_LoadFailed))
      | Inr sc \<Rightarrow>
          (tr_audit user ''TRANSACTIONS_ACTIVE_VIEW'' None (JStr ''User viewed active transactions list'') now d,
           Inr (map (current_view d) (newest_first createdAt
             (filter (\<lambda>t. status t \<notin> {COMPLETED, CANCELLED} \<and> in_scope sc (processType t)) (transactions d))))))"

definition findOne ::
  "db \<Rightarrow> ident \<Rightarrow> jwt_user \<Rightarrow> instant \<Rightarrow> (tr_reason, tx_view \<times> fraud_check list) outcome"
where
  "findOne d i user now =
     (case getTransactionScope user of
        Inl e \<Rightarrow> (d, Inl e)
      | Inr sc \<Rightarrow>
          (case find_first (\<lambda>t. tx_id t = i \<and> in_scope sc (processType t)) (transactions d) of
             None \<Rightarrow> (d, Inl (NotFound TR_NotFound))
           | Some tx \<Rightarrow>
               (tr_audit user ''TRANSACTION_DETAIL_VIEW'' (Some i)
                  (JStr (''User viewed transaction details for '' @ transactionNumber tx)) now d,
                Inr (current_view d tx, filter (\<lambda>f. fc_transactionId f = i) (fraudChecks d)))))"

section \<open>Cancellation\<close>

definition trCancelled :: "string \<Rightarrow> jwt_user \<Rightarrow> instant \<Rightarrow> transaction \<Rightarrow> transaction" where
  "trCancelled reason user now t =
     t\<lparr>status := CANCELLED, cancelledAt := Some now, cancellationReason := Some reason,
       cancelledById := Some (ju_id user), revision := revision t + 1\<rparr>"

definition trCancelCommit ::
  "transaction \<Rightarrow> ident \<Rightarrow> string \<Rightarrow> jwt_user \<Rightarrow> instant \<Rightarrow> db \<Rightarrow> tr_reason error + db"
where
  "trCancelCommit tx i reason user now d =
     (let (d1, n) = claim i (\<lambda>t. revision t = revision tx \<and> status t \<notin> {CANCELLED, COMPLETED})
                      (trCancelled reason user now) d
      in if n \<noteq> 1 then Inl (Conflict TR_ConcurrencyConflict)
         else Inr (tr_audit user ''TRANSACTION_CANCELLED'' (Some i)
                     (JStr (''Transaction '' @ transactionNumber tx @ '' was cancelled by '' @ ju_email user @
                       ''. Reason: '' @ reason)) now
                     (add_history i (Some (status tx)) CANCELLED (Some (ju_id user))
                        (Some (''Cancelled: '' @ reason)) now d1)))"

text \<open>The response: the row with its history.\<close>

definition history_view :: "db \<Rightarrow> ident \<Rightarrow> (transaction \<times> status_history list) option" where
  "history_view d i =
     map_option (\<lambda>t. (t, filter (\<lambda>h. sh_transactionId h = i) (statusHistories d))) (find_tx d i)"

definition trCancel_at ::
  "transaction \<Rightarrow> ident \<Rightarrow> string \<Rightarrow> jwt_user \<Rightarrow> instant \<Rightarrow> db \<Rightarrow>
     (tr_reason, (transaction \<times> status_history list) option) outcome"
where
  "trCancel_at tx i reason user now d =
     (if status tx = CANCELLED then (d, Inl (BadRequest TR_AlreadyCancelled))
      else if status tx = COMPLETED then (d, Inl (BadRequest TR_Completed))
      else (case trCancelCommit tx i reason user now d of
          Inl e \<Rightarrow> (d, Inl e)
        | Inr d' \<Rightarrow> (d', Inr (history_view d' i))))"

definition trCancel ::
  "db \<Rightarrow> ident \<Rightarrow> string \<Rightarrow> jwt_user \<Rightarrow> instant \<Rightarrow> (tr_reason, (transaction \<times> status_history list) option) outcome"
where
  "trCancel d i reason user now =
     (case find_tx d i of None \<Rightarrow> (d, Inl (NotFound TR_NotFound)) | Some tx \<Rightarrow> trCancel_at tx i reason user now d)"

section \<open>Administrative void\<close>

record void_dto =
  vd_reasonCode :: string
  vd_reason :: string
  vd_expectedRevision :: nat

definition voided :: "transaction \<Rightarrow> void_dto \<Rightarrow> jwt_user \<Rightarrow> instant \<Rightarrow> transaction \<Rightarrow> transaction" where
  "voided tx dto user now t =
     t\<lparr>status := CANCELLED, isVoided := True, voidedAt := Some now, voidedById := Some (ju_id user),
       voidReasonCode := Some (vd_reasonCode dto), voidReason := Some (vd_reason dto),
       cancellationReason := Some (val_or (truthy_col (cancellationReason tx))
         (''[VOID: '' @ vd_reasonCode dto @ ''] '' @ vd_reason dto)),
       cancelledAt := Some (val_or (cancelledAt tx) now),
       cancelledById := Some (val_or (cancelledById tx) (ju_id user)), revision := revision t + 1\<rparr>"

definition voidDescription :: "transaction \<Rightarrow> void_dto \<Rightarrow> jsv" where
  "voidDescription tx dto =
     JObj [(''transactionNumber'', JStr (transactionNumber tx)), (''plateNumber'', JStr (plateNumber tx)),
           (''originalStatus'', JStr (status_name (status tx))), (''reasonCode'', JStr (vd_reasonCode dto)),
           (''reason'', JStr (vd_reason dto)), (''previousRevision'', JNum (of_nat (revision tx))),
           (''newRevision'', JNum (of_nat (revision tx + 1)))]"

definition voidCommit ::
  "transaction \<Rightarrow> ident \<Rightarrow> void_dto \<Rightarrow> jwt_user \<Rightarrow> instant \<Rightarrow> db \<Rightarrow> tr_reason error + db"
where
  "voidCommit tx i dto user now d =
     (let (d1, n) = claim i (\<lambda>t. revision t = vd_expectedRevision dto \<and> status t \<noteq> COMPLETED \<and> \<not> isVoided t)
                      (voided tx dto user now) d
      in if n \<noteq> 1 then Inl (Conflict TR_ConcurrencyConflict)
         else
           let d2 = (if status tx \<noteq> CANCELLED
                     then add_history i (Some (status tx)) CANCELLED (Some (ju_id user))
                            (Some (''[ADMIN_VOID] '' @ vd_reasonCode dto @ '': '' @ vd_reason dto)) now d1
                     else d1)
           in Inr (tr_audit user ''TRANSACTION_VOIDED'' (Some i) (voidDescription tx dto) now d2))"

definition voidTransaction_at ::
  "transaction \<Rightarrow> ident \<Rightarrow> void_dto \<Rightarrow> jwt_user \<Rightarrow> instant \<Rightarrow> db \<Rightarrow> (tr_reason, transaction option) outcome"
where
  "voidTransaction_at tx i dto user now d =
     (if status tx = COMPLETED then (d, Inl (BadRequest TR_Completed))
      else if isVoided tx then (d, Inr (Some tx))
      else (case voidCommit tx i dto user now d of
          Inl e \<Rightarrow> (d, Inl e)
        | Inr d' \<Rightarrow> (d', Inr (find_tx d' i))))"

definition voidTransaction ::
  "db \<Rightarrow> ident \<Rightarrow> void_dto \<Rightarrow> jwt_user \<Rightarrow> instant \<Rightarrow> (tr_reason, transaction option) outcome"
where
  "voidTransaction d i dto user now =
     (if ju_role user \<noteq> ADMIN then (d, Inl (Forbidden TR_NotAdmin))
      else (case find_tx d i of
          None \<Rightarrow> (d, Inl (NotFound TR_NotFound))
        | Some tx \<Rightarrow> voidTransaction_at tx i dto user now d))"

section \<open>Refinement\<close>

lemma tr_update_simps [simp]:
  "tx_key (trCancelled reason user now t) = tx_key t" "status (trCancelled reason user now t) = CANCELLED"
  "revision (trCancelled reason user now t) = Suc (revision t)"
  "processType (trCancelled reason user now t) = processType t" "isVoided (trCancelled reason user now t) = isVoided t"
  "tx_key (voided tx dto user now t) = tx_key t" "status (voided tx dto user now t) = CANCELLED"
  "revision (voided tx dto user now t) = Suc (revision t)" "processType (voided tx dto user now t) = processType t"
  "isVoided (voided tx dto user now t)"
  by (simp_all add: trCancelled_def voided_def tx_key_def)

lemma trCancel_commit:
  assumes "trCancelCommit tx i reason user now d = Inr d'" "db_ok d" "snapshot_ok tx i d"
    and "\<not> final_status (status tx)"
  shows "find_tx d i = Some tx \<and> find_tx d' i = Some (trCancelled reason user now tx) \<and> commit_step i d d'"
proof -
  obtain d1 d2 where c: "claim i (\<lambda>t. revision t = revision tx \<and> status t \<notin> {CANCELLED, COMPLETED})
      (trCancelled reason user now) d = (d1, 1)"
    and d2: "d2 = add_history i (Some (status tx)) CANCELLED (Some (ju_id user)) (Some (''Cancelled: '' @ reason)) now d1"
    and same: "same_data d2 d'"
    using assms(1) by (auto simp: trCancelCommit_def split: prod.splits if_splits)
  have "find_tx d i = Some tx \<and> find_tx d2 i = Some (trCancelled reason user now tx) \<and> commit_step i d d2"
    using move_commit [OF c refl d2 assms(2,3)] truck_step.cancel [of "truck_for d i tx"] assms(4) by simp
  then show ?thesis using same same_data_views(1) [OF same] commit_step_quiet by simp blast
qed

lemma trCancel_at_commits:
  assumes "db_ok d" "snapshot_ok tx i d"
  shows "commits tx i d (trCancel_at tx i reason user now d)"
proof (cases "final_status (status tx)")
  case True
  then show ?thesis by (auto simp: trCancel_at_def final_status_def)
next
  case False
  then have eq: "trCancel_at tx i reason user now d = (case trCancelCommit tx i reason user now d of
      Inl e \<Rightarrow> (d, Inl e) | Inr d' \<Rightarrow> (d', Inr (history_view d' i)))"
    by (simp add: trCancel_at_def final_status_def)
  show ?thesis unfolding eq
    by (rule commits_respond_plain) (simp_all add: trCancel_commit [OF _ assms False])
qed

text \<open>
  The void claims on the revision the client sent. It is the revision that was read unless the
  client sends a revision from the future, so the hypothesis is that it does not.
\<close>

lemma void_commit:
  assumes "voidCommit tx i dto user now d = Inr d'" "db_ok d"
    and "snapshot_ok tx i d" "vd_expectedRevision dto = revision tx" "\<not> isVoided tx" "status tx \<noteq> COMPLETED"
  shows "find_tx d i = Some tx \<and> find_tx d' i = Some (voided tx dto user now tx) \<and> commit_step i d d'"
proof -
  let ?g = "\<lambda>t. revision t = vd_expectedRevision dto \<and> status t \<noteq> COMPLETED \<and> \<not> isVoided t"
  let ?f = "voided tx dto user now"
  obtain d1 d2 where c: "claim i ?g ?f d = (d1, 1)"
    and d2: "d2 = (if status tx \<noteq> CANCELLED then add_history i (Some (status tx)) CANCELLED (Some (ju_id user))
        (Some (''[ADMIN_VOID] '' @ vd_reasonCode dto @ '': '' @ vd_reason dto)) now d1 else d1)"
    and same: "same_data d2 d'"
    using assms(1) by (auto simp: voidCommit_def Let_def split: prod.splits if_splits)
  let ?k = "truck_for d i tx"
  let ?k' = "(if status tx = CANCELLED then bump ?k else move CANCELLED ?k)\<lparr>tk_voided := True\<rparr>"
  have "find_tx d i = Some tx \<and> ?g tx \<and> find_tx d2 i = Some (?f tx) \<and> row_only d d1 \<and> commit_step i d d2"
  proof (rule claim_commit [OF c refl assms(2,3)])
    show "truck_for d2 i (?f tx) = ?k'" if "row_only d d1"
    proof (cases "status tx = CANCELLED")
      case True
      then show ?thesis by (simp add: d2 row_only [OF that] bump_def) (simp add: truck_for_def)
    next
      case False
      then show ?thesis by (simp add: d2 row_only [OF that] move_def bump_def) (simp add: truck_for_def)
    qed
    show "local_to i d1 d2" unfolding d2 by (auto intro: local_to_history)
    show "truck_step ?k ?k'"
      using truck_step.void [of ?k] assms(5,6) by simp
  qed (use assms(4) in \<open>simp_all add: d2\<close>)
  then show ?thesis using same same_data_views(1) [OF same] commit_step_quiet by simp blast
qed

lemma voidTransaction_at_commits:
  assumes "db_ok d" "snapshot_ok tx i d" "vd_expectedRevision dto = revision tx"
  shows "if isVoided tx \<and> status tx \<noteq> COMPLETED then voidTransaction_at tx i dto user now d = (d, Inr (Some tx))
    else commits tx i d (voidTransaction_at tx i dto user now d)"
proof (cases "isVoided tx \<or> status tx = COMPLETED")
  case True
  then show ?thesis by (auto simp: voidTransaction_at_def)
next
  case False
  then have eq: "voidTransaction_at tx i dto user now d = (case voidCommit tx i dto user now d of
      Inl e \<Rightarrow> (d, Inl e) | Inr d' \<Rightarrow> (d', Inr (find_tx d' i)))"
    by (simp add: voidTransaction_at_def)
  have "commits tx i d (voidTransaction_at tx i dto user now d)"
    unfolding eq using void_commit [OF _ assms] False by (intro commits_respond_plain) simp_all
  then show ?thesis using False by auto
qed

section \<open>Properties\<close>

text \<open>
  Cancelling through the transactions endpoint works exactly for transactions that are not
  final: one step to CANCELLED with a history row that names the status before; a COMPLETED or
  CANCELLED one is refused with 400, an unknown one with 404, and nothing changes.
\<close>
lemma trCancel_correct:
  assumes "db_ok d"
  shows "case find_tx d i of
      None \<Rightarrow> trCancel d i reason user now = (d, Inl (NotFound TR_NotFound))
    | Some tx \<Rightarrow>
        if final_status (status tx) then \<exists>e. trCancel d i reason user now = (d, Inl e) \<and> http_status e = 400
        else \<exists>d' v t. trCancel d i reason user now = (d', Inr v) \<and> commit_step i d d' \<and> find_tx d' i = Some t \<and>
          status t = CANCELLED \<and> cancellationReason t = Some reason \<and>
          history_of d' i = history_of d i @ [(Some (status tx), CANCELLED)]"
proof (cases "find_tx d i")
  case (Some tx)
  note snap = snapshot_current [OF Some]
  show ?thesis
  proof (cases "final_status (status tx)")
    case True
    then show ?thesis using Some by (auto simp: trCancel_def trCancel_at_def final_status_def)
  next
    case False
    have "snd (claim i (\<lambda>t. revision t = revision tx \<and> status t \<notin> {CANCELLED, COMPLETED}) f d) = 1" for f
      using Some assms False by (subst claim_count) (auto simp: db_ok_def final_status_def)
    then obtain d' where c: "trCancelCommit tx i reason user now d = Inr d'"
      by (simp add: trCancelCommit_def case_prod_unfold)
    then have h: "history_of d' i = history_of d i @ [(Some (status tx), CANCELLED)]"
      by (auto simp: trCancelCommit_def tr_audit_def history_of_def add_history_def claim_def Let_def
          split: prod.splits if_splits)
    have "trCancel d i reason user now = (d', Inr (history_view d' i))"
      using False by (auto simp: trCancel_def Some trCancel_at_def final_status_def c)
    then show ?thesis
      using trCancel_commit [OF c assms snap False] h Some False by (auto simp: trCancelled_def)
  qed
qed (simp add: trCancel_def)

text \<open>
  C18. The administrative void. Only an ADMIN may void, and not a COMPLETED transaction; voiding a
  voided one again changes nothing and succeeds. Otherwise the void succeeds exactly when the
  client's expected revision is the stored one: the transaction becomes CANCELLED and voided, with
  a history row unless it was CANCELLED already, and keeps an earlier cancellation reason.
\<close>
theorem voidTransaction_correct:
  assumes "db_ok d" and "find_tx d i = Some tx"
  shows "(ju_role user \<noteq> ADMIN \<longrightarrow> voidTransaction d i dto user now = (d, Inl (Forbidden TR_NotAdmin))) \<and>
    (ju_role user = ADMIN \<longrightarrow>
      (if status tx = COMPLETED then voidTransaction d i dto user now = (d, Inl (BadRequest TR_Completed))
       else if isVoided tx then voidTransaction d i dto user now = (d, Inr (Some tx))
       else if vd_expectedRevision dto \<noteq> revision tx
         then voidTransaction d i dto user now = (d, Inl (Conflict TR_ConcurrencyConflict))
       else \<exists>d' t. voidTransaction d i dto user now = (d', Inr (Some t)) \<and> commit_step i d d' \<and>
         find_tx d' i = Some t \<and> status t = CANCELLED \<and> isVoided t \<and> voidReason t = Some (vd_reason dto) \<and>
         (\<forall>r. cancellationReason tx = Some r \<and> r \<noteq> [] \<longrightarrow> cancellationReason t = Some r) \<and>
         history_of d' i = history_of d i @ (if status tx = CANCELLED then [] else [(Some (status tx), CANCELLED)])))"
proof (cases "ju_role user = ADMIN \<and> status tx \<noteq> COMPLETED \<and> \<not> isVoided tx")
  case True
  have cnt: "snd (claim i (\<lambda>t. revision t = vd_expectedRevision dto \<and> status t \<noteq> COMPLETED \<and> \<not> isVoided t) f d) =
      (if revision tx = vd_expectedRevision dto then 1 else 0)" for f
    using assms True by (subst claim_count) (auto simp: db_ok_def)
  show ?thesis
  proof (cases "vd_expectedRevision dto = revision tx")
    case False
    then have "voidCommit tx i dto user now d = Inl (Conflict TR_ConcurrencyConflict)"
      using cnt by (simp add: voidCommit_def case_prod_unfold Let_def)
    then show ?thesis using True False by (simp add: voidTransaction_def assms(2) voidTransaction_at_def)
  next
    case rev: True
    obtain d' where c: "voidCommit tx i dto user now d = Inr d'"
      using cnt rev by (simp add: voidCommit_def case_prod_unfold Let_def)
    have h: "history_of d' i = history_of d i @ (if status tx = CANCELLED then [] else [(Some (status tx), CANCELLED)])"
      using c by (auto simp: voidCommit_def tr_audit_def history_of_def add_history_def claim_def Let_def
          split: prod.splits if_splits)
    have com: "find_tx d' i = Some (voided tx dto user now tx)" "commit_step i d d'"
      using void_commit [OF c assms(1) snapshot_current [OF assms(2)] rev] True by blast+
    have "voidTransaction d i dto user now = (d', Inr (Some (voided tx dto user now tx)))"
      using True by (simp add: voidTransaction_def assms(2) voidTransaction_at_def c com)
    then show ?thesis using com h True rev by (auto simp: voided_def truthy_col_def)
  qed
next
  case False
  then show ?thesis by (auto simp: voidTransaction_def assms(2) voidTransaction_at_def)
qed

definition may_see :: "jwt_user \<Rightarrow> process_type \<Rightarrow> bool" where
  "may_see user p \<longleftrightarrow> assertProcessAccess user p = (None :: unit error option)"

lemma scope_may_see:
  assumes "getTransactionScope user = (Inr s :: tr_reason error + tx_scope)" and "in_scope s p"
  shows "may_see user p"
  using assms by (auto simp: may_see_def getTransactionScope_def assertScopeNotEmpty_def
      assertProcessAccess_None_iff split: if_splits)

lemma scope_refused:
  assumes "getTransactionScope user = (Inl e :: tr_reason error + tx_scope)"
  shows "http_status e = 403 \<and> (ju_role user = WAREHOUSE \<or> ju_role user = QC) \<and> ju_warehouseAccess user = []"
  using assms by (auto simp: getTransactionScope_def assertScopeNotEmpty_def split: if_splits)

lemma current_view_transaction [simp]: "tv_transaction (current_view d t) = t"
  by (simp add: current_view_def Let_def)

lemma findAll_rows:
  assumes "findAll d q user now = (d', Inr (rows, meta))"
  shows "same_data d d' \<and> (\<forall>r \<in> set rows. tv_transaction r \<in> set (transactions d) \<and>
    may_see user (processType (tv_transaction r)))"
proof -
  obtain sc rows0 page limit where sc: "getTransactionScope user = (Inr sc :: tr_reason error + tx_scope)"
    and fp: "fst (find_page page limit (findAllWhere sc q) createdAt (transactions d)) = rows0"
    and rows: "rows = map (current_view d) rows0" and d': "same_data d d'"
    using assms by (auto simp: findAll_def case_prod_unfold Let_def split: sum.splits)
  have "t \<in> set (transactions d) \<and> in_scope sc (processType t)" if "t \<in> set rows0" for t
    using find_page_rows [of t page limit "findAllWhere sc q" createdAt "transactions d"] that
    by (simp add: fp findAllWhere_def)
  then show ?thesis using d' scope_may_see [OF sc] by (auto simp: rows)
qed

lemma findActive_rows:
  assumes "findActive d user now = (d', Inr rows)"
  shows "same_data d d' \<and> (\<forall>r \<in> set rows. tv_transaction r \<in> set (transactions d) \<and>
    \<not> final_status (status (tv_transaction r)) \<and> may_see user (processType (tv_transaction r)))"
  using assms scope_may_see by (auto simp: findActive_def final_status_def split: sum.splits)

lemma findOne_row:
  assumes "findOne d i user now = (d', Inr (r, fs))"
  shows "same_data d d' \<and> find_first (\<lambda>t. tx_id t = i) (transactions d) \<noteq> None \<and> tx_id (tv_transaction r) = i \<and>
    may_see user (processType (tv_transaction r))"
  using assms scope_may_see
  by (auto simp: findOne_def find_first_None_iff dest!: find_first_SomeD split: sum.splits option.splits)


end
