(* ===== verification/Gms_System.thy ===== *)
theory Gms_System
  imports Gms_Corrected Gms_Weighbridge Gms_Gate Gms_Qc Gms_Warehouse Gms_Transactions
begin

text \<open>
  The endpoints that change one transaction, as one request type, and the system that serves them
  concurrently. A request is read first (the transaction row, and what the handler loads with it)
  and committed later; between the two, other requests commit. The invariant of the system is that
  of the database plus: what a pending request holds is the stored row or an older revision of it.
\<close>

section \<open>Requests\<close>

datatype op =
    CheckOut
  | GateCancel string
  | WeighIn weigh_dto
  | WeighOut weigh_dto
  | StartQc
  | VehicleCheck vehicle_check_dto
  | IncomingCheck incoming_check_dto
  | CompleteAnalysis "string field"
  | StartWarehouse start_dto
  | CompleteWarehouse complete_dto
  | WarehouseIncoming wh_incoming_dto
  | CancelTx string
  | VoidTx void_dto

text \<open>The \<open>@Roles\<close> lists of the controllers.\<close>

fun op_roles :: "op \<Rightarrow> role list" where
  "op_roles CheckOut = [SECURITY]"
| "op_roles (GateCancel _) = [SECURITY]"
| "op_roles (WeighIn _) = [ADMIN, SECURITY]"
| "op_roles (WeighOut _) = [ADMIN, SECURITY]"
| "op_roles StartQc = [QC]"
| "op_roles (VehicleCheck _) = [QC]"
| "op_roles (IncomingCheck _) = [QC]"
| "op_roles (CompleteAnalysis _) = [QC, ADMIN]"
| "op_roles (StartWarehouse _) = [ADMIN, WAREHOUSE]"
| "op_roles (CompleteWarehouse _) = [ADMIN, WAREHOUSE]"
| "op_roles (WarehouseIncoming _) = [ADMIN, WAREHOUSE]"
| "op_roles (CancelTx _) = [ADMIN, SECURITY]"
| "op_roles (VoidTx _) = [ADMIN]"

text \<open>An answer: no error, or the HTTP status of the exception.\<close>

definition answer :: "('r, 'a) outcome \<Rightarrow> db \<times> nat option" where
  "answer res = (fst res, case snd res of Inl e \<Rightarrow> Some (http_status e) | Inr _ \<Rightarrow> None)"

record pending =
  pn_tx :: transaction
  pn_submitted :: bool
  pn_id :: ident
  pn_user :: jwt_user
  pn_op :: op

text \<open>
  The reading half: the row, the scope check of the QC handlers, and whether a check of the kind
  to submit was already there.
\<close>

definition row_of :: "db \<Rightarrow> ident \<Rightarrow> nat + transaction \<times> bool" where
  "row_of d i = (case find_tx d i of None \<Rightarrow> Inl 404 | Some tx \<Rightarrow> Inr (tx, False))"

definition scoped_row :: "db \<Rightarrow> ident \<Rightarrow> jwt_user \<Rightarrow> bool \<Rightarrow> nat + transaction \<times> bool" where
  "scoped_row d i user submitted =
     (case findTransactionWithAccess d i (Some user) of
        Inl e \<Rightarrow> Inl (http_status e) | Inr tx \<Rightarrow> Inr (tx, submitted))"

fun reads :: "db \<Rightarrow> ident \<Rightarrow> jwt_user \<Rightarrow> op \<Rightarrow> nat + transaction \<times> bool" where
  "reads d i user (VoidTx dto) = (if ju_role user \<noteq> ADMIN then Inl 403 else row_of d i)"
| "reads d i user (CompleteWarehouse dto) =
     (if nullish (cd_actualWeight dto) \<and> nullish (cd_actualQuantity dto) then Inl 400 else row_of d i)"
| "reads d i user StartQc = scoped_row d i user False"
| "reads d i user (VehicleCheck dto) = scoped_row d i user (filter (current_row i) (qcVehicleChecks d) \<noteq> [])"
| "reads d i user (IncomingCheck dto) =
     scoped_row d i user (filter (current_row i) (incomingMaterialChecks d) \<noteq> [])"
| "reads d i user (CompleteAnalysis rem) = scoped_row d i user False"
| "reads d i user _ = row_of d i"

text \<open>The rest of the handler, on what was read; \<open>nt\<close> is the text of a number.\<close>

definition writes :: "(num \<Rightarrow> string) \<Rightarrow> pending \<Rightarrow> instant \<Rightarrow> db \<Rightarrow> db \<times> nat option" where
  "writes nt p now d =
     (let tx = pn_tx p; i = pn_id p; user = pn_user p
      in case pn_op p of
           CheckOut \<Rightarrow> answer (checkOut_at tx i user now d)
         | GateCancel reason \<Rightarrow> answer (cancel_at tx i reason user now d)
         | WeighIn dto \<Rightarrow> answer (submitWeighIn_at tx i dto user now d)
         | WeighOut dto \<Rightarrow> answer (submitWeighOut_at tx i dto user now d)
         | StartQc \<Rightarrow> answer (startQc_at tx i (ju_id user) now d)
         | VehicleCheck dto \<Rightarrow> answer (submitVehicleCheck_at tx (pn_submitted p) i dto (ju_id user) now d)
         | IncomingCheck dto \<Rightarrow> answer (submitIncomingCheck_at tx (pn_submitted p) i dto (ju_id user) now d)
         | CompleteAnalysis rem \<Rightarrow> answer (completeQcAnalysis_at tx i user rem now d)
         | StartWarehouse dto \<Rightarrow> answer (startWarehouse_at tx i dto user now d)
         | CompleteWarehouse dto \<Rightarrow> answer (completeWarehouse_at nt tx i dto user now d)
         | WarehouseIncoming dto \<Rightarrow> answer (whSubmitIncomingCheck_at tx i dto user now d)
         | CancelTx reason \<Rightarrow> answer (trCancel_at tx i reason user now d)
         | VoidTx dto \<Rightarrow> answer (voidTransaction_at tx i dto user now d))"

text \<open>A request that nothing disturbs.\<close>

definition serve :: "(num \<Rightarrow> string) \<Rightarrow> db \<Rightarrow> ident \<Rightarrow> jwt_user \<Rightarrow> op \<Rightarrow> instant \<Rightarrow> db \<times> nat option" where
  "serve nt d i user r now =
     (case reads d i user r of
        Inl c \<Rightarrow> (d, Some c)
      | Inr (tx, b) \<Rightarrow>
          writes nt \<lparr>pn_tx = tx, pn_submitted = b, pn_id = i, pn_user = user, pn_op = r\<rparr> now d)"

text \<open>The handlers of the services, undivided.\<close>

definition handler :: "(num \<Rightarrow> string) \<Rightarrow> db \<Rightarrow> ident \<Rightarrow> jwt_user \<Rightarrow> op \<Rightarrow> instant \<Rightarrow> db \<times> nat option" where
  "handler nt d i user r now =
     (case r of
        CheckOut \<Rightarrow> answer (checkOut d i user now)
      | GateCancel reason \<Rightarrow> answer (cancelTransaction d i reason user now)
      | WeighIn dto \<Rightarrow> answer (submitWeighIn d i dto user now)
      | WeighOut dto \<Rightarrow> answer (submitWeighOut d i dto user now)
      | StartQc \<Rightarrow> answer (startQc d i (ju_id user) (Some user) now)
      | VehicleCheck dto \<Rightarrow> answer (submitVehicleCheck d i dto (ju_id user) (Some user) now)
      | IncomingCheck dto \<Rightarrow> answer (submitIncomingCheck d i dto (ju_id user) (Some user) now)
      | CompleteAnalysis rem \<Rightarrow> answer (completeQcAnalysis d i user rem now)
      | StartWarehouse dto \<Rightarrow> answer (startWarehouse d i dto user now)
      | CompleteWarehouse dto \<Rightarrow> answer (completeWarehouse nt d i dto user now)
      | WarehouseIncoming dto \<Rightarrow> answer (whSubmitIncomingCheck d i dto user now)
      | CancelTx reason \<Rightarrow> answer (trCancel d i reason user now)
      | VoidTx dto \<Rightarrow> answer (voidTransaction d i dto user now))"

lemma answer_simps [simp]:
  "answer (d, Inl e) = (d, Some (http_status e))" "answer (d, Inr v) = (d, None)"
  by (simp_all add: answer_def)

lemma serve_is_handler: "serve nt d i user r now = handler nt d i user r now"
  by (cases r)
    (auto simp: serve_def handler_def row_of_def scoped_row_def writes_def checkOut_def cancelTransaction_def submitWeighIn_def
      submitWeighOut_def startQc_def submitVehicleCheck_def submitIncomingCheck_def completeQcAnalysis_def
      startWarehouse_def completeWarehouse_def whSubmitIncomingCheck_def trCancel_def voidTransaction_def
      split: option.splits sum.splits)


section \<open>What a pending request may rely on\<close>

text \<open>A client cannot know a revision that the row does not have yet.\<close>

definition pending_ok :: "db \<Rightarrow> pending \<Rightarrow> bool" where
  "pending_ok d p \<longleftrightarrow> tx_id (pn_tx p) = pn_id p \<and>
     (\<exists>t. find_tx d (pn_id p) = Some t \<and> (t = pn_tx p \<or> revision (pn_tx p) < revision t)) \<and>
     (\<forall>dto. pn_op p = VoidTx dto \<longrightarrow> vd_expectedRevision dto \<le> revision (pn_tx p))"

lemma pending_snapshot: "pending_ok d p \<Longrightarrow> snapshot_ok (pn_tx p) (pn_id p) d"
  by (auto simp: pending_ok_def snapshot_ok_def)

lemma pending_step:
  assumes "pending_ok d p" "db_ok d" "db_step d d'"
  shows "pending_ok d' p"
  using assms(1) occ.row_step [OF assms(2,3), of "pn_id p"] unfolding pending_ok_def by fastforce

lemma scoped_row_tx: "scoped_row d i user b = Inr (tx, c) \<Longrightarrow> find_tx d i = Some tx"
  by (auto simp: scoped_row_def findTransactionWithAccess_def split: option.splits sum.splits if_splits)

lemma reads_tx: "reads d i user r = Inr (tx, b) \<Longrightarrow> find_tx d i = Some tx"
  by (cases r) (auto simp: row_of_def dest: scoped_row_tx split: if_splits option.splits)

lemma reads_pending:
  assumes "reads d i user r = Inr (tx, b)"
    and "\<And>dto. r = VoidTx dto \<Longrightarrow> vd_expectedRevision dto \<le> revision tx"
  shows "pending_ok d \<lparr>pn_tx = tx, pn_submitted = b, pn_id = i, pn_user = user, pn_op = r\<rparr>"
  using reads_tx [OF assms(1)] assms(2) find_tx_SomeD by (fastforce simp: pending_ok_def)

text \<open>What the commit half may do, as HTTP answer: refuse, or commit on the row that was read.\<close>

definition serves :: "pending \<Rightarrow> db \<Rightarrow> db \<times> nat option \<Rightarrow> bool" where
  "serves p d res \<longleftrightarrow> (case snd res of
       Some c \<Rightarrow> same_data d (fst res)
     | None \<Rightarrow> find_tx d (pn_id p) = Some (pn_tx p) \<and> commit_step (pn_id p) d (fst res) \<or>
         fst res = d \<and> isVoided (pn_tx p) \<and> (\<exists>dto. pn_op p = VoidTx dto))"

lemma commits_serves: "commits (pn_tx p) (pn_id p) d res \<Longrightarrow> serves p d (answer res)"
  by (cases res; cases "snd res") (auto simp: serves_def)

lemma stale_void:
  assumes "db_ok d" "pending_ok d p" "vd_expectedRevision dto < revision (pn_tx p)"
    "\<not> isVoided (pn_tx p)" "status (pn_tx p) \<noteq> COMPLETED"
  shows "voidTransaction_at (pn_tx p) (pn_id p) dto user now d = (d, Inl (Conflict TR_ConcurrencyConflict))"
proof -
  obtain t where t: "find_tx d (pn_id p) = Some t" "revision (pn_tx p) \<le> revision t"
    using assms(2) by (auto simp: pending_ok_def)
  have "snd (claim (pn_id p) (\<lambda>t. revision t = vd_expectedRevision dto \<and> status t \<noteq> COMPLETED \<and> \<not> isVoided t) f d) = 0" for f
    using assms(1,3) t by (subst claim_count) (auto simp: db_ok_def)
  then show ?thesis using assms(4,5) by (simp add: voidTransaction_at_def voidCommit_def case_prod_unfold Let_def)
qed

lemma void_serves:
  assumes "db_ok d" "pending_ok d p" "pn_op p = VoidTx dto"
  shows "serves p d (answer (voidTransaction_at (pn_tx p) (pn_id p) dto (pn_user p) now d))"
proof (cases "isVoided (pn_tx p) \<or> status (pn_tx p) = COMPLETED")
  case True
  then show ?thesis using assms(3) by (auto simp: voidTransaction_at_def serves_def)
next
  case False
  show ?thesis
  proof (cases "vd_expectedRevision dto = revision (pn_tx p)")
    case True
    have "commits (pn_tx p) (pn_id p) d (voidTransaction_at (pn_tx p) (pn_id p) dto (pn_user p) now d)"
      using voidTransaction_at_commits [OF assms(1) pending_snapshot [OF assms(2)] True] False by presburger
    then show ?thesis by (rule commits_serves)
  next
    case neq: False
    then have "vd_expectedRevision dto < revision (pn_tx p)" using assms(2,3) by (auto simp: pending_ok_def)
    then show ?thesis using stale_void [OF assms(1,2)] False by (simp add: serves_def)
  qed
qed

lemmas at_commits = checkOut_at_commits cancel_at_commits submitWeighIn_at_commits submitWeighOut_at_commits
  startQc_at_commits submitVehicleCheck_at_commits submitIncomingCheck_at_commits completeQcAnalysis_at_commits
  startWarehouse_at_commits completeWarehouse_at_commits whSubmitIncomingCheck_at_commits trCancel_at_commits

lemma writes_serves:
  assumes "db_ok d" "pending_ok d p"
  shows "serves p d (writes nt p now d)"
proof -
  have id: "tx_id (pn_tx p) = pn_id p" using assms(2) by (simp add: pending_ok_def)
  note c = at_commits [OF assms(1) pending_snapshot [OF assms(2)], THEN commits_serves]
  show ?thesis
    by (cases "pn_op p")
      (simp_all add: writes_def c submitVehicleCheck_at_commits [OF assms(1) pending_snapshot [OF assms(2)] id,
         THEN commits_serves] void_serves [OF assms])
qed

lemma serves_step: "serves p d res \<Longrightarrow> db_step d (fst res)"
  by (auto simp: serves_def intro: db_step.intros same_data_untouched split: option.splits)


section \<open>The system\<close>

record sys =
  sy_db :: db
  sy_pending :: "pending list"

text \<open>
  A request passes the role guard and reads; a pending request commits; a truck is checked in; the
  operation log is corrected; or some other service (users, settings, attachments, a listing) runs.
\<close>

inductive sys_step :: "(num \<Rightarrow> string) \<Rightarrow> sys \<Rightarrow> sys \<Rightarrow> bool" for nt where
  sys_read: "snd (roles_guard (Some user) (Some (op_roles r)) url meth now (sy_db s)) = Inr True \<Longrightarrow>
     reads (sy_db s) i user r = Inr (tx, b) \<Longrightarrow>
     (\<And>dto. r = VoidTx dto \<Longrightarrow> vd_expectedRevision dto \<le> revision tx) \<Longrightarrow>
     sys_step nt s (s\<lparr>sy_pending :=
       \<lparr>pn_tx = tx, pn_submitted = b, pn_id = i, pn_user = user, pn_op = r\<rparr> # sy_pending s\<rparr>)"
| sys_write: "p \<in> set (sy_pending s) \<Longrightarrow> writes nt p now (sy_db s) = (d', c) \<Longrightarrow>
     sys_step nt s (s\<lparr>sy_db := d', sy_pending := remove1 p (sy_pending s)\<rparr>)"
| sys_checkIn: "0 \<le> now \<Longrightarrow> checkIn env (sy_db s) dto user now = (d', res) \<Longrightarrow>
     sys_step nt s (s\<lparr>sy_db := d'\<rparr>)"
| sys_correct: "snd (roles_guard (Some user) (Some [ADMIN]) url meth now (sy_db s)) = Inr True \<Longrightarrow>
     correctOperationLog cl year hex (sy_db s) i dto user ip now = (d', res) \<Longrightarrow>
     sys_step nt s (s\<lparr>sy_db := d'\<rparr>)"
| sys_other: "untouched (sy_db s) d' \<Longrightarrow> sys_step nt s (s\<lparr>sy_db := d'\<rparr>)"

inductive_cases sys_stepE: "sys_step nt s s'"

definition sys_start :: "sys \<Rightarrow> bool" where
  "sys_start s \<longleftrightarrow> initial_db (sy_db s) \<and> sy_pending s = []"

definition authorised :: "pending \<Rightarrow> bool" where
  "authorised p \<longleftrightarrow> ju_role (pn_user p) = ADMIN \<or> ju_role (pn_user p) \<in> set (op_roles (pn_op p))"

definition sys_ok :: "sys \<Rightarrow> bool" where
  "sys_ok s \<longleftrightarrow> db_ok (sy_db s) \<and> (\<forall>p \<in> set (sy_pending s). pending_ok (sy_db s) p \<and> authorised p)"

lemma guard_authorised:
  "snd (roles_guard (Some u) (Some rs) url meth now d) = Inr True \<longleftrightarrow> ju_role u = ADMIN \<or> rs = [] \<or> ju_role u \<in> set rs"
  by (auto simp: roles_guard_def list_ex_iff)

lemma op_roles_some [simp]: "op_roles r \<noteq> []"
  by (cases r) simp_all

text \<open>A change of the data keeps what every pending request relies on.\<close>

lemma sys_ok_db:
  assumes "sys_ok s" "db_step (sy_db s) d'" "set ps \<subseteq> set (sy_pending s)"
  shows "sys_ok (s\<lparr>sy_db := d', sy_pending := ps\<rparr>)"
  using assms db_step_ok pending_step unfolding sys_ok_def by fastforce

lemma sys_step_db: "sys_ok s \<Longrightarrow> sys_step nt s s' \<Longrightarrow> db_step (sy_db s) (sy_db s')"
proof (elim sys_stepE)
  fix p now d' c
  assume "sys_ok s" "p \<in> set (sy_pending s)" "writes nt p now (sy_db s) = (d', c)"
    "s' = s\<lparr>sy_db := d', sy_pending := remove1 p (sy_pending s)\<rparr>"
  then show ?thesis
    using serves_step [OF writes_serves, of "sy_db s" p nt now] by (simp add: sys_ok_def)
next
  fix now env dto user d' res
  assume "sys_ok s" "0 \<le> now" "checkIn env (sy_db s) dto user now = (d', res)" "s' = s\<lparr>sy_db := d'\<rparr>"
  then show ?thesis
    using checkIn_step [of "sy_db s" now env dto user]
    by (cases res) (auto simp: sys_ok_def intro: db_step.intros)
next
  fix cl year hex i dto user ip now d' res
  assume "sys_ok s" "correctOperationLog cl year hex (sy_db s) i dto user ip now = (d', res)" "s' = s\<lparr>sy_db := d'\<rparr>"
  then show ?thesis
    using correctOperationLog_step [of "sy_db s" cl year hex i dto user ip now] by (simp add: sys_ok_def)
qed (auto intro: db_step.intros)

lemma sys_step_ok:
  assumes "sys_ok s" "sys_step nt s s'"
  shows "sys_ok s'"
  using assms(2)
proof cases
  case (sys_read user r url meth now i tx b)
  then show ?thesis
    using assms(1) reads_pending [of "sy_db s" i user r tx b] guard_authorised [of user "op_roles r"]
    by (auto simp: sys_ok_def authorised_def)
next
  case (sys_write p now d' c)
  then show ?thesis
    using sys_ok_db [OF assms(1), of d' "remove1 p (sy_pending s)"] sys_step_db [OF assms]
    by (simp add: set_remove1_subset)
next
  case (sys_checkIn now env dto user d' res)
  then show ?thesis
    using sys_ok_db [OF assms(1), of d' "sy_pending s"] sys_step_db [OF assms] by simp
next
  case (sys_correct user url meth now cl year hex i dto ip d' res)
  then show ?thesis
    using sys_ok_db [OF assms(1), of d' "sy_pending s"] sys_step_db [OF assms] by simp
next
  case (sys_other d')
  then show ?thesis
    using sys_ok_db [OF assms(1), of d' "sy_pending s"] sys_step_db [OF assms] by simp
qed

lemma sys_start_ok: "sys_start s \<Longrightarrow> sys_ok s"
  by (simp add: sys_start_def sys_ok_def initial_db_ok)

interpretation sys: invariant_system sys_start "sys_step nt" sys_ok for nt
  by unfold_locales (auto intro: sys_start_ok sys_step_ok)

lemma find_first_unique:
  "t \<in> set ts \<Longrightarrow> distinct (map f ts) \<Longrightarrow> find_first (\<lambda>r. f r = f t) ts = Some t"
  by (induction ts) (auto simp: find_first_def image_iff)

lemma truck_of_row:
  "t \<in> set (transactions d) \<Longrightarrow> tx_ids_distinct d \<Longrightarrow> truck_of d (tx_id t) = Some (truck_for d (tx_id t) t)"
  using find_first_unique [of t "transactions d" tx_id]
  by (simp add: truck_of_def find_tx_def tx_ids_distinct_def)

lemma row_truck_ok: "db_ok d \<Longrightarrow> t \<in> set (transactions d) \<Longrightarrow> truck_ok (truck_for d (tx_id t) t)"
  using truck_of_row [of t d] by (auto simp: db_ok_def)



end
