(* ===== verification/Gms_Scenario.thy ===== *)
theory Gms_Scenario
  imports Gms_System
begin

text \<open>
  One truck's visit, from an empty plant through every stage to the gate: the concrete databases
  at which the properties are applied. The visit is evaluated once; that each database of it
  satisfies the invariant follows from the steps.
\<close>

section \<open>A visit\<close>

definition boss :: jwt_user where
  "boss = \<lparr>ju_id = 0, ju_email = ''admin@plant'', ju_name = ''Admin'', ju_role = ADMIN, ju_warehouseAccess = []\<rparr>"

definition keeper :: jwt_user where
  "keeper = \<lparr>ju_id = 0, ju_email = ''wh@plant'', ju_name = ''Keeper'', ju_role = WAREHOUSE, ju_warehouseAccess = [GBB]\<rparr>"

definition arrival :: "string \<Rightarrow> process_type \<Rightarrow> checkin_dto" where
  "arrival plate p =
     \<lparr>ci_plateNumber = plate, ci_driverName = ''Budi'', ci_driverPhone = ''0812'',
      ci_vendorName = ''Kopi'', ci_vehicleType = ''Truck'', ci_processType = p, ci_cargoType = ''Beans'',
      ci_cargoSubType = Undefined, ci_cargoProcessType = INBOUND, ci_suratJalanNumber = Undefined,
      ci_poNumber = Undefined, ci_permitCardNumber = Undefined, ci_guestIdNumber = Undefined,
      ci_remarks = Undefined\<rparr>"

definition weight :: "num \<Rightarrow> weigh_dto" where
  "weight w = \<lparr>wd_weight = w, wd_ticketNumber = Undefined, wd_remarks = Undefined\<rparr>"

definition clean_truck :: vehicle_check_dto where
  "clean_truck = \<lparr>vc_result = QC_PASS, vc_decisionMode = Undefined, vc_deviationReason = Undefined,
     vc_vehicleCleanliness = Value True, vc_vehicleOdor = Value True, vc_pestEvidence = Value True,
     vc_vehicleCondition = Value True, vc_documentCompleteness = Value True, vc_sealCondition = Value True,
     vc_notes = Undefined, vc_checklistItems = Undefined\<rparr>"

definition loading :: start_dto where
  "loading = \<lparr>sd_suratJalanNumber = Undefined, sd_poNumber = Undefined, sd_remarks = Undefined\<rparr>"

definition loaded :: complete_dto where
  "loaded = \<lparr>cd_actualWeight = Value 12000, cd_actualQuantity = Undefined, cd_unit = Undefined,
     cd_palletCount = Undefined, cd_bagCount = Undefined, cd_rollCount = Undefined, cd_condition = Undefined,
     cd_remarks = Undefined, cd_suratJalanNumber = Undefined, cd_deliveryChecklist = Undefined\<rparr>"

definition good_beans :: incoming_check_dto where
  "good_beans = \<lparr>ic_result = QC_PASS, ic_odor = Undefined, ic_color = Undefined, ic_moisture = Undefined,
     ic_foreignMatter = Undefined, ic_beanCondition = Undefined, ic_sampleWeight = Undefined,
     ic_goodBeanPercentage = Undefined, ic_itemCondition = Undefined, ic_packagingCondition = Undefined,
     ic_quantityCheck = Undefined, ic_documentCheck = Undefined, ic_visualInspection = Undefined,
     ic_defectNotes = Undefined, ic_notes = Undefined\<rparr>"

text \<open>Numbers in remarks: the visit prints none but this one.\<close>

definition number_text :: "num \<Rightarrow> string" where
  "number_text x = (if x = 12000 then ''12000'' else ''0'')"

definition plant0 :: db where
  "plant0 = empty_db\<lparr>nextId := 7\<rparr>"

definition plant1 :: db where
  "plant1 = fst (checkIn (\<lambda>_ d. d) plant0 (arrival ''B1234XY'' GBB) boss 0)"

definition plant2 :: db where "plant2 = fst (serve number_text plant1 7 boss (WeighIn (weight 20000)) 1000)"
definition plant3 :: db where "plant3 = fst (serve number_text plant2 7 boss (VehicleCheck clean_truck) 1000)"
definition plant4 :: db where "plant4 = fst (serve number_text plant3 7 boss (StartWarehouse loading) 1000)"
definition plant5 :: db where "plant5 = fst (serve number_text plant4 7 boss (CompleteWarehouse loaded) 1000)"
definition plant6 :: db where "plant6 = fst (serve number_text plant5 7 boss (IncomingCheck good_beans) 1000)"
definition plant7 :: db where "plant7 = fst (serve number_text plant6 7 boss (WeighOut (weight 8000)) 1000)"
definition plant8 :: db where "plant8 = fst (serve number_text plant7 7 boss CheckOut 1000)"

text \<open>The answers and what they leave of the transaction.\<close>

definition seen :: "db \<Rightarrow> (process_type \<times> transaction_status \<times> nat) option" where
  "seen d = map_option (\<lambda>t. (processType t, status t, revision t)) (find_tx d 7)"

fun trace :: "db \<Rightarrow> op list \<Rightarrow> (nat option \<times> (process_type \<times> transaction_status \<times> nat) option) list" where
  "trace d [] = []"
| "trace d (r # rs) = (let (d', c) = serve number_text d 7 boss r 1000 in (c, seen d') # trace d' rs)"

lemma visit:
  "(seen plant1, trace plant1
     [WeighIn (weight 20000), VehicleCheck clean_truck, StartWarehouse loading, CompleteWarehouse loaded,
      IncomingCheck good_beans, WeighOut (weight 8000), CheckOut]) =
   (Some (GBB, REGISTERED, 1),
     [(None, Some (GBB, QC_VEHICLE_PENDING, 2)), (None, Some (GBB, QC_VEHICLE_PASSED, 3)),
      (None, Some (GBB, WAREHOUSE_IN_PROGRESS, 4)), (None, Some (GBB, INCOMING_CHECK_PENDING, 5)),
      (None, Some (GBB, INCOMING_CHECK_PASSED, 6)), (None, Some (GBB, WEIGH_OUT_DONE, 7)), (None, Some (GBB, COMPLETED, 8))])"
  by code_simp

lemma trace_Cons:
  "trace d (r # rs) = (snd (serve number_text d 7 boss r 1000), seen (fst (serve number_text d 7 boss r 1000)))
     # trace (fst (serve number_text d 7 boss r 1000)) rs"
  by (simp add: case_prod_unfold Let_def)

lemma visit_steps:
  "seen plant1 = Some (GBB, REGISTERED, 1)"
  "snd (serve number_text plant1 7 boss (WeighIn (weight 20000)) 1000) = None" "seen plant2 = Some (GBB, QC_VEHICLE_PENDING, 2)"
  "snd (serve number_text plant2 7 boss (VehicleCheck clean_truck) 1000) = None" "seen plant3 = Some (GBB, QC_VEHICLE_PASSED, 3)"
  "snd (serve number_text plant3 7 boss (StartWarehouse loading) 1000) = None" "seen plant4 = Some (GBB, WAREHOUSE_IN_PROGRESS, 4)"
  "snd (serve number_text plant4 7 boss (CompleteWarehouse loaded) 1000) = None" "seen plant5 = Some (GBB, INCOMING_CHECK_PENDING, 5)"
  "snd (serve number_text plant5 7 boss (IncomingCheck good_beans) 1000) = None" "seen plant6 = Some (GBB, INCOMING_CHECK_PASSED, 6)"
  "snd (serve number_text plant6 7 boss (WeighOut (weight 8000)) 1000) = None" "seen plant7 = Some (GBB, WEIGH_OUT_DONE, 7)"
  "snd (serve number_text plant7 7 boss CheckOut 1000) = None" "seen plant8 = Some (GBB, COMPLETED, 8)"
  using visit
  by (simp_all add: trace_Cons plant2_def [symmetric] plant3_def [symmetric] plant4_def [symmetric]
      plant5_def [symmetric] plant6_def [symmetric] plant7_def [symmetric] plant8_def [symmetric] del: trace.simps(2))

lemma serve_ok:
  assumes "db_ok d" "\<And>dto. r \<noteq> VoidTx dto"
  shows "db_ok (fst (serve nt d i user r now))"
proof (cases "reads d i user r")
  case (Inr x)
  obtain tx b where x: "x = (tx, b)" by (cases x)
  note p = reads_pending [OF Inr [unfolded x]]
  show ?thesis
    using serves_step [OF writes_serves [OF assms(1) p], of nt now] db_step_ok [OF assms(1)] assms(2)
    by (simp add: serve_def Inr x)
qed (simp add: serve_def assms(1))

lemma plant0_ok: "initial_db plant0" "db_ok plant0"
  using initial_db_ok by (simp_all add: plant0_def initial_db_def empty_db_def)

lemma plants_ok:
  "db_ok plant1" "db_ok plant2" "db_ok plant3" "db_ok plant4" "db_ok plant5" "db_ok plant6" "db_ok plant7" "db_ok plant8"
proof -
  have "db_step plant0 plant1"
    using checkIn_step [OF plant0_ok(2), of 0 "\<lambda>_ d. d" "arrival ''B1234XY'' GBB" boss]
    by (auto simp: plant1_def split: sum.splits prod.splits intro: db_step.intros)
  then show "db_ok plant1" using db_step_ok plant0_ok(2) by blast
  then show "db_ok plant2" unfolding plant2_def by (rule serve_ok) simp
  then show "db_ok plant3" unfolding plant3_def by (rule serve_ok) simp
  then show "db_ok plant4" unfolding plant4_def by (rule serve_ok) simp
  then show "db_ok plant5" unfolding plant5_def by (rule serve_ok) simp
  then show "db_ok plant6" unfolding plant6_def by (rule serve_ok) simp
  then show "db_ok plant7" unfolding plant7_def by (rule serve_ok) simp
  then show "db_ok plant8" unfolding plant8_def by (rule serve_ok) simp
qed

text \<open>The row of the visit at each stage.\<close>

definition row :: "db \<Rightarrow> transaction" where
  "row d = the (find_tx d 7)"

lemma seen_row: "seen d = Some (p, s, n) \<Longrightarrow> find_tx d 7 = Some (row d) \<and> processType (row d) = p \<and>
     status (row d) = s \<and> revision (row d) = n"
  by (auto simp: seen_def row_def)

lemmas rows = visit_steps(1,3,5,7,9,11,13,15) [THEN seen_row]

lemma answered: "snd (answer res) = None \<Longrightarrow> \<exists>d' v. res = (d', Inr v)"
  by (cases res; cases "snd res") (auto simp: answer_def)

lemmas served = visit_steps(2,4,6,8,10,12,14) [unfolded serve_is_handler handler_def op.case, THEN answered]

end
