(* ===== verification/Gms_Period.thy ===== *)
theory Gms_Period
  imports Gms_Numbering Gms_Plate
begin

text \<open>
  The period of the dashboard (dashboard/utils/dashboard-date-range.util.ts): two dates in the form
  YYYY-MM-DD, compared as strings, and the instants they stand for in Asia/Jakarta. The service
  reads the clock in the server's zone and shifts it; for a zone without clock changes that is the
  date of \<open>now + 7h\<close>.
\<close>

section \<open>Dates as strings\<close>

definition dash :: char where
  "dash = CHR ''-''"

text \<open>\<open>/^(\d{4})-(\d{2})-(\d{2})$/\<close>\<close>

definition match_date :: "string \<Rightarrow> (string \<times> string \<times> string) option" where
  "match_date s =
     (let y = take 4 s; m = take 2 (drop 5 s); d = drop 8 s
      in if length s = 10 \<and> s ! 4 = dash \<and> s ! 7 = dash \<and> list_all is_digit (y @ m @ d) then Some (y, m, d) else None)"

definition parseCalendarDate :: "string \<Rightarrow> (nat \<times> nat \<times> nat) option" where
  "parseCalendarDate dateStr =
     (case match_date (trim dateStr) of
        None \<Rightarrow> None
      | Some (ys, ms, ds) \<Rightarrow>
          let year = digits_value ys; month = digits_value ms; day = digits_value ds
          in if year < 2000 \<or> year > 2100 then None
             else if month < 1 \<or> month > 12 then None
             else if day < 1 \<or> day > getDaysInMonth year month then None
             else Some (year, month, day))"

definition jakarta_date :: "instant \<Rightarrow> nat \<times> nat \<times> nat" where
  "jakarta_date now = date_of_day (nat ((now + WIB_OFFSET_MS) div DAY_MS))"

definition getJakartaTodayString :: "instant \<Rightarrow> string" where
  "getJakartaTodayString now =
     (case jakarta_date now of (y, m, d) \<Rightarrow>
        decimal y @ [dash] @ padStart0 2 (decimal m) @ [dash] @ padStart0 2 (decimal d))"

definition getJakartaCurrentYearStartString :: "instant \<Rightarrow> string" where
  "getJakartaCurrentYearStartString now = (case jakarta_date now of (y, m, d) \<Rightarrow> decimal y @ ''-01-01'')"

text \<open>\<open><\<close> on strings compares code units.\<close>

fun str_less :: "string \<Rightarrow> string \<Rightarrow> bool" where
  "str_less [] t = (t \<noteq> [])"
| "str_less (a # s) [] = False"
| "str_less (a # s) (b # t) = ((of_char a :: nat) < of_char b \<or> a = b \<and> str_less s t)"

text \<open>The instant of a date string with the suffix \<open>T00:00:00.000+07:00\<close>; none is an invalid Date.\<close>

definition jakartaDateToUtcStart :: "string \<Rightarrow> instant option" where
  "jakartaDateToUtcStart dateStr =
     (case parseCalendarDate dateStr of None \<Rightarrow> None
      | Some (y, m, d) \<Rightarrow> Some (int (day_of_date y m d) * DAY_MS - WIB_OFFSET_MS))"

definition jakartaDateToUtcEndExclusive :: "string \<Rightarrow> instant option" where
  "jakartaDateToUtcEndExclusive dateStr = map_option (\<lambda>t. t + DAY_MS) (jakartaDateToUtcStart dateStr)"

section \<open>The period of a request\<close>

datatype date_preset = TODAY | THIS_WEEK | THIS_MONTH | YEAR_TO_DATE | ALL_TIME | CUSTOM

datatype period_reason =
    PR_BothNeeded
  | PR_InvalidStart
  | PR_InvalidEnd
  | PR_StartAfterEnd
  | PR_StartInFuture
  | PR_EndInFuture

record stats_query =
  dq_startDate :: "string field"
  dq_endDate :: "string field"
  dq_preset :: "date_preset field"

record date_bounds =
  db_preset :: date_preset
  db_startDate :: string
  db_endDate :: string
  db_gte :: instant
  db_lt :: instant

text \<open>\<open>query?.startDate?.trim() || null\<close>\<close>

definition date_param :: "string field \<Rightarrow> string option" where
  "date_param x = (case x of Value s \<Rightarrow> truthy_col (Some (trim s)) | _ \<Rightarrow> None)"

definition checkDates :: "instant \<Rightarrow> string \<Rightarrow> string \<Rightarrow> period_reason option" where
  "checkDates now s e =
     (let today = getJakartaTodayString now
      in if parseCalendarDate s = None then Some PR_InvalidStart
         else if parseCalendarDate e = None then Some PR_InvalidEnd
         else if str_less e s then Some PR_StartAfterEnd
         else if str_less today s then Some PR_StartInFuture
         else if str_less today e then Some PR_EndInFuture
         else None)"

definition presetOf :: "instant \<Rightarrow> string \<Rightarrow> string \<Rightarrow> date_preset" where
  "presetOf now s e =
     (let today = getJakartaTodayString now
      in if s = today \<and> e = today then TODAY
         else if s = getJakartaCurrentYearStartString now \<and> e = today then YEAR_TO_DATE
         else CUSTOM)"

text \<open>Both dates, or neither: then the year to date.\<close>

definition requestedDates :: "stats_query \<Rightarrow> instant \<Rightarrow> (string \<times> string) option" where
  "requestedDates q now =
     (case (date_param (dq_startDate q), date_param (dq_endDate q)) of
        (None, None) \<Rightarrow> Some (getJakartaCurrentYearStartString now, getJakartaTodayString now)
      | (Some s, Some e) \<Rightarrow> Some (s, e)
      | _ \<Rightarrow> None)"

definition resolveDashboardDateBounds :: "stats_query \<Rightarrow> instant \<Rightarrow> period_reason error + date_bounds" where
  "resolveDashboardDateBounds q now =
     (case requestedDates q now of
           None \<Rightarrow> Inl (BadRequest PR_BothNeeded)
         | Some (s, e) \<Rightarrow>
             (case checkDates now s e of
                Some r \<Rightarrow> Inl (BadRequest r)
              | None \<Rightarrow>
                  (case (jakartaDateToUtcStart s, jakartaDateToUtcEndExclusive e) of
                     (Some a, Some b) \<Rightarrow> Inr \<lparr>db_preset = presetOf now s e, db_startDate = s, db_endDate = e, db_gte = a, db_lt = b\<rparr>
                   | _ \<Rightarrow> Inl (BadRequest PR_InvalidEnd))))"

section \<open>Comparing dates\<close>

lemma str_less_append:
  "length a = length c \<Longrightarrow> str_less (a @ b) (c @ d) \<longleftrightarrow> str_less a c \<or> a = c \<and> str_less b d"
  by (induction a c rule: list_induct2) auto

lemma str_less_total: "length s = length t \<Longrightarrow> s = t \<or> str_less s t \<or> str_less t s"
proof (induction s t rule: list_induct2)
  case (Cons x xs y ys)
  then show ?case by (cases "(of_char x :: nat)" "of_char y :: nat" rule: linorder_cases) auto
qed simp

lemma foldl_digits: "foldl (\<lambda>a c. 10 * a + (of_char c - 48)) a s = a * 10 ^ length s + digits_value s" for a :: nat
proof (induction s arbitrary: a)
  case (Cons c s)
  let ?v = "of_char c - 48 :: nat" and ?f = "\<lambda>(a::nat) c. 10 * a + (of_char c - 48)"
  have "digits_value (c # s) = foldl ?f ?v s" by (simp add: digits_value_def)
  also have "\<dots> = ?v * 10 ^ length s + digits_value s" by (rule Cons.IH)
  finally have "digits_value (c # s) = ?v * 10 ^ length s + digits_value s" .
  moreover have "foldl ?f a (c # s) = (10 * a + ?v) * 10 ^ length s + digits_value s" using Cons.IH by simp
  ultimately show ?case by (simp add: algebra_simps)
qed (simp add: digits_value_def)

lemma digits_value_Cons: "digits_value (c # s) = (of_char c - 48) * 10 ^ length s + digits_value s"
  using foldl_digits [of "of_char c - 48" s] by (simp add: digits_value_def)

lemma digits_value_bound: "list_all is_digit s \<Longrightarrow> digits_value s < 10 ^ length s"
proof (induction s)
  case (Cons c s)
  then have "(of_char c :: nat) \<le> 57" by (simp add: is_digit_def Let_def)
  then have "(of_char c :: nat) - 48 \<le> 9" by linarith
  then have "(of_char c - 48) * 10 ^ length s \<le> 9 * (10 ^ length s :: nat)" by (rule mult_le_mono1)
  moreover have "digits_value s < 10 ^ length s" using Cons by simp
  ultimately have "digits_value (c # s) < 10 * 10 ^ length s" unfolding digits_value_Cons by linarith
  then show ?case by simp
qed (simp add: digits_value_def)

lemma leading_digit:
  assumes "(a::nat) < b" "v < p" shows "a * p + v < b * p + w"
proof -
  have "Suc a * p \<le> b * p" using assms(1) by (intro mult_le_mono1) simp
  then show ?thesis using assms(2) by simp
qed

text \<open>Digit strings of one length are ordered as the numbers they denote.\<close>

lemma str_less_value:
  "length s = length t \<Longrightarrow> list_all is_digit s \<Longrightarrow> list_all is_digit t \<Longrightarrow>
     str_less s t \<longleftrightarrow> digits_value s < digits_value t"
proof (induction s t rule: list_induct2)
  case (Cons x xs y ys)
  let ?p = "10 ^ length xs :: nat" and ?x = "of_char x :: nat" and ?y = "of_char y :: nat"
  have d: "48 \<le> ?x" "48 \<le> ?y" using Cons.prems by (simp_all add: is_digit_def Let_def)
  have b: "digits_value xs < ?p" "digits_value ys < ?p"
    using digits_value_bound [of xs] digits_value_bound [of ys] Cons by simp_all
  have v: "digits_value (x # xs) = (?x - 48) * ?p + digits_value xs"
    "digits_value (y # ys) = (?y - 48) * ?p + digits_value ys"
    using Cons.hyps by (simp_all add: digits_value_Cons)
  show ?case
  proof (cases ?x ?y rule: linorder_cases)
    case less
    then show ?thesis using leading_digit [of "?x - 48" "?y - 48" "digits_value xs" ?p] d b v by simp
  next
    case equal
    then show ?thesis using Cons v by auto
  next
    case greater
    then have "digits_value (y # ys) < digits_value (x # xs)"
      using leading_digit [of "?y - 48" "?x - 48" "digits_value ys" ?p] d b v by simp
    then show ?thesis using greater by auto
  qed
qed simp

lemma digits_value_inject:
  "length s = length t \<Longrightarrow> list_all is_digit s \<Longrightarrow> list_all is_digit t \<Longrightarrow> digits_value s = digits_value t \<Longrightarrow> s = t"
  using str_less_total [of s t] str_less_value [of s t] str_less_value [of t s] by auto

section \<open>Dates and days\<close>

text \<open>A date that exists, and the date a string denotes.\<close>

definition valid_date :: "nat \<times> nat \<times> nat \<Rightarrow> bool" where
  "valid_date = (\<lambda>(y, m, d). 1970 \<le> y \<and> 1 \<le> m \<and> m \<le> 12 \<and> 1 \<le> d \<and> d \<le> getDaysInMonth y m)"

definition earlier :: "nat \<times> nat \<times> nat \<Rightarrow> nat \<times> nat \<times> nat \<Rightarrow> bool" where
  "earlier = (\<lambda>(y, m, d) (y', m', d'). y < y' \<or> y = y' \<and> (m < m' \<or> m = m' \<and> d < d'))"

definition day_number :: "nat \<times> nat \<times> nat \<Rightarrow> nat" where
  "day_number = (\<lambda>(y, m, d). day_of_date y m d)"

definition denotes :: "string \<Rightarrow> nat \<times> nat \<times> nat \<Rightarrow> bool" where
  "denotes s = (\<lambda>(y, m, d). \<exists>ys ms ds. s = ys @ dash # ms @ dash # ds \<and> length ys = 4 \<and> length ms = 2 \<and> length ds = 2 \<and>
     list_all is_digit ys \<and> list_all is_digit ms \<and> list_all is_digit ds \<and>
     digits_value ys = y \<and> digits_value ms = m \<and> digits_value ds = d)"

lemma denotes_less:
  assumes "denotes s a" "denotes t b"
  shows "str_less s t \<longleftrightarrow> earlier a b"
proof -
  obtain y m d y' m' d' where ab: "a = (y, m, d)" "b = (y', m', d')" by (cases a, cases b)
  obtain ys ms ds where s: "s = ys @ dash # ms @ dash # ds" "length ys = 4" "length ms = 2" "length ds = 2"
      "list_all is_digit ys" "list_all is_digit ms" "list_all is_digit ds"
      "digits_value ys = y" "digits_value ms = m" "digits_value ds = d"
    using assms(1) by (auto simp: denotes_def ab)
  obtain ys' ms' ds' where t: "t = ys' @ dash # ms' @ dash # ds'" "length ys' = 4" "length ms' = 2" "length ds' = 2"
      "list_all is_digit ys'" "list_all is_digit ms'" "list_all is_digit ds'"
      "digits_value ys' = y'" "digits_value ms' = m'" "digits_value ds' = d'"
    using assms(2) by (auto simp: denotes_def ab)
  have eq: "ys = ys' \<longleftrightarrow> y = y'" "ms = ms' \<longleftrightarrow> m = m'"
    using s t digits_value_inject [of ys ys'] digits_value_inject [of ms ms'] by auto
  have lt: "str_less ys ys' \<longleftrightarrow> y < y'" "str_less ms ms' \<longleftrightarrow> m < m'" "str_less ds ds' \<longleftrightarrow> d < d'"
    using s t str_less_value by auto
  have "str_less s t \<longleftrightarrow> str_less ys ys' \<or> ys = ys' \<and> (str_less ms ms' \<or> ms = ms' \<and> str_less ds ds')"
    using s t by (simp add: str_less_append)
  then show ?thesis by (simp add: eq lt earlier_def ab)
qed

lemma split_at: "n < length s \<Longrightarrow> s = take n s @ s ! n # drop (Suc n) s"
  by (rule id_take_nth_drop)

lemma match_date_split:
  assumes "match_date s = Some (ys, ms, ds)"
  shows "s = ys @ dash # ms @ dash # ds \<and> length ys = 4 \<and> length ms = 2 \<and> length ds = 2 \<and>
    list_all is_digit ys \<and> list_all is_digit ms \<and> list_all is_digit ds"
proof -
  have h: "length s = 10" "s ! 4 = dash" "s ! 7 = dash" "ys = take 4 s" "ms = take 2 (drop 5 s)" "ds = drop 8 s"
      "list_all is_digit ys" "list_all is_digit ms" "list_all is_digit ds"
    using assms by (auto simp: match_date_def Let_def split: if_splits)
  have a: "s = take 4 s @ dash # drop 5 s" using split_at [of 4 s] h(1,2) by simp
  have b: "drop 5 s = take 2 (drop 5 s) @ dash # drop 8 s" using split_at [of 2 "drop 5 s"] h(1,3) by simp
  have "s = ys @ dash # ms @ dash # ds" using a b unfolding h(4-6) by argo
  then show ?thesis using h by simp
qed

lemma parse_denotes:
  assumes "trim s = s" "parseCalendarDate s = Some x"
  shows "denotes s x \<and> valid_date x"
proof -
  obtain ys ms ds where m: "match_date s = Some (ys, ms, ds)"
    using assms by (auto simp: parseCalendarDate_def split: option.splits)
  have x: "x = (digits_value ys, digits_value ms, digits_value ds)" "valid_date x"
    using assms(2) by (auto simp: parseCalendarDate_def assms(1) m Let_def valid_date_def split: if_splits)
  show ?thesis using match_date_split [OF m] x by (auto simp: denotes_def)
qed

lemma month_sum:
  assumes "m < m'" "m' \<le> 13" "1 \<le> m"
  shows "sum_list (map (getDaysInMonth y) [1..<m]) + getDaysInMonth y m \<le> sum_list (map (getDaysInMonth y) [1..<m'])"
proof -
  have "[1..<m'] = [1..<m] @ m # [Suc m..<m']"
    using assms upt_add_eq_append [of 1 m "m' - m"] upt_conv_Cons [of m m'] by simp
  then show ?thesis by simp
qed

lemma year_sum:
  assumes "y < y'" "1970 \<le> y"
  shows "sum_list (map year_days [1970..<y]) + year_days y \<le> sum_list (map year_days [1970..<y'])"
proof -
  have "[1970..<y'] = [1970..<y] @ y # [Suc y..<y']"
    using assms upt_add_eq_append [of 1970 y "y' - y"] upt_conv_Cons [of y y'] by simp
  then show ?thesis by simp
qed

lemma year_days_months: "year_days y = sum_list (map (getDaysInMonth y) [1..<13])"
  by (simp add: year_days_def getDaysInMonth_def upt_rec)

lemma within_year:
  assumes "valid_date (y, m, d)"
  shows "sum_list (map (getDaysInMonth y) [1..<m]) + (d - 1) < year_days y"
proof -
  have v: "1 \<le> m" "m \<le> 12" "1 \<le> d" "d \<le> getDaysInMonth y m" using assms by (simp_all add: valid_date_def)
  have "sum_list (map (getDaysInMonth y) [1..<m]) + getDaysInMonth y m \<le> year_days y"
    unfolding year_days_months using v by (intro month_sum) simp_all
  then show ?thesis using v by linarith
qed

lemma earlier_day:
  assumes "earlier a b" "valid_date a" "valid_date b"
  shows "day_number a < day_number b"
proof -
  obtain y m d y' m' d' where ab: "a = (y, m, d)" "b = (y', m', d')" by (cases a, cases b)
  consider "y < y'" | "y = y'" "m < m'" | "y = y'" "m = m'" "d < d'"
    using assms(1) by (auto simp: earlier_def ab)
  then show ?thesis
  proof cases
    case 1
    then show ?thesis using year_sum [of y y'] within_year [OF assms(2) [unfolded ab]] assms(2)
      by (simp add: day_number_def day_of_date_def ab valid_date_def)
  next
    case 2
    have v: "1 \<le> m" "m' \<le> 13" "1 \<le> d" "d \<le> getDaysInMonth y m" using assms(2,3) by (simp_all add: valid_date_def ab)
    have "sum_list (map (getDaysInMonth y) [1..<m]) + getDaysInMonth y m \<le> sum_list (map (getDaysInMonth y) [1..<m'])"
      by (rule month_sum [OF 2(2) v(2,1)])
    then have "sum_list (map (getDaysInMonth y) [1..<m]) + (d - 1) < sum_list (map (getDaysInMonth y) [1..<m'])"
      using v by linarith
    then show ?thesis unfolding day_number_def day_of_date_def ab 2(1) prod.case by linarith
  next
    case 3
    have "1 \<le> d" using assms(2) by (simp add: valid_date_def ab)
    then show ?thesis using 3 unfolding day_number_def day_of_date_def ab 3(1,2) prod.case by linarith
  qed
qed

lemma earlier_total: "a = b \<or> earlier a b \<or> earlier b a"
  by (cases a; cases b) (auto simp: earlier_def)

lemma earlier_iff: "valid_date a \<Longrightarrow> valid_date b \<Longrightarrow> earlier a b \<longleftrightarrow> day_number a < day_number b"
  using earlier_day [of a b] earlier_day [of b a] earlier_total [of a b] by auto

section \<open>The period\<close>

lemma jakarta_date_valid: "valid_date (date_of_day n)"
proof -
  obtain y r where y: "year_of 1970 n = (y, r)" by fastforce
  obtain m d where m: "month_of y 1 r = (m, d)" by fastforce
  have b: "1970 \<le> y" "r < year_days y" using year_of_sound [OF y] by simp_all
  have mb: "1 \<le> m" "r = sum_list (map (getDaysInMonth y) [1..<m]) + d" using month_of_sound [OF m] by simp_all
  have "m \<le> 12" "m < 12 \<longrightarrow> d < getDaysInMonth y m" using month_of_bounds [OF m] by simp_all
  moreover have "d < getDaysInMonth y 12" if "m = 12"
    using b(2) mb(2) that year_days_sum [of y] by (simp add: getDaysInMonth_def)
  ultimately have "m \<le> 12 \<and> d < getDaysInMonth y m" by (cases "m = 12") auto
  then show ?thesis using b(1) mb(1) by (simp add: date_of_day_def y m [unfolded One_nat_def] valid_date_def)
qed

lemma is_digit_decimal: "list_all is_digit (decimal n)"
proof (induction n rule: decimal.induct)
  case (1 n)
  have "is_digit (digit_char n)" by (simp add: is_digit_def digit_char_def Let_def)
  then show ?case using 1 by (cases "n < 10") (simp_all add: decimal.simps [of n])
qed

lemma length_decimal4:
  assumes "1000 \<le> n" "n \<le> 9999"
  shows "length (decimal n) = 4"
proof -
  have "\<not> n < 10" "\<not> n div 10 < 10" "\<not> n div 10 div 10 < 10" "n div 10 div 10 div 10 < 10" using assms by linarith+
  then show ?thesis by (simp add: decimal.simps [of n] decimal.simps [of "n div 10"] decimal.simps [of "n div 10 div 10"]
      decimal.simps [of "n div 10 div 10 div 10"])
qed

lemma is_digit_padded: "list_all is_digit (padStart0 w (decimal n))"
  by (auto simp: padStart0_def is_digit_decimal list_all_iff is_digit_def Let_def
      dest: is_digit_decimal [unfolded list_all_iff, THEN bspec])

lemma today_denotes:
  assumes "jakarta_date now = (y, m, d)" "y \<le> 9999"
  shows "denotes (getJakartaTodayString now) (y, m, d)"
proof -
  have v: "valid_date (y, m, d)" using jakarta_date_valid assms(1) by (metis jakarta_date_def)
  have "d \<le> 31" "m \<le> 12" "1970 \<le> y" using v by (auto simp: valid_date_def getDaysInMonth_def split: if_splits)
  then show ?thesis unfolding denotes_def prod.case
    by (intro exI [of _ "decimal y"] exI [of _ "padStart0 2 (decimal m)"] exI [of _ "padStart0 2 (decimal d)"])
      (simp add: getJakartaTodayString_def assms(1) length_decimal4 [OF _ assms(2)] length_decimal2 is_digit_decimal
        is_digit_padded value_decimal value_padStart0)
qed

lemma dropWhile_stable: "xs = [] \<or> \<not> P (hd xs) \<Longrightarrow> dropWhile P xs = xs"
  by (cases xs) auto

lemma trim_trim [simp]: "trim (trim s) = trim s"
proof -
  let ?u = "dropWhile is_blank s"
  let ?w = "dropWhile is_blank (rev ?u)"
  have w: "?w = [] \<or> \<not> is_blank (hd ?w)" using hd_dropWhile [of is_blank "rev ?u"] by blast
  have u: "?u = [] \<or> \<not> is_blank (hd ?u)" using hd_dropWhile [of is_blank s] by blast
  obtain p where "rev ?u = p @ ?w" by (metis takeWhile_dropWhile_id)
  then have "?u = rev ?w @ rev p" by (metis rev_append rev_rev_ident)
  then have "rev ?w = [] \<or> \<not> is_blank (hd (rev ?w))" using u by (cases "rev ?w") auto
  then have "dropWhile is_blank (rev ?w) = rev ?w" by (rule dropWhile_stable)
  then show ?thesis using dropWhile_stable [where P = is_blank and xs = ?w] w by (simp add: trim_def)
qed

lemma date_param_trim: "date_param x = Some s \<Longrightarrow> trim s = s"
  by (auto simp: date_param_def truthy_col_def split: field.splits if_splits)

definition local_day :: "instant \<Rightarrow> int" where
  "local_day t = (t + WIB_OFFSET_MS) div DAY_MS"

lemma year_start_denotes:
  assumes "jakarta_date now = (y, m, d)" "y \<le> 9999"
  shows "denotes (getJakartaCurrentYearStartString now) (y, 1, 1)"
proof -
  have "valid_date (y, m, d)" using jakarta_date_valid assms(1) by (metis jakarta_date_def)
  then have "1970 \<le> y" by (simp add: valid_date_def)
  moreover have "digits_value ''01'' = 1" "is_digit (CHR ''0'')" "is_digit (CHR ''1'')" by code_simp+
  ultimately show ?thesis unfolding denotes_def prod.case
    by (intro exI [of _ "decimal y"] exI [of _ "''01''"] exI [of _ "''01''"])
      (simp add: getJakartaCurrentYearStartString_def assms(1) length_decimal4 [OF _ assms(2)] is_digit_decimal
        value_decimal dash_def)
qed

lemma digit_not_blank: "is_digit c \<Longrightarrow> \<not> is_blank c"
  by (auto simp: is_digit_def is_blank_def Let_def)

lemma denotes_trim: "denotes s x \<Longrightarrow> trim s = s"
proof -
  assume "denotes s x"
  then obtain ys ms ds where s: "s = ys @ dash # ms @ dash # ds" "length ys = 4" "length ds = 2"
      "list_all is_digit ys" "list_all is_digit ds"
    by (cases x) (auto simp: denotes_def)
  have "is_digit (hd s)" using s by (cases ys) auto
  moreover have "is_digit (hd (rev s))" using s by (cases ds rule: rev_cases) auto
  ultimately have "dropWhile is_blank s = s" "dropWhile is_blank (rev s) = rev s"
    by (auto intro: dropWhile_stable dest: digit_not_blank)
  then show ?thesis by (simp add: trim_def)
qed

lemma requested_trim:
  assumes "requestedDates q now = Some (s, e)" "fst (jakarta_date now) \<le> 9999"
  shows "trim s = s" "trim e = e"
proof -
  obtain y m d where j: "jakarta_date now = (y, m, d)" by (metis prod_cases3)
  have "trim (getJakartaTodayString now) = getJakartaTodayString now"
      "trim (getJakartaCurrentYearStartString now) = getJakartaCurrentYearStartString now"
    using denotes_trim [OF today_denotes [OF j]] denotes_trim [OF year_start_denotes [OF j]] assms(2) j by simp_all
  then show "trim s = s" "trim e = e"
    using assms(1) by (auto simp: requestedDates_def date_param_trim split: option.splits)
qed

text \<open>The string comparisons decide the order of the days.\<close>

lemma checkDates_None:
  assumes "trim s = s" "trim e = e" "0 \<le> now" "fst (jakarta_date now) \<le> 9999"
  shows "checkDates now s e = None \<longleftrightarrow>
    (\<exists>x y. parseCalendarDate s = Some x \<and> parseCalendarDate e = Some y \<and> day_number x \<le> day_number y \<and>
       int (day_number y) \<le> local_day now)"
proof (cases "parseCalendarDate s = None \<or> parseCalendarDate e = None")
  case False
  then obtain x y where p: "parseCalendarDate s = Some x" "parseCalendarDate e = Some y" by auto
  note x = parse_denotes [OF assms(1) p(1)] and y = parse_denotes [OF assms(2) p(2)]
  obtain a b c where j: "jakarta_date now = (a, b, c)" by (metis prod_cases3)
  have t: "denotes (getJakartaTodayString now) (a, b, c)" "valid_date (a, b, c)"
    using today_denotes [OF j] jakarta_date_valid j assms(4) by (simp, metis jakarta_date_def)
  have n: "int (day_number (a, b, c)) = local_day now"
    using day_of_date_of_day [of "nat ((now + WIB_OFFSET_MS) div DAY_MS)" a b c] j assms(3)
    by (simp add: day_number_def jakarta_date_def local_day_def DAY_MS_def WIB_OFFSET_MS_def)
  have es: "str_less e s \<longleftrightarrow> day_number y < day_number x" using denotes_less earlier_iff x y by blast
  have ts: "str_less (getJakartaTodayString now) s \<longleftrightarrow> day_number (a, b, c) < day_number x"
    using denotes_less earlier_iff x t by blast
  have te: "str_less (getJakartaTodayString now) e \<longleftrightarrow> day_number (a, b, c) < day_number y"
    using denotes_less earlier_iff y t by blast
  show ?thesis unfolding checkDates_def Let_def p es ts te using n by auto
qed (auto simp: checkDates_def Let_def)

lemma period_window:
  "int n * DAY_MS - WIB_OFFSET_MS \<le> t \<and> t < int k * DAY_MS - WIB_OFFSET_MS + DAY_MS \<longleftrightarrow>
     int n \<le> local_day t \<and> local_day t \<le> int k"
proof -
  have "(x * DAY_MS \<le> u \<longleftrightarrow> x \<le> u div DAY_MS) \<and> (u < x * DAY_MS + DAY_MS \<longleftrightarrow> u div DAY_MS \<le> x)" for x u :: int
  proof -
    have u: "u = u div DAY_MS * DAY_MS + u mod DAY_MS" "0 \<le> u mod DAY_MS" "u mod DAY_MS < DAY_MS"
      by (simp_all add: DAY_MS_def)
    have le: "a \<le> b \<Longrightarrow> a * DAY_MS \<le> b * DAY_MS" for a b :: int by (simp add: DAY_MS_def)
    have "x \<le> u div DAY_MS \<Longrightarrow> x * DAY_MS \<le> u" "u div DAY_MS \<le> x \<Longrightarrow> u < x * DAY_MS + DAY_MS"
      using le [of x "u div DAY_MS"] le [of "u div DAY_MS" x] u by linarith+
    moreover have lt: "a < b \<Longrightarrow> a * DAY_MS + DAY_MS \<le> b * DAY_MS" for a b :: int by (simp add: DAY_MS_def)
    have "u div DAY_MS < x \<Longrightarrow> u < x * DAY_MS" "x < u div DAY_MS \<Longrightarrow> x * DAY_MS + DAY_MS \<le> u"
      using lt [of "u div DAY_MS" x] lt [of x "u div DAY_MS"] u by linarith+
    ultimately show ?thesis by fastforce
  qed
  from this [of "int n" "t + WIB_OFFSET_MS"] this [of "int k" "t + WIB_OFFSET_MS"] show ?thesis
    unfolding local_day_def by linarith
qed

lemma utc_start: "jakartaDateToUtcStart s = map_option (\<lambda>x. int (day_number x) * DAY_MS - WIB_OFFSET_MS) (parseCalendarDate s)"
  by (simp add: jakartaDateToUtcStart_def day_number_def split: option.splits prod.splits)

lemma resolve_None_iff:
  "resolveDashboardDateBounds q now = Inr b \<longleftrightarrow>
     (\<exists>s e x y. requestedDates q now = Some (s, e) \<and> checkDates now s e = None \<and>
        parseCalendarDate s = Some x \<and> parseCalendarDate e = Some y \<and>
        b = \<lparr>db_preset = presetOf now s e, db_startDate = s, db_endDate = e,
             db_gte = int (day_number x) * DAY_MS - WIB_OFFSET_MS,
             db_lt = int (day_number y) * DAY_MS - WIB_OFFSET_MS + DAY_MS\<rparr>)"
proof (cases "requestedDates q now")
  case (Some se)
  obtain s e where se: "se = (s, e)" by (cases se)
  show ?thesis
  proof (cases "checkDates now s e")
    case None
    then obtain x y where "parseCalendarDate s = Some x" "parseCalendarDate e = Some y"
      by (auto simp: checkDates_def Let_def split: if_splits)
    then show ?thesis
      by (simp add: resolveDashboardDateBounds_def Some se None utc_start jakartaDateToUtcEndExclusive_def del: split_paired_Ex) blast
  qed (simp add: resolveDashboardDateBounds_def Some se)
qed (simp add: resolveDashboardDateBounds_def)

text \<open>
  C38. The period of the dashboard. A request is refused, with 400, exactly when it names one date
  only, a date that does not exist, a start after the end or an end after today; the comparison of
  the date strings is right. An accepted period admits exactly the instants whose day in Jakarta is
  one of its days, first and last included. Without dates it runs from New Year to today.
\<close>
theorem dashboard_period:
  assumes "0 \<le> now" and "fst (jakarta_date now) \<le> 9999"
  shows "case resolveDashboardDateBounds q now of
      Inl r \<Rightarrow> http_status r = 400 \<and>
        (case requestedDates q now of
           None \<Rightarrow> (date_param (dq_startDate q) = None) \<noteq> (date_param (dq_endDate q) = None)
         | Some (s, e) \<Rightarrow> \<not> (\<exists>x y. parseCalendarDate s = Some x \<and> parseCalendarDate e = Some y \<and>
             day_number x \<le> day_number y \<and> int (day_number y) \<le> local_day now))
    | Inr b \<Rightarrow> requestedDates q now = Some (db_startDate b, db_endDate b) \<and>
        (\<exists>x y. denotes (db_startDate b) x \<and> denotes (db_endDate b) y \<and> valid_date x \<and> valid_date y \<and>
           day_number x \<le> day_number y \<and> int (day_number y) \<le> local_day now \<and>
           (\<forall>t. (db_gte b \<le> t \<and> t < db_lt b) =
              (int (day_number x) \<le> local_day t \<and> local_day t \<le> int (day_number y))))"
proof (cases "resolveDashboardDateBounds q now")
  case (Inl r)
  have none: "\<nexists>b. resolveDashboardDateBounds q now = Inr b" using Inl by simp
  have st: "http_status r = 400"
    using Inl by (auto simp: resolveDashboardDateBounds_def split: option.splits prod.splits)
  show ?thesis
  proof (cases "requestedDates q now")
    case None
    then show ?thesis using Inl st by (auto simp: requestedDates_def split: option.splits)
  next
    case (Some se)
    obtain s e where se: "se = (s, e)" by (cases se)
    note tr = requested_trim [OF Some [unfolded se] assms(2)]
    have "checkDates now s e \<noteq> None"
      using none Some se checkDates_None [OF tr assms] unfolding resolve_None_iff by auto
    then show ?thesis using Inl st Some se checkDates_None [OF tr assms] by auto
  qed
next
  case (Inr b)
  then obtain s e x y where h: "requestedDates q now = Some (s, e)" "checkDates now s e = None"
      "parseCalendarDate s = Some x" "parseCalendarDate e = Some y"
      "b = \<lparr>db_preset = presetOf now s e, db_startDate = s, db_endDate = e,
             db_gte = int (day_number x) * DAY_MS - WIB_OFFSET_MS,
             db_lt = int (day_number y) * DAY_MS - WIB_OFFSET_MS + DAY_MS\<rparr>"
    unfolding resolve_None_iff by blast
  note tr = requested_trim [OF h(1) assms(2)]
  have d: "day_number x \<le> day_number y" "int (day_number y) \<le> local_day now"
    using checkDates_None [OF tr assms] h(2-4) by auto
  have "(db_gte b \<le> t \<and> t < db_lt b) = (int (day_number x) \<le> local_day t \<and> local_day t \<le> int (day_number y))" for t
    using period_window [of "day_number x" t "day_number y"] by (simp add: h(5))
  moreover note parse_denotes [OF tr(1) h(3)] parse_denotes [OF tr(2) h(4)] d
  moreover have "db_startDate b = s" "db_endDate b = e" by (simp_all add: h(5))
  ultimately show ?thesis unfolding Inr sum.case using h(1) by (intro conjI exI [of _ x] exI [of _ y] allI) simp_all
qed

text \<open>An afternoon in August.\<close>

lemma august: "jakarta_date 1787200000000 = (2026, 8, 20)" "local_day 1787200000000 = 20685"
  by (simp_all add: jakarta_date_def local_day_def WIB_OFFSET_MS_def DAY_MS_def date_of_day_def year_of.simps month_of.simps
      year_days_def isLeapYear_def getDaysInMonth_def)

definition august_query :: stats_query where
  "august_query = \<lparr>dq_startDate = Value '' 2026-08-01'', dq_endDate = Value ''2026-08-19'', dq_preset = Undefined\<rparr>"

lemma august_requested: "requestedDates august_query 1787200000000 = Some (''2026-08-01'', ''2026-08-19'')"
  by code_simp

lemma august_admissible:
  "\<exists>x y. parseCalendarDate ''2026-08-01'' = Some x \<and> parseCalendarDate ''2026-08-19'' = Some y \<and>
     day_number x \<le> day_number y \<and> int (day_number y) \<le> local_day 1787200000000"
proof -
  have p: "parseCalendarDate ''2026-08-01'' = Some (2026, 8, 1)" "parseCalendarDate ''2026-08-19'' = Some (2026, 8, 19)"
    by code_simp+
  have d: "day_number (2026, 8, 1) = 20666" "day_number (2026, 8, 19) = 20684"
    by (simp_all add: day_number_def day_of_date_def upt_rec year_days_def isLeapYear_def getDaysInMonth_def)
  show ?thesis
    by (intro exI [of _ "(2026, 8, 1)"] exI [of _ "(2026, 8, 19)"]) (simp only: p d august simp_thms, simp)
qed

lemma august_now: "(0::int) \<le> 1787200000000" "fst (jakarta_date 1787200000000) \<le> 9999"
  by (simp_all add: august)

lemma august_resolved: "\<exists>b. resolveDashboardDateBounds august_query 1787200000000 = Inr b"
proof -
  note tr = requested_trim [OF august_requested august_now(2)]
  have "checkDates 1787200000000 ''2026-08-01'' ''2026-08-19'' = None"
    using checkDates_None [OF tr august_now] august_admissible by blast
  then show ?thesis unfolding resolve_None_iff using august_requested august_admissible by blast
qed

theorem dashboard_period_witness:
  "\<exists>b. resolveDashboardDateBounds august_query 1787200000000 = Inr b \<and> db_startDate b = ''2026-08-01''"
proof -
  note period = dashboard_period [OF august_now, of august_query]
  show ?thesis
  proof (cases "resolveDashboardDateBounds august_query 1787200000000")
    case (Inl r)
    then show ?thesis using period august_admissible
      by (simp only: august_requested sum.case option.case prod.case not_True_eq_False simp_thms)
  next
    case (Inr b)
    then show ?thesis using period august_requested by simp
  qed
qed

end
