(* ===== verification/Gms_Dashboard.thy ===== *)
theory Gms_Dashboard
  imports Gms_Period Gms_Scope Gms_Versioned
begin

text \<open>
  The dashboard (dashboard/dashboard.service.ts): counts, stage times, weight statistics and fraud
  alerts of the transactions in the user's scope. \<open>toFixed(2)\<close> is an argument; the text of the
  period is left out.
\<close>

section \<open>Times\<close>

text \<open>\<open>Math.round\<close>: to the nearest integer, halves up.\<close>

definition js_round :: "num \<Rightarrow> int" where
  "js_round x = \<lfloor>x + 1 / 2\<rfloor>"

definition getDiffMins :: "instant option \<Rightarrow> instant option \<Rightarrow> int" where
  "getDiffMins start end_at =
     (case (start, end_at) of (Some a, Some b) \<Rightarrow> js_round (js_div (of_int (b - a)) 60000) | _ \<Rightarrow> 0)"

definition both_set :: "instant option \<Rightarrow> instant option \<Rightarrow> bool" where
  "both_set a b \<longleftrightarrow> a \<noteq> None \<and> b \<noteq> None"

text \<open>
  The time in inspection: that of the current vehicle check and incoming check when one of them has
  both times, else that of the transaction row.
\<close>

definition qcMins :: "db \<Rightarrow> transaction \<Rightarrow> int" where
  "qcMins d t =
     (let v = find_first (current_row (tx_id t)) (qcVehicleChecks d);
          inc = find_first (current_row (tx_id t)) (incomingMaterialChecks d);
          hasVehicleQc = (case v of None \<Rightarrow> False | Some r \<Rightarrow> both_set (qv_startedAt r) (qv_completedAt r));
          hasIncomingQc = (case inc of None \<Rightarrow> False | Some r \<Rightarrow> both_set (im_startedAt r) (im_completedAt r))
      in if hasVehicleQc \<or> hasIncomingQc then
           (case v of None \<Rightarrow> 0 | Some r \<Rightarrow> getDiffMins (qv_startedAt r) (qv_completedAt r)) +
           (case inc of None \<Rightarrow> 0 | Some r \<Rightarrow> getDiffMins (im_startedAt r) (im_completedAt r))
         else getDiffMins (qcStartAt t) (qcEndAt t))"

record stage_times =
  sg_waitingIn :: int
  sg_warehouse :: int
  sg_qc :: int
  sg_waitingOut :: int

text \<open>\<open>Math.round(sum / (completedTx.length || 1))\<close>\<close>

definition average :: "transaction list \<Rightarrow> (transaction \<Rightarrow> int) \<Rightarrow> int" where
  "average completed f =
     js_round (js_div (of_int (sum_list (map f completed))) (of_nat (if completed = [] then 1 else length completed)))"

definition avgStageTimes :: "db \<Rightarrow> transaction list \<Rightarrow> stage_times" where
  "avgStageTimes d completed =
     \<lparr>sg_waitingIn = average completed (\<lambda>t. getDiffMins (gateInAt t) (weighInAt t)),
      sg_warehouse = average completed (\<lambda>t. getDiffMins (warehouseStartAt t) (warehouseEndAt t)),
      sg_qc = average completed (qcMins d),
      sg_waitingOut = average completed (\<lambda>t. getDiffMins (warehouseEndAt t) (weighOutAt t))\<rparr>"

section \<open>Weights\<close>

record fraud_stat =
  fs_totalNet :: num
  fs_totalProcessed :: num
  fs_avgDiscrepancy :: num

text \<open>A weight that is null or 0 is falsy.\<close>

definition truthy_num :: "num option \<Rightarrow> num option" where
  "truthy_num x = (case x of None \<Rightarrow> None | Some w \<Rightarrow> if w = 0 then None else Some w)"

definition weigh_pair :: "transaction \<Rightarrow> (num \<times> num) option" where
  "weigh_pair t =
     (case (truthy_num (netWeight t), truthy_num (actualWeight t)) of (Some n, Some a) \<Rightarrow> Some (n, a) | _ \<Rightarrow> None)"

definition add_weights :: "num \<times> num \<Rightarrow> transaction \<Rightarrow> num \<times> num" where
  "add_weights acc t =
     (case weigh_pair t of None \<Rightarrow> acc | Some (n, a) \<Rightarrow> (js_add (fst acc) n, js_add (snd acc) a))"

definition fraudStats :: "transaction list \<Rightarrow> process_type \<Rightarrow> fraud_stat" where
  "fraudStats completed pt =
     (let (net, processed) = foldl add_weights (0, 0) (filter (\<lambda>t. processType t = pt) completed)
      in \<lparr>fs_totalNet = net, fs_totalProcessed = processed,
          fs_avgDiscrepancy = (if 0 < net then \<bar>js_sub 100 (js_mul (js_div processed net) 100)\<bar> else 0)\<rparr>)"

section \<open>Fraud alerts\<close>

record fraud_alert =
  fa_id :: ident
  fa_plate :: string
  fa_type :: process_type
  fa_net :: num
  fa_processed :: num
  fa_diffPercent :: string
  fa_riskLevel :: risk_level

definition diffPercent :: "(num \<Rightarrow> string) \<Rightarrow> fraud_check \<Rightarrow> transaction \<Rightarrow> string" where
  "diffPercent toFixed f t =
     (if fc_deviationPercent f \<noteq> 0 then toFixed (fc_deviationPercent f)
      else if fc_deviationKg f \<noteq> 0 then
        toFixed (js_mul (js_div (fc_deviationKg f)
          (max (val_or (truthy_num (netWeight t)) 1) (val_or (truthy_num (actualWeight t)) 1))) 100)
      else ''0.00'')"

definition alert_of :: "(num \<Rightarrow> string) \<Rightarrow> fraud_check \<Rightarrow> transaction \<Rightarrow> fraud_alert" where
  "alert_of toFixed f t =
     \<lparr>fa_id = fc_id f, fa_plate = val_or (truthy_col (Some (plateNumber t))) ''-'', fa_type = processType t,
      fa_net = val_or (netWeight t) 0, fa_processed = val_or (actualWeight t) 0,
      fa_diffPercent = diffPercent toFixed f t, fa_riskLevel = fc_riskLevel f\<rparr>"

text \<open>The checks the query returns, each with its transaction, newest first.\<close>

definition risky_checks :: "db \<Rightarrow> (transaction \<Rightarrow> bool) \<Rightarrow> (fraud_check \<times> transaction) list" where
  "risky_checks d p =
     newest_first (fc_createdAt \<circ> fst)
       (concat (map (\<lambda>f. case find_tx d (fc_transactionId f) of
            Some t \<Rightarrow> if (fc_riskLevel f = WARNING \<or> fc_riskLevel f = CRITICAL_RISK) \<and> p t then [(f, t)] else []
          | None \<Rightarrow> []) (fraudChecks d)))"

text \<open>The loop with \<open>seenTx\<close>: the first check of each transaction.\<close>

fun first_alerts :: "(num \<Rightarrow> string) \<Rightarrow> ident list \<Rightarrow> (fraud_check \<times> transaction) list \<Rightarrow> (ident \<times> fraud_alert) list" where
  "first_alerts toFixed seen [] = []"
| "first_alerts toFixed seen ((f, t) # rest) =
     (if fc_transactionId f \<in> set seen then first_alerts toFixed seen rest
      else (fc_transactionId f, alert_of toFixed f t) # first_alerts toFixed (fc_transactionId f # seen) rest)"

section \<open>Statistics\<close>

definition group_count :: "('a \<Rightarrow> 'k) \<Rightarrow> 'a list \<Rightarrow> ('k \<times> nat) list" where
  "group_count key rows = map (\<lambda>k. (k, count_where (\<lambda>r. key r = k) rows)) (remdups (map key rows))"

record recent_view =
  rv_id :: ident
  rv_transactionNumber :: string
  rv_plateNumber :: string
  rv_vendorName :: string
  rv_processType :: process_type
  rv_status :: transaction_status
  rv_gateInAt :: "instant option"
  rv_createdAt :: instant

definition recent_of :: "transaction \<Rightarrow> recent_view" where
  "recent_of t = \<lparr>rv_id = tx_id t, rv_transactionNumber = transactionNumber t, rv_plateNumber = plateNumber t,
     rv_vendorName = vendorName t, rv_processType = processType t, rv_status = status t,
     rv_gateInAt = gateInAt t, rv_createdAt = createdAt t\<rparr>"

record dashboard_stats =
  st_period :: date_bounds
  st_totalPeriod :: nat
  st_totalActive :: nat
  st_totalCompleted :: nat
  st_totalCancelled :: nat
  st_byStatus :: "(transaction_status \<times> nat) list"
  st_byProcessType :: "(process_type \<times> nat) list"
  st_recentTransactions :: "recent_view list"
  st_avgStageTimes :: stage_times
  st_avgTotalTAT :: int
  st_fraudStats :: "process_type \<Rightarrow> fraud_stat"
  st_activeFraudAlerts :: "(ident \<times> fraud_alert) list"

definition preset_name :: "date_preset \<Rightarrow> string" where
  "preset_name p = (case p of TODAY \<Rightarrow> ''TODAY'' | THIS_WEEK \<Rightarrow> ''THIS_WEEK'' | THIS_MONTH \<Rightarrow> ''THIS_MONTH''
     | YEAR_TO_DATE \<Rightarrow> ''YEAR_TO_DATE'' | ALL_TIME \<Rightarrow> ''ALL'' | CUSTOM \<Rightarrow> ''CUSTOM'')"

definition stats_of :: "(num \<Rightarrow> string) \<Rightarrow> db \<Rightarrow> date_bounds \<Rightarrow> tx_scope \<Rightarrow> dashboard_stats" where
  "stats_of toFixed d b sc =
     (let scoped = filter (\<lambda>t. in_scope sc (processType t)) (transactions d);
          active = filter (\<lambda>t. status t \<noteq> COMPLETED \<and> status t \<noteq> CANCELLED) scoped;
          period = filter (\<lambda>t. db_gte b \<le> createdAt t \<and> createdAt t < db_lt b) scoped;
          completed = filter (\<lambda>t. status t = COMPLETED) period
      in \<lparr>st_period = b, st_totalPeriod = length period, st_totalActive = length active,
          st_totalCompleted = length completed, st_totalCancelled = count_where (\<lambda>t. status t = CANCELLED) period,
          st_byStatus = group_count status period, st_byProcessType = group_count processType active,
          st_recentTransactions = map recent_of (take 10 (newest_first createdAt period)),
          st_avgStageTimes = avgStageTimes d completed,
          st_avgTotalTAT = average completed (\<lambda>t. getDiffMins (gateInAt t) (gateOutAt t)),
          st_fraudStats = fraudStats completed,
          st_activeFraudAlerts = first_alerts toFixed [] (risky_checks d
            (\<lambda>t. db_gte b \<le> createdAt t \<and> createdAt t < db_lt b \<and> in_scope sc (processType t)))\<rparr>)"

definition getStats ::
  "(num \<Rightarrow> string) \<Rightarrow> db \<Rightarrow> stats_query \<Rightarrow> jwt_user \<Rightarrow> instant \<Rightarrow> (period_reason, dashboard_stats) outcome"
where
  "getStats toFixed d q user now =
     (case resolveDashboardDateBounds q now of
        Inl e \<Rightarrow> (d, Inl e)
      | Inr b \<Rightarrow>
          (case getTransactionScope user of
             Inl e \<Rightarrow> (d, Inl e)
           | Inr sc \<Rightarrow>
               (audit (ju_id user) ''DASHBOARD_VIEW'' ''DASHBOARD'' None
                  (Some (JStr (''User viewed dashboard statistics ('' @ preset_name (db_preset b) @ '')''))) ''SUCCESS'' now d,
                Inr (stats_of toFixed d b sc))))"

section \<open>The statistics agree with each other\<close>

lemma count_partition:
  "set (map key rows) \<subseteq> set ks \<Longrightarrow> distinct ks \<Longrightarrow> sum_list (map (\<lambda>k. count_where (\<lambda>r. key r = k) rows) ks) = length rows"
proof (induction rows)
  case (Cons r rows)
  have one: "sum_list (map (\<lambda>k. if key r = k then 1 else 0) ks) = (1::nat)"
    using Cons.prems by (simp add: sum_list_distinct_conv_sum_set)
  have "sum_list (map (\<lambda>k. count_where (\<lambda>r. key r = k) (r # rows)) ks)
      = sum_list (map (\<lambda>k. (if key r = k then 1 else 0) + count_where (\<lambda>r. key r = k) rows) ks)"
    by (rule arg_cong [where f = sum_list], rule map_cong) auto
  also have "\<dots> = 1 + length rows" using Cons one by (simp add: sum_list_addf)
  finally show ?case by simp
qed simp

lemma group_count_total: "sum_list (map snd (group_count key rows)) = length rows"
  using count_partition [of key rows "remdups (map key rows)"] by (simp add: group_count_def comp_def)

lemma first_alerts_distinct:
  "distinct (map fst (first_alerts fx seen fs)) \<and> set (map fst (first_alerts fx seen fs)) \<inter> set seen = {}"
  by (induction fx seen fs rule: first_alerts.induct) auto

lemma first_alerts_from:
  "(k, a) \<in> set (first_alerts fx seen fs) \<Longrightarrow> \<exists>f t. (f, t) \<in> set fs \<and> k = fc_transactionId f \<and> a = alert_of fx f t"
  by (induction fx seen fs rule: first_alerts.induct) (auto split: if_splits)

lemma risky_checks_sound:
  "(f, t) \<in> set (risky_checks d p) \<Longrightarrow> f \<in> set (fraudChecks d) \<and> find_tx d (fc_transactionId f) = Some t \<and> p t"
  by (auto simp: risky_checks_def split: option.splits if_splits)


text \<open>
  The query keeps only WARNING and CRITICAL checks before the loop picks the newest: a transaction
  whose newest check is SAFE still shows the alert of an older one.
\<close>

lemma superseded_alert_shown:
  assumes "find_tx d 7 = Some t" "p t"
    "fraudChecks d = [\<lparr>fc_id = 1, fc_transactionId = 7, fc_riskLevel = CRITICAL_RISK, fc_deviationKg = 900,
        fc_deviationPercent = 9, fc_createdAt = 10\<rparr>,
      \<lparr>fc_id = 2, fc_transactionId = 7, fc_riskLevel = SAFE, fc_deviationKg = 0, fc_deviationPercent = 0, fc_createdAt = 20\<rparr>]"
  shows "map (fa_riskLevel \<circ> snd) (first_alerts toFixed [] (risky_checks d p)) = [CRITICAL_RISK]"
  using assms by (simp add: risky_checks_def newest_first_def alert_of_def)

end
