(* ===== verification/Gms_Files.thy ===== *)
theory Gms_Files
  imports Gms_Plate
begin

text \<open>
  What the services use of Node's path and fs modules, on POSIX. An absolute path is the list of
  its components. A file system keeps the bytes of each file and the directories there are; which
  paths the operating system lets the process write is part of the environment.
\<close>

section \<open>Paths\<close>

type_synonym path = "string list"

definition slash :: char where "slash = CHR 0x2F"
definition backslash :: char where "backslash = CHR 0x5C"

fun split_path :: "string \<Rightarrow> string list" where
  "split_path [] = [[]]"
| "split_path (c # s) =
     (if c = slash then [] # split_path s
      else case split_path s of [] \<Rightarrow> [[c]] | w # ws \<Rightarrow> (c # w) # ws)"

fun join_path :: "string list \<Rightarrow> string" where
  "join_path [] = []"
| "join_path [w] = w"
| "join_path (w # v # ws) = w @ slash # join_path (v # ws)"

text \<open>Normalisation: empty components and dots are dropped, two dots go up, at the root nowhere.\<close>

fun walk :: "path \<Rightarrow> string list \<Rightarrow> path" where
  "walk at [] = at"
| "walk at (w # ws) =
     (if w = [] \<or> w = ''.'' then walk at ws
      else if w = ''..'' then walk (butlast at) ws
      else walk (at @ [w]) ws)"

definition is_absolute :: "string \<Rightarrow> bool" where
  "is_absolute s = (case s of [] \<Rightarrow> False | c # _ \<Rightarrow> c = slash)"

text \<open>\<open>path.resolve(base, s)\<close> and \<open>path.join(base, s)\<close> for an absolute base.\<close>

definition resolve :: "path \<Rightarrow> string \<Rightarrow> path" where
  "resolve base s = walk (if is_absolute s then [] else base) (split_path s)"

definition join :: "path \<Rightarrow> string \<Rightarrow> path" where
  "join base s = walk base (split_path s)"

fun drop_common :: "path \<Rightarrow> path \<Rightarrow> path \<times> path" where
  "drop_common (x # xs) (y # ys) = (if x = y then drop_common xs ys else (x # xs, y # ys))"
| "drop_common xs ys = (xs, ys)"

text \<open>\<open>path.relative(from, to)\<close>.\<close>

definition relative :: "path \<Rightarrow> path \<Rightarrow> string" where
  "relative source target =
     (case drop_common source target of (up, down) \<Rightarrow> join_path (map (\<lambda>_. ''..'') up @ down))"

text \<open>The containment check of the services, \<open>rel.startsWith('..') || path.isAbsolute(rel)\<close>.\<close>

definition escapes :: "path \<Rightarrow> path \<Rightarrow> bool" where
  "escapes base target = (let rel = relative base target in is_prefix_of ''..'' rel \<or> is_absolute rel)"

definition last_component :: "string \<Rightarrow> string" where
  "last_component s = (case filter (\<lambda>w. w \<noteq> []) (split_path s) of [] \<Rightarrow> [] | w # ws \<Rightarrow> last (w # ws))"

text \<open>\<open>path.extname\<close>: from the last dot of the name, unless the name starts there or is two dots.\<close>

definition extname :: "string \<Rightarrow> string" where
  "extname s =
     (let b = last_component s; tl = takeWhile (\<lambda>c. c \<noteq> CHR ''.'') (rev b); n = length tl + 1
      in if b = ''..'' \<or> length b \<le> n then [] else drop (length b - n) b)"

section \<open>Containment\<close>

definition inside :: "path \<Rightarrow> path \<Rightarrow> bool" where
  "inside base target \<longleftrightarrow> (\<exists>ws. target = base @ ws)"

lemma drop_common_append [simp]: "drop_common xs (xs @ ys) = ([], ys)"
  by (induction xs) (cases ys; simp)+

lemma drop_common_split: "drop_common xs ys = (us, vs) \<Longrightarrow> \<exists>zs. xs = zs @ us \<and> ys = zs @ vs"
proof (induction xs ys rule: drop_common.induct)
  case (1 x xs y ys)
  show ?case
  proof (cases "x = y")
    case True
    with 1 obtain zs where "xs = zs @ us" "ys = zs @ vs" by auto
    with True show ?thesis by (intro exI [of _ "x # zs"]) simp
  qed (use 1 in auto)
qed auto

text \<open>A target that does not escape lies below the base.\<close>

lemma not_escapes_inside:
  assumes "\<not> escapes base target"
  shows "inside base target"
proof -
  obtain us vs where d: "drop_common base target = (us, vs)" by (cases "drop_common base target")
  have "us = []"
  proof (rule ccontr)
    assume "us \<noteq> []"
    then obtain u us' where u: "us = u # us'" by (cases us) auto
    then have "is_prefix_of ''..'' (relative base target)"
      by (cases "map (\<lambda>_. ''..'') us' @ vs") (simp_all add: relative_def d)
    with assms show False by (simp add: escapes_def)
  qed
  with drop_common_split [OF d] show ?thesis by (auto simp: inside_def)
qed

text \<open>A name is one path component.\<close>

definition is_name :: "string \<Rightarrow> bool" where
  "is_name w \<longleftrightarrow> w \<noteq> [] \<and> slash \<notin> set w \<and> w \<noteq> ''.'' \<and> w \<noteq> ''..''"

lemma split_path_name: "slash \<notin> set w \<Longrightarrow> split_path w = [w]"
  by (induction w) auto

lemma split_path_slash: "slash \<notin> set w \<Longrightarrow> split_path (w @ slash # s) = w # split_path s"
  by (induction w) auto

lemma split_join_path: "ws \<noteq> [] \<Longrightarrow> \<forall>w \<in> set ws. slash \<notin> set w \<Longrightarrow> split_path (join_path ws) = ws"
  by (induction ws rule: join_path.induct) (simp_all add: split_path_name split_path_slash)

lemma walk_names: "\<forall>w \<in> set ws. is_name w \<Longrightarrow> walk at ws = at @ ws"
  by (induction at ws rule: walk.induct) (auto simp: is_name_def)

lemma relative_below [simp]: "relative base (base @ ws) = join_path ws"
  by (simp add: relative_def)

lemma is_absolute_name: "is_name w \<Longrightarrow> \<not> is_absolute w \<and> \<not> is_absolute (w @ s)"
  by (cases w) (auto simp: is_name_def is_absolute_def)

lemma join_name: "is_name w \<Longrightarrow> join base w = base @ [w]"
  by (simp add: join_def split_path_name walk_names is_name_def)

lemma resolve_name: "is_name w \<Longrightarrow> resolve base w = base @ [w]"
  using is_absolute_name [of w] by (simp add: resolve_def split_path_name walk_names is_name_def)

lemma resolve_relative:
  assumes "ws \<noteq> []" "\<forall>w \<in> set ws. is_name w"
  shows "resolve base (join_path ws) = base @ ws"
proof -
  obtain w ws' where w: "ws = w # ws'" using assms(1) by (cases ws) auto
  have "\<not> is_absolute (join_path ws)"
    using is_absolute_name [of w] assms(2) by (cases ws') (simp_all add: w)
  moreover have "split_path (join_path ws) = ws"
    using assms by (intro split_join_path) (auto simp: is_name_def)
  ultimately show ?thesis using assms(2) by (simp add: resolve_def walk_names)
qed

text \<open>Names that start with two dots are refused although they stay inside.\<close>

lemma escapes_below:
  assumes "\<forall>w \<in> set ws. is_name w"
  shows "escapes base (base @ ws) \<longleftrightarrow> (\<exists>w ws'. ws = w # ws' \<and> is_prefix_of ''..'' w)"
proof (cases ws)
  case (Cons w ws')
  have w: "is_name w" using assms Cons by simp
  obtain r where r: "join_path ws = w @ r" "r = [] \<or> (\<exists>s. r = slash # s)"
    using Cons by (cases ws') auto
  have "is_prefix_of ''..'' (w @ r) = is_prefix_of ''..'' w"
    using r(2) w by (cases w; cases "tl w") (auto simp: slash_def is_name_def)
  then show ?thesis using is_absolute_name [OF w] r(1) by (simp add: escapes_def Cons del: join_path.simps)
qed (use relative_below [of base "[]"] in \<open>simp add: escapes_def is_absolute_def\<close>)

section \<open>Files\<close>

text \<open>\<open>fs_paths\<close> lists the paths that were ever written, in the order in which a directory shows them.\<close>

record fs =
  fs_files :: "path \<Rightarrow> string option"
  fs_paths :: "path list"
  fs_dirs :: "path list"
  fs_writable :: "path \<Rightarrow> bool"

definition put_file :: "path \<Rightarrow> string \<Rightarrow> fs \<Rightarrow> fs" where
  "put_file p s f = f\<lparr>fs_files := (fs_files f)(p := Some s), fs_paths := List.insert p (fs_paths f)\<rparr>"

lemma put_file_simps [simp]:
  "fs_files (put_file p s f) = (fs_files f)(p := Some s)" "fs_dirs (put_file p s f) = fs_dirs f"
  "fs_writable (put_file p s f) = fs_writable f" "set (fs_paths (put_file p s f)) = insert p (set (fs_paths f))"
  by (simp_all add: put_file_def)

definition existsSync :: "fs \<Rightarrow> path \<Rightarrow> bool" where
  "existsSync f p \<longleftrightarrow> fs_files f p \<noteq> None \<or> p \<in> set (fs_dirs f)"

fun prefixes_of :: "path \<Rightarrow> path list" where
  "prefixes_of [] = [[]]"
| "prefixes_of (w # ws) = [] # map ((#) w) (prefixes_of ws)"

text \<open>
  \<open>mkdirSync(p, { recursive: true })\<close>: fails on a file in the way or a directory that is missing
  and can not be made.
\<close>

definition mkdirs :: "path \<Rightarrow> fs \<Rightarrow> fs option" where
  "mkdirs p f =
     (let missing = filter (\<lambda>q. q \<notin> set (fs_dirs f)) (prefixes_of p)
      in if list_all (\<lambda>q. fs_files f q = None \<and> fs_writable f q) missing
         then Some (f\<lparr>fs_dirs := fs_dirs f @ missing\<rparr>) else None)"

text \<open>\<open>if (!fs.existsSync(p)) fs.mkdirSync(p, { recursive: true })\<close>.\<close>

definition ensure_dir :: "path \<Rightarrow> fs \<Rightarrow> fs option" where
  "ensure_dir p f = (if existsSync f p then Some f else mkdirs p f)"

text \<open>Where a file can be created or replaced: its directory is there and it is none itself.\<close>

definition can_put :: "fs \<Rightarrow> path \<Rightarrow> bool" where
  "can_put f p \<longleftrightarrow> fs_writable f p \<and> butlast p \<in> set (fs_dirs f) \<and> p \<notin> set (fs_dirs f)"

definition writeFile :: "path \<Rightarrow> string \<Rightarrow> fs \<Rightarrow> fs option" where
  "writeFile p s f = (if can_put f p then Some (put_file p s f) else None)"

definition unlink :: "path \<Rightarrow> fs \<Rightarrow> fs option" where
  "unlink p f = (if fs_files f p \<noteq> None \<and> fs_writable f p then Some (f\<lparr>fs_files := (fs_files f)(p := None)\<rparr>) else None)"

definition rename :: "path \<Rightarrow> path \<Rightarrow> fs \<Rightarrow> fs option" where
  "rename p q f =
     (case fs_files f p of
        None \<Rightarrow> None
      | Some s \<Rightarrow>
          if fs_writable f p \<and> can_put f q
          then Some (put_file q s (f\<lparr>fs_files := (fs_files f)(p := None)\<rparr>)) else None)"

definition copyFile :: "path \<Rightarrow> path \<Rightarrow> fs \<Rightarrow> fs option" where
  "copyFile p q f = (case fs_files f p of None \<Rightarrow> None | Some s \<Rightarrow> writeFile q s f)"

text \<open>The files of a directory by name, and all files below it.\<close>

definition files_in :: "path \<Rightarrow> fs \<Rightarrow> string list" where
  "files_in p f = map last (filter (\<lambda>q. q \<noteq> [] \<and> butlast q = p \<and> fs_files f q \<noteq> None) (fs_paths f))"

definition files_below :: "path \<Rightarrow> fs \<Rightarrow> path list" where
  "files_below p f = filter (\<lambda>q. is_prefix_of p q \<and> q \<noteq> p \<and> fs_files f q \<noteq> None) (fs_paths f)"

text \<open>\<open>rmSync(p, { recursive: true, force: true })\<close>, for directories the process made itself.\<close>

definition rm_tree :: "path \<Rightarrow> fs \<Rightarrow> fs" where
  "rm_tree p f = f\<lparr>fs_files := (\<lambda>q. if is_prefix_of p q then None else fs_files f q),
     fs_dirs := filter (\<lambda>q. \<not> is_prefix_of p q) (fs_dirs f)\<rparr>"

lemma in_prefixes_of [simp]: "p \<in> set (prefixes_of p)" "butlast p \<in> set (prefixes_of p)"
  by (induction p rule: prefixes_of.induct) auto

lemma mkdirs_frame:
  "mkdirs p f = Some f' \<Longrightarrow> fs_files f' = fs_files f \<and> fs_writable f' = fs_writable f \<and>
     set (fs_dirs f') = set (fs_dirs f) \<union> set (prefixes_of p)"
  by (auto simp: mkdirs_def Let_def split: if_splits)

lemma ensure_dir_frame:
  "ensure_dir p f = Some f' \<Longrightarrow> fs_files f' = fs_files f \<and> fs_writable f' = fs_writable f \<and>
     set (fs_dirs f) \<subseteq> set (fs_dirs f')"
  using mkdirs_frame by (auto simp: ensure_dir_def split: if_splits)

lemma prefixes_of_length: "q \<in> set (prefixes_of p) \<Longrightarrow> length q \<le> length p"
  by (induction p arbitrary: q) auto

lemma rename_frame: "rename p q f = Some f' \<Longrightarrow> fs_dirs f' = fs_dirs f \<and> fs_writable f' = fs_writable f"
  by (auto simp: rename_def split: option.splits if_splits)

lemma rename_files:
  "rename p q f = Some f' \<Longrightarrow>
     fs_files f' = ((fs_files f)(p := None))(q := fs_files f p) \<and> fs_files f p \<noteq> None"
  by (auto simp: rename_def split: option.splits if_splits)

end
