(* ===== verification/Gms_Users.thy ===== *)
theory Gms_Users
  imports Gms_Scope Gms_Calendar
begin

text \<open>
  User administration (users/users.service.ts): creation, change, removal, activation and password
  reset, with the rule that one active administrator must remain. argon2 and the random generator
  are third-party code: a record of functions. Their salts and draws are numbered by the row
  counter, which every one of these calls advances.
\<close>

section \<open>Interfaces\<close>

record jwt_payload =
  pl_sub :: ident
  pl_name :: string
  pl_username :: string
  pl_email :: string
  pl_role :: role
  pl_tv :: "nat option"

text \<open>
  \<open>cr_hash salt password\<close> and \<open>cr_verify hash password\<close> of argon2; the two random strings; signing
  and verification of access and refresh tokens at an instant (signature and expiry).
\<close>

record crypto =
  cr_hash :: "nat \<Rightarrow> string \<Rightarrow> string"
  cr_verify :: "string \<Rightarrow> string \<Rightarrow> bool"
  cr_base64url16 :: "nat \<Rightarrow> string"
  cr_hex8 :: "nat \<Rightarrow> string"
  cr_signAccess :: "jwt_payload \<Rightarrow> instant \<Rightarrow> string"
  cr_signRefresh :: "jwt_payload \<Rightarrow> instant \<Rightarrow> string"
  cr_verifyAccess :: "string \<Rightarrow> instant \<Rightarrow> jwt_payload option"
  cr_verifyRefresh :: "string \<Rightarrow> instant \<Rightarrow> jwt_payload option"

datatype user_reason =
    UR_NotFound
  | UR_EmailExists
  | UR_UsernameExists
  | UR_ScopeRequired role
  | UR_LastAdmin
  | UR_PrimaryAdmin
  | UR_Duplicate
  | UR_NullValue

record create_user_dto =
  cu_email :: string
  cu_username :: string
  cu_name :: string
  cu_role :: role
  cu_warehouseAccess :: "process_type list field"
  cu_phone :: "string field"
  cu_department :: "string field"
  cu_site :: "string field"
  cu_area :: "string field"
  cu_avatarUrl :: "string field"

record update_user_dto =
  uu_email :: "string field"
  uu_username :: "string field"
  uu_name :: "string field"
  uu_role :: "role field"
  uu_isActive :: "bool field"
  uu_warehouseAccess :: "process_type list field"
  uu_phone :: "string field"
  uu_department :: "string field"
  uu_site :: "string field"
  uu_area :: "string field"
  uu_avatarUrl :: "string field"

section \<open>Rows\<close>

text \<open>\<open>toLowerCase\<close> on ASCII.\<close>

definition ascii_lower :: "char \<Rightarrow> char" where
  "ascii_lower c = (let n = of_char c :: nat in if 65 \<le> n \<and> n \<le> 90 then char_of (n + 32) else c)"

definition lower :: "string \<Rightarrow> string" where
  "lower s = map ascii_lower s"

definition DAY :: instant where
  "DAY = 24 * 60 * 60 * 1000"

definition access_of :: "db \<Rightarrow> ident \<Rightarrow> process_type list" where
  "access_of d i = map wa_processType (filter (\<lambda>a. wa_userId a = i) (userWarehouseAccess d))"

definition find_live :: "db \<Rightarrow> ident \<Rightarrow> user_row option" where
  "find_live d i = find_first (\<lambda>u. u_id u = i \<and> \<not> u_isDeleted u) (users d)"

definition put_user :: "ident \<Rightarrow> (user_row \<Rightarrow> user_row) \<Rightarrow> db \<Rightarrow> db" where
  "put_user i f d = d\<lparr>users := update_many (\<lambda>u. u_id u = i) f (users d)\<rparr>"

definition email_taken :: "db \<Rightarrow> string \<Rightarrow> bool" where
  "email_taken d e = list_ex (\<lambda>u. u_email u = e) (users d)"

definition username_taken :: "db \<Rightarrow> string \<Rightarrow> bool" where
  "username_taken d n = list_ex (\<lambda>u. u_username u = n) (users d)"

definition active_admin :: "user_row \<Rightarrow> bool" where
  "active_admin u \<longleftrightarrow> u_role u = ADMIN \<and> u_isActive u \<and> \<not> u_isDeleted u"

definition activeAdminCount :: "db \<Rightarrow> nat" where
  "activeAdminCount d = count_where active_admin (users d)"

text \<open>\<open>tokenVersion: { increment: 1 }, refreshTokenHash: null\<close>.\<close>

definition revoke :: "user_row \<Rightarrow> user_row" where
  "revoke u = u\<lparr>u_tokenVersion := u_tokenVersion u + 1, u_refreshTokenHash := None\<rparr>"

text \<open>What the answers show of a user; no answer contains a hash.\<close>

record user_view =
  vw_id :: ident
  vw_email :: string
  vw_username :: string
  vw_name :: string
  vw_role :: role
  vw_isActive :: bool
  vw_lastLoginAt :: "instant option"
  vw_warehouseAccess :: "process_type list"
  vw_createdAt :: instant
  vw_phone :: "string option"
  vw_department :: "string option"
  vw_site :: "string option"
  vw_area :: "string option"
  vw_avatarUrl :: "string option"

definition user_view_of :: "process_type list \<Rightarrow> user_row \<Rightarrow> user_view" where
  "user_view_of ps u =
     \<lparr>vw_id = u_id u, vw_email = u_email u, vw_username = u_username u, vw_name = u_name u, vw_role = u_role u,
      vw_isActive = u_isActive u, vw_lastLoginAt = u_lastLoginAt u, vw_warehouseAccess = ps,
      vw_createdAt = u_createdAt u, vw_phone = u_phone u, vw_department = u_department u,
      vw_site = u_site u, vw_area = u_area u, vw_avatarUrl = u_avatarUrl u\<rparr>"

section \<open>Creation and reading\<close>

definition needs_scope :: "role \<Rightarrow> bool" where
  "needs_scope r \<longleftrightarrow> r = WAREHOUSE \<or> r = QC"

text \<open>The access list that is stored, or the refusal.\<close>

definition createAccess :: "create_user_dto \<Rightarrow> user_reason error + process_type list" where
  "createAccess dto =
     (if needs_scope (cu_role dto) then
        (case cu_warehouseAccess dto of
           Value ps \<Rightarrow> if length ps = 0 then Inl (BadRequest (UR_ScopeRequired (cu_role dto))) else Inr ps
         | _ \<Rightarrow> Inl (BadRequest (UR_ScopeRequired (cu_role dto))))
      else Inr [])"

definition new_user :: "create_user_dto \<Rightarrow> string \<Rightarrow> string \<Rightarrow> string \<Rightarrow> ident \<Rightarrow> instant \<Rightarrow> user_row" where
  "new_user dto emailLower usernameLower passwordHash i now =
     \<lparr>u_id = i, u_email = emailLower, u_username = usernameLower, u_name = trim (cu_name dto),
      u_role = cu_role dto, u_isActive = True, u_isDeleted = False, u_passwordHash = passwordHash,
      u_refreshTokenHash = None, u_lastLoginAt = None, u_mustChangePassword = True,
      u_passwordChangedAt = None, u_temporaryPasswordExpiresAt = Some (now + DAY), u_tokenVersion = 0,
      u_createdAt = now, u_phone = create_field (cu_phone dto), u_department = create_field (cu_department dto),
      u_site = create_field (cu_site dto), u_area = create_field (cu_area dto),
      u_avatarUrl = create_field (cu_avatarUrl dto)\<rparr>"

text \<open>A process type listed twice violates the unique index of the access table.\<close>

definition createUser ::
  "crypto \<Rightarrow> db \<Rightarrow> create_user_dto \<Rightarrow> instant \<Rightarrow> (user_reason, user_view \<times> string) outcome"
where
  "createUser cr d dto now =
     (let emailLower = lower (trim (cu_email dto)); usernameLower = lower (trim (cu_username dto))
      in if email_taken d emailLower then (d, Inl (Conflict UR_EmailExists))
         else if username_taken d usernameLower then (d, Inl (Conflict UR_UsernameExists))
         else (case createAccess dto of
             Inl e \<Rightarrow> (d, Inl e)
           | Inr ps \<Rightarrow>
               if \<not> distinct ps then (d, Inl (Conflict UR_Duplicate))
               else
                 let i = nextId d;
                     temporaryPassword = cr_base64url16 cr i;
                     user = new_user dto emailLower usernameLower (cr_hash cr i temporaryPassword) i now
                 in (d\<lparr>users := users d @ [user],
                      userWarehouseAccess := userWarehouseAccess d @ map (\<lambda>p. \<lparr>wa_userId = i, wa_processType = p\<rparr>) ps,
                      nextId := Suc i\<rparr>,
                     Inr (user_view_of ps user, temporaryPassword))))"

definition findAllUsers :: "db \<Rightarrow> user_view list" where
  "findAllUsers d =
     map (\<lambda>u. user_view_of (access_of d (u_id u)) u)
       (newest_first u_createdAt (filter (\<lambda>u. \<not> u_isDeleted u) (users d)))"

definition findOneUser :: "db \<Rightarrow> ident \<Rightarrow> user_reason error + user_view" where
  "findOneUser d i =
     (case find_live d i of None \<Rightarrow> Inl (NotFound UR_NotFound)
      | Some u \<Rightarrow> Inr (user_view_of (access_of d i) u))"

section \<open>Change\<close>

text \<open>
  A change to a name that must be unique: \<open>if (dto.x) { ... if (lower !== user.x) { findUnique } }\<close>.
  The result is the new value, absent when there is none to set.
\<close>

definition changed_name :: "string field \<Rightarrow> string \<Rightarrow> (string \<Rightarrow> bool) \<Rightarrow> 'e \<Rightarrow> 'e + string option" where
  "changed_name x old taken e =
     (case truthy_str x of None \<Rightarrow> Inr None
      | Some s \<Rightarrow>
          let v = lower (trim s)
          in if v = old then Inr None else if taken v then Inl e else Inr (Some v))"

definition set_some :: "'a option \<Rightarrow> 'a \<Rightarrow> 'a" where
  "set_some x old = (case x of None \<Rightarrow> old | Some v \<Rightarrow> v)"

fun set_value :: "'a field \<Rightarrow> 'a \<Rightarrow> 'a" where
  "set_value (Value v) old = v"
| "set_value _ old = old"

definition targetRole :: "update_user_dto \<Rightarrow> user_row \<Rightarrow> role" where
  "targetRole dto user = set_value (uu_role dto) (u_role user)"

definition privilege_change :: "update_user_dto \<Rightarrow> bool" where
  "privilege_change dto \<longleftrightarrow> uu_role dto \<noteq> Undefined \<or> uu_warehouseAccess dto \<noteq> Undefined \<or> uu_isActive dto \<noteq> Undefined"

text \<open>
  The new access list: undefined leaves the stored one, and the empty list of a role without scope
  clears it. A null passes the checks of a role with scope when a list is stored.
\<close>

definition updatedAccess ::
  "update_user_dto \<Rightarrow> user_row \<Rightarrow> process_type list \<Rightarrow> user_reason error + process_type list field"
where
  "updatedAccess dto user stored =
     (if needs_scope (targetRole dto user) then
        (case uu_warehouseAccess dto of
           Value ps \<Rightarrow> if length ps = 0 then Inl (BadRequest (UR_ScopeRequired (targetRole dto user))) else Inr (Value ps)
         | x \<Rightarrow> if length stored = 0 then Inl (BadRequest (UR_ScopeRequired (targetRole dto user))) else Inr x)
      else Inr (Value []))"

definition updateData ::
  "update_user_dto \<Rightarrow> string option \<Rightarrow> string option \<Rightarrow> user_row \<Rightarrow> user_row"
where
  "updateData dto email username u =
     (let u1 = u\<lparr>u_email := set_some email (u_email u), u_username := set_some username (u_username u),
                 u_name := (case truthy_str (uu_name dto) of None \<Rightarrow> u_name u | Some s \<Rightarrow> trim s),
                 u_isActive := set_value (uu_isActive dto) (u_isActive u),
                 u_phone := set_field (uu_phone dto) (u_phone u),
                 u_department := set_field (uu_department dto) (u_department u),
                 u_site := set_field (uu_site dto) (u_site u),
                 u_area := set_field (uu_area dto) (u_area u),
                 u_avatarUrl := set_field (uu_avatarUrl dto) (u_avatarUrl u),
                 u_role := set_value (uu_role dto) (u_role u)\<rparr>
      in if privilege_change dto then revoke u1 else u1)"

text \<open>The reads before the transaction: the values to set, or the refusal.\<close>

definition updatePlan ::
  "db \<Rightarrow> ident \<Rightarrow> update_user_dto \<Rightarrow> user_row \<Rightarrow>
     user_reason error + (string option \<times> string option \<times> process_type list field)"
where
  "updatePlan d i dto user =
     (case changed_name (uu_email dto) (u_email user) (email_taken d) (Conflict UR_EmailExists) of
        Inl e \<Rightarrow> Inl e
      | Inr email \<Rightarrow>
          (case changed_name (uu_username dto) (u_username user) (username_taken d) (Conflict UR_UsernameExists) of
             Inl e \<Rightarrow> Inl e
           | Inr username \<Rightarrow>
               (case updatedAccess dto user (access_of d i) of
                  Inl e \<Rightarrow> Inl e
                | Inr ps \<Rightarrow> Inr (email, username, ps))))"

text \<open>The guard counts, and the change writes.\<close>

definition takes_admin_away :: "update_user_dto \<Rightarrow> user_row \<Rightarrow> bool" where
  "takes_admin_away dto user \<longleftrightarrow> u_role user = ADMIN \<and>
     ((case uu_role dto of Value r \<Rightarrow> r \<noteq> ADMIN | _ \<Rightarrow> False) \<or> uu_isActive dto = Value False)"

definition updateGuard :: "update_user_dto \<Rightarrow> user_row \<Rightarrow> db \<Rightarrow> bool" where
  "updateGuard dto user d \<longleftrightarrow> \<not> (takes_admin_away dto user \<and> activeAdminCount d \<le> 1)"

definition replace_access :: "ident \<Rightarrow> process_type list \<Rightarrow> db \<Rightarrow> db" where
  "replace_access i ps d =
     d\<lparr>userWarehouseAccess := filter (\<lambda>a. wa_userId a \<noteq> i) (userWarehouseAccess d) @
         map (\<lambda>p. \<lparr>wa_userId = i, wa_processType = p\<rparr>) ps\<rparr>"

definition updateWrite ::
  "ident \<Rightarrow> update_user_dto \<Rightarrow> string option \<times> string option \<times> process_type list field \<Rightarrow> db \<Rightarrow> user_reason error + db"
where
  "updateWrite i dto plan d =
     (let (email, username, ps) = plan; d1 = put_user i (updateData dto email username) d
      in if uu_isActive dto = Null then Inl (InternalError UR_NullValue)
         else (case ps of
             Undefined \<Rightarrow> Inr d1
           | Null \<Rightarrow> Inl (InternalError UR_NullValue)
           | Value l \<Rightarrow> if distinct l then Inr (replace_access i l d1) else Inl (Conflict UR_Duplicate)))"

definition updateUser :: "db \<Rightarrow> ident \<Rightarrow> update_user_dto \<Rightarrow> (user_reason, user_view) outcome" where
  "updateUser d i dto =
     (case find_live d i of
        None \<Rightarrow> (d, Inl (NotFound UR_NotFound))
      | Some user \<Rightarrow>
          (case updatePlan d i dto user of
             Inl e \<Rightarrow> (d, Inl e)
           | Inr plan \<Rightarrow>
               if \<not> updateGuard dto user d then (d, Inl (BadRequest UR_LastAdmin))
               else (case updateWrite i dto plan d of
                   Inl e \<Rightarrow> (d, Inl e)
                 | Inr d' \<Rightarrow>
                     (d', Inr (user_view_of (access_of d' i)
                        (updateData dto (fst plan) (fst (snd plan)) user))))))"

section \<open>Removal, reset, activation\<close>

definition removed :: "user_row \<Rightarrow> instant \<Rightarrow> user_row \<Rightarrow> user_row" where
  "removed user now u =
     revoke (u\<lparr>u_isDeleted := True, u_isActive := False,
       u_email := u_email user @ ''_deleted_'' @ decimal (nat now),
       u_username := u_username user @ ''_deleted_'' @ decimal (nat now)\<rparr>)"

definition removeUser :: "db \<Rightarrow> ident \<Rightarrow> instant \<Rightarrow> (user_reason, unit) outcome" where
  "removeUser d i now =
     (case find_live d i of
        None \<Rightarrow> (d, Inl (NotFound UR_NotFound))
      | Some user \<Rightarrow>
          if u_role user = ADMIN \<and> activeAdminCount d \<le> 1 then (d, Inl (BadRequest UR_LastAdmin))
          else if email_taken d (u_email user @ ''_deleted_'' @ decimal (nat now))
            \<or> username_taken d (u_username user @ ''_deleted_'' @ decimal (nat now))
            then (d, Inl (Conflict UR_Duplicate))
          else (put_user i (removed user now) d, Inr ()))"

definition temporary :: "string \<Rightarrow> instant \<Rightarrow> user_row \<Rightarrow> user_row" where
  "temporary passwordHash now u =
     revoke (u\<lparr>u_passwordHash := passwordHash, u_mustChangePassword := True,
       u_passwordChangedAt := Some now, u_temporaryPasswordExpiresAt := Some (now + DAY)\<rparr>)"

definition resetPassword ::
  "crypto \<Rightarrow> db \<Rightarrow> ident \<Rightarrow> ident \<Rightarrow> instant \<Rightarrow> (user_reason, string) outcome"
where
  "resetPassword cr d i adminId now =
     (case find_live d i of
        None \<Rightarrow> (d, Inl (NotFound UR_NotFound))
      | Some user \<Rightarrow>
          let temporaryPassword = ''Tmp'' @ cr_hex8 cr (nextId d) @ ''1!'';
              d1 = put_user i (temporary (cr_hash cr (nextId d) temporaryPassword) now) d
          in (audit adminId ''ADMIN_RESET_PASSWORD'' ''USERS'' (Some (u_id user))
                (Some (JStr (''Admin reset password for user '' @ u_username user))) ''SUCCESS'' now d1,
              Inr temporaryPassword))"

definition with_status :: "bool \<Rightarrow> user_row \<Rightarrow> user_row" where
  "with_status active u = revoke (u\<lparr>u_isActive := active\<rparr>)"

definition updateStatus :: "db \<Rightarrow> ident \<Rightarrow> bool \<Rightarrow> (user_reason, ident \<times> bool) outcome" where
  "updateStatus d i active =
     (case find_live d i of
        None \<Rightarrow> (d, Inl (NotFound UR_NotFound))
      | Some user \<Rightarrow>
          if (u_email user = ''admin@gms.local'' \<or> u_username user = ''admin'') \<and> \<not> active
            then (d, Inl (BadRequest UR_PrimaryAdmin))
          else if u_role user = ADMIN \<and> \<not> active \<and> activeAdminCount d \<le> 1
            then (d, Inl (BadRequest UR_LastAdmin))
          else (put_user i (with_status active) d, Inr (i, active)))"

end
