(* ===== verification/Gms_Attachments.thy ===== *)
theory Gms_Attachments
  imports Gms_Files Gms_Users
begin

text \<open>
  Attachments (attachments/attachments.service.ts, its controller and guard, and
  common/utils/magic-byte.util.ts): a file is stored in quarantine, checked, recorded and moved to
  its place; a download checks the scope, the path and the checksum. The request works on the
  database and the file system. A file of bytes is a string; SHA-256 and the text of a UUID are
  parameters.
\<close>

datatype at_reason =
    AT_NotLoggedIn
  | AT_TransactionRequired
  | AT_TransactionNotFound
  | AT_Terminal
  | AT_FileType
  | AT_BadDto
  | AT_FileRequired
  | AT_Traversal
  | AT_UnknownModule
  | AT_OutsideRoot
  | AT_Content
  | AT_MoveFailed
  | AT_Failed
  | AT_NotFound
  | AT_NoAuthority
  | AT_FileMissing
  | AT_Corrupt
  | AT_Unreadable

record storage =
  se_base :: path
  se_sha256 :: "string \<Rightarrow> string"
  se_uuid :: "ident \<Rightarrow> string"

type_synonym 'a at_outcome = "(db \<times> fs) \<times> (at_reason error + 'a)"

section \<open>Access\<close>

text \<open>
  \<open>findFirst({ where: { id, ...scope } })\<close> and the refusal of a closed transaction: the guard of
  the route and the service make the same checks.
\<close>

definition targetTransaction :: "db \<Rightarrow> ident option \<Rightarrow> jwt_user \<Rightarrow> at_reason error + transaction" where
  "targetTransaction d txid user =
     (case txid of
        None \<Rightarrow> Inl (BadRequest AT_TransactionRequired)
      | Some i \<Rightarrow>
          (case getTransactionScope user of
             Inl e \<Rightarrow> Inl e
           | Inr sc \<Rightarrow>
               (case find_first (\<lambda>t. tx_id t = i \<and> in_scope sc (processType t)) (transactions d) of
                  None \<Rightarrow> Inl (NotFound AT_TransactionNotFound)
                | Some tx \<Rightarrow>
                    if (status tx = COMPLETED \<or> status tx = CANCELLED) \<and> ju_role user \<noteq> ADMIN
                    then Inl (BadRequest AT_Terminal) else Inr tx)))"

definition uploadAccess :: "db \<Rightarrow> ident option \<Rightarrow> jwt_user option \<Rightarrow> at_reason error + jwt_user" where
  "uploadAccess d txid user =
     (case user of
        None \<Rightarrow> Inl (Forbidden AT_NotLoggedIn)
      | Some u \<Rightarrow> (case targetTransaction d txid u of Inl e \<Rightarrow> Inl e | Inr tx \<Rightarrow> Inr u))"

section \<open>Upload\<close>

definition ALLOWED_MODULES :: "string list" where
  "ALLOWED_MODULES = [''qc'', ''warehouse'', ''gate'', ''weighbridge'', ''general'', ''system'']"

text \<open>The first eight bytes in a buffer of zeros.\<close>

definition byte_at :: "string \<Rightarrow> nat \<Rightarrow> nat" where
  "byte_at s i = (if i < length s then of_char (s ! i) else 0)"

definition magic_matches :: "string \<Rightarrow> string \<Rightarrow> bool" where
  "magic_matches mime s =
     (if mime = ''image/jpeg'' \<or> mime = ''image/jpg''
      then byte_at s 0 = 255 \<and> byte_at s 1 = 216 \<and> byte_at s 2 = 255
      else if mime = ''image/png''
      then byte_at s 0 = 137 \<and> byte_at s 1 = 80 \<and> byte_at s 2 = 78 \<and> byte_at s 3 = 71
      else if mime = ''application/pdf''
      then byte_at s 0 = 37 \<and> byte_at s 1 = 80 \<and> byte_at s 2 = 68 \<and> byte_at s 3 = 70
      else False)"

definition validateMagicBytes :: "fs \<Rightarrow> path \<Rightarrow> string \<Rightarrow> bool" where
  "validateMagicBytes f p mime = (case fs_files f p of None \<Rightarrow> False | Some s \<Rightarrow> magic_matches mime s)"

record upload_dto =
  ud_module :: "string field"
  ud_attachmentType :: "attachment_type field"
  ud_description :: "string field"

record temp_file =
  tf_path :: path
  tf_originalname :: string
  tf_mimetype :: string
  tf_size :: nat

definition rawModule :: "upload_dto \<Rightarrow> string" where
  "rawModule dto = lower (trim (str_or (ud_module dto) ''general''))"

definition has_traversal :: "string \<Rightarrow> bool" where
  "has_traversal m \<longleftrightarrow> is_infix_of ''..'' m \<or> slash \<in> set m \<or> backslash \<in> set m \<or> CHR 0x00 \<in> set m"

definition forward_slashes :: "string \<Rightarrow> string" where
  "forward_slashes s = map (\<lambda>c. if c = backslash then slash else c) s"

text \<open>The row that is created; its identifiers are drawn before it.\<close>

definition attachment_row ::
  "storage \<Rightarrow> ident \<Rightarrow> ident \<Rightarrow> temp_file \<Rightarrow> upload_dto \<Rightarrow> jwt_user \<Rightarrow> string \<Rightarrow> string \<Rightarrow> path \<Rightarrow> instant \<Rightarrow> attachment"
where
  "attachment_row se n i file dto user sha uuidFilename destPath now =
     \<lparr>v_id = n + 2, v_transactionId = i, v_createdAt = now, v_isCurrent = True, v_supersededAt = None,
      v_supersededByCorrectionId = None, v_revision = 1, at_attachmentLineageId = n + 1,
      at_module = upper (rawModule dto),
      at_attachmentType = (case ud_attachmentType dto of Value ty \<Rightarrow> ty | _ \<Rightarrow> OTHER_ATTACHMENT),
      at_originalName = tf_originalname file, at_fileName = uuidFilename,
      at_filePath = forward_slashes (relative (se_base se) destPath), at_mimeType = tf_mimetype file,
      at_size = tf_size file, at_description = truthy_str (ud_description dto), at_uploadedById = Some (ju_id user),
      at_sha256 = Some sha\<rparr>"

definition uploadDescription :: "storage \<Rightarrow> temp_file \<Rightarrow> string \<Rightarrow> ident \<Rightarrow> string" where
  "uploadDescription se file sha i =
     ''Uploaded attachment '' @ tf_originalname file @ '' ('' @ take 8 sha @ ''...) for transaction '' @ se_uuid se i"

text \<open>Row and log entry, in one database transaction.\<close>

definition recordAttachment :: "attachment \<Rightarrow> jwt_user \<Rightarrow> string \<Rightarrow> instant \<Rightarrow> db \<Rightarrow> db" where
  "recordAttachment a user desc now d =
     audit (ju_id user) ''ATTACHMENT_UPLOAD'' ''ATTACHMENTS'' (Some (v_id a)) (Some (JStr desc)) ''SUCCESS'' now
       (d\<lparr>attachments := attachments d @ [a], nextId := Suc (v_id a)\<rparr>)"

definition deleteAttachment :: "ident \<Rightarrow> db \<Rightarrow> db" where
  "deleteAttachment k d = d\<lparr>attachments := filter (\<lambda>a. v_id a \<noteq> k) (attachments d)\<rparr>"

text \<open>The body of the try block.\<close>

definition storeUpload ::
  "storage \<Rightarrow> db \<Rightarrow> fs \<Rightarrow> temp_file \<Rightarrow> ident option \<Rightarrow> upload_dto \<Rightarrow> jwt_user \<Rightarrow> instant \<Rightarrow> attachment at_outcome"
where
  "storeUpload se d f file txid dto user now =
     (case targetTransaction d txid user of
        Inl e \<Rightarrow> ((d, f), Inl e)
      | Inr tx \<Rightarrow>
          let m = rawModule dto; destDir = resolve (se_base se) m
          in if has_traversal m then ((d, f), Inl (BadRequest AT_Traversal))
             else if m \<notin> set ALLOWED_MODULES then ((d, f), Inl (BadRequest AT_UnknownModule))
             else if escapes (se_base se) destDir then ((d, f), Inl (BadRequest AT_OutsideRoot))
             else if \<not> validateMagicBytes f (tf_path file) (tf_mimetype file) then ((d, f), Inl (BadRequest AT_Content))
             else
               let sha = se_sha256 se (the (fs_files f (tf_path file)));
                   uuidFilename = se_uuid se (nextId d) @ lower (extname (tf_originalname file))
               in (case ensure_dir destDir f of
                     None \<Rightarrow> ((d, f), Inl (InternalError AT_Failed))
                   | Some f1 \<Rightarrow>
                       let destPath = join destDir uuidFilename;
                           a = attachment_row se (nextId d) (tx_id tx) file dto user sha uuidFilename destPath now;
                           d' = recordAttachment a user (uploadDescription se file sha (tx_id tx)) now d
                       in (case rename (tf_path file) destPath f1 of
                             None \<Rightarrow> ((deleteAttachment (v_id a) d', f1), Inl (InternalError AT_MoveFailed))
                           | Some f2 \<Rightarrow> ((d', f2), Inr a))))"

text \<open>Every error removes the file from quarantine; what is no client error is answered as 500.\<close>

definition cleanup :: "path \<Rightarrow> fs \<Rightarrow> fs" where
  "cleanup p f = (if existsSync f p then val_or (unlink p f) f else f)"

fun passed_on :: "at_reason error \<Rightarrow> at_reason error" where
  "passed_on (InternalError r) = InternalError AT_Failed"
| "passed_on e = e"

definition processQuarantineUpload ::
  "storage \<Rightarrow> db \<Rightarrow> fs \<Rightarrow> temp_file option \<Rightarrow> ident option \<Rightarrow> upload_dto \<Rightarrow> jwt_user \<Rightarrow> instant \<Rightarrow> attachment at_outcome"
where
  "processQuarantineUpload se d f file txid dto user now =
     (case file of
        None \<Rightarrow> ((d, f), Inl (BadRequest AT_FileRequired))
      | Some tmp \<Rightarrow>
          (case storeUpload se d f tmp txid dto user now of
             ((d', f'), Inr a) \<Rightarrow> ((d', f'), Inr a)
           | ((d', f'), Inl e) \<Rightarrow> ((d', cleanup (tf_path tmp) f'), Inl (passed_on e))))"

section \<open>The route\<close>

text \<open>
  The guard, then the interceptor, which filters the file by type and extension and writes it to
  quarantine, then the validation of the form fields, then the service. \<open>suffix\<close> stands for time
  and random number in the name. Files over the limit of 10 MB are refused by multer.
\<close>

record posted_file =
  pf_originalname :: string
  pf_mimetype :: string
  pf_content :: string

definition fileFilter :: "posted_file \<Rightarrow> bool" where
  "fileFilter pf \<longleftrightarrow>
     pf_mimetype pf \<in> set [''image/jpeg'', ''image/png'', ''application/pdf''] \<and>
     lower (extname (pf_originalname pf)) \<in> set [''.jpg'', ''.jpeg'', ''.png'', ''.pdf'']"

definition module_char :: "char \<Rightarrow> bool" where
  "module_char c \<longleftrightarrow> is_letter (ascii_upper c) \<or> is_digit c \<or> c = CHR ''_'' \<or> c = CHR ''-''"

definition valid_upload_dto :: "upload_dto \<Rightarrow> bool" where
  "valid_upload_dto dto \<longleftrightarrow>
     (case ud_module dto of Value m \<Rightarrow> m \<noteq> [] \<and> list_all module_char m \<and> length m \<le> 50 | _ \<Rightarrow> True) \<and>
     (case ud_description dto of Value s \<Rightarrow> length s \<le> 500 | _ \<Rightarrow> True)"

definition quarantine_path :: "storage \<Rightarrow> string \<Rightarrow> posted_file \<Rightarrow> path" where
  "quarantine_path se suffix pf =
     join (join (se_base se) ''quarantine'') (''quarantine-'' @ suffix @ extname (pf_originalname pf))"

definition postAttachment ::
  "storage \<Rightarrow> db \<Rightarrow> fs \<Rightarrow> ident option \<Rightarrow> posted_file option \<Rightarrow> upload_dto \<Rightarrow> jwt_user option \<Rightarrow> string \<Rightarrow> instant \<Rightarrow>
     attachment at_outcome"
where
  "postAttachment se d f txid pf dto user suffix now =
     (case uploadAccess d txid user of
        Inl e \<Rightarrow> ((d, f), Inl e)
      | Inr u \<Rightarrow>
          (case pf of
             None \<Rightarrow>
               if valid_upload_dto dto then processQuarantineUpload se d f None txid dto u now
               else ((d, f), Inl (BadRequest AT_BadDto))
           | Some p \<Rightarrow>
               if \<not> fileFilter p then ((d, f), Inl (BadRequest AT_FileType))
               else
                 let tmp = quarantine_path se suffix p
                 in (case mkdirs (join (se_base se) ''quarantine'') f of
                       None \<Rightarrow> ((d, f), Inl (InternalError AT_Failed))
                     | Some f1 \<Rightarrow>
                         (case writeFile tmp (pf_content p) f1 of
                            None \<Rightarrow> ((d, f1), Inl (InternalError AT_Failed))
                          | Some f2 \<Rightarrow>
                              if \<not> valid_upload_dto dto then ((d, f2), Inl (BadRequest AT_BadDto))
                              else processQuarantineUpload se d f2
                                (Some \<lparr>tf_path = tmp, tf_originalname = pf_originalname p,
                                   tf_mimetype = pf_mimetype p, tf_size = length (pf_content p)\<rparr>)
                                txid dto u now))))"

section \<open>Download\<close>

text \<open>\<open>encodeURIComponent\<close>, byte by byte of the UTF-8 text.\<close>

definition unreserved :: "char \<Rightarrow> bool" where
  "unreserved c \<longleftrightarrow> is_letter (ascii_upper c) \<or> is_digit c \<or> c \<in> set ''-_.!~*()'' \<or> c = CHR 0x27"

definition hex_digit :: "nat \<Rightarrow> char" where
  "hex_digit n = char_of (if n < 10 then 48 + n else 55 + n)"

definition encodeURIComponent :: "string \<Rightarrow> string" where
  "encodeURIComponent s =
     concat (map (\<lambda>c. if unreserved c then [c]
       else [CHR ''%'', hex_digit (of_char c div 16), hex_digit (of_char c mod 16)]) s)"

record download =
  dl_contentType :: string
  dl_disposition :: string
  dl_length :: nat
  dl_body :: string

definition downloadAttachment :: "storage \<Rightarrow> db \<Rightarrow> fs \<Rightarrow> ident \<Rightarrow> jwt_user \<Rightarrow> at_reason error + download" where
  "downloadAttachment se d f k user =
     (case find_first (\<lambda>a. v_id a = k \<and> v_isCurrent a) (attachments d) of
        None \<Rightarrow> Inl (NotFound AT_NotFound)
      | Some a \<Rightarrow>
          (case getTransactionScope user of
             Inl e \<Rightarrow> Inl e
           | Inr sc \<Rightarrow>
               (case find_first (\<lambda>t. tx_id t = v_transactionId a \<and> in_scope sc (processType t)) (transactions d) of
                  None \<Rightarrow> Inl (Forbidden AT_NoAuthority)
                | Some tx \<Rightarrow>
                    let p = resolve (se_base se) (at_filePath a)
                    in if escapes (se_base se) p then Inl (Forbidden AT_Traversal)
                       else if \<not> existsSync f p then Inl (NotFound AT_FileMissing)
                       else
                         (case fs_files f p of
                            None \<Rightarrow> Inl (InternalError AT_Unreadable)
                          | Some s \<Rightarrow>
                              if (case truthy_col (at_sha256 a) of None \<Rightarrow> False | Some h \<Rightarrow> se_sha256 se s \<noteq> h)
                              then Inl (InternalError AT_Corrupt)
                              else Inr \<lparr>dl_contentType = at_mimeType a,
                                     dl_disposition = ''attachment; filename='' @ [CHR 0x22] @
                                       encodeURIComponent (at_originalName a) @ [CHR 0x22],
                                     dl_length = at_size a, dl_body = s\<rparr>))))"

section \<open>Where uploads go\<close>

text \<open>The documented form of a UUID: hexadecimal digits and hyphens.\<close>

definition uuid_names :: "storage \<Rightarrow> bool" where
  "uuid_names se \<longleftrightarrow> (\<forall>n. se_uuid se n \<noteq> [] \<and> set (se_uuid se n) \<subseteq> set ''0123456789abcdef-'')"

text \<open>Row identifiers come from the counter.\<close>

definition attachment_ids_fresh :: "db \<Rightarrow> bool" where
  "attachment_ids_fresh d \<longleftrightarrow> (\<forall>a \<in> set (attachments d). v_id a < nextId d)"

definition may_add :: "db \<Rightarrow> ident option \<Rightarrow> jwt_user \<Rightarrow> transaction \<Rightarrow> bool" where
  "may_add d txid u tx \<longleftrightarrow> txid = Some (tx_id tx) \<and> tx \<in> set (transactions d) \<and>
     assertProcessAccess u (processType tx) = (None :: at_reason error option) \<and>
     (ju_role u = ADMIN \<or> status tx \<notin> {COMPLETED, CANCELLED})"

lemma scope_admits_process:
  "getTransactionScope u = (Inr sc :: 'r error + tx_scope) \<Longrightarrow>
     in_scope sc p \<longleftrightarrow> assertProcessAccess u p = (None :: 'r error option)"
  by (cases "ju_role u")
    (auto simp: getTransactionScope_def assertScopeNotEmpty_def assertProcessAccess_def split: if_splits)

lemma targetTransaction_Inr: "targetTransaction d txid u = Inr tx \<Longrightarrow> may_add d txid u tx"
  by (auto simp: targetTransaction_def may_add_def scope_admits_process dest!: find_first_SomeD
      split: option.splits sum.splits if_splits)

lemma module_names:
  "m \<in> set ALLOWED_MODULES \<Longrightarrow> is_name m \<and> \<not> is_prefix_of ''..'' m \<and> m \<noteq> ''quarantine'' \<and> backslash \<notin> set m"
  by (auto simp: ALLOWED_MODULES_def is_name_def slash_def backslash_def)

lemma module_dir:
  "m \<in> set ALLOWED_MODULES \<Longrightarrow> resolve base m = base @ [m] \<and> \<not> escapes base (base @ [m])"
  using module_names [of m] by (simp add: resolve_name escapes_below)

text \<open>The name of a stored file.\<close>

definition stored_name :: "string \<Rightarrow> bool" where
  "stored_name w \<longleftrightarrow> is_name w \<and> \<not> is_prefix_of ''..'' w \<and> backslash \<notin> set w"

lemma stored_name_uuid:
  assumes "uuid_names se" "e \<in> set [''.jpg'', ''.jpeg'', ''.png'', ''.pdf'']"
  shows "stored_name (se_uuid se n @ e)"
proof -
  obtain c s where u: "se_uuid se n = c # s" using assms(1) by (cases "se_uuid se n") (auto simp: uuid_names_def)
  have chars: "set (se_uuid se n) \<subseteq> set ''0123456789abcdef-''" using assms(1) by (simp add: uuid_names_def)
  then have c: "c \<noteq> CHR ''.''" by (auto simp: u)
  have "slash \<notin> set (se_uuid se n)" "backslash \<notin> set (se_uuid se n)"
    using chars by (auto simp: slash_def backslash_def)
  moreover have "slash \<notin> set e" "backslash \<notin> set e" using assms(2) by (auto simp: slash_def backslash_def)
  ultimately show ?thesis using c by (auto simp: stored_name_def is_name_def u)
qed

lemma stored_path:
  assumes "m \<in> set ALLOWED_MODULES" "stored_name w"
  shows "forward_slashes (relative base (base @ [m, w])) = join_path [m, w]"
    "resolve base (join_path [m, w]) = base @ [m, w]" "\<not> escapes base (base @ [m, w])"
proof -
  have m: "is_name m" "\<not> is_prefix_of ''..'' m" "backslash \<notin> set m" using module_names assms(1) by blast+
  have w: "is_name w" "backslash \<notin> set w" using assms(2) by (simp_all add: stored_name_def)
  have "backslash \<notin> set (join_path [m, w])" using m w by (simp add: slash_def backslash_def)
  then have "map (\<lambda>c. if c = backslash then slash else c) (join_path [m, w]) = join_path [m, w]"
    by (intro map_idI) auto
  then show "forward_slashes (relative base (base @ [m, w])) = join_path [m, w]"
    unfolding relative_below forward_slashes_def .
  show "resolve base (join_path [m, w]) = base @ [m, w]"
    using m w by (intro resolve_relative) auto
  show "\<not> escapes base (base @ [m, w])" using m w by (simp add: escapes_below)
qed

section \<open>What an upload does\<close>

definition destination :: "storage \<Rightarrow> db \<Rightarrow> temp_file \<Rightarrow> upload_dto \<Rightarrow> path" where
  "destination se d tmp dto =
     se_base se @ [rawModule dto, se_uuid se (nextId d) @ lower (extname (tf_originalname tmp))]"

lemma storeUpload_Inr:
  assumes "storeUpload se d f tmp txid dto u now = ((d', f'), Inr a)"
    and "stored_name (se_uuid se (nextId d) @ lower (extname (tf_originalname tmp)))"
  obtains tx s f1 where "may_add d txid u tx" "rawModule dto \<in> set ALLOWED_MODULES"
    "fs_files f (tf_path tmp) = Some s" "magic_matches (tf_mimetype tmp) s"
    "fs_files f1 = fs_files f" "rename (tf_path tmp) (destination se d tmp dto) f1 = Some f'"
    "a = attachment_row se (nextId d) (tx_id tx) tmp dto u (se_sha256 se s)
       (se_uuid se (nextId d) @ lower (extname (tf_originalname tmp))) (destination se d tmp dto) now"
    "d' = recordAttachment a u (uploadDescription se tmp (se_sha256 se s) (tx_id tx)) now d"
proof -
  obtain tx where tx: "targetTransaction d txid u = Inr tx"
    using assms(1) by (auto simp: storeUpload_def split: sum.splits)
  have m: "rawModule dto \<in> set ALLOWED_MODULES" and v: "validateMagicBytes f (tf_path tmp) (tf_mimetype tmp)"
    using assms(1) by (auto simp: storeUpload_def tx Let_def split: if_splits)
  obtain s where s: "fs_files f (tf_path tmp) = Some s" "magic_matches (tf_mimetype tmp) s"
    using v by (auto simp: validateMagicBytes_def split: option.splits)
  have j: "join (se_base se @ [rawModule dto]) (se_uuid se (nextId d) @ lower (extname (tf_originalname tmp))) =
      destination se d tmp dto"
    using assms(2) by (simp add: stored_name_def join_name destination_def)
  obtain f1 where f1: "ensure_dir (se_base se @ [rawModule dto]) f = Some f1"
    using assms(1) module_dir [OF m] by (auto simp: storeUpload_def tx Let_def s split: if_splits option.splits)
  let ?sha = "se_sha256 se s" and ?dest = "destination se d tmp dto"
  let ?a = "attachment_row se (nextId d) (tx_id tx) tmp dto u ?sha
      (se_uuid se (nextId d) @ lower (extname (tf_originalname tmp))) ?dest now"
  let ?d = "recordAttachment ?a u (uploadDescription se tmp ?sha (tx_id tx)) now d"
  have "\<not> has_traversal (rawModule dto)" using assms(1) by (auto simp: storeUpload_def tx Let_def split: if_splits)
  then have "storeUpload se d f tmp txid dto u now = (case rename (tf_path tmp) ?dest f1 of
      None \<Rightarrow> ((deleteAttachment (v_id ?a) ?d, f1), Inl (InternalError AT_MoveFailed)) | Some f2 \<Rightarrow> ((?d, f2), Inr ?a))"
    using module_dir [OF m] v m by (cases "rename (tf_path tmp) ?dest f1") (simp_all add: storeUpload_def tx Let_def s f1 j)
  with assms(1) have "rename (tf_path tmp) ?dest f1 = Some f'" "a = ?a" "d' = ?d"
    by (auto split: option.splits)
  with that [OF targetTransaction_Inr [OF tx] m s] ensure_dir_frame [OF f1] show ?thesis by blast
qed

lemma recordAttachment_frame:
  "same_data (d\<lparr>attachments := attachments d @ [a], nextId := Suc (v_id a)\<rparr>) (recordAttachment a u desc now d)"
  unfolding recordAttachment_def by (rule same_data_audit)

lemma attachments_record [simp]:
  "attachments (recordAttachment a u desc now d) = attachments d @ [a]"
  "transactions (recordAttachment a u desc now d) = transactions d"
  by (simp_all add: recordAttachment_def)

lemma deleted_same:
  assumes "attachment_ids_fresh d" "v_id a = Suc (Suc (nextId d))"
  shows "same_data d (deleteAttachment (Suc (Suc (nextId d))) (recordAttachment a u desc now d))"
proof -
  have "filter (\<lambda>x. v_id x \<noteq> Suc (Suc (nextId d))) (attachments d) = attachments d"
    using assms(1) by (intro filter_True) (auto simp: attachment_ids_fresh_def)
  then show ?thesis using assms(2)
    by (simp add: same_data_def deleteAttachment_def recordAttachment_def audit_def logAction_def Let_def)
qed

lemma attachment_row_id [simp]: "v_id (attachment_row se n i tmp dto u sha w p now) = Suc (Suc n)"
  by (simp add: attachment_row_def)

lemma storeUpload_Inl:
  assumes "storeUpload se d f tmp txid dto u now = ((d', f'), Inl e)" "attachment_ids_fresh d"
  shows "same_data d d' \<and> fs_files f' = fs_files f \<and> fs_writable f' = fs_writable f"
  using assms ensure_dir_frame
  by (auto simp: storeUpload_def Let_def deleted_same split: sum.splits option.splits if_splits)

section \<open>The route\<close>

lemma split_path_components: "w \<in> set (split_path s) \<Longrightarrow> slash \<notin> set w"
  by (induction s arbitrary: w rule: split_path.induct) (auto split: if_splits list.splits)

lemma extname_no_slash: "slash \<notin> set (extname s)"
proof -
  have "slash \<notin> set (last_component s)"
  proof (cases "filter (\<lambda>w. w \<noteq> []) (split_path s)")
    case (Cons w ws)
    have "last (w # ws) \<in> set (filter (\<lambda>w. w \<noteq> []) (split_path s))" unfolding Cons by (rule last_in_set) simp
    then have "last (w # ws) \<in> set (split_path s)" by auto
    then show ?thesis using split_path_components by (simp add: last_component_def Cons del: last.simps)
  qed (simp add: last_component_def)
  then show ?thesis by (auto simp: extname_def Let_def dest: in_set_dropD)
qed

lemma quarantine_place:
  assumes "slash \<notin> set suffix"
  shows "\<exists>w. quarantine_path se suffix p = se_base se @ [''quarantine'', w] \<and> is_name w"
proof -
  have "is_name ''quarantine''" by (simp add: is_name_def slash_def)
  moreover have n: "is_name (''quarantine-'' @ suffix @ extname (pf_originalname p))"
    using assms extname_no_slash by (simp add: is_name_def slash_def)
  ultimately show ?thesis unfolding quarantine_path_def by (simp only: join_name append.simps append_assoc) blast
qed

lemma processQuarantineUpload_Inr:
  "processQuarantineUpload se d f (Some tmp) txid dto u now = ((d', f'), Inr a) \<longleftrightarrow>
     storeUpload se d f tmp txid dto u now = ((d', f'), Inr a)"
  by (auto simp: processQuarantineUpload_def split: prod.splits sum.splits)

lemma processQuarantineUpload_Inl:
  assumes "processQuarantineUpload se d f (Some tmp) txid dto u now = ((d', f'), Inl e)" "attachment_ids_fresh d"
  shows "same_data d d' \<and> (\<forall>q. q \<noteq> tf_path tmp \<longrightarrow> fs_files f' q = fs_files f q) \<and>
    (fs_writable f (tf_path tmp) \<longrightarrow> fs_files f' (tf_path tmp) = None)"
proof -
  obtain d1 f1 e1 where s: "storeUpload se d f tmp txid dto u now = ((d1, f1), Inl e1)" "d' = d1" "f' = cleanup (tf_path tmp) f1"
    using assms(1) by (auto simp: processQuarantineUpload_def split: prod.splits sum.splits)
  show ?thesis using storeUpload_Inl [OF s(1) assms(2)]
    by (auto simp: s cleanup_def unlink_def existsSync_def)
qed

text \<open>What the route does up to the service.\<close>

lemma post_cases:
  assumes "postAttachment se d f txid pf dto user suffix now = ((d', f'), res)"
  obtains (refused) e where "res = Inl e" "d' = d" "fs_files f' = fs_files f"
  | (invalid) p e where "pf = Some p" "res = Inl e" "d' = d" "\<not> valid_upload_dto dto"
      "fs_files f' = (fs_files f)(quarantine_path se suffix p := Some (pf_content p))"
  | (served) u p f2 where "user = Some u" "pf = Some p" "fileFilter p" "valid_upload_dto dto"
      "fs_files f2 = (fs_files f)(quarantine_path se suffix p := Some (pf_content p))" "fs_writable f2 = fs_writable f"
      "processQuarantineUpload se d f2
         (Some \<lparr>tf_path = quarantine_path se suffix p, tf_originalname = pf_originalname p,
            tf_mimetype = pf_mimetype p, tf_size = length (pf_content p)\<rparr>) txid dto u now = ((d', f'), res)"
proof (cases "uploadAccess d txid user")
  case (Inl e)
  with assms refused [of e] show ?thesis by (auto simp: postAttachment_def)
next
  case (Inr u)
  have u: "user = Some u" using Inr by (auto simp: uploadAccess_def split: option.splits sum.splits)
  show ?thesis
  proof (cases pf)
    case None
    then show ?thesis using assms refused Inr
      by (auto simp: postAttachment_def processQuarantineUpload_def split: if_splits)
  next
    case (Some p)
    let ?q = "quarantine_path se suffix p"
    show ?thesis
    proof (cases "fileFilter p")
      case True
      show ?thesis
      proof (cases "mkdirs (join (se_base se) ''quarantine'') f")
        case None
        then show ?thesis using assms refused by (auto simp: postAttachment_def Inr Some True)
      next
        case f1: (Some f1)
        note fr = mkdirs_frame [OF f1]
        show ?thesis
        proof (cases "writeFile ?q (pf_content p) f1")
          case None
          then show ?thesis using assms refused fr by (auto simp: postAttachment_def Inr Some True f1)
        next
          case f2: (Some f2)
          then have "fs_files f2 = (fs_files f)(?q := Some (pf_content p))" "fs_writable f2 = fs_writable f"
            using fr by (auto simp: writeFile_def split: if_splits)
          moreover have "((d', f'), res) = (if \<not> valid_upload_dto dto then ((d, f2), Inl (BadRequest AT_BadDto))
              else processQuarantineUpload se d f2 (Some \<lparr>tf_path = ?q, tf_originalname = pf_originalname p,
                tf_mimetype = pf_mimetype p, tf_size = length (pf_content p)\<rparr>) txid dto u now)"
            unfolding assms [symmetric] by (simp add: postAttachment_def Inr Some True f1 f2)
          ultimately show ?thesis using invalid [OF Some] served [OF u Some True]
            by (auto split: if_splits)
        qed
      qed
    qed (use assms refused in \<open>auto simp: postAttachment_def Inr Some\<close>)
  qed
qed

definition stored_file :: "storage \<Rightarrow> string \<Rightarrow> posted_file \<Rightarrow> temp_file" where
  "stored_file se suffix p = \<lparr>tf_path = quarantine_path se suffix p, tf_originalname = pf_originalname p,
     tf_mimetype = pf_mimetype p, tf_size = length (pf_content p)\<rparr>"

lemma stored_file_simps [simp]:
  "tf_path (stored_file se suffix p) = quarantine_path se suffix p"
  "tf_originalname (stored_file se suffix p) = pf_originalname p"
  "tf_mimetype (stored_file se suffix p) = pf_mimetype p" "tf_size (stored_file se suffix p) = length (pf_content p)"
  by (simp_all add: stored_file_def)

definition uploaded_name :: "storage \<Rightarrow> db \<Rightarrow> posted_file \<Rightarrow> string" where
  "uploaded_name se d p = se_uuid se (nextId d) @ lower (extname (pf_originalname p))"

text \<open>An accepted upload in full.\<close>

lemma post_Inr:
  assumes "uuid_names se" "postAttachment se d f txid pf dto user suffix now = ((d', f'), Inr a)"
  obtains u tx p where "user = Some u" "pf = Some p" "may_add d txid u tx" "fileFilter p" "valid_upload_dto dto"
    "magic_matches (pf_mimetype p) (pf_content p)" "rawModule dto \<in> set ALLOWED_MODULES"
    "stored_name (uploaded_name se d p)"
    "a = attachment_row se (nextId d) (tx_id tx) (stored_file se suffix p) dto u (se_sha256 se (pf_content p))
       (uploaded_name se d p) (se_base se @ [rawModule dto, uploaded_name se d p]) now"
    "attachments d' = attachments d @ [a]" "transactions d' = transactions d"
    "fs_files f' = (fs_files f)(quarantine_path se suffix p := None,
       se_base se @ [rawModule dto, uploaded_name se d p] := Some (pf_content p))"
  using assms(2)
proof (cases rule: post_cases)
  case (served u p f2)
  let ?tmp = "stored_file se suffix p"
  have name: "stored_name (uploaded_name se d p)"
    unfolding uploaded_name_def using served(3) by (intro stored_name_uuid assms(1)) (simp add: fileFilter_def)
  have dest: "destination se d ?tmp dto = se_base se @ [rawModule dto, uploaded_name se d p]"
    by (simp add: destination_def uploaded_name_def)
  have "storeUpload se d f2 ?tmp txid dto u now = ((d', f'), Inr a)"
    using served(7) by (simp add: processQuarantineUpload_Inr stored_file_def)
  then obtain tx s f1 where h: "may_add d txid u tx" "rawModule dto \<in> set ALLOWED_MODULES"
      "fs_files f2 (tf_path ?tmp) = Some s" "magic_matches (tf_mimetype ?tmp) s" "fs_files f1 = fs_files f2"
      "rename (tf_path ?tmp) (destination se d ?tmp dto) f1 = Some f'"
      "a = attachment_row se (nextId d) (tx_id tx) ?tmp dto u (se_sha256 se s)
        (se_uuid se (nextId d) @ lower (extname (tf_originalname ?tmp))) (destination se d ?tmp dto) now"
      "d' = recordAttachment a u (uploadDescription se ?tmp (se_sha256 se s) (tx_id tx)) now d"
    using name by (elim storeUpload_Inr) (simp_all add: uploaded_name_def)
  have s: "s = pf_content p" using h(3) by (simp add: served(5))
  have "fs_files f' = (fs_files f)(quarantine_path se suffix p := None,
      se_base se @ [rawModule dto, uploaded_name se d p] := Some (pf_content p))"
    using rename_files [OF h(6)] by (simp add: h(5) served(5) dest)
  then show thesis
    using that [OF served(1,2) h(1) served(3,4)] h(2,4,7) name by (simp add: h(8) s dest uploaded_name_def)
qed simp_all

text \<open>
  C35. (functional) An upload is accepted only from a user who may add to the transaction, for a
  file of an admitted type and extension whose first bytes agree with the type, into an admitted
  module. Then one row is added, with the checksum of the content, and the file is moved from
  quarantine to the module's directory under a fresh name; no other file changes. A refusal adds no
  row and changes no file but the one in quarantine, which is gone afterwards when the form fields
  were valid and the disk allows it.
\<close>
theorem upload_correct:
  assumes "uuid_names se" "attachment_ids_fresh d"
    and "postAttachment se d f txid pf dto user suffix now = ((d', f'), res)"
  shows "case res of
      Inl e \<Rightarrow> same_data d d' \<and>
        (\<forall>q. fs_files f' q \<noteq> fs_files f q \<longrightarrow> (\<exists>p. pf = Some p \<and> q = quarantine_path se suffix p \<and>
          (valid_upload_dto dto \<and> fs_writable f q \<longrightarrow> fs_files f' q = None)))
    | Inr a \<Rightarrow> \<exists>u tx p m. user = Some u \<and> pf = Some p \<and> may_add d txid u tx \<and> fileFilter p \<and>
        magic_matches (pf_mimetype p) (pf_content p) \<and> valid_upload_dto dto \<and> m \<in> set ALLOWED_MODULES \<and>
        attachments d' = attachments d @ [a] \<and> transactions d' = transactions d \<and>
        v_transactionId a = tx_id tx \<and> at_sha256 a = Some (se_sha256 se (pf_content p)) \<and> at_size a = length (pf_content p) \<and>
        fs_files f' = (fs_files f)(quarantine_path se suffix p := None,
          se_base se @ [m, at_fileName a] := Some (pf_content p))"
  using assms(3)
proof (cases rule: post_cases)
  case (served u p f2)
  let ?q = "quarantine_path se suffix p"
  show ?thesis
  proof (cases res)
    case (Inl e)
    then have "processQuarantineUpload se d f2 (Some (stored_file se suffix p)) txid dto u now = ((d', f'), Inl e)"
      using served(7) by (simp add: stored_file_def)
    from processQuarantineUpload_Inl [OF this assms(2)]
    have k: "same_data d d'" "\<And>q. q \<noteq> ?q \<Longrightarrow> fs_files f' q = fs_files f q" "fs_writable f ?q \<longrightarrow> fs_files f' ?q = None"
      by (simp_all add: served(5,6))
    have "fs_files f' q \<noteq> fs_files f q \<Longrightarrow> q = ?q" for q using k(2) by blast
    then show ?thesis using k(1,3) served(2) Inl by auto
  next
    case (Inr a)
    from post_Inr [OF assms(1) assms(3) [unfolded Inr]]
    show ?thesis unfolding Inr sum.case by cases (auto simp: attachment_row_def)
  qed
qed (auto simp: same_data_def)

section \<open>Reading back\<close>

lemma find_first_snoc_fresh:
  "(\<And>x. x \<in> set xs \<Longrightarrow> \<not> P x) \<Longrightarrow> P y \<Longrightarrow> find_first P (xs @ [y]) = Some y"
  by (induction xs) (auto simp: find_first_def)

lemma scope_of_process:
  assumes "assertProcessAccess u p = (None :: 'r error option)"
  obtains sc where "getTransactionScope u = (Inr sc :: 'r error + tx_scope)" "in_scope sc p"
proof (cases "getTransactionScope u :: 'r error + tx_scope")
  case (Inl e)
  then show ?thesis using assms
    by (auto simp: getTransactionScope_def assertScopeNotEmpty_def assertProcessAccess_def split: if_splits)
next
  case (Inr sc)
  then show ?thesis using that assms scope_admits_process by blast
qed

text \<open>The file name in the header can not leave its quotes.\<close>

lemma hex_digit_unreserved: "n < 16 \<Longrightarrow> unreserved (hex_digit n)"
  by (auto simp: unreserved_def hex_digit_def is_digit_def is_letter_def ascii_upper_def Let_def)

lemma encoded_chars: "c \<in> set (encodeURIComponent s) \<Longrightarrow> unreserved c \<or> c = CHR ''%''"
proof -
  have "of_char x < (16 :: nat) * 16" for x :: char using nat_of_char_less_256 [of x] by simp
  then have "of_char x div 16 < (16 :: nat)" "of_char x mod 16 < (16 :: nat)" for x :: char
    using less_mult_imp_div_less by simp_all
  then show "c \<in> set (encodeURIComponent s) \<Longrightarrow> unreserved c \<or> c = CHR ''%''"
    using hex_digit_unreserved by (auto simp: encodeURIComponent_def split: if_splits)
qed

lemma header_safe: "CHR 0x22 \<notin> set (encodeURIComponent s) \<and> CHR 0x0D \<notin> set (encodeURIComponent s) \<and> CHR 0x0A \<notin> set (encodeURIComponent s)"
proof -
  have "\<not> unreserved (CHR 0x22)" "\<not> unreserved (CHR 0x0D)" "\<not> unreserved (CHR 0x0A)"
    by (simp_all add: unreserved_def is_digit_def is_letter_def ascii_upper_def)
  then show ?thesis using encoded_chars by fastforce
qed

lemma uploaded_download:
  assumes "uuid_names se" "attachment_ids_fresh d"
    and "postAttachment se d f txid (Some p) dto user suffix now = ((d', f'), Inr a)"
    and "tx \<in> set (transactions d)" "txid = Some (tx_id tx)"
    and "assertProcessAccess reader (processType tx) = (None :: at_reason error option)"
  shows "downloadAttachment se d' f' (v_id a) reader =
      Inr \<lparr>dl_contentType = pf_mimetype p, dl_disposition = ''attachment; filename='' @ [CHR 0x22] @
             encodeURIComponent (at_originalName a) @ [CHR 0x22],
           dl_length = length (pf_content p), dl_body = pf_content p\<rparr>"
  using post_Inr [OF assms(1,3)]
proof cases
  case (1 u tx' p')
  have p: "p' = p" using 1(2) by simp
  let ?dest = "se_base se @ [rawModule dto, uploaded_name se d p]"
  note path = stored_path [OF 1(7,8), unfolded p, of "se_base se"]
  have found: "find_first (\<lambda>x. v_id x = v_id a \<and> v_isCurrent x) (attachments d') = Some a"
    unfolding 1(10) using assms(2) by (intro find_first_snoc_fresh) (auto simp: attachment_ids_fresh_def 1(9) attachment_row_def)
  obtain sc where sc: "getTransactionScope reader = (Inr sc :: at_reason error + tx_scope)" "in_scope sc (processType tx)"
    using scope_of_process [OF assms(6)] .
  have tid: "v_transactionId a = tx_id tx" using 1(3) assms(5) by (simp add: 1(9) attachment_row_def may_add_def)
  obtain tx2 where tx2: "find_first (\<lambda>t. tx_id t = v_transactionId a \<and> in_scope sc (processType t)) (transactions d') = Some tx2"
    using find_first_Some_ex [OF assms(4), of "\<lambda>t. tx_id t = v_transactionId a \<and> in_scope sc (processType t)"] sc(2)
    by (auto simp: 1(11) tid)
  have at: "at_filePath a = join_path [rawModule dto, uploaded_name se d p]" "at_mimeType a = pf_mimetype p"
      "at_size a = length (pf_content p)" "at_sha256 a = Some (se_sha256 se (pf_content p))"
    using path(1) by (simp_all add: 1(9) attachment_row_def p)
  have bytes: "fs_files f' ?dest = Some (pf_content p)" by (simp add: 1(12) p)
  show ?thesis
    using path(2,3) bytes
    by (simp add: downloadAttachment_def found sc(1) tx2 at existsSync_def truthy_col_def del: join_path.simps)
qed

text \<open>
  C36. (roundtrip) What was uploaded is what is downloaded: right after an accepted upload the new
  attachment can be read by every user whose scope admits the transaction, with exactly the bytes,
  the length and the type that were posted, under a file name that can not leave its quotes.
\<close>
theorem attachment_roundtrip:
  assumes "uuid_names se" "attachment_ids_fresh d"
    and "postAttachment se d f txid (Some p) dto user suffix now = ((d', f'), Inr a)"
    and "tx \<in> set (transactions d)" "txid = Some (tx_id tx)"
    and "assertProcessAccess reader (processType tx) = (None :: at_reason error option)"
  shows "\<exists>name. downloadAttachment se d' f' (v_id a) reader =
      Inr \<lparr>dl_contentType = pf_mimetype p, dl_disposition = ''attachment; filename='' @ [CHR 0x22] @ name @ [CHR 0x22],
           dl_length = length (pf_content p), dl_body = pf_content p\<rparr> \<and>
      CHR 0x22 \<notin> set name \<and> CHR 0x0D \<notin> set name \<and> CHR 0x0A \<notin> set name"
  using uploaded_download [OF assms] header_safe by blast

text \<open>
  C37. (safety) A download answers only the content of a file below the upload directory that is
  recorded as a current attachment of a transaction the user may see, and only if the content has the
  recorded checksum when there is one.
\<close>
theorem download_safe:
  assumes "downloadAttachment se d f k user = Inr r"
  shows "\<exists>a tx p. a \<in> set (attachments d) \<and> v_id a = k \<and> v_isCurrent a \<and> tx \<in> set (transactions d) \<and>
    tx_id tx = v_transactionId a \<and> assertProcessAccess user (processType tx) = (None :: at_reason error option) \<and>
    inside (se_base se) p \<and> fs_files f p = Some (dl_body r) \<and>
    (case truthy_col (at_sha256 a) of None \<Rightarrow> True | Some h \<Rightarrow> se_sha256 se (dl_body r) = h)"
proof -
  obtain a where a: "find_first (\<lambda>a. v_id a = k \<and> v_isCurrent a) (attachments d) = Some a"
    using assms by (auto simp: downloadAttachment_def split: option.splits)
  obtain sc where sc: "getTransactionScope user = (Inr sc :: at_reason error + tx_scope)"
    using assms by (auto simp: downloadAttachment_def a split: sum.splits)
  obtain tx where tx: "find_first (\<lambda>t. tx_id t = v_transactionId a \<and> in_scope sc (processType t)) (transactions d) = Some tx"
    using assms by (auto simp: downloadAttachment_def a sc split: option.splits)
  let ?p = "resolve (se_base se) (at_filePath a)"
  have esc: "\<not> escapes (se_base se) ?p"
    using assms by (auto simp: downloadAttachment_def a sc tx Let_def split: if_splits)
  obtain s where s: "fs_files f ?p = Some s"
    using assms by (auto simp: downloadAttachment_def a sc tx Let_def split: if_splits option.splits)
  have "dl_body r = s" "case truthy_col (at_sha256 a) of None \<Rightarrow> True | Some h \<Rightarrow> se_sha256 se s = h"
    using assms by (auto simp: downloadAttachment_def a sc tx Let_def s split: if_splits option.splits)
  then show ?thesis
    using find_first_SomeD [OF a] find_first_SomeD [OF tx] not_escapes_inside [OF esc] s scope_admits_process [OF sc]
    by auto
qed

section \<open>Two traces an upload leaves behind\<close>

lemma target_client_error: "targetTransaction d txid u = Inl e \<Longrightarrow> e \<noteq> InternalError r"
  by (auto simp: targetTransaction_def getTransactionScope_def assertScopeNotEmpty_def
      split: option.splits sum.splits if_splits)

text \<open>A failed move removes the row but not the entry that says the upload succeeded.\<close>

lemma failed_move_logged:
  assumes "storeUpload se d f tmp txid dto u now = ((d', f'), Inl (InternalError AT_MoveFailed))"
  shows "length (activityLogs d') = Suc (length (activityLogs d)) \<and> al_action (last (activityLogs d')) = ''ATTACHMENT_UPLOAD'' \<and>
    al_status (last (activityLogs d')) = ''SUCCESS''"
proof (cases "targetTransaction d txid u")
  case (Inl e)
  show ?thesis using assms target_client_error [OF Inl] by (simp add: storeUpload_def Inl)
next
  case (Inr tx)
  then show ?thesis using assms
    by (auto simp: storeUpload_def Let_def deleteAttachment_def recordAttachment_def audit_def logAction_def
        split: option.splits if_splits)
qed

text \<open>Form fields are validated after the file was stored, and nothing removes it then.\<close>

lemma invalid_form_keeps_file:
  assumes "uploadAccess d txid user = Inr u" "fileFilter p" "\<not> valid_upload_dto dto"
    and "mkdirs (join (se_base se) ''quarantine'') f = Some f1" "writeFile (quarantine_path se suffix p) (pf_content p) f1 = Some f2"
  shows "\<exists>e. postAttachment se d f txid (Some p) dto user suffix now = ((d, f2), Inl e) \<and> http_status e = 400 \<and>
    fs_files f2 (quarantine_path se suffix p) = Some (pf_content p)"
  using assms by (auto simp: postAttachment_def Let_def writeFile_def split: if_splits)

end
