(* ===== verification/Gms_Applied.thy ===== *)
theory Gms_Applied
  imports Gms_Scenario Gms_Dashboard Gms_Attachments
begin

text \<open>
  The properties applied to the visit of Gms_Scenario: at each stage the hypotheses of the
  property hold and its conclusion says what happened there.
\<close>

section \<open>Weighbridge\<close>

theorem submitWeighIn_correct_witness:
  "\<exists>d' v t. submitWeighIn plant1 7 (weight 20000) boss 1000 = (d', Inr v) \<and> commit_step 7 plant1 d' \<and>
     find_tx d' 7 = Some t \<and> status t = QC_VEHICLE_PENDING \<and> weighInAt t = Some 1000"
  using submitWeighIn_correct [OF plants_ok(1), where i = 7 and dto = "weight 20000" and user = boss and now = 1000] served(1) by auto

theorem submitWeighOut_correct_witness:
  "\<exists>d' v t. submitWeighOut plant6 7 (weight 8000) boss 1000 = (d', Inr v) \<and> commit_step 7 plant6 d' \<and>
     find_tx d' 7 = Some t \<and> status t = WEIGH_OUT_DONE \<and> tareWeight t \<noteq> None"
  using submitWeighOut_correct [OF plants_ok(6), where i = 7 and dto = "weight 8000" and user = boss and now = 1000] served(6) by auto

lemma submitWeighOut_succeeds_iff_applied:
  "status (row plant6) \<in> set (weigh_out_from (processType (row plant6))) \<and>
   \<not> (\<exists>v. snd (submitWeighOut plant5 7 (weight 8000) boss 1000) = Inr v)"
proof
  show "status (row plant6) \<in> set (weigh_out_from (processType (row plant6)))"
    using submitWeighOut_succeeds_iff [OF plants_ok(6), where i = 7 and tx = "row plant6" and dto = "weight 8000" and user = boss and now = 1000] rows(6) served(6)
    by auto
  show "\<not> (\<exists>v. snd (submitWeighOut plant5 7 (weight 8000) boss 1000) = Inr v)"
    using submitWeighOut_succeeds_iff [OF plants_ok(5), where i = 7 and tx = "row plant5" and dto = "weight 8000" and user = boss and now = 1000] rows(5)
    by (simp add: in_weigh_out_from)
qed

lemma weighbridge_queue_matches_applied:
  "set (concat (map (\<lambda>n. map fst (fst (snd (weighbridgeQueue plant6 7 \<lparr>wq_page = n, wq_limit = 1, wq_search = None,
      wq_processType = None, wq_type = Some OUT, wq_startDate = None, wq_endDate = None\<rparr> boss 0))))
    [1..<Suc (pm_totalPages (snd (snd (weighbridgeQueue plant6 7 \<lparr>wq_page = 1, wq_limit = 1, wq_search = None,
      wq_processType = None, wq_type = Some OUT, wq_startDate = None, wq_endDate = None\<rparr> boss 0))))]))
   = {t \<in> set (transactions plant6). status t \<in> set (weigh_out_from (processType t))}"
  using weighbridge_queue_matches [where limit = 1 and d = plant6 and tz = 7 and user = boss and now = 0] by (simp only: Let_def zero_less_one simp_thms)

theorem weighOutFraud_risk_witness:
  "\<exists>fc. fraudChecks (weighOutFraud ((row plant7)\<lparr>actualWeight := Some 12000\<rparr>) 7 10000 boss 1000 plant6) =
     fraudChecks plant6 @ [fc] \<and> fc_riskLevel fc = CRITICAL_RISK"
proof -
  have "0 < (10000 :: num)" "actualWeight ((row plant7)\<lparr>actualWeight := Some 12000\<rparr>) = Some 12000" by simp_all
  from weighOutFraud_risk [OF this, where i = 7 and user = boss and now = 1000 and d = plant6] show ?thesis by auto
qed

section \<open>Gate\<close>


lemma checkOut_correct_applied:
  "\<exists>d' t. checkOut plant7 7 boss 1000 = (d', Inr t) \<and> commit_step 7 plant7 d' \<and> status t = COMPLETED"
  using checkOut_correct [OF plants_ok(7), where i = 7 and user = boss and now = 1000] rows(7) by auto

lemma cancelTransaction_correct_applied:
  "cancelTransaction plant8 7 ''late'' boss 1000 = (plant8, Inl (FinalStatus COMPLETED)) \<and>
   (\<exists>d' t. cancelTransaction plant4 7 ''late'' boss 1000 = (d', Inr t) \<and> status t = CANCELLED)"
  using cancelTransaction_correct [OF plants_ok(8), where i = 7 and reason = "''late''" and user = boss and now = 1000] rows(8)
    cancelTransaction_correct [OF plants_ok(4), where i = 7 and reason = "''late''" and user = boss and now = 1000] rows(4) by auto

section \<open>QC\<close>

theorem submitVehicleCheck_correct_witness:
  "\<exists>d' v t r. submitVehicleCheck plant2 7 clean_truck 0 (Some boss) 1000 = (d', Inr v) \<and> commit_step 7 plant2 d' \<and>
     find_tx d' 7 = Some t \<and> qcVehicleChecks d' = qcVehicleChecks plant2 @ [r]"
  using submitVehicleCheck_correct [OF plants_ok(2), where i = 7 and dto = clean_truck and userId = 0 and user = "Some boss" and now = 1000] served(2)
  by (auto simp: boss_def)

lemma startQc_correct_applied:
  "\<exists>d' t. startQc plant2 7 0 (Some boss) 1000 = (d', Inr (Some t)) \<and> commit_step 7 plant2 d' \<and>
     status t = QC_VEHICLE_IN_PROGRESS"
proof -
  have "findTransactionWithAccess plant2 7 (Some boss) = Inr (row plant2)"
    using rows(2) by (simp add: findTransactionWithAccess_def boss_def assertProcessAccess_def)
  from startQc_correct [OF plants_ok(2) this, where userId = 0 and now = 1000] rows(2) show ?thesis by auto
qed

lemma submitIncomingCheck_correct_applied:
  "\<exists>d' v t. submitIncomingCheck plant5 7 good_beans 0 (Some boss) 1000 = (d', Inr v) \<and> commit_step 7 plant5 d' \<and>
     find_tx d' 7 = Some t \<and> status t = INCOMING_CHECK_PASSED"
  using submitIncomingCheck_correct [OF plants_ok(5), where i = 7 and dto = good_beans and userId = 0 and user = "Some boss" and now = 1000] served(5)
  by (auto simp: boss_def good_beans_def)

lemma keeper_scope: "findTransactionWithAccess plant4 7 (Some keeper) = Inr (row plant4)"
  using rows(4) by (simp add: findTransactionWithAccess_def keeper_def assertProcessAccess_def)

theorem completeQcAnalysis_segregation_witness:
  "\<exists>d' al. completeQcAnalysis plant4 7 keeper Undefined 1000 = (d', Inl (Forbidden QC_SegregationOfDuties)) \<and>
     activityLogs d' = activityLogs plant4 @ [al] \<and> al_status al = ''FAILED''"
  using completeQcAnalysis_segregation [OF plants_ok(4), where i = 7 and user = keeper and rem = Undefined and now = 1000]
    rows(4) by (auto simp: keeper_def split: prod.splits sum.splits)

section \<open>Warehouse\<close>

lemma startWarehouse_correct_applied:
  "\<exists>d' v p. startWarehouse plant3 7 loading boss 1000 = (d', Inr v) \<and> commit_step 7 plant3 d' \<and>
     warehouseProcesses d' = warehouseProcesses plant3 @ [p] \<and> open_process 7 p"
  using startWarehouse_correct [OF plants_ok(3), where i = 7 and tx = "row plant3" and dto = loading and
      user = boss and now = 1000] rows(3) served(3) by auto

theorem completeWarehouse_correct_witness:
  "\<exists>d' v t. completeWarehouse number_text plant4 7 loaded boss 1000 = (d', Inr v) \<and> commit_step 7 plant4 d' \<and>
     find_tx d' 7 = Some t \<and> status t = INCOMING_CHECK_PENDING \<and> actualWeight t = Some 12000"
  using completeWarehouse_correct [OF plants_ok(4), where i = 7 and nt = number_text and dto = loaded and
      user = boss and now = 1000] rows(4) served(4) by (auto simp: loaded_def)

definition refuse_load :: wh_incoming_dto where
  "refuse_load = \<lparr>wi_decision = Decision_rejected, wi_rejectReason = Value ''mould'', wi_remarks = Undefined\<rparr>"

lemma whSubmitIncomingCheck_correct_applied:
  "snd (whSubmitIncomingCheck plant4 7 refuse_load boss 1000) =
     Inl (InvalidTransition WAREHOUSE_IN_PROGRESS INCOMING_CHECK_REJECTED)"
  using whSubmitIncomingCheck_correct [OF plants_ok(4), where i = 7 and tx = "row plant4" and dto = refuse_load and
      user = boss and now = 1000] rows(4)
  by (cases "whSubmitIncomingCheck plant4 7 refuse_load boss 1000")
    (auto simp: refuse_load_def boss_def split: sum.splits)

section \<open>Transactions\<close>

lemma trCancel_correct_applied:
  "(\<exists>d' v. trCancel plant5 7 ''late'' boss 1000 = (d', Inr v) \<and> commit_step 7 plant5 d' \<and>
      history_of d' 7 = history_of plant5 7 @ [(Some INCOMING_CHECK_PENDING, CANCELLED)]) \<and>
   (\<exists>e. trCancel plant8 7 ''late'' boss 1000 = (plant8, Inl e) \<and> http_status e = 400)"
  using trCancel_correct [OF plants_ok(5), where i = 7 and reason = "''late''" and user = boss and now = 1000] rows(5)
    trCancel_correct [OF plants_ok(8), where i = 7 and reason = "''late''" and user = boss and now = 1000] rows(8)
  by auto

lemma row_voided: "db_ok d \<Longrightarrow> find_tx d 7 = Some t \<Longrightarrow> isVoided t \<Longrightarrow> status t = CANCELLED"
  using row_truck_ok [of d t] find_tx_SomeD [of d 7 t] by (auto simp: truck_ok_def truck_for_def)

definition void_it :: "nat \<Rightarrow> void_dto" where
  "void_it n = \<lparr>vd_reasonCode = ''DUPLICATE'', vd_reason = ''entered twice'', vd_expectedRevision = n\<rparr>"

theorem voidTransaction_correct_witness:
  "(\<exists>d' t. voidTransaction plant4 7 (void_it 4) boss 1000 = (d', Inr (Some t)) \<and> commit_step 7 plant4 d' \<and> isVoided t) \<and>
   voidTransaction plant4 7 (void_it 3) boss 1000 = (plant4, Inl (Conflict TR_ConcurrencyConflict))"
  using voidTransaction_correct [OF plants_ok(4), where i = 7 and tx = "row plant4" and dto = "void_it 4" and
      user = boss and now = 1000]
    voidTransaction_correct [OF plants_ok(4), where i = 7 and tx = "row plant4" and dto = "void_it 3" and
      user = boss and now = 1000] rows(4)
    row_voided [OF plants_ok(4)]
  by (auto simp: void_it_def boss_def split: if_splits)


section \<open>The running system\<close>

text \<open>Two requests read the same row; the weigh-in commits first, the cancellation comes too late.\<close>

definition request :: "op \<Rightarrow> pending" where
  "request r = \<lparr>pn_tx = row plant1, pn_submitted = False, pn_id = 7, pn_user = boss, pn_op = r\<rparr>"

lemma request_pending: "r = WeighIn (weight 20000) \<or> r = CancelTx ''late'' \<Longrightarrow> pending_ok plant1 (request r)"
  using rows(1) find_tx_SomeD [of plant1 7 "row plant1"] by (auto simp: pending_ok_def request_def)

lemma weigh_in_first: "writes number_text (request (WeighIn (weight 20000))) 1000 plant1 = (plant2, None)"
  using visit_steps(2) rows(1)
  by (cases "writes number_text (request (WeighIn (weight 20000))) 1000 plant1")
    (simp add: plant2_def serve_def row_of_def request_def)


lemma running: "reach sys_start (sys_step number_text) \<lparr>sy_db = plant1, sy_pending = [request (WeighIn (weight 20000))]\<rparr>"
proof -
  have "reach sys_start (sys_step number_text) \<lparr>sy_db = plant0, sy_pending = []\<rparr>"
    by (rule reach_start) (simp add: sys_start_def plant0_ok)
  moreover have "sys_step number_text \<lparr>sy_db = plant0, sy_pending = []\<rparr> \<lparr>sy_db = plant1, sy_pending = []\<rparr>"
    using sys_checkIn [of 0 "\<lambda>_ d. d" "\<lparr>sy_db = plant0, sy_pending = []\<rparr>" "arrival ''B1234XY'' GBB" boss plant1]
    by (simp add: plant1_def prod_eq_iff)
  moreover have "sys_step number_text \<lparr>sy_db = plant1, sy_pending = []\<rparr>
      \<lparr>sy_db = plant1, sy_pending = [request (WeighIn (weight 20000))]\<rparr>"
    using sys_read [of boss "WeighIn (weight 20000)" _ _ _ "\<lparr>sy_db = plant1, sy_pending = []\<rparr>" 7 "row plant1" False]
      rows(1) guard_authorised [of boss "op_roles (WeighIn (weight 20000))"]
    by (simp add: request_def row_of_def boss_def)
  ultimately show ?thesis by (blast intro: reach_step)
qed



section \<open>Corrections\<close>

text \<open>A truck that was cancelled at the gate, its weights noted later and its visit reopened.\<close>

definition plant_cancelled :: db where
  "plant_cancelled = fst (serve number_text plant1 7 boss (GateCancel ''late'') 1000)"

definition runtime :: client where
  "runtime = \<lparr>cl_numberText = number_text, cl_parseDate = (\<lambda>s. None), cl_jsonNull = True\<rparr>"

definition note_weights :: oc_dto where
  "note_weights = \<lparr>co_action = Some CORRECT_DATA, co_reopenTargetStatus = None, co_reasonCode = ''TYPO'',
     co_remark = ''weights from the paper ticket'', co_evidenceUrl = Undefined, co_evidenceAttachmentId = None,
     co_expectedRevision = 2,
     co_items =
       [\<lparr>it_targetModule = TM_TRANSACTION, it_targetRecordId = None, it_fieldName = ''grossWeight'',
         it_newValue = JNum 20000, it_itemRemark = Undefined\<rparr>,
        \<lparr>it_targetModule = TM_TRANSACTION, it_targetRecordId = None, it_fieldName = ''tareWeight'',
         it_newValue = JNum 8000, it_itemRemark = Undefined\<rparr>]\<rparr>"

definition reopen_visit :: oc_dto where
  "reopen_visit = note_weights\<lparr>co_action := Some REOPEN_WORKFLOW, co_reopenTargetStatus := Some REGISTERED, co_items := []\<rparr>"

definition answered_row :: "(oc_reason, transaction option \<times> correction) outcome \<Rightarrow> (transaction_status \<times> num option \<times> num option) option" where
  "answered_row res = (case snd res of Inr (Some t, c) \<Rightarrow> Some (status t, grossWeight t, tareWeight t) | _ \<Rightarrow> None)"

lemma weights_noted:
  "answered_row (correctOperationLog runtime 2026 ''A1B2C3D4'' plant_cancelled 7 note_weights boss None 2000) =
     Some (CANCELLED, Some 20000, Some 8000)"
  by code_simp

lemma visit_reopened:
  "answered_row (correctOperationLog runtime 2026 ''A1B2C3D4'' plant_cancelled 7 reopen_visit boss None 2000) =
     Some (REGISTERED, None, None)"
  by code_simp

lemma plant_cancelled_ok: "db_ok plant_cancelled"
  unfolding plant_cancelled_def by (rule serve_ok [OF plants_ok(1)]) simp

lemma answered_rowD:
  "answered_row res = Some (s, g, ta) \<Longrightarrow>
     \<exists>d' t c. res = (d', Inr (Some t, c)) \<and> status t = s \<and> grossWeight t = g \<and> tareWeight t = ta"
  by (cases res) (auto simp: answered_row_def split: sum.splits option.splits prod.splits)

lemmas corrections_answered = weights_noted [THEN answered_rowD] visit_reopened [THEN answered_rowD]

theorem correctOperationLog_correct_witness:
  "\<exists>d' t c. correctOperationLog runtime 2026 ''A1B2C3D4'' plant_cancelled 7 note_weights boss None 2000 = (d', Inr (Some t, c)) \<and>
     commit_step 7 plant_cancelled d' \<and> find_tx d' 7 = Some t \<and> corrections d' = corrections plant_cancelled @ [c] \<and>
     history_of d' 7 = history_of plant_cancelled 7"
proof -
  obtain d' t c where r: "correctOperationLog runtime 2026 ''A1B2C3D4'' plant_cancelled 7 note_weights boss None 2000 =
      (d', Inr (Some t, c))"
    using corrections_answered(1) by blast
  have "co_action note_weights \<noteq> Some REOPEN_WORKFLOW" by (simp add: note_weights_def)
  then show ?thesis
    using correctOperationLog_correct [OF plant_cancelled_ok, where cl = runtime and year = 2026 and hex = "''A1B2C3D4''"
        and i = 7 and dto = note_weights and user = boss and ip = None and now = 2000]
    by (auto simp: r)
qed

theorem corrected_weights_consistent_witness:
  "\<exists>d' t c. correctOperationLog runtime 2026 ''A1B2C3D4'' plant_cancelled 7 note_weights boss None 2000 = (d', Inr (Some t, c)) \<and>
     netWeight t = Some (js_sub 20000 8000)"
  using corrections_answered(1) corrected_weights_consistent [OF plant_cancelled_ok] by blast


lemma light_gross_not_reopened_applied:
  "correctOperationLog runtime 2026 ''A1B2C3D4''
     (plant_cancelled\<lparr>transactions := [(row plant_cancelled)\<lparr>tx_id := 7, status := CANCELLED, isVoided := False,
        grossWeight := Some 7900, tareWeight := Some 8000, revision := 2\<rparr>]\<rparr>) 7 reopen_visit boss None 2000 =
   (plant_cancelled\<lparr>transactions := [(row plant_cancelled)\<lparr>tx_id := 7, status := CANCELLED, isVoided := False,
        grossWeight := Some 7900, tareWeight := Some 8000, revision := 2\<rparr>]\<rparr>, Inl (BadRequest OC_GrossBelowTare))"
  by (rule light_gross_not_reopened [where g = 7900 and ta = 8000 and s = REGISTERED])
    (auto simp: boss_def reopen_visit_def note_weights_def find_tx_def find_first_def)

theorem correction_items_complete_witness:
  "\<exists>d' row c new. correctOperationLog runtime 2026 ''A1B2C3D4'' plant_cancelled 7 note_weights boss None 2000 = (d', Inr (row, c)) \<and>
     correctionItems d' = correctionItems plant_cancelled @ new \<and> length new = 2"
proof -
  obtain d' t c where r: "correctOperationLog runtime 2026 ''A1B2C3D4'' plant_cancelled 7 note_weights boss None 2000 =
      (d', Inr (Some t, c))"
    using corrections_answered(1) by blast
  obtain new where "correctionItems d' = correctionItems plant_cancelled @ new"
      "mset (map (\<lambda>x. (xi_correctionId x, xi_targetModule x, xi_fieldName x)) new) =
       mset (map (\<lambda>it. (tc_id c, it_targetModule it, it_fieldName it)) (co_items note_weights))"
    using correction_items_complete [OF plant_cancelled_ok r] by blast
  note new = this
  have "length new = length (co_items note_weights)"
    using arg_cong [OF new(2), of size] by simp
  then show ?thesis using r new(1) by (auto simp: note_weights_def)
qed

definition noted_check :: qc_vehicle_check where
  "noted_check = \<lparr>v_id = 3, v_transactionId = 7, v_createdAt = 0, v_isCurrent = True, v_supersededAt = None,
     v_supersededByCorrectionId = None, v_revision = 1, qv_result = Some QC_PASS,
     qv_decisionMode = Some APPROVED_WITH_DEVIATION, qv_hasDeviation = Some True, qv_deviationReason = Some ''dented door'',
     qv_vehicleCleanliness = None, qv_vehicleOdor = None, qv_pestEvidence = None, qv_vehicleCondition = None,
     qv_documentCompleteness = None, qv_sealCondition = None, qv_notes = None, qv_checklistItems = None,
     qv_checkedById = None, qv_startedAt = None, qv_completedAt = None\<rparr>"

definition note_group :: oc_group where
  "note_group = \<lparr>og_module = TM_QC_VEHICLE, og_target = OnVehicle noted_check,
     og_items = [\<lparr>it_targetModule = TM_QC_VEHICLE, it_targetRecordId = None, it_fieldName = ''notes'',
       it_newValue = JStr ''seen again'', it_itemRemark = Undefined\<rparr>]\<rparr>"

lemma vehicle_correction_drops_decision_applied:
  "\<exists>d' new. write_group runtime 9 1000 note_group (empty_db\<lparr>nextId := 10, qcVehicleChecks := [noted_check]\<rparr>) = Inr d' \<and>
     last (qcVehicleChecks d') = new \<and> v_revision new = 2 \<and> qv_deviationReason new = None"
proof -
  let ?d = "empty_db\<lparr>nextId := 10, qcVehicleChecks := [noted_check]\<rparr>"
  have "(case write_group runtime 9 1000 note_group ?d of Inl e \<Rightarrow> False | Inr d' \<Rightarrow> True)" by code_simp
  then obtain d' where w: "write_group runtime 9 1000 note_group ?d = Inr d'" by (auto split: sum.splits)
  have "og_target note_group = OnVehicle noted_check" by (simp add: note_group_def)
  from vehicle_correction_drops_decision [OF w this] show ?thesis using w by (auto simp: noted_check_def)
qed

section \<open>Dashboard\<close>


section \<open>Attachments\<close>

text \<open>A photo added to the visit.\<close>

definition desk :: storage where
  "desk = \<lparr>se_base = [''srv'', ''uploads''], se_sha256 = take 8, se_uuid = (\<lambda>n. replicate (Suc n) (CHR ''a''))\<rparr>"

definition disk :: fs where
  "disk = \<lparr>fs_files = Map.empty, fs_paths = [], fs_dirs = [[], [''srv''], [''srv'', ''uploads'']], fs_writable = (\<lambda>_. True)\<rparr>"

definition photo :: posted_file where
  "photo = \<lparr>pf_originalname = ''seal.jpg'', pf_mimetype = ''image/jpeg'',
     pf_content = [CHR 0xFF, CHR 0xD8, CHR 0xFF, CHR 0x20]\<rparr>"

definition photo_form :: upload_dto where
  "photo_form = \<lparr>ud_module = Value ''qc'', ud_attachmentType = Undefined, ud_description = Undefined\<rparr>"

lemma no_attachments: "attachments plant4 = []"
  by code_simp

lemma photo_posted:
  "(case snd (postAttachment desk plant4 disk (Some 7) (Some photo) photo_form (Some boss) ''17-4'' 2000) of
     Inr a \<Rightarrow> True | Inl e \<Rightarrow> False)"
  by code_simp

lemma photo_stored:
  obtains d f a where "postAttachment desk plant4 disk (Some 7) (Some photo) photo_form (Some boss) ''17-4'' 2000 = ((d, f), Inr a)"
  using photo_posted that
  by (cases "postAttachment desk plant4 disk (Some 7) (Some photo) photo_form (Some boss) ''17-4'' 2000")
    (auto split: sum.splits)

lemma desk_ready: "uuid_names desk" "attachment_ids_fresh plant4"
  by (auto simp: uuid_names_def desk_def attachment_ids_fresh_def no_attachments)

lemma keeper_reads:
  "row plant4 \<in> set (transactions plant4)" "Some 7 = Some (tx_id (row plant4))"
  "assertProcessAccess keeper (processType (row plant4)) = (None :: at_reason error option)"
  using rows(4) by (auto simp: find_tx_def assertProcessAccess_None_iff keeper_def dest: find_first_SomeD)

theorem upload_correct_witness:
  "\<exists>d f a. postAttachment desk plant4 disk (Some 7) (Some photo) photo_form (Some boss) ''17-4'' 2000 = ((d, f), Inr a) \<and>
     attachments d = attachments plant4 @ [a] \<and> at_size a = 4"
proof -
  obtain d f a where r: "postAttachment desk plant4 disk (Some 7) (Some photo) photo_form (Some boss) ''17-4'' 2000 = ((d, f), Inr a)"
    by (rule photo_stored)
  have "length (pf_content photo) = 4" by (simp add: photo_def)
  with upload_correct [OF desk_ready r] show ?thesis using r by auto
qed

theorem attachment_roundtrip_witness:
  "\<exists>d f a r. postAttachment desk plant4 disk (Some 7) (Some photo) photo_form (Some boss) ''17-4'' 2000 = ((d, f), Inr a) \<and>
     downloadAttachment desk d f (v_id a) keeper = Inr r \<and> dl_body r = pf_content photo"
proof -
  obtain d f a where r: "postAttachment desk plant4 disk (Some 7) (Some photo) photo_form (Some boss) ''17-4'' 2000 = ((d, f), Inr a)"
    by (rule photo_stored)
  from attachment_roundtrip [OF desk_ready r keeper_reads] r show ?thesis by auto
qed

theorem download_safe_witness:
  "\<exists>d f k r p. downloadAttachment desk d f k keeper = Inr r \<and> inside [''srv'', ''uploads''] p \<and> fs_files f p = Some (dl_body r)"
proof -
  obtain d f a where p: "postAttachment desk plant4 disk (Some 7) (Some photo) photo_form (Some boss) ''17-4'' 2000 = ((d, f), Inr a)"
    by (rule photo_stored)
  obtain r where r: "downloadAttachment desk d f (v_id a) keeper = Inr r"
    using uploaded_download [OF desk_ready p keeper_reads] by blast
  have "se_base desk = [''srv'', ''uploads'']" by (simp add: desk_def)
  with download_safe [OF r] obtain p where "inside [''srv'', ''uploads''] p" "fs_files f p = Some (dl_body r)" by auto
  with r show ?thesis by blast
qed

end
