(* ===== verification/Gms_Auth.thy ===== *)
theory Gms_Auth
  imports Gms_Users
begin

text \<open>
  Sessions (auth/auth.service.ts, auth/strategies/jwt.strategy.ts, common/guards/jwt-auth.guard.ts):
  login with its lockout, logout, rotation of refresh tokens, the profile and password of the user
  itself, and what an access token must satisfy to be accepted.
\<close>

datatype auth_reason =
    AR_InvalidCredentials
  | AR_Locked
  | AR_Disabled
  | AR_TemporaryExpired
  | AR_InvalidToken
  | AR_Collision
  | AR_UserNotFound
  | AR_WrongPassword
  | AR_SamePassword
  | AR_Mismatch
  | AR_Revoked
  | AR_NotAuthenticated
  | AR_PasswordChangeRequired
  | AR_MissingRow
  | AR_NullValue

section \<open>Audit\<close>

definition auditLog :: "ident option \<Rightarrow> string \<Rightarrow> jsv \<Rightarrow> instant \<Rightarrow> db \<Rightarrow> db" where
  "auditLog userId action details now d =
     (let u = (case userId of None \<Rightarrow> None | Some i \<Rightarrow> find_user d i)
      in logAction \<lparr>ld_userId = userId, ld_userName = truthy_col (map_option u_name u), ld_role = map_option u_role u,
           ld_action = action, ld_module = ''AUTH'', ld_description = Some details, ld_referenceId = None,
           ld_status = (if is_infix_of ''FAILED'' action then ''FAILED'' else ''SUCCESS'')\<rparr> now d)"

section \<open>Login\<close>

record login_dto =
  lg_identifier :: string
  lg_password :: string

definition find_login :: "db \<Rightarrow> string \<Rightarrow> user_row option" where
  "find_login d identifier =
     find_first (\<lambda>u. \<not> u_isDeleted u \<and> (upper (u_email u) = upper identifier \<or> upper (u_username u) = upper identifier))
       (users d)"

definition LOCKOUT_WINDOW :: instant where
  "LOCKOUT_WINDOW = 15 * 60 * 1000"

definition recentFailedCount :: "db \<Rightarrow> ident \<Rightarrow> instant \<Rightarrow> nat" where
  "recentFailedCount d i now =
     count_where (\<lambda>l. al_userId l = Some i \<and> al_action l = ''LOGIN_FAILED'' \<and> now - LOCKOUT_WINDOW \<le> al_createdAt l)
       (activityLogs d)"

definition payload_of :: "user_row \<Rightarrow> jwt_payload" where
  "payload_of u = \<lparr>pl_sub = u_id u, pl_name = u_name u, pl_username = u_username u, pl_email = u_email u,
     pl_role = u_role u, pl_tv = Some (u_tokenVersion u)\<rparr>"

definition signed_in :: "string \<Rightarrow> instant \<Rightarrow> user_row \<Rightarrow> user_row" where
  "signed_in refreshTokenHash now u = u\<lparr>u_refreshTokenHash := Some refreshTokenHash, u_lastLoginAt := Some now\<rparr>"

record profile_view =
  pv_id :: ident
  pv_name :: string
  pv_username :: string
  pv_email :: string
  pv_role :: role
  pv_warehouseAccess :: "process_type list"
  pv_phone :: "string option"
  pv_department :: "string option"
  pv_site :: "string option"
  pv_area :: "string option"
  pv_avatarUrl :: "string option"
  pv_lastLoginAt :: "instant option"

definition profile_view_of :: "process_type list \<Rightarrow> user_row \<Rightarrow> profile_view" where
  "profile_view_of ps u =
     \<lparr>pv_id = u_id u, pv_name = u_name u, pv_username = u_username u, pv_email = u_email u, pv_role = u_role u,
      pv_warehouseAccess = ps, pv_phone = u_phone u, pv_department = u_department u, pv_site = u_site u,
      pv_area = u_area u, pv_avatarUrl = u_avatarUrl u, pv_lastLoginAt = u_lastLoginAt u\<rparr>"

text \<open>The answer of a login, and that of a refresh, which leaves out \<open>mustChangePassword\<close>.\<close>

record session =
  ss_accessToken :: string
  ss_refreshToken :: string
  ss_mustChangePassword :: "bool option"
  ss_user :: profile_view

text \<open>The refusals: the identifier, the lockout, the password, the account, the temporary password.\<close>

definition failedAttempt :: "string \<Rightarrow> user_row \<Rightarrow> string \<Rightarrow> instant \<Rightarrow> db \<Rightarrow> db" where
  "failedAttempt action user reason now d = auditLog (Some (u_id user)) action (JStr reason) now d"

definition expired :: "user_row \<Rightarrow> instant \<Rightarrow> bool" where
  "expired user now \<longleftrightarrow> u_mustChangePassword user \<and>
     (case u_temporaryPasswordExpiresAt user of None \<Rightarrow> False | Some e \<Rightarrow> e < now)"

definition loginTokens :: "crypto \<Rightarrow> user_row \<Rightarrow> login_dto \<Rightarrow> instant \<Rightarrow> db \<Rightarrow> db \<times> session" where
  "loginTokens cr user dto now d =
     (let accessToken = cr_signAccess cr (payload_of user) now;
          refreshToken = cr_signRefresh cr (payload_of user) now;
          d1 = put_user (u_id user) (signed_in (cr_hash cr (nextId d) refreshToken) now) d
      in (auditLog (Some (u_id user)) ''LOGIN_SUCCESS'' (JObj [(''identifier'', JStr (lg_identifier dto))]) now d1,
          \<lparr>ss_accessToken = accessToken, ss_refreshToken = refreshToken,
           ss_mustChangePassword = Some (u_mustChangePassword user),
           ss_user = profile_view_of (access_of d (u_id user)) user\<rparr>))"

definition login :: "crypto \<Rightarrow> db \<Rightarrow> login_dto \<Rightarrow> instant \<Rightarrow> (auth_reason, session) outcome" where
  "login cr d dto now =
     (case find_login d (trim (lg_identifier dto)) of
        None \<Rightarrow>
          (auditLog None ''LOGIN_FAILED'' (JStr ''User not found or credentials invalid'') now d,
           Inl (Unauthorized AR_InvalidCredentials))
      | Some user \<Rightarrow>
          let n = recentFailedCount d (u_id user) now
          in if 5 \<le> n then
               (failedAttempt ''LOGIN_LOCKED'' user ''Account locked due to consecutive failed attempts in DB log.'' now d,
                Inl (Unauthorized AR_Locked))
             else if \<not> cr_verify cr (u_passwordHash user) (lg_password dto) then
               (failedAttempt ''LOGIN_FAILED'' user (''Invalid password (Attempt '' @ decimal (n + 1) @ ''/5)'') now d,
                Inl (Unauthorized (if 5 \<le> n + 1 then AR_Locked else AR_InvalidCredentials)))
             else if \<not> u_isActive user then
               (failedAttempt ''LOGIN_FAILED'' user ''Account disabled'' now d, Inl (Unauthorized AR_Disabled))
             else if expired user now then
               (failedAttempt ''LOGIN_FAILED'' user ''Temporary password expired'' now d,
                Inl (Unauthorized AR_TemporaryExpired))
             else (let (d', s) = loginTokens cr user dto now d in (d', Inr s)))"

section \<open>Sessions\<close>

text \<open>An update of a row that is not there throws P2025, which the exception filter answers with 500.\<close>

definition logout :: "db \<Rightarrow> ident \<Rightarrow> instant \<Rightarrow> (auth_reason, unit) outcome" where
  "logout d i now =
     (if find_user d i = None then (d, Inl (InternalError AR_MissingRow))
      else (auditLog (Some i) ''LOGOUT'' (JObj []) now (put_user i revoke d), Inr ()))"

text \<open>
  The claim that stores the new hash, on the hash that was read:
  \<open>updateMany({ where: { id, refreshTokenHash: user.refreshTokenHash } })\<close>.
\<close>

definition rotate :: "user_row \<Rightarrow> string \<Rightarrow> db \<Rightarrow> db \<times> nat" where
  "rotate user newHash d =
     (let p = (\<lambda>u. u_id u = u_id user \<and> u_refreshTokenHash u = u_refreshTokenHash user)
      in (d\<lparr>users := update_many p (\<lambda>u. u\<lparr>u_refreshTokenHash := Some newHash\<rparr>) (users d)\<rparr>,
          count_where p (users d)))"

text \<open>The rest of the refresh, on the user that was read.\<close>

definition refresh_at ::
  "crypto \<Rightarrow> user_row \<Rightarrow> string \<Rightarrow> string \<Rightarrow> instant \<Rightarrow> db \<Rightarrow> (auth_reason, session) outcome"
where
  "refresh_at cr user storedHash refreshToken now d =
     (if \<not> cr_verify cr storedHash refreshToken then
        (audit (u_id user) ''REFRESH_TOKEN_REUSE_DETECTED'' ''AUTH'' (Some (u_id user))
           (Some (JStr (''Possible refresh token reuse attack detected for user '' @ u_email user @
             ''. All sessions revoked.''))) ''FAILED'' now (put_user (u_id user) revoke d),
         Inl (Unauthorized AR_InvalidToken))
      else
        let newAccessToken = cr_signAccess cr (payload_of user) now;
            newRefreshToken = cr_signRefresh cr (payload_of user) now;
            (d1, n) = rotate user (cr_hash cr (nextId d) newRefreshToken) d
        in if n = 0 then (d, Inl (Unauthorized AR_Collision))
           else (auditLog (Some (u_id user)) ''REFRESH_TOKEN'' (JObj []) now d1,
                 Inr \<lparr>ss_accessToken = newAccessToken, ss_refreshToken = newRefreshToken,
                      ss_mustChangePassword = None,
                      ss_user = profile_view_of (access_of d (u_id user)) user\<rparr>))"

definition refreshTokens :: "crypto \<Rightarrow> db \<Rightarrow> string \<Rightarrow> instant \<Rightarrow> (auth_reason, session) outcome" where
  "refreshTokens cr d refreshToken now =
     (case cr_verifyRefresh cr refreshToken now of
        None \<Rightarrow> (d, Inl (Unauthorized AR_InvalidToken))
      | Some payload \<Rightarrow>
          (case find_user d (pl_sub payload) of
             None \<Rightarrow> (d, Inl (Unauthorized AR_InvalidToken))
           | Some user \<Rightarrow>
               (case (if u_isActive user then truthy_col (u_refreshTokenHash user) else None) of
                  None \<Rightarrow> (d, Inl (Unauthorized AR_InvalidToken))
                | Some h \<Rightarrow> refresh_at cr user h refreshToken now d)))"

definition getMe :: "db \<Rightarrow> ident \<Rightarrow> auth_reason error + user_view" where
  "getMe d i = (case find_user d i of None \<Rightarrow> Inl (Unauthorized AR_UserNotFound)
     | Some u \<Rightarrow> Inr (user_view_of (access_of d i) u))"

section \<open>The user's own profile and password\<close>

record profile_dto =
  pf_name :: "string field"
  pf_phone :: "string field"
  pf_department :: "string field"
  pf_site :: "string field"
  pf_area :: "string field"
  pf_avatarUrl :: "string field"

definition profiled :: "profile_dto \<Rightarrow> user_row \<Rightarrow> user_row" where
  "profiled dto u =
     u\<lparr>u_name := (case pf_name dto of Value s \<Rightarrow> trim s | _ \<Rightarrow> u_name u),
       u_phone := set_field (pf_phone dto) (u_phone u),
       u_department := set_field (pf_department dto) (u_department u),
       u_site := set_field (pf_site dto) (u_site u),
       u_area := set_field (pf_area dto) (u_area u),
       u_avatarUrl := set_field (pf_avatarUrl dto) (u_avatarUrl u)\<rparr>"

text \<open>\<open>dto.name.trim()\<close> throws on the null that \<open>@IsOptional\<close> admits.\<close>

definition updateProfile :: "db \<Rightarrow> ident \<Rightarrow> profile_dto \<Rightarrow> instant \<Rightarrow> (auth_reason, user_view) outcome" where
  "updateProfile d i dto now =
     (if pf_name dto = Null then (d, Inl (InternalError AR_NullValue))
      else (case find_user d i of
          None \<Rightarrow> (d, Inl (InternalError AR_MissingRow))
        | Some u \<Rightarrow>
            (auditLog (Some i) ''UPDATE_PROFILE'' (JObj [(''details'', JStr ''User updated profile details'')]) now
               (put_user i (profiled dto) d),
             Inr (user_view_of (access_of d i) (profiled dto u)))))"

record password_dto =
  pw_currentPassword :: string
  pw_newPassword :: string
  pw_confirmPassword :: string

definition with_password :: "string \<Rightarrow> instant \<Rightarrow> user_row \<Rightarrow> user_row" where
  "with_password newPasswordHash now u =
     revoke (u\<lparr>u_passwordHash := newPasswordHash, u_mustChangePassword := False,
       u_passwordChangedAt := Some now, u_temporaryPasswordExpiresAt := None\<rparr>)"

definition changePassword :: "crypto \<Rightarrow> db \<Rightarrow> ident \<Rightarrow> password_dto \<Rightarrow> instant \<Rightarrow> (auth_reason, unit) outcome" where
  "changePassword cr d i dto now =
     (if pw_newPassword dto \<noteq> pw_confirmPassword dto then (d, Inl (BadRequest AR_Mismatch))
      else (case find_user d i of
          None \<Rightarrow> (d, Inl (Unauthorized AR_UserNotFound))
        | Some user \<Rightarrow>
            if \<not> cr_verify cr (u_passwordHash user) (pw_currentPassword dto) then
              (auditLog (Some i) ''CHANGE_PASSWORD_FAILED'' (JStr ''Invalid current password'') now d,
               Inl (BadRequest AR_WrongPassword))
            else if pw_currentPassword dto = pw_newPassword dto then (d, Inl (BadRequest AR_SamePassword))
            else (auditLog (Some i) ''PASSWORD_CHANGED'' (JObj []) now
                    (put_user i (with_password (cr_hash cr (nextId d) (pw_newPassword dto)) now) d),
                  Inr ())))"

section \<open>Access tokens\<close>

record session_user = jwt_user +
  su_username :: string
  su_mustChangePassword :: bool

text \<open>\<open>JwtStrategy.validate\<close>: a token without a version is not checked against the stored one.\<close>

definition validate :: "db \<Rightarrow> jwt_payload \<Rightarrow> auth_reason error + session_user" where
  "validate d payload =
     (case find_user d (pl_sub payload) of
        None \<Rightarrow> Inl (Unauthorized AR_UserNotFound)
      | Some user \<Rightarrow>
          if \<not> u_isActive user then Inl (Unauthorized AR_UserNotFound)
          else if (case pl_tv payload of None \<Rightarrow> False | Some v \<Rightarrow> u_tokenVersion user \<noteq> v)
            then Inl (Unauthorized AR_Revoked)
          else Inr \<lparr>ju_id = u_id user, ju_email = u_email user, ju_name = u_name user, ju_role = u_role user,
                    ju_warehouseAccess = access_of d (u_id user), su_username = u_username user,
                    su_mustChangePassword = u_mustChangePassword user\<rparr>)"

text \<open>
  \<open>JwtAuthGuard\<close>: the passport strategy on the bearer token, then the rule that a temporary
  password must be changed first, but on the endpoints marked \<open>@AllowMustChangePassword()\<close>.
\<close>

definition jwt_auth_guard :: "crypto \<Rightarrow> db \<Rightarrow> string \<Rightarrow> bool \<Rightarrow> instant \<Rightarrow> auth_reason error + session_user" where
  "jwt_auth_guard cr d token allowed now =
     (case cr_verifyAccess cr token now of
        None \<Rightarrow> Inl (Unauthorized AR_NotAuthenticated)
      | Some payload \<Rightarrow>
          (case validate d payload of
             Inl e \<Rightarrow> Inl e
           | Inr user \<Rightarrow>
               if su_mustChangePassword user \<and> \<not> allowed then Inl (Forbidden AR_PasswordChangeRequired)
               else Inr user))"

end
