(* ===== verification/Gms_Accounts.thy ===== *)
theory Gms_Accounts
  imports Gms_Auth Gms_System
begin

text \<open>
  What holds of the accounts: the requests of users/users.controller.ts and auth/auth.controller.ts
  as one type, the well-formedness of the user and access tables, the administrator that remains,
  sessions that stay revoked, and the lockout.
\<close>

section \<open>Requests\<close>

datatype account_request =
    CreateUser create_user_dto
  | UpdateUser ident update_user_dto
  | RemoveUser ident
  | ResetPassword ident ident
  | UpdateStatus ident bool
  | Login login_dto
  | Logout ident
  | RefreshTokens string
  | UpdateProfile ident profile_dto
  | ChangePassword ident password_dto

definition account_service :: "crypto \<Rightarrow> db \<Rightarrow> account_request \<Rightarrow> instant \<Rightarrow> db \<times> nat option" where
  "account_service cr d r now =
     (case r of
        CreateUser dto \<Rightarrow> answer (createUser cr d dto now)
      | UpdateUser i dto \<Rightarrow> answer (updateUser d i dto)
      | RemoveUser i \<Rightarrow> answer (removeUser d i now)
      | ResetPassword i adminId \<Rightarrow> answer (resetPassword cr d i adminId now)
      | UpdateStatus i active \<Rightarrow> answer (updateStatus d i active)
      | Login dto \<Rightarrow> answer (login cr d dto now)
      | Logout i \<Rightarrow> answer (logout d i now)
      | RefreshTokens token \<Rightarrow> answer (refreshTokens cr d token now)
      | UpdateProfile i dto \<Rightarrow> answer (updateProfile d i dto now)
      | ChangePassword i dto \<Rightarrow> answer (changePassword cr d i dto now))"

text \<open>One request after the other, each with its instant.\<close>

fun account_run :: "crypto \<Rightarrow> db \<Rightarrow> (account_request \<times> instant) list \<Rightarrow> db" where
  "account_run cr d [] = d"
| "account_run cr d ((r, now) # rs) = account_run cr (fst (account_service cr d r now)) rs"

section \<open>Tables of users\<close>

named_theorems account_simps \<open>what the account operations leave of a database\<close>

lemma put_user_frame [account_simps]:
  "userWarehouseAccess (put_user i f d) = userWarehouseAccess d"
  "activityLogs (put_user i f d) = activityLogs d"
  "nextId (put_user i f d) = nextId d"
  "users (put_user i f d) = update_many (\<lambda>u. u_id u = i) f (users d)"
  by (simp_all add: put_user_def)

lemma auditLog_frame [account_simps]:
  "users (auditLog u a x now d) = users d"
  "userWarehouseAccess (auditLog u a x now d) = userWarehouseAccess d"
  "nextId (auditLog u a x now d) = Suc (nextId d)"
  by (simp_all add: auditLog_def Let_def)

lemma untouched_accounts [account_simps]:
  "untouched d (put_user i f d)" "untouched d (auditLog u a x now d)" "untouched d (audit v a m r ds st now d)"
  by (simp_all add: untouched_def put_user_def auditLog_def Let_def)

lemma same_data_auditLog [account_simps]: "same_data d (auditLog u a x now d)"
  by (simp add: auditLog_def same_data_def logAction_def Let_def)

text \<open>An update by identifier changes at most one row.\<close>

lemma update_absent: "\<forall>u \<in> set us. u_id u \<noteq> i \<Longrightarrow> update_many (\<lambda>u. u_id u = i) f us = us"
  by (simp add: update_many_def map_idI)

lemma count_update_one:
  "distinct (map u_id us) \<Longrightarrow> count_where q us \<le> Suc (count_where q (update_many (\<lambda>u. u_id u = i) f us))"
proof (induction us)
  case (Cons u us)
  show ?case
  proof (cases "u_id u = i")
    case True
    with Cons.prems have "\<forall>v \<in> set us. u_id v \<noteq> i" by (auto simp: image_iff)
    then show ?thesis by (simp add: update_many_Cons update_absent)
  qed (use Cons in \<open>simp add: update_many_Cons\<close>)
qed simp

lemma distinct_update_one:
  assumes "distinct (map u_id us)" "distinct (map g us)"
    "\<And>u. u \<in> set us \<Longrightarrow> u_id u = i \<Longrightarrow> g (f u) = g u \<or> g (f u) \<notin> g ` set us"
  shows "distinct (map g (update_many (\<lambda>u. u_id u = i) f us))"
  using assms
proof (induction us)
  case (Cons u us)
  show ?case
  proof (cases "u_id u = i")
    case True
    with Cons.prems(1) have "\<forall>v \<in> set us. u_id v \<noteq> i" by (auto simp: image_iff)
    then show ?thesis using Cons.prems(2) Cons.prems(3) [of u] True by (auto simp: update_many_Cons update_absent)
  next
    case False
    have IH: "distinct (map g (update_many (\<lambda>u. u_id u = i) f us))"
      using Cons.prems by (intro Cons.IH) (auto dest: Cons.prems(3))
    have "g u \<noteq> g v" if v: "v \<in> set (update_many (\<lambda>u. u_id u = i) f us)" for v
    proof -
      obtain w where w: "w \<in> set us" "v = (if u_id w = i then f w else w)" using v by (auto simp: set_update_many)
      then show ?thesis using Cons.prems(2) Cons.prems(3) [of w] by (auto split: if_splits)
    qed
    with IH False show ?thesis by (auto simp: update_many_Cons)
  qed
qed (simp add: update_many_def)

lemma map_id_update:
  "(\<And>u. u_id (f u) = u_id u) \<Longrightarrow> map u_id (update_many (\<lambda>u. u_id u = i) f us) = map u_id us"
  by (simp add: map_update_many)

text \<open>Reading a user back after an update by identifier.\<close>

lemma find_user_put [account_simps]:
  assumes "\<And>u. u_id (f u) = u_id u"
  shows "find_user (put_user i f d) j = (if j = i then map_option f (find_user d i) else find_user d j)"
proof -
  have "find_first (\<lambda>u. u_id u = j) (update_many (\<lambda>u. u_id u = i) f us) =
    (if j = i then map_option f (find_first (\<lambda>u. u_id u = i) us) else find_first (\<lambda>u. u_id u = j) us)" for us
    unfolding find_first_def by (cases "j = i"; induction us) (simp_all add: update_many_Cons assms)
  then show ?thesis by (simp add: find_user_def put_user_def)
qed

lemma find_user_frame [account_simps]:
  "find_user (auditLog u a x now d) j = find_user d j" "find_user (audit v a m r ds st now d) j = find_user d j"
  by (simp_all add: find_user_def account_simps)

lemma access_of_frame [account_simps]:
  "access_of (put_user i f d) j = access_of d j" "access_of (auditLog u a x now d) j = access_of d j"
  "access_of (audit v a m r ds st now d) j = access_of d j"
  by (simp_all add: access_of_def account_simps)

lemma access_of_replace [account_simps]:
  "access_of (replace_access i ps d) j = (if j = i then ps else access_of d j)"
  by (auto simp: access_of_def replace_access_def comp_def filter_map intro!: arg_cong [where f = "map wa_processType"] filter_cong)

text \<open>The changes a request makes to a row keep its identifier and never lower its token version.\<close>

definition ages :: "(user_row \<Rightarrow> user_row) \<Rightarrow> bool" where
  "ages f \<longleftrightarrow> (\<forall>u. u_id (f u) = u_id u \<and> u_tokenVersion u \<le> u_tokenVersion (f u))"

lemma ages_rows [account_simps]:
  "ages revoke" "ages (removed v now)" "ages (temporary h now)" "ages (with_status b)" "ages (signed_in h now)"
  "ages (profiled pf)" "ages (with_password h now)" "ages (updateData dto e n)"
  by (simp_all add: ages_def revoke_def removed_def temporary_def with_status_def signed_in_def profiled_def
      with_password_def updateData_def Let_def)

lemma ages_id: "ages f \<Longrightarrow> u_id (f u) = u_id u"
  by (simp add: ages_def)

section \<open>Well-formed accounts\<close>

text \<open>
  Identifiers, e-mail addresses and usernames are unique, a removed user is inactive, a user has
  process types exactly when its role needs them, the access rows are distinct and belong to users
  that exist, and there is an active administrator.
\<close>

definition rows_ok :: "db \<Rightarrow> bool" where
  "rows_ok d \<longleftrightarrow> distinct (map u_id (users d)) \<and> distinct (map u_email (users d)) \<and>
     distinct (map u_username (users d)) \<and> (\<forall>u \<in> set (users d). u_id u < nextId d \<and> (u_isDeleted u \<longrightarrow> \<not> u_isActive u))"

definition scopes_ok :: "db \<Rightarrow> bool" where
  "scopes_ok d \<longleftrightarrow> (\<forall>u \<in> set (users d). needs_scope (u_role u) = (access_of d (u_id u) \<noteq> [])) \<and>
     distinct (userWarehouseAccess d) \<and> (\<forall>a \<in> set (userWarehouseAccess d). wa_userId a \<in> u_id ` set (users d))"

definition accounts_ok :: "db \<Rightarrow> bool" where
  "accounts_ok d \<longleftrightarrow> rows_ok d \<and> scopes_ok d \<and> 1 \<le> activeAdminCount d"

text \<open>What a request may do to the accounts.\<close>

inductive account_change :: "db \<Rightarrow> db \<Rightarrow> bool" where
  ac_none: "users d' = users d \<Longrightarrow> userWarehouseAccess d' = userWarehouseAccess d \<Longrightarrow> nextId d \<le> nextId d' \<Longrightarrow>
     account_change d d'"
| ac_new: "users d' = users d @ [u] \<Longrightarrow>
     userWarehouseAccess d' = userWarehouseAccess d @ map (\<lambda>p. \<lparr>wa_userId = u_id u, wa_processType = p\<rparr>) ps \<Longrightarrow>
     u_id u = nextId d \<Longrightarrow> nextId d < nextId d' \<Longrightarrow> \<not> email_taken d (u_email u) \<Longrightarrow>
     \<not> username_taken d (u_username u) \<Longrightarrow> \<not> u_isDeleted u \<Longrightarrow> distinct ps \<Longrightarrow>
     needs_scope (u_role u) = (ps \<noteq> []) \<Longrightarrow> account_change d d'"
| ac_row: "find_user d i = Some u \<Longrightarrow> ages f \<Longrightarrow> users d' = update_many (\<lambda>u. u_id u = i) f (users d) \<Longrightarrow>
     userWarehouseAccess d' = userWarehouseAccess d \<or>
       (\<exists>ps. distinct ps \<and> userWarehouseAccess d' = userWarehouseAccess (replace_access i ps d)) \<Longrightarrow>
     nextId d \<le> nextId d' \<Longrightarrow>
     u_email (f u) = u_email u \<or> \<not> email_taken d (u_email (f u)) \<Longrightarrow>
     u_username (f u) = u_username u \<or> \<not> username_taken d (u_username (f u)) \<Longrightarrow>
     (u_isDeleted (f u) \<longrightarrow> \<not> u_isActive (f u)) \<Longrightarrow>
     active_admin (f u) \<or> \<not> active_admin u \<or> 2 \<le> activeAdminCount d \<Longrightarrow>
     needs_scope (u_role (f u)) = (access_of d' i \<noteq> []) \<Longrightarrow> account_change d d'"

lemma find_userD: "find_user d i = Some u \<Longrightarrow> u \<in> set (users d) \<and> u_id u = i"
  unfolding find_user_def by (drule find_first_SomeD) simp

lemma unique_row:
  "rows_ok d \<Longrightarrow> find_user d i = Some u \<Longrightarrow> v \<in> set (users d) \<Longrightarrow> u_id v = i \<Longrightarrow> v = u"
  using find_first_unique [of v "users d" u_id] by (auto simp: rows_ok_def find_user_def)

lemma find_live_user:
  assumes "rows_ok d" "find_live d i = Some u"
  shows "find_user d i = Some u" "\<not> u_isDeleted u"
proof -
  have u: "u \<in> set (users d)" "u_id u = i" "\<not> u_isDeleted u"
    using find_first_SomeD [OF assms(2) [unfolded find_live_def]] by auto
  show "find_user d i = Some u" "\<not> u_isDeleted u"
    using u assms(1) find_first_unique [of u "users d" u_id] by (simp_all add: rows_ok_def find_user_def)
qed

lemma live_row: "accounts_ok d \<Longrightarrow> find_live d i = Some u \<Longrightarrow> find_user d i = Some u \<and> \<not> u_isDeleted u"
  using find_live_user [of d i u] by (simp add: accounts_ok_def)

lemma new_rows_ok:
  assumes "rows_ok d" "users d' = users d @ [u]" "u_id u = nextId d" "nextId d < nextId d'"
    "\<not> email_taken d (u_email u)" "\<not> username_taken d (u_username u)" "\<not> u_isDeleted u"
  shows "rows_ok d'"
  using assms by (fastforce simp: rows_ok_def email_taken_def username_taken_def list_ex_iff)

lemma changed_rows_ok:
  assumes ok: "rows_ok d" and u: "find_user d i = Some u" and f: "ages f"
    and us: "users d' = update_many (\<lambda>u. u_id u = i) f (users d)" and n: "nextId d \<le> nextId d'"
    and e: "u_email (f u) = u_email u \<or> \<not> email_taken d (u_email (f u))"
    and nm: "u_username (f u) = u_username u \<or> \<not> username_taken d (u_username (f u))"
    and del: "u_isDeleted (f u) \<longrightarrow> \<not> u_isActive (f u)"
  shows "rows_ok d'"
proof -
  note row = unique_row [OF ok u]
  have ids: "distinct (map u_id (users d))" using ok by (simp add: rows_ok_def)
  have "distinct (map u_email (users d'))" unfolding us
  proof (rule distinct_update_one [OF ids])
    show "distinct (map u_email (users d))" using ok by (simp add: rows_ok_def)
  next
    fix v assume "v \<in> set (users d)" "u_id v = i"
    then have "v = u" by (rule row)
    then show "u_email (f v) = u_email v \<or> u_email (f v) \<notin> u_email ` set (users d)"
      using e by (auto simp: email_taken_def list_ex_iff)
  qed
  moreover have "distinct (map u_username (users d'))" unfolding us
  proof (rule distinct_update_one [OF ids])
    show "distinct (map u_username (users d))" using ok by (simp add: rows_ok_def)
  next
    fix v assume "v \<in> set (users d)" "u_id v = i"
    then have "v = u" by (rule row)
    then show "u_username (f v) = u_username v \<or> u_username (f v) \<notin> u_username ` set (users d)"
      using nm by (auto simp: username_taken_def list_ex_iff)
  qed
  moreover have "distinct (map u_id (users d'))"
    using ids by (simp add: us map_id_update ages_id [OF f])
  moreover have "u_id w < nextId d' \<and> (u_isDeleted w \<longrightarrow> \<not> u_isActive w)" if w: "w \<in> set (users d')" for w
  proof -
    obtain v where v: "v \<in> set (users d)" "w = (if u_id v = i then f v else v)"
      using w by (auto simp: us set_update_many)
    then have old: "u_id v < nextId d" "u_isDeleted v \<longrightarrow> \<not> u_isActive v" using ok by (simp_all add: rows_ok_def)
    show ?thesis
    proof (cases "u_id v = i")
      case True
      then show ?thesis using v old(1) row [OF v(1)] del n by (simp add: ages_id [OF f])
    qed (use v old n in simp)
  qed
  ultimately show ?thesis by (simp add: rows_ok_def)
qed

lemma access_of_eq: "userWarehouseAccess d' = userWarehouseAccess d \<Longrightarrow> access_of d' = access_of d"
  by (simp add: access_of_def [abs_def])

lemma new_scopes_ok:
  assumes ok: "scopes_ok d" "rows_ok d" and us: "users d' = users d @ [u]"
    and ac: "userWarehouseAccess d' = userWarehouseAccess d @ map (\<lambda>p. \<lparr>wa_userId = u_id u, wa_processType = p\<rparr>) ps"
    and u: "u_id u = nextId d" "distinct ps" "needs_scope (u_role u) = (ps \<noteq> [])"
  shows "scopes_ok d'"
proof -
  have fresh: "u_id u \<notin> u_id ` set (users d)" using ok(2) u(1) by (auto simp: rows_ok_def)
  have own: "(\<forall>a \<in> set (userWarehouseAccess d). wa_userId a \<in> u_id ` set (users d))" using ok(1) by (simp add: scopes_ok_def)
  have none: "access_of d (u_id u) = []" using fresh own by (simp add: access_of_def filter_empty_conv) metis
  have acc: "access_of d' j = access_of d j @ (if j = u_id u then ps else [])" for j
    by (simp add: access_of_def ac filter_map comp_def)
  have "distinct (userWarehouseAccess d')"
    using ok(1) u(2) fresh own by (auto simp: ac scopes_ok_def distinct_map inj_on_def)
  moreover have "needs_scope (u_role w) = (access_of d' (u_id w) \<noteq> [])" if w: "w \<in> set (users d')" for w
  proof (cases "w = u")
    case True
    then show ?thesis using none u(3) by (simp add: acc)
  next
    case False
    then have "w \<in> set (users d)" using w us by simp
    moreover from this have "u_id w \<noteq> u_id u" using fresh by (metis image_eqI)
    ultimately show ?thesis using ok(1) by (simp add: acc scopes_ok_def)
  qed
  moreover have "(\<forall>a \<in> set (userWarehouseAccess d'). wa_userId a \<in> u_id ` set (users d'))"
    using own by (auto simp: ac us)
  ultimately show ?thesis by (simp add: scopes_ok_def)
qed

lemma changed_scopes_ok:
  assumes ok: "scopes_ok d" "rows_ok d" and u: "find_user d i = Some u" and f: "ages f"
    and us: "users d' = update_many (\<lambda>u. u_id u = i) f (users d)"
    and ac: "userWarehouseAccess d' = userWarehouseAccess d \<or>
       (\<exists>ps. distinct ps \<and> userWarehouseAccess d' = userWarehouseAccess (replace_access i ps d))"
    and sc: "needs_scope (u_role (f u)) = (access_of d' i \<noteq> [])"
  shows "scopes_ok d'"
proof -
  have ids: "u_id ` set (users d') = u_id ` set (users d)"
    using map_id_update [of f i "users d"] ages_id [OF f] unfolding us by (metis list.set_map)
  have iu: "i \<in> u_id ` set (users d)" using find_userD [OF u] by blast
  have acc: "access_of d' j = access_of d j" if "j \<noteq> i" for j
    using ac that access_of_replace [of i _ d j] by (auto simp: access_of_def)
  have dist: "distinct (userWarehouseAccess d')"
    using ac ok(1) by (auto simp: scopes_ok_def replace_access_def distinct_map inj_on_def)
  have own: "(\<forall>a \<in> set (userWarehouseAccess d'). wa_userId a \<in> u_id ` set (users d'))"
    using ac ok(1) iu ids by (auto simp: scopes_ok_def replace_access_def)
  have "needs_scope (u_role w) = (access_of d' (u_id w) \<noteq> [])" if w: "w \<in> set (users d')" for w
  proof -
    obtain v where v: "v \<in> set (users d)" "w = (if u_id v = i then f v else v)"
      using w by (auto simp: us set_update_many)
    show ?thesis
    proof (cases "u_id v = i")
      case True
      then show ?thesis using v sc unique_row [OF ok(2) u v(1)] by (simp add: ages_id [OF f])
    next
      case False
      then show ?thesis using v ok(1) by (simp add: acc scopes_ok_def)
    qed
  qed
  with dist own show ?thesis by (simp add: scopes_ok_def)
qed

lemma changed_admins:
  assumes "rows_ok d" "find_user d i = Some u" "users d' = update_many (\<lambda>u. u_id u = i) f (users d)"
    "active_admin (f u) \<or> \<not> active_admin u \<or> 2 \<le> activeAdminCount d" "1 \<le> activeAdminCount d"
  shows "1 \<le> activeAdminCount d'"
proof (cases "2 \<le> activeAdminCount d")
  case True
  have "activeAdminCount d \<le> Suc (activeAdminCount d')"
    using count_update_one [of "users d" active_admin i f] assms(1,3) by (simp add: activeAdminCount_def rows_ok_def)
  with True show ?thesis by simp
next
  case False
  obtain v where v: "v \<in> set (users d)" "active_admin v"
    using assms(5) count_where_0_iff [of active_admin "users d"] by (auto simp: activeAdminCount_def)
  have "(if u_id v = i then f v else v) \<in> set (users d')" using v(1) by (auto simp: assms(3) set_update_many)
  moreover have "active_admin (if u_id v = i then f v else v)"
    using v False assms(4) unique_row [OF assms(1,2) v(1)] by auto
  ultimately show ?thesis
    using count_where_0_iff [of active_admin "users d'"] by (auto simp: activeAdminCount_def Suc_le_eq)
qed

lemma account_change_ok: "account_change d d' \<Longrightarrow> accounts_ok d \<Longrightarrow> accounts_ok d'"
proof (induction rule: account_change.induct)
  case (ac_none d' d)
  then show ?case
    using access_of_eq [OF ac_none(2)] by (auto simp: accounts_ok_def rows_ok_def scopes_ok_def activeAdminCount_def)
next
  case (ac_new d' d u ps)
  then show ?case
    using new_rows_ok [of d d' u] new_scopes_ok [of d d' u ps] by (simp add: accounts_ok_def activeAdminCount_def)
next
  case (ac_row d i u f d')
  then show ?case
    using changed_rows_ok [of d i u f d'] changed_scopes_ok [of d i u f d'] changed_admins [of d i u d' f]
    by (simp add: accounts_ok_def)
qed

section \<open>The requests as changes\<close>

text \<open>A change of one row that keeps role, names and scope.\<close>

definition keeps_identity :: "(user_row \<Rightarrow> user_row) \<Rightarrow> bool" where
  "keeps_identity f \<longleftrightarrow> (\<forall>u. u_role (f u) = u_role u \<and> u_email (f u) = u_email u \<and> u_username (f u) = u_username u \<and>
     u_isDeleted (f u) = u_isDeleted u \<and> u_isActive (f u) = u_isActive u)"

lemma keeps_identity_rows [account_simps]:
  "keeps_identity revoke" "keeps_identity (temporary h now)" "keeps_identity (signed_in h now)"
  "keeps_identity (profiled pf)" "keeps_identity (with_password h now)"
  by (simp_all add: keeps_identity_def revoke_def temporary_def signed_in_def profiled_def with_password_def)

lemma stored_scope:
  "accounts_ok d \<Longrightarrow> find_user d i = Some u \<Longrightarrow> needs_scope (u_role u) = (access_of d i \<noteq> [])"
  using find_userD by (fastforce simp: accounts_ok_def scopes_ok_def)

lemma stored_inactive: "accounts_ok d \<Longrightarrow> find_user d i = Some u \<Longrightarrow> u_isDeleted u \<Longrightarrow> \<not> u_isActive u"
  using find_userD by (fastforce simp: accounts_ok_def rows_ok_def)

lemma keeps_identity_change:
  assumes "accounts_ok d" "find_user d i = Some u" "ages f" "keeps_identity f"
    "users d' = update_many (\<lambda>u. u_id u = i) f (users d)" "userWarehouseAccess d' = userWarehouseAccess d"
    "nextId d \<le> nextId d'"
  shows "account_change d d'"
  using assms stored_inactive [OF assms(1,2)] stored_scope [OF assms(1,2)] access_of_eq [OF assms(6)]
  by (intro ac_row [OF assms(2,3,5)]) (simp_all add: keeps_identity_def active_admin_def)

lemma account_change_refl [simp]: "account_change d d"
  by (rule ac_none) simp_all

lemma createUser_change:
  assumes "accounts_ok d"
  shows "account_change d (fst (createUser cr d dto now))"
proof (cases "snd (createUser cr d dto now)")
  case (Inl e)
  then have "fst (createUser cr d dto now) = d"
    by (auto simp: createUser_def Let_def split: if_splits sum.splits)
  then show ?thesis by simp
next
  case (Inr v)
  then obtain ps where ps: "createAccess dto = Inr ps" "distinct ps"
      "\<not> email_taken d (lower (trim (cu_email dto)))" "\<not> username_taken d (lower (trim (cu_username dto)))"
    by (auto simp: createUser_def Let_def split: if_splits sum.splits)
  have sc: "needs_scope (cu_role dto) = (ps \<noteq> [])"
    using ps(1) by (auto simp: createAccess_def split: if_splits field.splits)
  let ?u = "new_user dto (lower (trim (cu_email dto))) (lower (trim (cu_username dto)))
      (cr_hash cr (nextId d) (cr_base64url16 cr (nextId d))) (nextId d) now"
  show ?thesis by (rule ac_new [where u = ?u and ps = ps]) (use ps sc in \<open>simp_all add: createUser_def Let_def new_user_def\<close>)
qed

lemma truthy_colD: "truthy_col c = Some s \<Longrightarrow> c = Some s"
  by (auto simp: truthy_col_def split: option.splits if_splits)

lemma put_change:
  assumes "accounts_ok d" "find_user d i = Some u" "ages f" "keeps_identity f"
  shows "account_change d (put_user i f d)"
    and "account_change d (auditLog v a x now (put_user i f d))"
    and "account_change d (audit w a m r ds st now (put_user i f d))"
  by (rule keeps_identity_change [OF assms]; simp add: account_simps)+

lemma audit_change:
  "account_change d (auditLog v a x now d)" "account_change d (audit w a m r ds st now d)"
  by (rule ac_none; simp add: account_simps)+

lemma login_change:
  assumes ok: "accounts_ok d"
  shows "account_change d (fst (login cr d dto now))"
proof (cases "find_login d (trim (lg_identifier dto))")
  case (Some user)
  have mem: "user \<in> set (users d)" using find_first_SomeD [OF Some [unfolded find_login_def]] by blast
  then have u: "find_user d (u_id user) = Some user"
    using ok find_first_unique [of user "users d" u_id] by (simp add: accounts_ok_def rows_ok_def find_user_def)
  show ?thesis
    using put_change(2) [OF ok u, of "signed_in (cr_hash cr (nextId d) (cr_signRefresh cr (payload_of user) now)) now"]
    by (simp add: login_def Some Let_def failedAttempt_def audit_change loginTokens_def account_simps)
qed (simp add: login_def audit_change)

lemma rotate_change:
  assumes ok: "accounts_ok d" and u: "find_user d i = Some user"
  shows "account_change d (auditLog v a x now (fst (rotate user h d)))"
proof (rule keeps_identity_change [OF ok u])
  let ?f = "\<lambda>u. if u_refreshTokenHash u = u_refreshTokenHash user then u\<lparr>u_refreshTokenHash := Some h\<rparr> else u"
  show "ages ?f" by (simp add: ages_def)
  show "keeps_identity ?f" by (simp add: keeps_identity_def)
  have "u_id user = i" using find_userD [OF u] by simp
  then show "users (auditLog v a x now (fst (rotate user h d))) = update_many (\<lambda>u. u_id u = i) ?f (users d)"
    by (auto simp: account_simps rotate_def Let_def update_many_def)
qed (simp_all add: account_simps rotate_def Let_def)

lemma refreshTokens_change:
  assumes ok: "accounts_ok d"
  shows "account_change d (fst (refreshTokens cr d token now))"
proof (cases "cr_verifyRefresh cr token now")
  case (Some payload)
  show ?thesis
  proof (cases "find_user d (pl_sub payload)")
    case u: (Some user)
    have [simp]: "u_id user = pl_sub payload" using find_userD [OF u] by simp
    show ?thesis
      using put_change(3) [OF ok u] rotate_change [OF ok u]
      by (auto simp: refreshTokens_def Some u refresh_at_def Let_def case_prod_unfold account_simps split: option.splits)
  qed (simp add: refreshTokens_def Some)
qed (simp add: refreshTokens_def)

lemma find_live_put_change:
  assumes "accounts_ok d" "find_live d i = Some u" "ages f" "keeps_identity f"
  shows "account_change d (audit w a m r ds st now (put_user i f d))"
  using put_change(3) [OF assms(1) find_live_user(1) assms(3,4)] assms(1,2) by (simp add: accounts_ok_def)

lemma resetPassword_change: "accounts_ok d \<Longrightarrow> account_change d (fst (resetPassword cr d i a now))"
  by (auto simp: resetPassword_def Let_def account_simps split: option.splits intro: find_live_put_change)

lemma logout_change: "accounts_ok d \<Longrightarrow> account_change d (fst (logout d i now))"
  by (auto simp: logout_def account_simps intro: put_change)

lemma updateProfile_change: "accounts_ok d \<Longrightarrow> account_change d (fst (updateProfile d i dto now))"
  by (auto simp: updateProfile_def account_simps split: option.splits intro: put_change)

lemma changePassword_change: "accounts_ok d \<Longrightarrow> account_change d (fst (changePassword cr d i dto now))"
  by (auto simp: changePassword_def account_simps split: option.splits intro: put_change audit_change)

lemma removeUser_change:
  assumes ok: "accounts_ok d"
  shows "account_change d (fst (removeUser d i now))"
proof (cases "snd (removeUser d i now)")
  case (Inl e)
  then have "fst (removeUser d i now) = d" by (auto simp: removeUser_def split: if_splits option.splits)
  then show ?thesis by simp
next
  case (Inr v)
  then obtain user where u: "find_live d i = Some user" "\<not> (u_role user = ADMIN \<and> activeAdminCount d \<le> 1)"
      "\<not> email_taken d (u_email user @ ''_deleted_'' @ decimal (nat now))"
      "\<not> username_taken d (u_username user @ ''_deleted_'' @ decimal (nat now))"
    by (auto simp: removeUser_def split: if_splits option.splits)
  have fu: "find_user d i = Some user" using find_live_user(1) u(1) ok by (simp add: accounts_ok_def)
  show ?thesis
    by (rule ac_row [OF fu ages_rows(2)])
      (use u stored_scope [OF ok fu] in \<open>auto simp: removeUser_def account_simps removed_def revoke_def active_admin_def\<close>)
qed

lemma updateStatus_change:
  assumes ok: "accounts_ok d"
  shows "account_change d (fst (updateStatus d i active))"
proof (cases "snd (updateStatus d i active)")
  case (Inl e)
  then have "fst (updateStatus d i active) = d" by (auto simp: updateStatus_def split: if_splits option.splits)
  then show ?thesis by simp
next
  case (Inr v)
  then obtain user where u: "find_live d i = Some user" "u_role user = ADMIN \<Longrightarrow> active \<or> 2 \<le> activeAdminCount d"
    by (auto simp: updateStatus_def split: if_splits option.splits)
  have fu: "find_user d i = Some user" "\<not> u_isDeleted user"
    using live_row [OF ok u(1)] by simp_all
  have d': "fst (updateStatus d i active) = put_user i (with_status active) d"
    using Inr u(1) by (auto simp: updateStatus_def split: if_splits)
  show ?thesis
    by (rule ac_row [OF fu(1) ages_rows(4)])
      (use u(2) fu(2) stored_scope [OF ok fu(1)] in
        \<open>auto simp: d' account_simps with_status_def revoke_def active_admin_def\<close>)
qed

text \<open>The values an update sets are free, and fit the role it ends with.\<close>

lemma changed_nameD: "changed_name x old taken e = Inr v \<Longrightarrow> set_some v old = old \<or> \<not> taken (set_some v old)"
  by (auto simp: changed_name_def set_some_def Let_def split: option.splits if_splits)

lemma updatePlanD:
  assumes "updatePlan d i dto user = Inr (email, username, ps)"
  shows "set_some email (u_email user) = u_email user \<or> \<not> email_taken d (set_some email (u_email user))"
    and "set_some username (u_username user) = u_username user \<or> \<not> username_taken d (set_some username (u_username user))"
    and "updatedAccess dto user (access_of d i) = Inr ps"
  using assms by (auto simp: updatePlan_def split: sum.splits dest: changed_nameD)

lemma updatedAccess_scope:
  "updatedAccess dto user stored = Inr (Value l) \<Longrightarrow> needs_scope (targetRole dto user) = (l \<noteq> [])"
  "updatedAccess dto user stored = Inr Undefined \<Longrightarrow> needs_scope (targetRole dto user) \<and> stored \<noteq> []"
  by (auto simp: updatedAccess_def split: if_splits field.splits)

lemma updateData_fields:
  "u_email (updateData dto e n u) = set_some e (u_email u)"
  "u_username (updateData dto e n u) = set_some n (u_username u)"
  "u_role (updateData dto e n u) = targetRole dto u"
  "u_isActive (updateData dto e n u) = set_value (uu_isActive dto) (u_isActive u)"
  "u_isDeleted (updateData dto e n u) = u_isDeleted u"
  by (simp_all add: updateData_def Let_def revoke_def targetRole_def)

lemma takes_admin_away_iff:
  "uu_isActive dto \<noteq> Null \<Longrightarrow> active_admin user \<Longrightarrow>
     active_admin (updateData dto e n user) \<or> takes_admin_away dto user"
  by (cases "uu_role dto"; cases "uu_isActive dto")
    (auto simp: active_admin_def updateData_fields targetRole_def takes_admin_away_def)

lemma updateWriteD:
  assumes "updateWrite i dto (email, username, ps) d = Inr d'"
  shows "uu_isActive dto \<noteq> Null" "users d' = update_many (\<lambda>u. u_id u = i) (updateData dto email username) (users d)"
    "nextId d' = nextId d" "untouched d d'"
    "ps = Undefined \<and> userWarehouseAccess d' = userWarehouseAccess d \<or>
      (\<exists>l. ps = Value l \<and> distinct l \<and> userWarehouseAccess d' = userWarehouseAccess (replace_access i l d))"
  using assms
  by (auto simp: updateWrite_def Let_def replace_access_def account_simps untouched_def put_user_def split: if_splits field.splits)

lemma updateUser_change:
  assumes ok: "accounts_ok d"
  shows "account_change d (fst (updateUser d i dto))"
proof (cases "snd (updateUser d i dto)")
  case (Inl e)
  then have "fst (updateUser d i dto) = d" by (auto simp: updateUser_def split: if_splits option.splits sum.splits)
  then show ?thesis by simp
next
  case (Inr v)
  then obtain user email username ps d' where u: "find_live d i = Some user"
      and p: "updatePlan d i dto user = Inr (email, username, ps)" and g: "updateGuard dto user d"
      and w: "updateWrite i dto (email, username, ps) d = Inr d'" and d': "fst (updateUser d i dto) = d'"
    by (auto simp: updateUser_def split: if_splits option.splits sum.splits)
  have fu: "find_user d i = Some user" "\<not> u_isDeleted user"
    using live_row [OF ok u(1)] by simp_all
  note plan = updatePlanD [OF p] and wr = updateWriteD [OF w]
  have ac: "access_of d' i = (case ps of Value l \<Rightarrow> l | _ \<Rightarrow> access_of d i)"
    using wr(5) access_of_replace [of i _ d i] by (auto simp: access_of_def)
  have "active_admin (updateData dto email username user) \<or> \<not> active_admin user \<or> 2 \<le> activeAdminCount d"
    using takes_admin_away_iff [OF wr(1)] g by (auto simp: updateGuard_def)
  moreover have "needs_scope (targetRole dto user) = (access_of d' i \<noteq> [])"
  proof (cases ps)
    case Undefined
    then show ?thesis using updatedAccess_scope(2) plan(3) ac by force
  next
    case Null
    then show ?thesis using wr(5) by simp
  next
    case (Value l)
    then show ?thesis using updatedAccess_scope(1) plan(3) ac by force
  qed
  moreover have "userWarehouseAccess d' = userWarehouseAccess d \<or>
      (\<exists>l. distinct l \<and> userWarehouseAccess d' = userWarehouseAccess (replace_access i l d))"
    using wr(5) by blast
  ultimately show ?thesis unfolding d'
    by (intro ac_row [OF fu(1) ages_rows(8) wr(2)]) (use wr(3) plan fu(2) in \<open>simp_all add: updateData_fields\<close>)
qed

lemmas account_changes = createUser_change updateUser_change removeUser_change resetPassword_change
  updateStatus_change login_change logout_change refreshTokens_change updateProfile_change changePassword_change

lemma account_service_change:
  "accounts_ok d \<Longrightarrow> account_change d (fst (account_service cr d r now))"
  by (cases r) (simp_all add: account_service_def answer_def account_changes)

section \<open>What every run keeps\<close>

lemma untouched_put [account_simps]:
  "untouched d (auditLog u a x now (put_user i f d))" "untouched d (audit v a m r ds st now (put_user i f d))"
  by (simp_all add: untouched_def put_user_def auditLog_def Let_def)

lemma untouched_rotate [account_simps]: "untouched d (auditLog u a x now (fst (rotate user h d)))"
  by (simp add: untouched_def rotate_def auditLog_def Let_def)

lemma account_service_untouched: "untouched d (fst (account_service cr d r now))"
proof (cases r)
  case (UpdateUser i dto)
  then show ?thesis
    by (auto simp: account_service_def answer_def updateUser_def split: option.splits sum.splits dest: updateWriteD(4))
next
  case (CreateUser dto)
  then show ?thesis
    by (auto simp: account_service_def answer_def createUser_def Let_def untouched_def split: sum.splits)
qed (auto simp: account_service_def answer_def removeUser_def resetPassword_def updateStatus_def login_def
    loginTokens_def failedAttempt_def logout_def refreshTokens_def refresh_at_def updateProfile_def changePassword_def
    Let_def case_prod_unfold account_simps split: option.splits)

text \<open>So a request to the accounts is a step of the running plant.\<close>

lemma account_service_sys_step: "sys_step nt s (s\<lparr>sy_db := fst (account_service cr (sy_db s) r now)\<rparr>)"
  by (rule sys_other) (rule account_service_untouched)

lemma account_run_ok: "accounts_ok d \<Longrightarrow> accounts_ok (account_run cr d rs) \<and> untouched d (account_run cr d rs)"
proof (induction cr d rs rule: account_run.induct)
  case (2 cr d r now rs)
  have "accounts_ok (fst (account_service cr d r now))"
    using account_change_ok [OF account_service_change] 2(2) by blast
  then show ?case
    using 2(1) untouched_trans [OF account_service_untouched [of d cr r now]] by simp
qed simp

text \<open>
  C5. Whatever requests the user and session endpoints serve, one after the other, the accounts stay
  well formed: identifiers, e-mail addresses and usernames unique, removed users inactive, process
  types stored exactly for the roles that need them, access rows distinct and owned; an active
  administrator remains; and the truck workflow's tables are untouched.
\<close>
theorem accounts_well_formed:
  assumes "accounts_ok d"
  shows "accounts_ok (account_run cr d rs) \<and> untouched d (account_run cr d rs)"
  using assms by (rule account_run_ok)

section \<open>Revoked sessions\<close>

text \<open>The requests that end the sessions of a user.\<close>

fun revokes :: "account_request \<Rightarrow> ident option" where
  "revokes (UpdateUser i dto) = (if privilege_change dto then Some i else None)"
| "revokes (RemoveUser i) = Some i"
| "revokes (ResetPassword i a) = Some i"
| "revokes (UpdateStatus i b) = Some i"
| "revokes (Logout i) = Some i"
| "revokes (ChangePassword i dto) = Some i"
| "revokes _ = None"

text \<open>Every token of the user issued up to version \<open>v\<close> is dead.\<close>

definition past_version :: "db \<Rightarrow> ident \<Rightarrow> nat \<Rightarrow> bool" where
  "past_version d i v \<longleftrightarrow> (\<exists>u. find_user d i = Some u \<and> v < u_tokenVersion u)"

lemma find_first_append:
  "find_first p (xs @ ys) = (case find_first p xs of None \<Rightarrow> find_first p ys | Some r \<Rightarrow> Some r)"
  unfolding find_first_def by (induction xs) simp_all

lemma change_ages:
  assumes "account_change d d'" "find_user d i = Some u"
  shows "\<exists>u'. find_user d' i = Some u' \<and> u_tokenVersion u \<le> u_tokenVersion u'"
  using assms
proof (induction rule: account_change.induct)
  case (ac_new d' d v ps)
  then show ?case by (simp add: find_user_def find_first_append)
next
  case (ac_row d j v f d')
  have "find_user d' i = find_user (put_user j f d) i" using ac_row(3) by (simp add: find_user_def account_simps)
  then show ?case using ac_row(2,11) find_user_put [of f j d i] by (auto simp: ages_def)
qed (simp add: find_user_def)

lemma past_version_run:
  "accounts_ok d \<Longrightarrow> past_version d i v \<Longrightarrow> past_version (account_run cr d rs) i v"
proof (induction cr d rs rule: account_run.induct)
  case (2 cr d r now rs)
  note ch = account_service_change [OF 2(2), of cr r now]
  have "past_version (fst (account_service cr d r now)) i v"
    using change_ages [OF ch] 2(3) less_le_trans by (fastforce simp: past_version_def)
  then show ?case using 2(1) account_change_ok [OF ch 2(2)] by simp
qed simp

lemma past_version_refused:
  "past_version d i v \<Longrightarrow> pl_sub p = i \<Longrightarrow> pl_tv p = Some w \<Longrightarrow> w \<le> v \<Longrightarrow> \<exists>e. validate d p = Inl (Unauthorized e)"
  by (auto simp: past_version_def validate_def)

lemmas row_ids [account_simps] = ages_rows [THEN ages_id]

definition ended :: "db \<Rightarrow> ident \<Rightarrow> nat \<Rightarrow> bool" where
  "ended d i v \<longleftrightarrow> (\<exists>u. find_user d i = Some u \<and> u_tokenVersion u = Suc v \<and> u_refreshTokenHash u = None)"

lemma ended_rows:
  "u_tokenVersion (revoke u) = Suc (u_tokenVersion u) \<and> u_refreshTokenHash (revoke u) = None"
  "u_tokenVersion (removed v now u) = Suc (u_tokenVersion u) \<and> u_refreshTokenHash (removed v now u) = None"
  "u_tokenVersion (temporary h now u) = Suc (u_tokenVersion u) \<and> u_refreshTokenHash (temporary h now u) = None"
  "u_tokenVersion (with_status b u) = Suc (u_tokenVersion u) \<and> u_refreshTokenHash (with_status b u) = None"
  "u_tokenVersion (with_password h now u) = Suc (u_tokenVersion u) \<and> u_refreshTokenHash (with_password h now u) = None"
  "privilege_change dto \<Longrightarrow> u_tokenVersion (updateData dto e n u) = Suc (u_tokenVersion u) \<and>
     u_refreshTokenHash (updateData dto e n u) = None"
  by (simp_all add: revoke_def removed_def temporary_def with_status_def with_password_def updateData_def Let_def)

lemma updateUser_ended:
  assumes "privilege_change dto" "find_user d i = Some u" "updateUser d i dto = (d', Inr v)"
  shows "ended d' i (u_tokenVersion u)"
proof -
  obtain email username ps where "updateWrite i dto (email, username, ps) d = Inr d'"
    using assms(3) by (auto simp: updateUser_def split: if_splits option.splits sum.splits)
  then have "find_user d' i = find_user (put_user i (updateData dto email username) d) i"
    using updateWriteD(2) by (simp add: find_user_def account_simps)
  then show ?thesis using assms(1,2) by (simp add: ended_def account_simps ended_rows)
qed

lemma answer_None: "answer res = (d', None) \<longleftrightarrow> (\<exists>v. res = (d', Inr v))"
  by (cases res; cases "snd res") (auto simp: answer_def)

lemma revoking_request_ends:
  assumes "revokes r = Some i" "find_user d i = Some u" "account_service cr d r now = (d', None)"
  shows "ended d' i (u_tokenVersion u)"
proof (cases r)
  case (UpdateUser j dto)
  then show ?thesis using assms updateUser_ended [of dto d i u d']
    by (auto simp: account_service_def answer_None split: if_splits)
qed (use assms in \<open>auto simp: account_service_def answer_None removeUser_def resetPassword_def updateStatus_def
    logout_def changePassword_def Let_def ended_def account_simps ended_rows split: if_splits option.splits\<close>)


section \<open>Login\<close>

lemma find_login_user:
  assumes "accounts_ok d" "find_login d x = Some u"
  shows "find_user d (u_id u) = Some u"
  using find_first_SomeD [OF assms(2) [unfolded find_login_def]] assms(1) find_first_unique [of u "users d" u_id]
  by (simp add: accounts_ok_def rows_ok_def find_user_def)

lemma auditLog_length: "length (activityLogs (auditLog v a x now d)) = Suc (length (activityLogs d))"
  by (simp add: auditLog_def logAction_def Let_def)

lemma loginTokens_session:
  assumes "find_user d (u_id u) = Some u" "u_isActive u" "loginTokens cr u dto now d = (d', s)"
  shows "ss_accessToken s = cr_signAccess cr (payload_of u) now"
    "\<exists>su. validate d' (payload_of u) = Inr su \<and> ju_id su = u_id u \<and> ju_role su = u_role u \<and>
       ju_warehouseAccess su = access_of d (u_id u)"
    "j \<noteq> u_id u \<Longrightarrow> find_user d' j = find_user d j"
  using assms
  by (auto simp: loginTokens_def Let_def validate_def payload_of_def account_simps signed_in_def)

text \<open>
  C16. A login succeeds exactly for a known user that has fewer than five failed attempts in the last
  fifteen minutes, gives the right password, is active and holds no expired temporary password; its
  access token names that user and is accepted with the user's role and process types. Any other
  attempt is answered 401, leaves one log row and changes nothing else.
\<close>
theorem login_correct:
  assumes "accounts_ok d"
  shows "((\<exists>d' s. login cr d dto now = (d', Inr s)) \<longleftrightarrow>
      (\<exists>u. find_login d (trim (lg_identifier dto)) = Some u \<and> recentFailedCount d (u_id u) now < 5 \<and>
         cr_verify cr (u_passwordHash u) (lg_password dto) \<and> u_isActive u \<and> \<not> expired u now))
   \<and> (case login cr d dto now of
        (d', Inl e) \<Rightarrow> http_status e = 401 \<and> same_data d d' \<and>
          length (activityLogs d') = Suc (length (activityLogs d))
      | (d', Inr s) \<Rightarrow> (\<exists>u. find_login d (trim (lg_identifier dto)) = Some u \<and>
          ss_accessToken s = cr_signAccess cr (payload_of u) now \<and>
          (\<exists>su. validate d' (payload_of u) = Inr su \<and> ju_id su = u_id u \<and> ju_role su = u_role u \<and>
             ju_warehouseAccess su = access_of d (u_id u)) \<and>
          (\<forall>j. j \<noteq> u_id u \<longrightarrow> find_user d' j = find_user d j)))"
proof (cases "find_login d (trim (lg_identifier dto))")
  case (Some u)
  obtain d' s where t: "loginTokens cr u dto now d = (d', s)" by (cases "loginTokens cr u dto now d")
  note tok = loginTokens_session [OF find_login_user [OF assms Some] _ t]
  show ?thesis
    using tok by (auto simp: login_def Some Let_def failedAttempt_def auditLog_length account_simps t)
qed (simp add: login_def auditLog_length account_simps)

section \<open>Lockout\<close>

text \<open>The failed attempts on an account in the fifteen minutes up to \<open>t\<close>.\<close>

definition failed_row :: "ident \<Rightarrow> activity_log \<Rightarrow> bool" where
  "failed_row i l \<longleftrightarrow> al_userId l = Some i \<and> al_action l = ''LOGIN_FAILED''"

definition failures_until :: "db \<Rightarrow> ident \<Rightarrow> instant \<Rightarrow> nat" where
  "failures_until d i t =
     count_where (\<lambda>l. failed_row i l \<and> t - LOCKOUT_WINDOW \<le> al_createdAt l \<and> al_createdAt l \<le> t) (activityLogs d)"

text \<open>What a request adds to the log: at most one row, and a failed attempt only below the limit.\<close>

definition logged :: "db \<Rightarrow> db \<Rightarrow> instant \<Rightarrow> bool" where
  "logged d d' now \<longleftrightarrow> activityLogs d' = activityLogs d \<or>
     (\<exists>l. activityLogs d' = activityLogs d @ [l] \<and> al_createdAt l = now \<and>
        (\<forall>i. failed_row i l \<longrightarrow> recentFailedCount d i now < 5))"

lemma logged_same [simp]: "activityLogs d' = activityLogs d \<Longrightarrow> logged d d' now"
  by (simp add: logged_def)

lemma logged_auditLog:
  "activityLogs d1 = activityLogs d \<Longrightarrow>
     (\<And>i. a = ''LOGIN_FAILED'' \<Longrightarrow> v = Some i \<Longrightarrow> recentFailedCount d i now < 5) \<Longrightarrow>
     logged d (auditLog v a x now d1) now"
  by (simp add: logged_def failed_row_def auditLog_def logAction_def Let_def)

lemma logged_audit:
  "activityLogs d1 = activityLogs d \<Longrightarrow> a \<noteq> ''LOGIN_FAILED'' \<Longrightarrow> logged d (audit v a m r ds st now d1) now"
  by (simp add: logged_def failed_row_def audit_def logAction_def Let_def)

lemma login_logged: "logged d (fst (login cr d dto now)) now"
  by (auto simp: login_def loginTokens_def failedAttempt_def Let_def account_simps split: option.splits
      intro!: logged_auditLog)

lemma updateUser_logs: "activityLogs (fst (updateUser d i dto)) = activityLogs d"
  by (auto simp: updateUser_def updateWrite_def replace_access_def Let_def account_simps
      split: option.splits sum.splits field.splits if_splits)

lemma service_logged: "logged d (fst (account_service cr d r now)) now"
proof (cases r)
  case (Login dto)
  then show ?thesis by (simp add: account_service_def answer_def login_logged)
next
  case (UpdateUser i dto)
  then show ?thesis by (simp add: account_service_def answer_def updateUser_logs)
next
  case (CreateUser dto)
  then show ?thesis by (auto simp: account_service_def answer_def createUser_def Let_def split: sum.splits)
next
  case (RefreshTokens token)
  have r: "activityLogs (fst (rotate u h d)) = activityLogs d" for u h by (simp add: rotate_def Let_def)
  show ?thesis
    by (auto simp: RefreshTokens account_service_def answer_def refreshTokens_def refresh_at_def Let_def case_prod_unfold
        account_simps r split: option.splits intro!: logged_auditLog logged_audit)
qed (auto simp: account_service_def answer_def removeUser_def resetPassword_def updateStatus_def logout_def
    updateProfile_def changePassword_def Let_def account_simps split: option.splits intro!: logged_auditLog logged_audit)

lemma failures_step:
  assumes "logged d d' now" "\<And>l. l \<in> set (activityLogs d) \<Longrightarrow> al_createdAt l \<le> now"
    "failures_until d i t \<le> 5"
  shows "failures_until d' i t \<le> 5"
proof (cases "activityLogs d' = activityLogs d")
  case False
  then obtain l where l: "activityLogs d' = activityLogs d @ [l]" "al_createdAt l = now"
      "failed_row i l \<Longrightarrow> recentFailedCount d i now < 5"
    using assms(1) by (auto simp: logged_def)
  show ?thesis
  proof (cases "failed_row i l \<and> t - LOCKOUT_WINDOW \<le> now \<and> now \<le> t")
    case True
    have "failures_until d i t \<le> recentFailedCount d i now"
      unfolding failures_until_def recentFailedCount_def
      by (rule count_where_mono) (use True in \<open>auto simp: failed_row_def\<close>)
    then show ?thesis using True l(3) by (simp add: failures_until_def l(1,2))
  next
    case other: False
    have "failures_until d' i t = failures_until d i t" using other by (simp add: failures_until_def l(1,2))
    then show ?thesis using assms(3) by simp
  qed
qed (use assms(3) in \<open>simp add: failures_until_def\<close>)

lemma logged_times:
  "logged d d' now \<Longrightarrow> (\<And>l. l \<in> set (activityLogs d) \<Longrightarrow> al_createdAt l \<le> now) \<Longrightarrow> now \<le> later \<Longrightarrow>
     l \<in> set (activityLogs d') \<Longrightarrow> al_createdAt l \<le> later"
  by (fastforce simp: logged_def)

lemma failures_run:
  "sorted (map snd rs) \<Longrightarrow> (\<And>l x. l \<in> set (activityLogs d) \<Longrightarrow> x \<in> snd ` set rs \<Longrightarrow> al_createdAt l \<le> x) \<Longrightarrow>
     failures_until d i t \<le> 5 \<Longrightarrow> failures_until (account_run cr d rs) i t \<le> 5"
proof (induction cr d rs rule: account_run.induct)
  case (2 cr d r now rs)
  let ?d' = "fst (account_service cr d r now)"
  have old: "al_createdAt l \<le> now" if "l \<in> set (activityLogs d)" for l using 2(3) that by simp
  have "failures_until ?d' i t \<le> 5" by (rule failures_step [OF service_logged old 2(4)])
  moreover have "al_createdAt l \<le> x" if "l \<in> set (activityLogs ?d')" "x \<in> snd ` set rs" for l x
    by (rule logged_times [OF service_logged old _ that(1)]) (use 2(2) that(2) in auto)
  ultimately show ?case using 2(1) 2(2) by simp
qed simp


section \<open>An office\<close>

definition staff :: "ident \<Rightarrow> string \<Rightarrow> role \<Rightarrow> user_row" where
  "staff i name r = \<lparr>u_id = i, u_email = name @ ''@plant'', u_username = name, u_name = name, u_role = r,
     u_isActive = True, u_isDeleted = False, u_passwordHash = name @ ''12345'', u_refreshTokenHash = None,
     u_lastLoginAt = None, u_mustChangePassword = False, u_passwordChangedAt = None,
     u_temporaryPasswordExpiresAt = None, u_tokenVersion = 4, u_createdAt = 0, u_phone = None,
     u_department = None, u_site = None, u_area = None, u_avatarUrl = None\<rparr>"

definition office :: db where
  "office = empty_db\<lparr>nextId := 3, users := [staff 0 ''ani'' ADMIN, staff 1 ''budi'' ADMIN, staff 2 ''cici'' WAREHOUSE],
     userWarehouseAccess := [\<lparr>wa_userId = 2, wa_processType = GBB\<rparr>]\<rparr>"

text \<open>Tokens that carry the user and the version, and passwords in the clear.\<close>

definition read_token :: "string \<Rightarrow> jwt_payload" where
  "read_token s = \<lparr>pl_sub = length (takeWhile (\<lambda>c. c = CHR ''i'') s), pl_name = [], pl_username = [], pl_email = [],
     pl_role = ADMIN, pl_tv = Some (length (filter (\<lambda>c. c = CHR ''v'') s))\<rparr>"

definition plain :: crypto where
  "plain = \<lparr>cr_hash = \<lambda>n p. p, cr_verify = \<lambda>h p. h = p, cr_base64url16 = \<lambda>n. ''first'', cr_hex8 = \<lambda>n. ''00ff'',
     cr_signAccess = \<lambda>p t. replicate (pl_sub p) (CHR ''i'') @ replicate (case pl_tv p of None \<Rightarrow> 0 | Some v \<Rightarrow> v) (CHR ''v''),
     cr_signRefresh = \<lambda>p t. replicate (pl_sub p) (CHR ''i'') @ replicate (case pl_tv p of None \<Rightarrow> 0 | Some v \<Rightarrow> v) (CHR ''v''),
     cr_verifyAccess = \<lambda>s t. Some (read_token s), cr_verifyRefresh = \<lambda>s t. Some (read_token s)\<rparr>"

lemma office_ok: "accounts_ok office"
  by code_simp

definition demote :: update_user_dto where
  "demote = \<lparr>uu_email = Undefined, uu_username = Undefined, uu_name = Undefined, uu_role = Value SECURITY,
     uu_isActive = Undefined, uu_warehouseAccess = Undefined, uu_phone = Undefined, uu_department = Undefined,
     uu_site = Undefined, uu_area = Undefined, uu_avatarUrl = Undefined\<rparr>"

theorem accounts_well_formed_witness:
  "1 \<le> activeAdminCount (account_run plain office [(UpdateUser 0 demote, 5), (UpdateUser 1 demote, 6), (RemoveUser 1, 7)])"
  using accounts_well_formed [OF office_ok, of plain "[(UpdateUser 0 demote, 5), (UpdateUser 1 demote, 6), (RemoveUser 1, 7)]"]
  by (simp add: accounts_ok_def)

lemma demotion: "account_service plain office (UpdateUser 0 demote) 5 = (fst (account_service plain office (UpdateUser 0 demote) 5), None)"
  by code_simp


theorem login_correct_witness:
  "\<exists>d' s. login plain office \<lparr>lg_identifier = '' Cici '', lg_password = ''cici12345''\<rparr> 9 = (d', Inr s)"
proof -
  let ?l = "\<lparr>lg_identifier = '' Cici '', lg_password = ''cici12345''\<rparr>" and ?u = "staff 2 ''cici'' WAREHOUSE"
  have "find_login office (trim (lg_identifier ?l)) = Some ?u" by code_simp
  moreover have "recentFailedCount office (u_id ?u) 9 < 5" "cr_verify plain (u_passwordHash ?u) (lg_password ?l)"
      "u_isActive ?u" "\<not> expired ?u 9"
    by code_simp+
  ultimately show ?thesis using conjunct1 [OF login_correct [OF office_ok, of plain ?l 9]] by blast
qed

definition guess :: "account_request" where
  "guess = Login \<lparr>lg_identifier = ''cici'', lg_password = ''password''\<rparr>"


section \<open>Where the rules fall short\<close>

text \<open>
  Postgres runs the transaction of the update at READ COMMITTED: two administrators who take the role
  from each other at the same time both count two before either writes, and none remains.
\<close>

lemma last_admin_race:
  "updateGuard demote (staff 0 ''ani'' ADMIN) office \<and> updateGuard demote (staff 1 ''budi'' ADMIN) office \<and>
   (case updateWrite 0 demote (None, None, Value []) office of
      Inl e \<Rightarrow> False
    | Inr d \<Rightarrow> (case updateWrite 1 demote (None, None, Value []) d of Inl e \<Rightarrow> False | Inr d' \<Rightarrow> activeAdminCount d' = 0))"
  by code_simp

text \<open>A successful login leaves the count of failed attempts as it is: they need not be consecutive.\<close>

lemma success_keeps_failures:
  "recentFailedCount (fst (loginTokens cr u dto now d)) i now = recentFailedCount d i now"
  by (simp add: loginTokens_def Let_def recentFailedCount_def auditLog_def logAction_def put_user_def)

text \<open>The account \<open>admin\<close> can not be deactivated by \<open>updateStatus\<close>, but by \<open>update\<close>.\<close>

definition deactivate :: update_user_dto where
  "deactivate = demote\<lparr>uu_role := Undefined, uu_isActive := Value False\<rparr>"

lemma primary_admin_deactivated:
  "let d = office\<lparr>users := staff 3 ''admin'' ADMIN # users office, nextId := 4\<rparr>
   in snd (updateStatus d 3 False) = Inl (BadRequest UR_PrimaryAdmin) \<and>
      (case updateUser d 3 deactivate of (d', Inr v) \<Rightarrow> \<not> vw_isActive v | (d', Inl e) \<Rightarrow> False)"
  by code_simp

end
