(* ===== verification/Gms_Mask.thy ===== *)
theory Gms_Mask
  imports Gms_JsValues Gms_Users
begin

text \<open>
  Masking of personal data in audit views (common/utils/mask-pii.util.ts). The functions act on JSON
  values; \<open>nt\<close> is the text of a number. A Date is a leaf, as every other value that is no object.
\<close>

section \<open>Masks\<close>

definition last_chars :: "nat \<Rightarrow> string \<Rightarrow> string" where
  "last_chars n s = drop (length s - n) s"

definition maskPhone :: "string \<Rightarrow> string" where
  "maskPhone phone =
     (if phone = [] then []
      else let t = trim phone
           in if length t \<le> 4 then ''****''
              else if length t \<le> 7 then take 2 t @ ''****'' @ last_chars 2 t
              else take 4 t @ ''****'' @ last_chars 3 t)"

definition maskIdCard :: "string \<Rightarrow> string" where
  "maskIdCard idNumber =
     (if idNumber = [] then []
      else let t = trim idNumber in if length t \<le> 4 then ''****'' else ''********'' @ last_chars 4 t)"

definition maskPermitCard :: "string \<Rightarrow> string" where
  "maskPermitCard permitNumber =
     (if permitNumber = [] then []
      else let t = trim permitNumber in if length t \<le> 4 then ''****'' else ''********'' @ last_chars 4 t)"

definition maskGenericPii :: "(num \<Rightarrow> string) \<Rightarrow> jsv \<Rightarrow> string \<Rightarrow> jsv" where
  "maskGenericPii nt val fieldName =
     (if val = JNull then val
      else
        let str = js_string nt val; l = lower fieldName
        in if is_infix_of ''phone'' l then JStr (maskPhone str)
           else if is_infix_of ''idnumber'' l \<or> is_infix_of ''guestid'' l \<or> is_infix_of ''ktp'' l \<or> is_infix_of ''nik'' l
             then JStr (maskIdCard str)
           else if is_infix_of ''permit'' l \<or> is_infix_of ''vms'' l then JStr (maskPermitCard str)
           else val)"

definition SENSITIVE_FIELD_NAMES :: "string list" where
  "SENSITIVE_FIELD_NAMES = [''driverphone'', ''phone'', ''guestidnumber'', ''guestid'', ''permitcardnumber'',
     ''permitcard'', ''idnumber'', ''ktp'', ''nik'']"

definition INTERNAL_FIELDS_TO_STRIP :: "string list" where
  "INTERNAL_FIELDS_TO_STRIP = [''ipaddress'', ''useragent'', ''password'', ''passwordhash'', ''refreshtokenhash'',
     ''tokenversion'', ''sessionid'']"

definition sensitive :: "string \<Rightarrow> bool" where
  "sensitive key \<longleftrightarrow> lower key \<in> set SENSITIVE_FIELD_NAMES"

section \<open>Sanitizing\<close>

fun sanitizeJsonDiff :: "(num \<Rightarrow> string) \<Rightarrow> jsv \<Rightarrow> jsv"
  and diffFields :: "(num \<Rightarrow> string) \<Rightarrow> (string \<times> jsv) list \<Rightarrow> (string \<times> jsv) list"
where
  "sanitizeJsonDiff nt (JArr vs) = JArr (map (sanitizeJsonDiff nt) vs)"
| "sanitizeJsonDiff nt (JObj fs) = JObj (diffFields nt fs)"
| "sanitizeJsonDiff nt v = v"
| "diffFields nt [] = []"
| "diffFields nt ((k, v) # fs) =
     (k, if sensitive k then maskGenericPii nt v k else sanitizeJsonDiff nt v) # diffFields nt fs"

text \<open>The name of the field an item is about, when it is sensitive.\<close>

definition sensitive_item :: "(string \<times> jsv) list \<Rightarrow> string option" where
  "sensitive_item fs =
     (case map_of fs ''fieldName'' of
        Some (JStr s) \<Rightarrow> if s \<noteq> [] \<and> sensitive s then Some s else None
      | _ \<Rightarrow> None)"

fun is_object :: "jsv \<Rightarrow> bool" where
  "is_object (JArr _) = True"
| "is_object (JObj _) = True"
| "is_object _ = False"

definition is_diff_key :: "string \<Rightarrow> bool" where
  "is_diff_key k \<longleftrightarrow> k = ''oldValues'' \<or> k = ''newValues'' \<or> k = ''oldValue'' \<or> k = ''newValue''"

fun sanitizeAuditData :: "(num \<Rightarrow> string) \<Rightarrow> bool \<Rightarrow> jsv \<Rightarrow> jsv"
  and auditFields :: "(num \<Rightarrow> string) \<Rightarrow> bool \<Rightarrow> string option \<Rightarrow> (string \<times> jsv) list \<Rightarrow> (string \<times> jsv) list"
where
  "sanitizeAuditData nt isAdmin (JArr vs) = JArr (map (sanitizeAuditData nt isAdmin) vs)"
| "sanitizeAuditData nt isAdmin (JObj fs) = JObj (auditFields nt isAdmin (sensitive_item fs) fs)"
| "sanitizeAuditData nt isAdmin v = v"
| "auditFields nt isAdmin item [] = []"
| "auditFields nt isAdmin item ((k, v) # fs) =
     (let rest = auditFields nt isAdmin item fs; l = lower k
      in if \<not> isAdmin \<and> (l \<in> set INTERNAL_FIELDS_TO_STRIP \<or> l = ''email'') then rest
         else (k,
           if \<not> isAdmin \<and> sensitive k then maskGenericPii nt v k
           else if \<not> isAdmin \<and> item \<noteq> None \<and> (l = ''oldvalue'' \<or> l = ''newvalue'') then maskGenericPii nt v (the item)
           else if is_diff_key k \<and> is_object v \<and> \<not> isAdmin then sanitizeJsonDiff nt v
           else sanitizeAuditData nt isAdmin v) # rest)"

section \<open>Nothing personal is shown to operators\<close>

definition masked :: "jsv \<Rightarrow> bool" where
  "masked v \<longleftrightarrow> v = JNull \<or> (\<exists>s. v = JStr s \<and> (s = [] \<or> is_infix_of ''****'' s))"

text \<open>Every key of every object inside a value.\<close>

inductive entry :: "jsv \<Rightarrow> string \<Rightarrow> jsv \<Rightarrow> bool" where
  entry_here: "(k, v) \<in> set fs \<Longrightarrow> entry (JObj fs) k v"
| entry_elem: "v \<in> set vs \<Longrightarrow> entry v k w \<Longrightarrow> entry (JArr vs) k w"
| entry_field: "(k', v) \<in> set fs \<Longrightarrow> entry v k w \<Longrightarrow> entry (JObj fs) k w"

inductive_simps entry_simps [simp]:
  "entry (JObj fs) k v" "entry (JArr vs) k v" "entry JNull k v" "entry (JBool b) k v" "entry (JNum x) k v" "entry (JStr s) k v"

lemma infix_middle: "is_infix_of p (a @ p @ b)"
  unfolding is_infix_of_iff by blast

lemma infix_prefix: "is_infix_of p (p @ b)"
  using infix_middle [of p "[]" b] by simp

lemma masks_infix:
  "s = [] \<or> is_infix_of ''****'' (maskPhone s)" "s = [] \<or> is_infix_of ''****'' (maskIdCard s)"
  "s = [] \<or> is_infix_of ''****'' (maskPermitCard s)"
proof -
  have eight: "is_infix_of ''****'' (''********'' @ b)" for b :: string
    using infix_prefix [of "''****''" "''****'' @ b"] by simp
  have four: "is_infix_of ''****'' (''****'' :: string)" by simp
  show "s = [] \<or> is_infix_of ''****'' (maskPhone s)"
    unfolding maskPhone_def Let_def using infix_middle [of "''****''"] four by (simp del: is_infix_of.simps append.simps)
  show "s = [] \<or> is_infix_of ''****'' (maskIdCard s)" "s = [] \<or> is_infix_of ''****'' (maskPermitCard s)"
    unfolding maskIdCard_def maskPermitCard_def Let_def using eight four by (simp_all del: is_infix_of.simps append.simps)
qed

lemma masks_masked: "masked (JStr (maskPhone s))" "masked (JStr (maskIdCard s))" "masked (JStr (maskPermitCard s))"
  using masks_infix [of s] by (auto simp: masked_def maskPhone_def maskIdCard_def maskPermitCard_def)

lemma maskGenericPii_sensitive:
  assumes "sensitive k"
  shows "masked (maskGenericPii nt v k)"
proof -
  have "is_infix_of ''phone'' (lower k) \<or> is_infix_of ''idnumber'' (lower k) \<or> is_infix_of ''guestid'' (lower k) \<or>
      is_infix_of ''ktp'' (lower k) \<or> is_infix_of ''nik'' (lower k) \<or> is_infix_of ''permit'' (lower k)"
    using assms unfolding sensitive_def SENSITIVE_FIELD_NAMES_def by auto
  then show ?thesis using masks_masked by (auto simp: maskGenericPii_def Let_def masked_def)
qed

lemma masked_no_entry: "masked v \<Longrightarrow> \<not> entry v k w"
  by (auto simp: masked_def)

definition all_masked :: "jsv \<Rightarrow> bool" where
  "all_masked v \<longleftrightarrow> (\<forall>k w. entry v k w \<longrightarrow> sensitive k \<longrightarrow> masked w)"

definition field_masked :: "string \<times> jsv \<Rightarrow> bool" where
  "field_masked kv \<longleftrightarrow> (sensitive (fst kv) \<longrightarrow> masked (snd kv)) \<and> all_masked (snd kv)"

lemma all_masked_simps [simp]:
  "all_masked JNull" "all_masked (JBool b)" "all_masked (JNum x)" "all_masked (JStr s)"
  "all_masked (JArr vs) \<longleftrightarrow> (\<forall>v \<in> set vs. all_masked v)"
  "all_masked (JObj fs) \<longleftrightarrow> (\<forall>kv \<in> set fs. field_masked kv)"
  by (auto simp: all_masked_def field_masked_def) blast

lemma masked_all_masked: "masked v \<Longrightarrow> all_masked v"
  using masked_no_entry by (auto simp: all_masked_def)

lemma pii_masked: "sensitive k \<Longrightarrow> all_masked (maskGenericPii nt v k) \<and> masked (maskGenericPii nt v k)"
  using maskGenericPii_sensitive masked_all_masked by blast

lemma diff_masked:
  "all_masked (sanitizeJsonDiff nt v)" "\<forall>kv \<in> set (diffFields nt fs). field_masked kv"
  by (induction nt v and nt fs rule: sanitizeJsonDiff_diffFields.induct) (auto simp: field_masked_def pii_masked)

lemma sensitive_itemD: "sensitive_item fs = Some k \<Longrightarrow> sensitive k"
  by (auto simp: sensitive_item_def split: option.splits jsv.splits if_splits)

lemma audit_masked:
  "\<not> isAdmin \<Longrightarrow> all_masked (sanitizeAuditData nt isAdmin v)"
  "\<not> isAdmin \<Longrightarrow> (\<And>k. item = Some k \<Longrightarrow> sensitive k) \<Longrightarrow> \<forall>kv \<in> set (auditFields nt isAdmin item fs). field_masked kv"
  by (induction nt isAdmin v and nt isAdmin item fs rule: sanitizeAuditData_auditFields.induct)
    (auto simp: field_masked_def pii_masked diff_masked Let_def dest: sensitive_itemD)

text \<open>The objects shown outside the values of the diff keys.\<close>

inductive shown :: "jsv \<Rightarrow> (string \<times> jsv) list \<Rightarrow> bool" where
  shown_here: "shown (JObj fs) fs"
| shown_elem: "v \<in> set vs \<Longrightarrow> shown v gs \<Longrightarrow> shown (JArr vs) gs"
| shown_field: "(k, v) \<in> set fs \<Longrightarrow> \<not> is_diff_key k \<Longrightarrow> shown v gs \<Longrightarrow> shown (JObj fs) gs"

inductive_simps shown_simps [simp]:
  "shown (JObj fs) gs" "shown (JArr vs) gs" "shown JNull gs" "shown (JBool b) gs" "shown (JNum x) gs" "shown (JStr s) gs"

definition internal_key :: "string \<Rightarrow> bool" where
  "internal_key k \<longleftrightarrow> lower k \<in> set INTERNAL_FIELDS_TO_STRIP \<or> lower k = ''email''"

text \<open>An object without internal keys, whose old and new values are masked when it names a sensitive field.\<close>

definition discreet :: "(string \<times> jsv) list \<Rightarrow> bool" where
  "discreet fs \<longleftrightarrow> (\<forall>kv \<in> set fs. \<not> internal_key (fst kv) \<and>
     (sensitive_item fs \<noteq> None \<and> (lower (fst kv) = ''oldvalue'' \<or> lower (fst kv) = ''newvalue'') \<longrightarrow> masked (snd kv)))"

definition all_discreet :: "jsv \<Rightarrow> bool" where
  "all_discreet v \<longleftrightarrow> (\<forall>fs. shown v fs \<longrightarrow> discreet fs)"

lemma all_discreet_leaf [simp]:
  "all_discreet JNull" "all_discreet (JBool b)" "all_discreet (JNum x)" "all_discreet (JStr s)"
  by (simp_all add: all_discreet_def)

lemma all_discreet_JArr [simp]: "all_discreet (JArr vs) \<longleftrightarrow> (\<forall>v \<in> set vs. all_discreet v)"
  unfolding all_discreet_def shown_simps by blast

lemma all_discreet_JObj [simp]:
  "all_discreet (JObj fs) \<longleftrightarrow> discreet fs \<and> (\<forall>kv \<in> set fs. is_diff_key (fst kv) \<or> all_discreet (snd kv))"
proof -
  have "all_discreet (JObj fs) \<longleftrightarrow>
      discreet fs \<and> (\<forall>k v gs. (k, v) \<in> set fs \<longrightarrow> \<not> is_diff_key k \<longrightarrow> shown v gs \<longrightarrow> discreet gs)"
    unfolding all_discreet_def shown_simps by blast
  then show ?thesis by (auto simp: all_discreet_def)
qed

lemma masked_discreet: "masked v \<Longrightarrow> all_discreet v"
  by (auto simp: masked_def)

lemma internal_not_fieldName: "\<not> internal_key ''fieldName'' \<and> \<not> sensitive ''fieldName'' \<and> \<not> is_diff_key ''fieldName''
    \<and> lower ''fieldName'' \<noteq> ''oldvalue'' \<and> lower ''fieldName'' \<noteq> ''newvalue''"
  by code_simp

text \<open>Sanitizing keeps the field name of an object.\<close>

lemma auditFields_fieldName:
  "map_of (auditFields nt False item fs) ''fieldName'' = map_option (sanitizeAuditData nt False) (map_of fs ''fieldName'')"
  using internal_not_fieldName by (induction fs) (auto simp: Let_def internal_key_def)

lemma sanitize_JStr: "sanitizeAuditData nt False v = JStr s \<longleftrightarrow> v = JStr s"
  by (cases v) auto

lemma sensitive_item_kept: "sensitive_item (auditFields nt False item fs) = sensitive_item fs"
  by (cases "map_of fs ''fieldName''"; cases "the (map_of fs ''fieldName'')")
    (auto simp: sensitive_item_def auditFields_fieldName)

lemma auditFields_shape:
  assumes "\<And>k. item = Some k \<Longrightarrow> sensitive k" "kv \<in> set (auditFields nt False item fs)"
  shows "\<not> internal_key (fst kv) \<and>
    (item \<noteq> None \<and> (lower (fst kv) = ''oldvalue'' \<or> lower (fst kv) = ''newvalue'') \<longrightarrow> masked (snd kv))"
  using assms
  by (induction fs) (auto simp: Let_def internal_key_def pii_masked sensitive_def split: if_splits)

lemma audit_discreet:
  "\<not> isAdmin \<Longrightarrow> all_discreet (sanitizeAuditData nt isAdmin v)"
  "\<not> isAdmin \<Longrightarrow> (\<And>k. item = Some k \<Longrightarrow> sensitive k) \<Longrightarrow>
     \<forall>kv \<in> set (auditFields nt isAdmin item fs). is_diff_key (fst kv) \<or> all_discreet (snd kv)"
proof (induction nt isAdmin v and nt isAdmin item fs rule: sanitizeAuditData_auditFields.induct)
  case (2 nt isAdmin fs)
  have s: "sensitive k" if "sensitive_item fs = Some k" for k using that by (rule sensitive_itemD)
  have "discreet (auditFields nt isAdmin (sensitive_item fs) fs)"
    using 2(2) auditFields_shape [OF s] by (auto simp: discreet_def sensitive_item_kept)
  then show ?case using 2 s by simp
qed (auto simp: Let_def pii_masked masked_discreet)

end
