(* ===== verification/Gms_History.thy ===== *)
theory Gms_History
  imports Gms_Mask Gms_Transactions Gms_CorrectionData
begin

text \<open>
  The audit history of a transaction (transactions/operation-log-correction.service.ts,
  \<open>getOperationLogCorrections\<close> and \<open>getUnifiedAuditHistory\<close>): status changes, corrections and voids
  in one timeline, in the scope of the user and sanitized for everybody but administrators. The text
  of a number and \<open>JSON.parse\<close> of a plain text are arguments.
\<close>

datatype history_reason = HR_NotFound | HR_Unavailable

section \<open>Attribution\<close>

text \<open>The bytes of an em dash in UTF-8, between role and name.\<close>

definition em_dash :: string where
  "em_dash = [CHR 0x20, CHR 0xE2, CHR 0x80, CHR 0x94, CHR 0x20]"

definition role_and_name :: "user_row \<Rightarrow> string" where
  "role_and_name u = role_name (u_role u) @ em_dash @ u_name u"

definition person :: "db \<Rightarrow> ident option \<Rightarrow> string option" where
  "person d oid = (case oid of None \<Rightarrow> None | Some i \<Rightarrow> map_option role_and_name (find_user d i))"

text \<open>Who entered the transaction: the first that is known.\<close>

definition origCreator :: "db \<Rightarrow> transaction \<Rightarrow> string" where
  "origCreator d tx =
     (let checker = (case find_first (current_row (tx_id tx)) (qcVehicleChecks d) of
          None \<Rightarrow> None | Some r \<Rightarrow> person d (qv_checkedById r))
      in val_or (opt_or (person d (createdById tx)) (opt_or (person d (weighInById tx))
           (opt_or (person d (warehouseStartById tx)) checker))) ''Operator Awal / QC Lapangan'')"

definition corrections_of :: "db \<Rightarrow> ident \<Rightarrow> correction list" where
  "corrections_of d i = filter (\<lambda>c. tc_transactionId c = i) (corrections d)"

definition items_of :: "db \<Rightarrow> correction \<Rightarrow> correction_item_row list" where
  "items_of d c = filter (\<lambda>x. xi_correctionId x = tc_id c) (correctionItems d)"

section \<open>Corrections\<close>

record corrections_view =
  cv_originalCreatedBy :: string
  cv_lastCorrectedBy :: "string option"
  cv_data :: "(correction \<times> (ident \<times> string \<times> string \<times> role) option \<times> correction_item_row list) list"

definition getOperationLogCorrections :: "db \<Rightarrow> ident \<Rightarrow> history_reason error + corrections_view" where
  "getOperationLogCorrections d i =
     (case find_tx d i of
        None \<Rightarrow> Inl (NotFound HR_NotFound)
      | Some tx \<Rightarrow>
          let cs = newest_first tc_createdAt (corrections_of d i)
          in Inr \<lparr>cv_originalCreatedBy = origCreator d tx,
               cv_lastCorrectedBy = (case cs of [] \<Rightarrow> None
                 | c # _ \<Rightarrow> map_option (\<lambda>u. ''ADMIN'' @ em_dash @ u_name u) (find_user d (tc_correctedById c))),
               cv_data = map (\<lambda>c. (c, map_option (\<lambda>u. (u_id u, u_name u, u_email u, u_role u))
                 (find_user d (tc_correctedById c)), items_of d c)) cs\<rparr>)"

section \<open>Timeline\<close>

fun truthy_jsv :: "jsv \<Rightarrow> bool" where
  "truthy_jsv JNull = False"
| "truthy_jsv (JBool b) = b"
| "truthy_jsv (JNum x) = (x \<noteq> 0)"
| "truthy_jsv (JStr s) = (s \<noteq> [])"
| "truthy_jsv _ = True"

definition jsv_or :: "jsv \<Rightarrow> jsv \<Rightarrow> jsv" where
  "jsv_or a b = (if truthy_jsv a then a else b)"

text \<open>\<open>v?.key\<close>, with null for undefined.\<close>

definition prop_of :: "jsv \<Rightarrow> string \<Rightarrow> jsv" where
  "prop_of v key = (case v of JObj fs \<Rightarrow> val_or (map_of fs key) JNull | _ \<Rightarrow> JNull)"

type_synonym event = "instant \<times> jsv"

definition status_event :: "db \<Rightarrow> status_history \<Rightarrow> event" where
  "status_event d h =
     (sh_changedAt h,
      JObj [(''eventType'', JStr ''STATUS_TRANSITION''), (''timestamp'', col_date (Some (sh_changedAt h))),
        (''actor'', JStr (val_or (person d (sh_changedById h)) ''Sistem Gate Otomatis'')),
        (''actorRole'', JStr (case sh_changedById h of None \<Rightarrow> ''SYSTEM''
           | Some i \<Rightarrow> (case find_user d i of None \<Rightarrow> ''SYSTEM'' | Some u \<Rightarrow> role_name (u_role u)))),
        (''oldStatus'', col_enum status_name (sh_oldStatus h)), (''newStatus'', JStr (status_name (sh_newStatus h))),
        (''remarks'', col_str (sh_notes h))])"

definition corr_actor :: "db \<Rightarrow> correction \<Rightarrow> string" where
  "corr_actor d c = val_or (person d (Some (tc_correctedById c))) ''ADMIN''"

definition corr_role :: "db \<Rightarrow> correction \<Rightarrow> string" where
  "corr_role d c = (case find_user d (tc_correctedById c) of None \<Rightarrow> ''ADMIN'' | Some u \<Rightarrow> role_name (u_role u))"

definition corr_remark :: "correction \<Rightarrow> string" where
  "corr_remark c = (if tc_remark c \<noteq> [] then tc_remark c else tc_reason c)"

definition summary_event :: "db \<Rightarrow> string \<Rightarrow> correction \<Rightarrow> event" where
  "summary_event d eventType c =
     (tc_createdAt c,
      JObj [(''eventType'', JStr eventType), (''timestamp'', col_date (Some (tc_createdAt c))),
        (''actor'', JStr (corr_actor d c)), (''actorRole'', JStr (corr_role d c)),
        (''reasonCode'', JStr (tc_reasonCode c)), (''remark'', JStr (corr_remark c)),
        (''correctionNumber'', JStr (tc_correctionNumber c)),
        (''oldValues'', JObj (tc_oldValues c)), (''newValues'', JObj (tc_newValues c))])"

definition item_event :: "db \<Rightarrow> correction \<Rightarrow> correction_item_row \<Rightarrow> event" where
  "item_event d c x =
     (tc_createdAt c,
      JObj [(''eventType'', JStr ''DATA_CORRECTION''), (''timestamp'', col_date (Some (tc_createdAt c))),
        (''actor'', JStr (corr_actor d c)), (''actorRole'', JStr (corr_role d c)),
        (''module'', JStr (oc_module_name (xi_targetModule x))), (''fieldName'', JStr (xi_fieldName x)),
        (''oldValue'', col_json (xi_oldValue x)), (''newValue'', col_json (xi_newValue x)),
        (''reasonCode'', JStr (tc_reasonCode c)),
        (''remark'', JStr (val_or (truthy_col (xi_itemRemark x)) (corr_remark c))),
        (''correctionNumber'', JStr (tc_correctionNumber c))])"

definition correction_events :: "db \<Rightarrow> correction \<Rightarrow> event list" where
  "correction_events d c =
     (if tc_action c = REOPEN_WORKFLOW then [summary_event d ''WORKFLOW_REOPEN'' c]
      else if tc_action c = CORRECT_RECORDED_STATUS then [summary_event d ''STATUS_CORRECTION'' c]
      else []) @ map (item_event d c) (items_of d c)"

text \<open>The log row of a void; its description is the text of the object the void stored.\<close>

definition parsed_description :: "(string \<Rightarrow> jsv option) \<Rightarrow> jsv option \<Rightarrow> jsv" where
  "parsed_description parse desc =
     (case desc of
        None \<Rightarrow> JNull
      | Some (JStr s) \<Rightarrow> if s = [] then JNull else val_or (parse s) JNull
      | Some j \<Rightarrow> j)"

definition description_text :: "(num \<Rightarrow> string) \<Rightarrow> jsv option \<Rightarrow> jsv" where
  "description_text nt desc =
     (case desc of None \<Rightarrow> JNull | Some (JStr s) \<Rightarrow> JStr s | Some j \<Rightarrow> JStr (json_text nt j))"

definition is_void_log :: "ident \<Rightarrow> activity_log \<Rightarrow> bool" where
  "is_void_log i a \<longleftrightarrow> al_referenceId a = Some i \<and>
     (al_action a = ''TRANSACTION_VOIDED'' \<or> al_action a = ''TRANSACTION_DELETE'')"

definition void_event ::
  "(num \<Rightarrow> string) \<Rightarrow> (string \<Rightarrow> jsv option) \<Rightarrow> transaction \<Rightarrow> activity_log \<Rightarrow> event"
where
  "void_event nt parse tx a =
     (let desc = parsed_description parse (al_description a);
          rl = (case al_role a of None \<Rightarrow> ''ADMIN'' | Some r \<Rightarrow> role_name r)
      in (al_createdAt a,
          JObj [(''eventType'', JStr ''ADMIN_VOID''), (''timestamp'', col_date (Some (al_createdAt a))),
            (''actor'', JStr (rl @ em_dash @ val_or (case al_userName a of None \<Rightarrow> None | Some n \<Rightarrow> truthy_col (Some n)) ''Admin'')),
            (''actorRole'', JStr rl), (''action'', JStr (al_action a)),
            (''reasonCode'', jsv_or (prop_of desc ''reasonCode'')
               (jsv_or (col_str (voidReasonCode tx)) (JStr ''ADMIN_VOID''))),
            (''remark'', jsv_or (prop_of desc ''reason'')
               (jsv_or (col_str (voidReason tx)) (description_text nt (al_description a)))),
            (''oldStatus'', jsv_or (prop_of desc ''originalStatus'') (JStr ''ACTIVE'')),
            (''newStatus'', JStr ''CANCELLED'')]))"

definition oldest_first :: "('a \<Rightarrow> instant) \<Rightarrow> 'a list \<Rightarrow> 'a list" where
  "oldest_first tm rows = sort_key tm rows"

definition auditTimeline ::
  "(num \<Rightarrow> string) \<Rightarrow> (string \<Rightarrow> jsv option) \<Rightarrow> db \<Rightarrow> transaction \<Rightarrow> event list"
where
  "auditTimeline nt parse d tx =
     (let i = tx_id tx
      in oldest_first fst
          (map (status_event d) (oldest_first sh_changedAt (filter (\<lambda>h. sh_transactionId h = i) (statusHistories d))) @
           concat (map (correction_events d) (oldest_first tc_createdAt (corrections_of d i))) @
           map (void_event nt parse tx) (oldest_first al_createdAt (filter (is_void_log i) (activityLogs d)))))"

definition attribution :: "db \<Rightarrow> transaction \<Rightarrow> jsv" where
  "attribution d tx =
     (let cs = oldest_first tc_createdAt (corrections_of d (tx_id tx))
      in JObj [(''originalCreatedBy'', JStr (origCreator d tx)),
           (''lastCorrectedBy'', if cs = [] then JNull else col_str (person d (Some (tc_correctedById (last cs))))),
           (''isVoided'', JBool (isVoided tx)), (''currentStatus'', JStr (status_name (status tx))),
           (''currentRevision'', JNum (of_nat (revision tx))),
           (''voidMetadata'',
             if isVoided tx then
               JObj [(''voidedAt'', col_date (voidedAt tx)), (''voidedBy'', JStr (val_or (person d (voidedById tx)) ''ADMIN'')),
                 (''voidReasonCode'', col_str (voidReasonCode tx)), (''voidReason'', col_str (voidReason tx))]
             else JNull)])"

text \<open>The scope check runs inside the try block, so its 403 is answered as 500.\<close>

definition getUnifiedAuditHistory ::
  "(num \<Rightarrow> string) \<Rightarrow> (string \<Rightarrow> jsv option) \<Rightarrow> db \<Rightarrow> ident \<Rightarrow> jwt_user \<Rightarrow> history_reason error + jsv"
where
  "getUnifiedAuditHistory nt parse d i user =
     (case getTransactionScope user :: history_reason error + tx_scope of
        Inl e \<Rightarrow> Inl (InternalError HR_Unavailable)
      | Inr sc \<Rightarrow>
          (case find_first (\<lambda>t. tx_id t = i \<and> in_scope sc (processType t)) (transactions d) of
             None \<Rightarrow> Inl (NotFound HR_NotFound)
           | Some tx \<Rightarrow>
               Inr (sanitizeAuditData nt (ju_role user = ADMIN)
                 (JObj [(''success'', JBool True), (''attribution'', attribution d tx),
                        (''timeline'', JArr (map snd (auditTimeline nt parse d tx)))]))))"

section \<open>What the history shows\<close>

text \<open>The timeline is in order and holds every recorded event of the transaction and no other.\<close>

lemma set_oldest_first [simp]: "set (oldest_first tm xs) = set xs" "length (oldest_first tm xs) = length xs"
  by (simp_all add: oldest_first_def)

definition events_of :: "(num \<Rightarrow> string) \<Rightarrow> (string \<Rightarrow> jsv option) \<Rightarrow> db \<Rightarrow> transaction \<Rightarrow> event set" where
  "events_of nt parse d tx =
     {status_event d h |h. h \<in> set (statusHistories d) \<and> sh_transactionId h = tx_id tx} \<union>
     {summary_event d ''WORKFLOW_REOPEN'' c |c. c \<in> set (corrections d) \<and> tc_transactionId c = tx_id tx \<and> tc_action c = REOPEN_WORKFLOW} \<union>
     {summary_event d ''STATUS_CORRECTION'' c |c. c \<in> set (corrections d) \<and> tc_transactionId c = tx_id tx \<and> tc_action c = CORRECT_RECORDED_STATUS} \<union>
     {item_event d c x |c x. c \<in> set (corrections d) \<and> tc_transactionId c = tx_id tx \<and>
        x \<in> set (correctionItems d) \<and> xi_correctionId x = tc_id c} \<union>
     {void_event nt parse tx a |a. a \<in> set (activityLogs d) \<and> is_void_log (tx_id tx) a}"

lemma correction_events_set:
  "set (correction_events d c) =
     {e. e = summary_event d ''WORKFLOW_REOPEN'' c \<and> tc_action c = REOPEN_WORKFLOW} \<union>
     {e. e = summary_event d ''STATUS_CORRECTION'' c \<and> tc_action c = CORRECT_RECORDED_STATUS} \<union>
     {item_event d c x |x. x \<in> set (correctionItems d) \<and> xi_correctionId x = tc_id c}"
  by (auto simp: correction_events_def items_of_def)

lemma timeline_sorted: "sorted (map fst (auditTimeline nt parse d tx))"
  unfolding auditTimeline_def Let_def oldest_first_def by (rule sorted_sort_key)

lemma timeline_complete: "set (auditTimeline nt parse d tx) = events_of nt parse d tx"
  unfolding auditTimeline_def Let_def set_oldest_first events_of_def
  by (auto simp: correction_events_set corrections_of_def)

text \<open>Sanitizing keeps the outer shape of the answer: no event is dropped.\<close>

lemma sanitize_answer:
  "sanitizeAuditData nt adm (JObj [(''success'', JBool True), (''attribution'', a), (''timeline'', JArr es)]) =
     JObj [(''success'', JBool True), (''attribution'', sanitizeAuditData nt adm a),
           (''timeline'', JArr (map (sanitizeAuditData nt adm) es))]"
proof -
  have "\<forall>k \<in> {''success'', ''attribution'', ''timeline''}. \<not> internal_key k \<and> \<not> sensitive k \<and> \<not> is_diff_key k \<and>
      lower k \<noteq> ''oldvalue'' \<and> lower k \<noteq> ''newvalue''"
    by code_simp
  then show ?thesis by (auto simp: Let_def internal_key_def)
qed

lemma empty_scope_refused:
  "getTransactionScope u = (Inl e :: 'r error + tx_scope) \<Longrightarrow> e = ScopeEmpty (ju_role u)"
  by (auto simp: getTransactionScope_def assertScopeNotEmpty_def split: if_splits)

lemma scope_admits:
  "getTransactionScope u = (Inr sc :: 'r error + tx_scope) \<Longrightarrow>
     in_scope sc p \<longleftrightarrow> assertProcessAccess u p = (None :: 'r error option)"
  by (cases "ju_role u")
    (auto simp: getTransactionScope_def assertScopeNotEmpty_def assertProcessAccess_def split: if_splits)


end
