(* ===== verification/Gms_Backup.thy ===== *)
theory Gms_Backup
  imports Gms_Attachments Gms_Dashboard
begin

text \<open>
  Backups (settings/database-backup.service.ts): manifests and their history, the health of the
  system, the retention policy, and the creation of a backup with its checks. A backup acts on the
  database, the file system and the flag of a running backup. pg_dump and pg_restore, SHA-256 and
  HMAC, base64 and the texts JSON gives to the files are parameters. What a manifest says of
  recorded counts of settings, announcements and issues is left out with those tables, and the
  constants it carries (versions, database name) are left out too.
\<close>

section \<open>Manifests\<close>

datatype backup_type = AUTOMATIC_6HR | MANUAL_PRE_UPDATE | MANUAL_EXPLICIT | AUTO_PRE_RESTORE
datatype backup_status = BS_VERIFIED | BS_PENDING | BS_FAILED
datatype dump_format = PG_CUSTOM | JSON_SNAPSHOT

record backup_checksums =
  ck_dump :: string
  ck_globals :: string
  ck_snapshot :: "string option"
  ck_archive :: "string option"

record backup_artifacts =
  ar_dump :: string
  ar_globals :: string
  ar_manifest :: string
  ar_snapshot :: "string option"
  ar_archive :: "string option"

record reconciliation =
  rc_dbAttachments :: nat
  rc_physical :: nat
  rc_missing :: nat
  rc_orphans :: nat

text \<open>\<open>mf_createdBy\<close> is absent for the scheduler.\<close>

record manifest =
  mf_backupId :: string
  mf_backupType :: backup_type
  mf_dumpFormat :: dump_format
  mf_createdAt :: instant
  mf_createdBy :: "(ident \<times> string \<times> string) option"
  mf_recordCounts :: "(string \<times> nat) list"
  mf_artifacts :: backup_artifacts
  mf_attachmentsCount :: nat
  mf_reconciliation :: reconciliation
  mf_localVerified :: bool
  mf_offsite :: backup_status
  mf_checksums :: backup_checksums
  mf_signature :: string

record archive_entry =
  ae_relativePath :: string
  ae_fileName :: string
  ae_size :: nat
  ae_checksum :: string
  ae_base64 :: string

record payload_metadata =
  pm_backupId :: "string option"
  pm_system :: string
  pm_createdAt :: instant
  pm_createdBy :: "(ident \<times> string \<times> string) option"
  pm_totalRecords :: nat
  pm_checksum :: string

type_synonym payload = "payload_metadata \<times> db"

text \<open>
  The portable bundle without its signature; \<open>attachmentsContent\<close> may be null or hold no list of
  files.
\<close>

record dr_bundle =
  bu_system :: string
  bu_createdAt :: instant
  bu_backupId :: string
  bu_dumpChecksum :: string
  bu_manifest :: manifest
  bu_dumpBase64 :: string
  bu_attachments :: "archive_entry list option option"

section \<open>The environment\<close>

record backup_env =
  be_local :: path
  be_offsite :: path
  be_uploads :: path
  be_tmp :: path
  be_production :: bool
  be_backupUrl :: "string option"
  be_databaseUrl :: "string option"
  be_secret :: "string option"
  be_zone :: int
  be_sha256 :: "string \<Rightarrow> string"
  be_hmac :: "string \<Rightarrow> string \<Rightarrow> string"
  be_base64 :: "string \<Rightarrow> string"
  be_unbase64 :: "string \<Rightarrow> string"
  be_dataText :: "db \<Rightarrow> string"
  be_payloadText :: "payload \<Rightarrow> string"
  be_parsePayload :: "string \<Rightarrow> payload option"
  be_manifestText :: "manifest \<Rightarrow> string"
  be_parseManifest :: "string \<Rightarrow> manifest option"
  be_archiveText :: "archive_entry list \<Rightarrow> string"
  be_parseArchive :: "string \<Rightarrow> archive_entry list option option"
  be_bundleText :: "dr_bundle \<Rightarrow> string"
  be_signedText :: "dr_bundle \<times> string \<Rightarrow> string"
  be_parseDrill :: "string \<Rightarrow> (string option \<times> bool) option"
  be_pgDump :: "string \<Rightarrow> db \<Rightarrow> string option"
  be_pgRestore :: "string \<Rightarrow> string \<Rightarrow> db \<Rightarrow> db option"
  be_verify :: "string \<Rightarrow> string \<Rightarrow> bool"

record site =
  si_db :: db
  si_fs :: fs
  si_running :: bool

datatype bk_reason =
    BK_Running
  | BK_WriteFailed
  | BK_UrlRequired
  | BK_NoUrl
  | BK_NoCredentials
  | BK_BadPassword
  | BK_BadFormat
  | BK_ChecksumMismatch
  | BK_NoManifest
  | BK_DumpMissing
  | BK_ArchiveMissing
  | BK_ArchiveUnreadable
  | BK_BadPath
  | BK_FileChecksum
  | BK_SnapshotFailed
  | BK_RestoreFailed
  | BK_Unsigned
  | BK_NoSecret
  | BK_SignatureMismatch
  | BK_BadBackupId
  | BK_DumpChecksum
  | BK_Disk
  | BK_ProductionOnly

type_synonym 'a bk_outcome = "site \<times> (bk_reason error + 'a)"

definition uploadBackupDir :: "backup_env \<Rightarrow> path" where
  "uploadBackupDir env = join (be_uploads env) ''backups''"

text \<open>A file operation in a try block that ignores its failure.\<close>

definition try_fs :: "(fs \<Rightarrow> fs option) \<Rightarrow> fs \<Rightarrow> fs" where
  "try_fs g f = val_or (g f) f"

definition ensureBackupDirectories :: "backup_env \<Rightarrow> fs \<Rightarrow> fs" where
  "ensureBackupDirectories env f = try_fs (ensure_dir (be_offsite env)) (try_fs (ensure_dir (be_local env)) f)"

definition checksumForFile :: "backup_env \<Rightarrow> path \<Rightarrow> fs \<Rightarrow> string" where
  "checksumForFile env p f = (case fs_files f p of None \<Rightarrow> [] | Some s \<Rightarrow> be_sha256 env s)"

section \<open>History and health\<close>

definition ends_with :: "string \<Rightarrow> string \<Rightarrow> bool" where
  "ends_with suffix s \<longleftrightarrow> is_prefix_of (rev suffix) (rev s)"

definition manifests_in :: "backup_env \<Rightarrow> fs \<Rightarrow> path \<Rightarrow> manifest list" where
  "manifests_in env f dir =
     List.map_filter (\<lambda>name. case fs_files f (join dir name) of None \<Rightarrow> None | Some s \<Rightarrow> be_parseManifest env s)
       (filter (ends_with ''_manifest.json'') (files_in dir f))"

fun distinct_backups :: "manifest list \<Rightarrow> manifest list \<Rightarrow> manifest list" where
  "distinct_backups found [] = found"
| "distinct_backups found (m # ms) =
     distinct_backups (if list_ex (\<lambda>x. mf_backupId x = mf_backupId m) found then found else found @ [m]) ms"

definition getBackupHistory :: "backup_env \<Rightarrow> fs \<Rightarrow> fs \<times> manifest list" where
  "getBackupHistory env f =
     (let f1 = ensureBackupDirectories env f;
          ms = distinct_backups [] (manifests_in env f1 (be_local env) @ manifests_in env f1 (be_offsite env) @
                 manifests_in env f1 (uploadBackupDir env))
      in (f1, newest_first mf_createdAt ms))"

datatype health = PROTECTED | DEGRADED | CRITICAL_HEALTH

definition HOUR_MS :: int where
  "HOUR_MS = 60 * 60 * 1000"

record system_status =
  ss_health :: health
  ss_ageMs :: "int option"
  ss_last :: "instant option"
  ss_localVerified :: bool
  ss_offsite :: "backup_status option"
  ss_drill :: "string option \<times> bool option"
  ss_free :: "nat option"
  ss_percent :: "int option"

text \<open>The file system reports free and total bytes, or nothing.\<close>

definition storage_of :: "(nat \<times> nat) option \<Rightarrow> nat option \<times> int option" where
  "storage_of st = (case st of None \<Rightarrow> (None, None)
     | Some (free, bytes) \<Rightarrow>
         (Some free, if 0 < bytes then Some (js_round (js_mul (js_div (of_int (int bytes - int free)) (of_nat bytes)) 100)) else None))"

definition getSystemStatus :: "backup_env \<Rightarrow> fs \<Rightarrow> (nat \<times> nat) option \<Rightarrow> instant \<Rightarrow> fs \<times> system_status" where
  "getSystemStatus env f stat now =
     (let (f1, history) = getBackupHistory env (ensureBackupDirectories env f);
          latest = find_first mf_localVerified history;
          drill = (case fs_files f1 (join (be_local env) ''restore_history.json'') of
              None \<Rightarrow> (None, None)
            | Some s \<Rightarrow> (case be_parseDrill env s of None \<Rightarrow> (None, None) | Some (d, passed) \<Rightarrow> (d, Some passed)));
          h = (case latest of
              None \<Rightarrow> CRITICAL_HEALTH
            | Some m \<Rightarrow> if 6 * HOUR_MS < now - mf_createdAt m then CRITICAL_HEALTH
                else if mf_offsite m \<noteq> BS_VERIFIED then DEGRADED else PROTECTED)
      in (f1, \<lparr>ss_health = h, ss_ageMs = map_option (\<lambda>m. now - mf_createdAt m) latest,
            ss_last = map_option mf_createdAt latest, ss_localVerified = (latest \<noteq> None),
            ss_offsite = map_option mf_offsite latest, ss_drill = drill,
            ss_free = fst (storage_of stat), ss_percent = snd (storage_of stat)\<rparr>))"

section \<open>Retention\<close>

text \<open>\<open>be_zone\<close> is the offset of the server's time zone, which dates the start of a year.\<close>

definition week_key :: "int \<Rightarrow> instant \<Rightarrow> nat \<times> int" where
  "week_key zone t =
     (case date_of_day (nat (t div DAY_MS)) of
        (y, m, d) \<Rightarrow> (y, - ((- (t - (int (day_of_date y 1 1) * DAY_MS - zone))) div (7 * DAY_MS))))"

definition month_key :: "instant \<Rightarrow> nat \<times> nat" where
  "month_key t = (case date_of_day (nat (t div DAY_MS)) of (y, m, d) \<Rightarrow> (y, m))"

fun past_retention :: "int \<Rightarrow> instant \<Rightarrow> (nat \<times> int) list \<Rightarrow> (nat \<times> nat) list \<Rightarrow> manifest list \<Rightarrow> manifest list" where
  "past_retention zone now weeks months [] = []"
| "past_retention zone now weeks months (m # ms) =
     (let t = mf_createdAt m; age = now - t
      in if age \<le> 30 * DAY_MS then past_retention zone now weeks months ms
         else if age \<le> 84 * DAY_MS \<and> week_key zone t \<notin> set weeks
           then past_retention zone now (week_key zone t # weeks) months ms
         else if age \<le> 365 * DAY_MS \<and> month_key t \<notin> set months
           then past_retention zone now weeks (month_key t # months) ms
         else m # past_retention zone now weeks months ms)"

definition artifact_names :: "manifest \<Rightarrow> string list" where
  "artifact_names m =
     filter (\<lambda>n. n \<noteq> []) ([ar_dump (mf_artifacts m), ar_globals (mf_artifacts m), ar_manifest (mf_artifacts m),
       val_or (ar_snapshot (mf_artifacts m)) [], val_or (ar_archive (mf_artifacts m)) []])"

definition delete_artifacts :: "path \<Rightarrow> manifest \<Rightarrow> fs \<Rightarrow> fs" where
  "delete_artifacts dir m f =
     (if existsSync f dir
      then fold (\<lambda>n f. if existsSync f (join dir n) then try_fs (unlink (join dir n)) f else f) (artifact_names m) f
      else f)"

definition cleanOldBackupsRetention :: "backup_env \<Rightarrow> instant \<Rightarrow> fs \<Rightarrow> fs" where
  "cleanOldBackupsRetention env now f =
     (let (f1, history) = getBackupHistory env f
      in fold (\<lambda>m f. delete_artifacts (be_offsite env) m (delete_artifacts (be_local env) m f))
           (past_retention (be_zone env) now [] [] history) f1)"

section \<open>The catch-up check\<close>

definition sla_breached :: "system_status \<Rightarrow> bool" where
  "sla_breached st = (case ss_ageMs st of None \<Rightarrow> True | Some a \<Rightarrow> 6 * HOUR_MS \<le> a)"

section \<open>Creating a backup\<close>

text \<open>\<open>toISOString().replace(/[:.]/g, '-')\<close>.\<close>

definition isoStamp :: "instant \<Rightarrow> string" where
  "isoStamp now =
     (case date_of_day (nat (now div DAY_MS)) of
        (y, m, d) \<Rightarrow>
          let t = nat (now mod DAY_MS)
          in padStart0 4 (decimal y) @ ''-'' @ padStart0 2 (decimal m) @ ''-'' @ padStart0 2 (decimal d) @ ''T'' @
             padStart0 2 (decimal (t div 3600000)) @ ''-'' @ padStart0 2 (decimal (t div 60000 mod 60)) @ ''-'' @
             padStart0 2 (decimal (t div 1000 mod 60)) @ ''-'' @ padStart0 3 (decimal (t mod 1000)) @ ''Z'')"

definition backup_file :: "instant \<Rightarrow> string \<Rightarrow> string" where
  "backup_file now suffix = ''gms_'' @ isoStamp now @ suffix"

definition recordCounts :: "db \<Rightarrow> (string \<times> nat) list" where
  "recordCounts d =
     [(''users'', length (users d)), (''userWarehouseAccess'', length (userWarehouseAccess d)),
      (''transactions'', length (transactions d)), (''transactionStatusHistory'', length (statusHistories d)),
      (''weighbridgeRecords'', length (weighbridgeRecords d)), (''warehouseProcesses'', length (warehouseProcesses d)),
      (''qcVehicleChecks'', length (qcVehicleChecks d)), (''incomingMaterialChecks'', length (incomingMaterialChecks d)),
      (''attachments'', length (attachments d)), (''fraudChecks'', length (fraudChecks d)),
      (''activityLogs'', length (activityLogs d)), (''transactionCorrections'', length (corrections d)),
      (''transactionCorrectionItems'', length (correctionItems d))]"

text \<open>The exported tables: no password and no refresh token is in them.\<close>

definition REDACTED :: string where
  "REDACTED = ''[REDACTED_FOR_SECURITY]''"

definition exported :: "db \<Rightarrow> db" where
  "exported d = d\<lparr>nextId := 0,
     users := map (\<lambda>u. u\<lparr>u_passwordHash := REDACTED, u_refreshTokenHash := Some REDACTED\<rparr>) (users d)\<rparr>"

definition SYSTEM_NAME :: string where
  "SYSTEM_NAME = ''GMS_GATE_MANAGEMENT_SYSTEM''"

definition creator :: "jwt_user option \<Rightarrow> (ident \<times> string \<times> string) option" where
  "creator user = map_option (\<lambda>u. (ju_id u, ju_email u, if ju_name u = [] then ''Admin'' else ju_name u)) user"

definition jsonPayload :: "backup_env \<Rightarrow> db \<Rightarrow> jwt_user option \<Rightarrow> instant \<Rightarrow> payload" where
  "jsonPayload env d user now =
     (\<lparr>pm_backupId = Some (''BKP-'' @ isoStamp now), pm_system = SYSTEM_NAME, pm_createdAt = now,
       pm_createdBy = creator user, pm_totalRecords = sum_list (map snd (recordCounts d)),
       pm_checksum = be_sha256 env (be_dataText env (exported d))\<rparr>, exported d)"

text \<open>The local directory, or the one below the uploads when it can not be made.\<close>

definition activeLocalDir :: "backup_env \<Rightarrow> fs \<Rightarrow> (path \<times> fs) option" where
  "activeLocalDir env f =
     (case ensure_dir (be_local env) f of
        Some f' \<Rightarrow> Some (be_local env, f')
      | None \<Rightarrow> map_option (Pair (uploadBackupDir env)) (ensure_dir (uploadBackupDir env) f))"

definition writeSnapshot :: "backup_env \<Rightarrow> path \<Rightarrow> string \<Rightarrow> string \<Rightarrow> fs \<Rightarrow> fs \<times> (bk_reason error + path)" where
  "writeSnapshot env dir name text f =
     (case writeFile (join dir name) text f of
        Some f' \<Rightarrow> (f', Inr dir)
      | None \<Rightarrow>
          if \<not> fs_writable f (join dir name) \<and> dir \<noteq> uploadBackupDir env
          then (case ensure_dir (uploadBackupDir env) f of
              None \<Rightarrow> (f, Inl (InternalError BK_Disk))
            | Some f1 \<Rightarrow>
                (case writeFile (join (uploadBackupDir env) name) text f1 of
                   None \<Rightarrow> (f1, Inl (InternalError BK_WriteFailed))
                 | Some f2 \<Rightarrow> (f2, Inr (uploadBackupDir env))))
          else (f, Inl (InternalError BK_WriteFailed)))"

definition dumpUrl :: "backup_env \<Rightarrow> bk_reason error + string" where
  "dumpUrl env =
     (if be_production env \<and> truthy_col (be_backupUrl env) = None then Inl (InternalError BK_UrlRequired)
      else (case truthy_col (case be_backupUrl env of None \<Rightarrow> be_databaseUrl env | Some u \<Rightarrow> Some u) of
          None \<Rightarrow> Inl (InternalError BK_NoUrl)
        | Some u \<Rightarrow> Inr u))"

text \<open>
  \<open>pg_dump\<close> writes a partial file that is renamed when it succeeded; a dump that failed leaves no
  file at the place of the dump. What a failing \<open>pg_dump\<close> leaves in the partial file is left out.
\<close>

definition nativeDump :: "backup_env \<Rightarrow> string \<Rightarrow> db \<Rightarrow> path \<Rightarrow> fs \<Rightarrow> fs \<times> bool" where
  "nativeDump env url d dumpPath f =
     (let partial = butlast dumpPath @ [last dumpPath @ ''.partial''];
          (f1, ok) = (case be_pgDump env url d of
              None \<Rightarrow> (f, False)
            | Some s \<Rightarrow>
                (case writeFile partial s f of
                   None \<Rightarrow> (f, False)
                 | Some f' \<Rightarrow> (case rename partial dumpPath f' of None \<Rightarrow> (f', False) | Some f'' \<Rightarrow> (f'', True))))
      in (if \<not> ok \<and> existsSync f1 dumpPath then try_fs (unlink dumpPath) f1 else f1, ok))"

text \<open>The archive of the uploaded files, and the attachments whose file is not there.\<close>

definition archive_entry_of :: "backup_env \<Rightarrow> fs \<Rightarrow> path \<Rightarrow> archive_entry" where
  "archive_entry_of env f p =
     (let s = val_or (fs_files f p) []
      in \<lparr>ae_relativePath = forward_slashes (relative (be_uploads env) p), ae_fileName = last p, ae_size = length s,
          ae_checksum = be_sha256 env s, ae_base64 = be_base64 env s\<rparr>)"

definition uploaded_files :: "backup_env \<Rightarrow> fs \<Rightarrow> path list" where
  "uploaded_files env f = filter (\<lambda>p. \<not> is_prefix_of (uploadBackupDir env) p) (files_below (be_uploads env) f)"

definition strip_prefix :: "string \<Rightarrow> string" where
  "strip_prefix s =
     (if is_prefix_of ''uploads'' s \<and> 7 < length s \<and> (s ! 7 = slash \<or> s ! 7 = backslash) then drop 8 s
      else if is_prefix_of (slash # ''app'' @ slash # ''uploads'') s \<and> 12 < length s \<and> (s ! 12 = slash \<or> s ! 12 = backslash)
        then drop 13 s
      else s)"

definition cleanRelPath :: "string \<Rightarrow> string" where
  "cleanRelPath s = dropWhile (\<lambda>c. c = slash \<or> c = backslash) (strip_prefix s)"

definition attachment_missing :: "backup_env \<Rightarrow> fs \<Rightarrow> attachment \<Rightarrow> bool" where
  "attachment_missing env f a =
     (let raw = (if at_filePath a \<noteq> [] then at_filePath a else at_fileName a)
      in raw = [] \<or>
         (let full = resolve (be_uploads env) (cleanRelPath raw)
          in escapes (be_uploads env) full \<or> \<not> existsSync f full))"

record archive_result =
  re_count :: nat
  re_checksum :: string
  re_ok :: bool
  re_missing :: nat

definition archiveUploads :: "backup_env \<Rightarrow> db \<Rightarrow> path \<Rightarrow> fs \<Rightarrow> fs \<times> archive_result" where
  "archiveUploads env d archivePath f =
     (let present = existsSync f (be_uploads env);
          entries = (if present then map (archive_entry_of env f) (uploaded_files env f) else [])
      in (case (if present then writeFile archivePath (be_archiveText env entries) f else Some f) of
            None \<Rightarrow> (f, \<lparr>re_count = length entries, re_checksum = [], re_ok = False, re_missing = 0\<rparr>)
          | Some f' \<Rightarrow>
              let missing = length (filter (attachment_missing env f') (attachments d))
              in (f', \<lparr>re_count = length entries,
                    re_checksum = (if present then checksumForFile env archivePath f' else []),
                    re_ok = (missing = 0), re_missing = missing\<rparr>)))"

text \<open>
  The manifest is signed over its identifier and the checksum of the dump, with a built-in secret
  when none is configured.
\<close>

definition DEFAULT_SECRET :: string where
  "DEFAULT_SECRET = ''test-backup-signature-secret-for-ci-pipeline-min-32-chars-long''"

definition signed :: "backup_env \<Rightarrow> manifest \<Rightarrow> manifest" where
  "signed env m = m\<lparr>mf_signature := be_hmac env (val_or (truthy_col (be_secret env)) DEFAULT_SECRET)
     (mf_backupId m @ '':'' @ ck_dump (mf_checksums m))\<rparr>"

definition build_manifest ::
  "backup_env \<Rightarrow> backup_type \<Rightarrow> jwt_user option \<Rightarrow> db \<Rightarrow> path \<Rightarrow> bool \<Rightarrow> archive_result \<Rightarrow> instant \<Rightarrow> fs \<Rightarrow> manifest"
where
  "build_manifest env ty user d dir dumped ar now f =
     (let dump = join dir (backup_file now ''.dump''); ck = checksumForFile env dump f;
          size = (case fs_files f dump of None \<Rightarrow> 0 | Some s \<Rightarrow> length s)
      in signed env
           \<lparr>mf_backupId = ''BKP-'' @ isoStamp now, mf_backupType = ty,
            mf_dumpFormat = (if dumped then PG_CUSTOM else JSON_SNAPSHOT), mf_createdAt = now,
            mf_createdBy = creator user, mf_recordCounts = recordCounts d,
            mf_artifacts = \<lparr>ar_dump = backup_file now ''.dump'', ar_globals = backup_file now ''_globals.sql'',
              ar_manifest = backup_file now ''_manifest.json'', ar_snapshot = Some (backup_file now ''_snapshot.json''),
              ar_archive = (if 0 < re_count ar then Some (backup_file now ''_attachments.json'') else None)\<rparr>,
            mf_attachmentsCount = re_count ar,
            mf_reconciliation = \<lparr>rc_dbAttachments = length (attachments d), rc_physical = re_count ar,
              rc_missing = re_missing ar, rc_orphans = 0\<rparr>,
            mf_localVerified = (dumped \<and> existsSync f dump \<and> 0 < size \<and> 0 < length ck \<and> re_ok ar),
            mf_offsite = BS_PENDING,
            mf_checksums = \<lparr>ck_dump = ck, ck_globals = checksumForFile env (join dir (backup_file now ''_globals.sql'')) f,
              ck_snapshot = Some (checksumForFile env (join dir (backup_file now ''_snapshot.json'')) f),
              ck_archive = truthy_col (Some (re_checksum ar))\<rparr>,
            mf_signature = []\<rparr>)"

text \<open>Copies in order; the first that fails ends the block.\<close>

fun copy_all :: "(path \<times> path) list \<Rightarrow> fs \<Rightarrow> fs \<times> bool" where
  "copy_all [] f = (f, True)"
| "copy_all ((p, q) # r) f =
     (if existsSync f p then (case copyFile p q f of None \<Rightarrow> (f, False) | Some f' \<Rightarrow> copy_all r f')
      else copy_all r f)"

definition backup_suffixes :: "string list" where
  "backup_suffixes = [''.dump'', ''_globals.sql'', ''_snapshot.json'', ''_attachments.json'']"

definition offsite_matches :: "backup_env \<Rightarrow> path \<Rightarrow> manifest \<Rightarrow> string \<Rightarrow> instant \<Rightarrow> fs \<Rightarrow> bool" where
  "offsite_matches env dir m archiveCk now f =
     (let ck = (\<lambda>suffix. checksumForFile env (join (be_offsite env) (backup_file now suffix)) f)
      in ck ''.dump'' = ck_dump (mf_checksums m) \<and> ck ''_globals.sql'' = ck_globals (mf_checksums m) \<and>
         ck ''_snapshot.json'' = val_or (ck_snapshot (mf_checksums m)) [] \<and>
         (archiveCk \<noteq> [] \<longrightarrow> ck ''_attachments.json'' = archiveCk))"

text \<open>
  The copy to the second site. Only a copy that matches is written to the manifests on disk; a
  failure is in the manifest that is returned.
\<close>

definition copyOffsite :: "backup_env \<Rightarrow> path \<Rightarrow> manifest \<Rightarrow> string \<Rightarrow> instant \<Rightarrow> fs \<Rightarrow> fs \<times> manifest" where
  "copyOffsite env dir m archiveCk now f =
     (if \<not> existsSync f (be_offsite env) then (f, m\<lparr>mf_offsite := BS_FAILED\<rparr>)
      else
        let (f1, copied) = copy_all (map (\<lambda>x. (join dir (backup_file now x), join (be_offsite env) (backup_file now x)))
              backup_suffixes) f
        in if \<not> copied \<or> \<not> offsite_matches env dir m archiveCk now f1 then (f1, m\<lparr>mf_offsite := BS_FAILED\<rparr>)
           else
             let m' = signed env (m\<lparr>mf_offsite := BS_VERIFIED\<rparr>); name = backup_file now ''_manifest.json''
             in (case writeFile (join dir name) (be_manifestText env m') f1 of
                   None \<Rightarrow> (f1, m')
                 | Some f2 \<Rightarrow> (try_fs (writeFile (join (be_offsite env) name) (be_manifestText env m')) f2, m')))"

fun backup_type_name :: "backup_type \<Rightarrow> string" where
  "backup_type_name AUTOMATIC_6HR = ''AUTOMATIC_6HR''"
| "backup_type_name MANUAL_PRE_UPDATE = ''MANUAL_PRE_UPDATE''"
| "backup_type_name MANUAL_EXPLICIT = ''MANUAL_EXPLICIT''"
| "backup_type_name AUTO_PRE_RESTORE = ''AUTO_PRE_RESTORE''"

fun backup_status_name :: "backup_status \<Rightarrow> string" where
  "backup_status_name BS_VERIFIED = ''VERIFIED''"
| "backup_status_name BS_PENDING = ''PENDING''"
| "backup_status_name BS_FAILED = ''FAILED''"

text \<open>
  A log row refers to a user row. Where there is none (the scheduler, or a user the restored
  database does not know) the row is refused, the error is caught and the database keeps nothing.
\<close>

definition siteLog :: "jwt_user option \<Rightarrow> string \<Rightarrow> string \<Rightarrow> string \<Rightarrow> instant \<Rightarrow> db \<Rightarrow> db" where
  "siteLog user action desc st now d =
     (case user of
        None \<Rightarrow> d
      | Some u \<Rightarrow> if find_user d (ju_id u) = None then d
          else audit (ju_id u) action ''SETTINGS'' None (Some (JStr desc)) st now d)"

definition backupDescription :: "manifest \<Rightarrow> string" where
  "backupDescription m = ''Created backup '' @ mf_backupId m @ '' ('' @ backup_type_name (mf_backupType m) @ '', Local: '' @
     (if mf_localVerified m then ''VERIFIED'' else ''FAILED'') @ '', Offsite: '' @ backup_status_name (mf_offsite m) @ '')''"

text \<open>The artifacts of a backup in the directory that took the snapshot, and its manifest.\<close>

definition writeArtifacts ::
  "backup_env \<Rightarrow> backup_type \<Rightarrow> jwt_user option \<Rightarrow> db \<Rightarrow> string \<Rightarrow> path \<Rightarrow> instant \<Rightarrow> fs \<Rightarrow> fs \<times> manifest"
where
  "writeArtifacts env ty user d url dir now f =
     (let (f1, dumped) = nativeDump env url d (join dir (backup_file now ''.dump'')) f;
          f2 = try_fs (writeFile (join dir (backup_file now ''_globals.sql''))
                 (''-- GMS Globals Dump '' @ isoStamp now @ [CHR 0x0A] @ ''-- Roles and tablespaces'' @ [CHR 0x0A])) f1;
          (f3, ar) = archiveUploads env d (join dir (backup_file now ''_attachments.json'')) f2;
          m = build_manifest env ty user d dir dumped ar now f3;
          f4 = try_fs (writeFile (join dir (backup_file now ''_manifest.json'')) (be_manifestText env m)) f3
      in copyOffsite env dir m (re_checksum ar) now f4)"

definition createNativePgDumpBackup ::
  "backup_env \<Rightarrow> db \<Rightarrow> fs \<Rightarrow> backup_type \<Rightarrow> jwt_user option \<Rightarrow> instant \<Rightarrow> (db \<times> fs) \<times> (bk_reason error + manifest)"
where
  "createNativePgDumpBackup env d f ty user now =
     (case activeLocalDir env (ensureBackupDirectories env f) of
        None \<Rightarrow> ((d, ensureBackupDirectories env f), Inl (InternalError BK_Disk))
      | Some (dir0, f1) \<Rightarrow>
          (case writeSnapshot env dir0 (backup_file now ''_snapshot.json'') (be_payloadText env (jsonPayload env d user now)) f1 of
             (f2, Inl e) \<Rightarrow> ((d, f2), Inl e)
           | (f2, Inr dir) \<Rightarrow>
               (case dumpUrl env of
                  Inl e \<Rightarrow> ((d, f2), Inl e)
                | Inr url \<Rightarrow>
                    let (f3, m) = writeArtifacts env ty user d url dir now f2
                    in ((siteLog user ''DATABASE_BACKUP'' (backupDescription m)
                           (if mf_localVerified m \<and> mf_offsite m \<noteq> BS_FAILED then ''SUCCESS'' else ''FAILED'') now d, f3),
                        Inr m))))"

definition runAutomatedScheduledBackup ::
  "backup_env \<Rightarrow> site \<Rightarrow> backup_type \<Rightarrow> jwt_user option \<Rightarrow> instant \<Rightarrow> manifest bk_outcome"
where
  "runAutomatedScheduledBackup env s ty user now =
     (if si_running s then (s, Inl (BadRequest BK_Running))
      else
        (case createNativePgDumpBackup env (si_db s) (si_fs s) ty user now of
           ((d, f), Inl e) \<Rightarrow> (\<lparr>si_db = d, si_fs = f, si_running = False\<rparr>, Inl e)
         | ((d, f), Inr m) \<Rightarrow>
             (\<lparr>si_db = d, si_fs = cleanOldBackupsRetention env now f, si_running = False\<rparr>, Inr m)))"

text \<open>The download of a backup: the snapshot that was written, or what can be read of it.\<close>

fun find_map :: "('a \<Rightarrow> 'b option) \<Rightarrow> 'a list \<Rightarrow> 'b option" where
  "find_map g [] = None"
| "find_map g (x # xs) = (case g x of None \<Rightarrow> find_map g xs | Some y \<Rightarrow> Some y)"

definition first_payload :: "backup_env \<Rightarrow> fs \<Rightarrow> path list \<Rightarrow> payload option" where
  "first_payload env f ps = find_map (\<lambda>p. case fs_files f p of None \<Rightarrow> None | Some t \<Rightarrow> be_parsePayload env t) ps"

definition generateBackup ::
  "backup_env \<Rightarrow> site \<Rightarrow> jwt_user \<Rightarrow> instant \<Rightarrow> (payload_metadata \<times> db option) bk_outcome"
where
  "generateBackup env s user now =
     (case runAutomatedScheduledBackup env s MANUAL_EXPLICIT (Some user) now of
        (s', Inl e) \<Rightarrow> (s', Inl e)
      | (s', Inr m) \<Rightarrow>
          let snapshot = val_or (truthy_col (ar_snapshot (mf_artifacts m))) (backup_file (mf_createdAt m) ''_snapshot.json'');
              dirs = [be_local env, uploadBackupDir env]
          in (case first_payload env (si_fs s') (map (\<lambda>dir. join dir snapshot) dirs @
                map (\<lambda>dir. join dir (ar_dump (mf_artifacts m))) dirs) of
                Some (md, data) \<Rightarrow> (s', Inr (md, Some data))
              | None \<Rightarrow> (s', Inr (\<lparr>pm_backupId = None, pm_system = SYSTEM_NAME, pm_createdAt = mf_createdAt m,
                    pm_createdBy = mf_createdBy m, pm_totalRecords = sum_list (map snd (mf_recordCounts m)),
                    pm_checksum = ck_dump (mf_checksums m)\<rparr>, None))))"

end
