(* ===== verification/Gms_Retention.thy ===== *)
theory Gms_Retention
  imports Gms_Backup
begin

text \<open>
  The retention policy of the backups (settings/database-backup.service.ts,
  cleanOldBackupsRetention): which files a run of the clean-up deletes, and which it leaves.
\<close>

section \<open>Retention\<close>

lemma getBackupHistory_list:
  "snd (getBackupHistory env f) =
     newest_first mf_createdAt (distinct_backups [] (manifests_in env (ensureBackupDirectories env f) (be_local env) @
       manifests_in env (ensureBackupDirectories env f) (be_offsite env) @
       manifests_in env (ensureBackupDirectories env f) (uploadBackupDir env)))"
  "fst (getBackupHistory env f) = ensureBackupDirectories env f"
  by (simp_all add: getBackupHistory_def Let_def)

lemma distinct_backups_distinct:
  "distinct (map mf_backupId found) \<Longrightarrow> distinct (map mf_backupId (distinct_backups found ms))"
proof (induction found ms rule: distinct_backups.induct)
  case (2 found m ms)
  then show ?case
    by (cases "list_ex (\<lambda>x. mf_backupId x = mf_backupId m) found") (force simp: list_ex_iff)+
qed simp

definition newest_sorted :: "manifest list \<Rightarrow> bool" where
  "newest_sorted ms \<longleftrightarrow> sorted_wrt (\<lambda>a b. mf_createdAt b \<le> mf_createdAt a) ms"

text \<open>One step of the policy: the head is kept with some keys added, or it is dropped.\<close>

lemma expired_step:
  obtains (kept) ws' ns' where "past_retention zone now ws ns (x # ms) = past_retention zone now ws' ns' ms"
      "set ws' \<subseteq> insert (week_key zone (mf_createdAt x)) (set ws)" "set ns' \<subseteq> insert (month_key (mf_createdAt x)) (set ns)"
  | (dropped) "past_retention zone now ws ns (x # ms) = x # past_retention zone now ws ns ms" "30 * DAY_MS < now - mf_createdAt x"
      "now - mf_createdAt x \<le> 84 * DAY_MS \<Longrightarrow> week_key zone (mf_createdAt x) \<in> set ws"
      "now - mf_createdAt x \<le> 365 * DAY_MS \<Longrightarrow> month_key (mf_createdAt x) \<in> set ns"
proof -
  let ?t = "mf_createdAt x"
  consider "now - ?t \<le> 30 * DAY_MS" | "\<not> now - ?t \<le> 30 * DAY_MS" "now - ?t \<le> 84 * DAY_MS" "week_key zone ?t \<notin> set ws"
    | "\<not> now - ?t \<le> 30 * DAY_MS" "\<not> (now - ?t \<le> 84 * DAY_MS \<and> week_key zone ?t \<notin> set ws)" "now - ?t \<le> 365 * DAY_MS"
        "month_key ?t \<notin> set ns"
    | "\<not> now - ?t \<le> 30 * DAY_MS" "\<not> (now - ?t \<le> 84 * DAY_MS \<and> week_key zone ?t \<notin> set ws)"
        "\<not> (now - ?t \<le> 365 * DAY_MS \<and> month_key ?t \<notin> set ns)"
    by blast
  then show thesis
  proof cases
    case 1
    then show ?thesis by (intro kept [of ws ns]) auto
  next
    case 2
    then show ?thesis by (intro kept [of "week_key zone ?t # ws" ns]) auto
  next
    case 3
    then show ?thesis by (intro kept [of ws "month_key ?t # ns"]) (auto simp: Let_def)
  next
    case 4
    then show ?thesis by (intro dropped) (auto simp: Let_def)
  qed
qed

lemma expired_subset: "set (past_retention zone now ws ns ms) \<subseteq> {m \<in> set ms. 30 * DAY_MS < now - mf_createdAt m}"
proof (induction ms arbitrary: ws ns)
  case (Cons x ms)
  show ?case
  proof (cases rule: expired_step [of zone now ws ns x ms])
    case (kept ws' ns')
    show ?thesis unfolding kept(1) using Cons.IH [of ws' ns'] by auto
  next
    case dropped
    show ?thesis unfolding dropped(1) using Cons.IH [of ws ns] dropped(2) by auto
  qed
qed simp

lemma expired_head_old:
  "365 * DAY_MS < now - mf_createdAt x \<Longrightarrow> past_retention zone now ws ns (x # ms) = x # past_retention zone now ws ns ms"
  by (simp add: Let_def DAY_MS_def)

lemma expired_old:
  "m \<in> set ms \<Longrightarrow> 365 * DAY_MS < now - mf_createdAt m \<Longrightarrow> m \<in> set (past_retention zone now ws ns ms)"
proof (induction ms arbitrary: ws ns)
  case (Cons x ms)
  show ?case
  proof (cases "m = x")
    case True
    then show ?thesis using expired_head_old Cons.prems(2) by (metis list.set_intros(1))
  next
    case False
    then show ?thesis
      using Cons by (cases rule: expired_step [of zone now ws ns x ms]) (simp_all del: past_retention.simps)
  qed
qed simp

text \<open>Whoever is dropped found its key taken, by one of the first keys or by a newer manifest that is kept.\<close>

definition taken_by :: "(manifest \<Rightarrow> 'k) \<Rightarrow> 'k list \<Rightarrow> manifest list \<Rightarrow> manifest list \<Rightarrow> manifest \<Rightarrow> bool" where
  "taken_by key keys ms gone m \<longleftrightarrow>
     key m \<in> set keys \<or> (\<exists>x \<in> set ms. x \<notin> set gone \<and> key x = key m \<and> mf_createdAt m \<le> mf_createdAt x)"

lemma taken_by_kept:
  assumes "taken_by key keys' ms gone m" "set keys' \<subseteq> insert (key x) (set keys)" "x \<notin> set gone"
    and "mf_createdAt m \<le> mf_createdAt x"
  shows "taken_by key keys (x # ms) gone m"
  using assms by (auto simp: taken_by_def)

lemma taken_by_dropped: "taken_by key keys ms gone m \<Longrightarrow> x \<notin> set ms \<Longrightarrow> taken_by key keys (x # ms) (x # gone) m"
  by (auto simp: taken_by_def)

lemma expired_taken:
  assumes "m \<in> set (past_retention zone now ws ns ms)" "newest_sorted ms" "distinct ms"
  shows "(now - mf_createdAt m \<le> 84 * DAY_MS \<longrightarrow>
        taken_by (\<lambda>m. week_key zone (mf_createdAt m)) ws ms (past_retention zone now ws ns ms) m) \<and>
     (now - mf_createdAt m \<le> 365 * DAY_MS \<longrightarrow>
        taken_by (\<lambda>m. month_key (mf_createdAt m)) ns ms (past_retention zone now ws ns ms) m)"
  using assms
proof (induction ms arbitrary: ws ns)
  case (Cons x ms)
  have x: "x \<notin> set ms" and tail: "newest_sorted ms" "distinct ms" and le: "\<And>y. y \<in> set ms \<Longrightarrow> mf_createdAt y \<le> mf_createdAt x"
    using Cons.prems(2,3) by (auto simp: newest_sorted_def)
  have sub: "set (past_retention zone now ws' ns' ms) \<subseteq> set ms" for ws' ns' using expired_subset by blast
  show ?case
  proof (cases rule: expired_step [of zone now ws ns x ms])
    case (kept ws' ns')
    have m: "m \<in> set (past_retention zone now ws' ns' ms)" using Cons.prems(1) kept(1) by simp
    then have "mf_createdAt m \<le> mf_createdAt x" "x \<notin> set (past_retention zone now ws' ns' ms)" using sub le x by blast+
    then show ?thesis
      using Cons.IH [OF m tail]
        taken_by_kept [where key = "\<lambda>m. week_key zone (mf_createdAt m)", OF _ kept(2)]
        taken_by_kept [where key = "\<lambda>m. month_key (mf_createdAt m)", OF _ kept(3)]
      unfolding kept(1) by blast
  next
    case dropped
    show ?thesis
    proof (cases "m = x")
      case True
      then show ?thesis using dropped(3,4) by (auto simp: taken_by_def)
    next
      case False
      then have m: "m \<in> set (past_retention zone now ws ns ms)" using Cons.prems(1) dropped(1) by simp
      show ?thesis using Cons.IH [OF m tail]
          taken_by_dropped [where key = "\<lambda>m. week_key zone (mf_createdAt m)", OF _ x]
          taken_by_dropped [where key = "\<lambda>m. month_key (mf_createdAt m)", OF _ x] unfolding dropped(1) by blast
    qed
  qed
qed simp

lemma history_facts:
  "newest_sorted (snd (getBackupHistory env f))" "distinct (snd (getBackupHistory env f))"
proof -
  let ?ms = "snd (getBackupHistory env f)"
  have "sorted (map (\<lambda>m. - mf_createdAt m) ?ms)"
    unfolding getBackupHistory_list newest_first_def by (rule sorted_sort_key)
  then show "newest_sorted ?ms" by (simp add: newest_sorted_def sorted_map)
  have "distinct (map mf_backupId (distinct_backups [] ms))" for ms by (rule distinct_backups_distinct) simp
  then have "distinct (distinct_backups [] ms)" for ms using distinct_map by blast
  then show "distinct ?ms" by (simp add: getBackupHistory_list newest_first_def)
qed

text \<open>Deleting touches the artifacts of the manifest and nothing else.\<close>

definition deleted_only :: "path set \<Rightarrow> fs \<Rightarrow> fs \<Rightarrow> bool" where
  "deleted_only ps f f' \<longleftrightarrow> (\<forall>q. fs_files f' q = fs_files f q \<or> q \<in> ps \<and> fs_files f' q = None)"

lemma deleted_only_refl [simp]: "deleted_only ps f f"
  by (simp add: deleted_only_def)

lemma deleted_only_trans: "deleted_only ps f f' \<Longrightarrow> deleted_only ps f' f'' \<Longrightarrow> deleted_only ps f f''"
  by (metis deleted_only_def)

lemma deleted_only_mono: "deleted_only ps f f' \<Longrightarrow> ps \<subseteq> qs \<Longrightarrow> deleted_only qs f f'"
  by (auto simp: deleted_only_def)

lemma deleted_only_fold:
  "(\<And>x f. x \<in> set xs \<Longrightarrow> deleted_only ps f (g x f)) \<Longrightarrow> deleted_only ps f (fold g xs f)"
  by (induction xs arbitrary: f) (auto intro: deleted_only_trans)

lemma unlink_deletes: "p \<in> ps \<Longrightarrow> deleted_only ps f (try_fs (unlink p) f)"
  by (auto simp: deleted_only_def try_fs_def unlink_def)

lemma delete_artifacts_only: "deleted_only (join dir ` set (artifact_names m)) f (delete_artifacts dir m f)"
  unfolding delete_artifacts_def
  by (auto intro!: deleted_only_fold unlink_deletes)

lemma try_ensure_files [simp]: "fs_files (try_fs (ensure_dir p) f) = fs_files f"
  using ensure_dir_frame by (cases "ensure_dir p f") (auto simp: try_fs_def)

lemma ensureBackupDirectories_files [simp]: "fs_files (ensureBackupDirectories env f) = fs_files f"
  by (simp add: ensureBackupDirectories_def)

definition artifact_paths :: "backup_env \<Rightarrow> manifest \<Rightarrow> path set" where
  "artifact_paths env m = (\<Union>dir \<in> {be_local env, be_offsite env}. join dir ` set (artifact_names m))"

lemma clean_only:
  "deleted_only (\<Union>m \<in> set (past_retention (be_zone env) now [] [] (snd (getBackupHistory env f))). artifact_paths env m) f
     (cleanOldBackupsRetention env now f)"
proof -
  let ?gone = "past_retention (be_zone env) now [] [] (snd (getBackupHistory env f))"
  let ?ps = "\<Union>m \<in> set ?gone. artifact_paths env m"
  have step: "deleted_only ?ps g (delete_artifacts (be_offsite env) m (delete_artifacts (be_local env) m g))" if "m \<in> set ?gone" for m g
  proof (rule deleted_only_trans)
    have sub: "join dir ` set (artifact_names m) \<subseteq> ?ps" if "dir \<in> {be_local env, be_offsite env}" for dir
      using that \<open>m \<in> set ?gone\<close> unfolding artifact_paths_def by blast
    show "deleted_only ?ps g (delete_artifacts (be_local env) m g)"
      by (rule deleted_only_mono [OF delete_artifacts_only]) (rule sub, simp)
    show "deleted_only ?ps (delete_artifacts (be_local env) m g)
        (delete_artifacts (be_offsite env) m (delete_artifacts (be_local env) m g))"
      by (rule deleted_only_mono [OF delete_artifacts_only]) (rule sub, simp)
  qed
  have "deleted_only ?ps (ensureBackupDirectories env f)
      (fold (\<lambda>m g. delete_artifacts (be_offsite env) m (delete_artifacts (be_local env) m g)) ?gone (ensureBackupDirectories env f))"
    by (rule deleted_only_fold) (rule step)
  then show ?thesis
    by (simp add: cleanOldBackupsRetention_def case_prod_unfold Let_def getBackupHistory_list(2) deleted_only_def)
qed


end
