(* ===== verification/Gms_Verified.thy ===== *)
theory Gms_Verified
  imports Gms_Retention
begin

text \<open>
  What a backup that is recorded as verified contains: the steps of createNativePgDumpBackup keep
  the dump once it is written, and the flags of the manifest are true of the files.
\<close>

section \<open>What a verified backup contains\<close>

text \<open>A change that keeps the file at one path and lets nothing disappear.\<close>

definition stable :: "path \<Rightarrow> fs \<Rightarrow> fs \<Rightarrow> bool" where
  "stable p f f' \<longleftrightarrow> fs_files f' p = fs_files f p \<and> (\<forall>q. existsSync f q \<longrightarrow> existsSync f' q)"

lemma stable_refl [simp]: "stable p f f"
  by (simp add: stable_def)

lemma stable_trans: "stable p f f' \<Longrightarrow> stable p f' f'' \<Longrightarrow> stable p f f''"
  by (simp add: stable_def)

lemma stable_put: "q \<noteq> p \<or> fs_files f p = Some s \<Longrightarrow> stable p f (put_file q s f)"
  by (auto simp: stable_def existsSync_def)

lemma stable_write: "writeFile q s f = Some f' \<Longrightarrow> q \<noteq> p \<or> fs_files f p = Some s \<Longrightarrow> stable p f f'"
  using stable_put by (auto simp: writeFile_def split: if_splits)

lemma stable_try_write: "q \<noteq> p \<Longrightarrow> stable p f (try_fs (writeFile q s) f)"
  using stable_write by (cases "writeFile q s f") (auto simp: try_fs_def)

text \<open>Names of the files of a backup.\<close>

lemma slash_decimal [simp]: "slash \<notin> set (decimal n)" "slash \<notin> set (padStart0 w (decimal n))"
  using is_digit_decimal [of n] is_digit_padded [of w n] by (auto simp: list_all_iff is_digit_def slash_def)

lemma slash_stamp: "slash \<notin> set (isoStamp now)"
  using slash_decimal by (auto simp: isoStamp_def Let_def slash_def split: prod.splits)

lemma backup_name: "slash \<notin> set suffix \<Longrightarrow> is_name (backup_file now suffix)"
  using slash_stamp by (auto simp: is_name_def backup_file_def slash_def)

lemma backup_path: "slash \<notin> set suffix \<Longrightarrow> join dir (backup_file now suffix) = dir @ [backup_file now suffix]"
  by (simp add: join_name backup_name)

lemma backup_names:
  "slash \<notin> set ''.dump''" "slash \<notin> set ''_globals.sql''" "slash \<notin> set ''_snapshot.json''"
  "slash \<notin> set ''_attachments.json''" "slash \<notin> set ''_manifest.json''"
  by (simp_all add: slash_def)

lemmas backup_paths = backup_names [THEN backup_path]

definition dump_path :: "path \<Rightarrow> instant \<Rightarrow> path" where
  "dump_path dir now = dir @ [backup_file now ''.dump'']"

lemma other_artifact: "suffix \<noteq> ''.dump'' \<Longrightarrow> dir @ [backup_file now suffix] \<noteq> dump_path dir' now"
  by (simp add: dump_path_def backup_file_def)

lemma nativeDump_ok:
  assumes "nativeDump env url d p f = (f', True)"
  shows "\<exists>s. be_pgDump env url d = Some s \<and> fs_files f' p = Some s"
  using assms rename_files
  by (auto simp: nativeDump_def Let_def writeFile_def split: option.splits if_splits)

lemma archiveUploads_stable:
  assumes "archiveUploads env d q f = (f', ar)" "q \<noteq> p"
  shows "stable p f f'" "re_ok ar \<Longrightarrow> a \<in> set (attachments d) \<Longrightarrow> \<not> attachment_missing env f' a"
proof -
  show "stable p f f'" using assms stable_write
    by (auto simp: archiveUploads_def Let_def split: if_splits option.splits)
  show "re_ok ar \<Longrightarrow> a \<in> set (attachments d) \<Longrightarrow> \<not> attachment_missing env f' a" using assms(1)
    by (auto simp: archiveUploads_def Let_def filter_empty_conv split: if_splits option.splits)
qed

lemma stable_present: "stable p f f' \<Longrightarrow> \<not> attachment_missing env f a \<Longrightarrow> \<not> attachment_missing env f' a"
  by (auto simp: attachment_missing_def Let_def stable_def)

lemma copy_all_stable:
  assumes "copy_all xs f = (f', ok)" "\<And>a b. (a, b) \<in> set xs \<Longrightarrow> b = p \<Longrightarrow> a = p"
  shows "stable p f f'"
  using assms
proof (induction xs f rule: copy_all.induct)
  case (2 a b r f)
  show ?case
  proof (cases "existsSync f a")
    case True
    show ?thesis
    proof (cases "copyFile a b f")
      case None
      then show ?thesis using 2(3) True by simp
    next
      case (Some g)
      then obtain s where s: "fs_files f a = Some s" "writeFile b s f = Some g"
        by (auto simp: copyFile_def split: option.splits)
      have "b \<noteq> p \<or> fs_files f p = Some s" using 2(4) [of a b] s(1) by auto
      from stable_trans [OF stable_write [OF s(2) this] 2(1) [OF True Some]]
      show ?thesis using 2(3,4) True Some by auto
    qed
  next
    case False
    then show ?thesis using 2 by auto
  qed
qed simp

lemma copyOffsite_stable:
  assumes "copyOffsite env dir m ck now f = (f', m')"
  shows "stable (dump_path dir now) f f'" "mf_localVerified m' = mf_localVerified m" "mf_artifacts m' = mf_artifacts m"
    "mf_checksums m' = mf_checksums m" "mf_backupId m' = mf_backupId m"
    "mf_offsite m' = BS_VERIFIED \<Longrightarrow> mf_offsite m \<noteq> BS_VERIFIED \<Longrightarrow>
       checksumForFile env (dump_path (be_offsite env) now) f' = ck_dump (mf_checksums m)"
proof -
  let ?name = "backup_file now ''_manifest.json''"
  let ?xs = "map (\<lambda>x. (join dir (backup_file now x), join (be_offsite env) (backup_file now x))) backup_suffixes"
  obtain f1 ok where c: "copy_all ?xs f = (f1, ok)" by (cases "copy_all ?xs f")
  have st: "stable (dump_path dir now) f f1"
  proof (rule copy_all_stable [OF c])
    fix a b assume ab: "(a, b) \<in> set ?xs" "b = dump_path dir now"
    then obtain x where x: "x \<in> set backup_suffixes" "a = join dir (backup_file now x)" "b = join (be_offsite env) (backup_file now x)"
      by auto
    then have sl: "slash \<notin> set x" using backup_names by (auto simp: backup_suffixes_def)
    then have "x = ''.dump''" using ab(2) x(3) other_artifact [of x "be_offsite env" now dir] by (auto simp: backup_path)
    then show "a = dump_path dir now" using x(2) backup_paths by (simp add: dump_path_def)
  qed
  have w: "stable (dump_path d' now) g (try_fs (writeFile (join d'' ?name) t) g)" for d' d'' g t
    by (rule stable_try_write) (simp add: backup_paths other_artifact)
  have w': "writeFile (join d'' ?name) t g = Some g' \<Longrightarrow> stable (dump_path d' now) g g'" for d' d'' g g' t
    using w [of d' g d'' t] by (simp add: try_fs_def)
  let ?done = "existsSync f (be_offsite env) \<and> ok \<and> offsite_matches env dir m ck now f1"
  let ?m = "signed env (m\<lparr>mf_offsite := BS_VERIFIED\<rparr>)"
  have failed: "m' = m\<lparr>mf_offsite := BS_FAILED\<rparr> \<and> (f' = f \<or> f' = f1)" if "\<not> ?done"
    using assms that by (auto simp: copyOffsite_def c split: if_splits)
  have verified: "m' = ?m \<and> stable (dump_path d' now) f1 f'" if "?done" for d'
  proof (cases "writeFile (join dir ?name) (be_manifestText env ?m) f1")
    case None
    then show ?thesis using assms that by (auto simp: copyOffsite_def c Let_def)
  next
    case (Some f2)
    then have "m' = ?m" "f' = try_fs (writeFile (join (be_offsite env) ?name) (be_manifestText env ?m)) f2"
      using assms that by (auto simp: copyOffsite_def c Let_def)
    then show ?thesis using stable_trans [OF w' [OF Some] w] by blast
  qed
  show "stable (dump_path dir now) f f'"
  proof (cases ?done)
    case True
    from verified [OF this, of dir] stable_trans [OF st] show ?thesis by blast
  next
    case False
    from failed [OF this] st show ?thesis by auto
  qed
  have same: "m' = m\<lparr>mf_offsite := BS_FAILED\<rparr> \<or> m' = ?m" using failed verified by blast
  show "mf_localVerified m' = mf_localVerified m" "mf_artifacts m' = mf_artifacts m" "mf_checksums m' = mf_checksums m"
    "mf_backupId m' = mf_backupId m"
    using same by (auto simp: signed_def)
  show "checksumForFile env (dump_path (be_offsite env) now) f' = ck_dump (mf_checksums m)"
    if "mf_offsite m' = BS_VERIFIED" "mf_offsite m \<noteq> BS_VERIFIED"
  proof -
    have d: "?done"
    proof (rule ccontr)
      assume "\<not> ?done"
      from failed [OF this] that show False by simp
    qed
    then have "checksumForFile env (dump_path (be_offsite env) now) f1 = ck_dump (mf_checksums m)"
      by (simp add: offsite_matches_def Let_def backup_paths dump_path_def)
    then show ?thesis using verified [OF d, of "be_offsite env"] by (simp add: checksumForFile_def stable_def)
  qed
qed

lemma same_data_siteLog: "same_data d (siteLog user action desc st now d)"
  using same_data_audit by (cases user) (simp_all add: siteLog_def same_data_def)

lemma writeSnapshot_dir:
  "writeSnapshot env dir name text f = (f', Inr dir') \<Longrightarrow> dir' = dir \<or> dir' = uploadBackupDir env"
  by (auto simp: writeSnapshot_def split: option.splits if_splits)

lemma activeLocalDir_dir: "activeLocalDir env f = Some (dir, f') \<Longrightarrow> dir = be_local env \<or> dir = uploadBackupDir env"
  by (auto simp: activeLocalDir_def split: option.splits)

definition dumped :: "backup_env \<Rightarrow> path \<Rightarrow> string \<Rightarrow> db \<Rightarrow> manifest \<Rightarrow> instant \<Rightarrow> fs \<Rightarrow> bool" where
  "dumped env dir url d m now f \<longleftrightarrow>
     (\<exists>bytes. be_pgDump env url d = Some bytes \<and> bytes \<noteq> [] \<and> fs_files f (dump_path dir now) = Some bytes \<and>
        ck_dump (mf_checksums m) = be_sha256 env bytes) \<and>
     (\<forall>a \<in> set (attachments d). \<not> attachment_missing env f a) \<and>
     (mf_offsite m = BS_VERIFIED \<longrightarrow>
        checksumForFile env (dump_path (be_offsite env) now) f = ck_dump (mf_checksums m))"

lemma writeArtifacts_dumped:
  assumes w: "writeArtifacts env ty user d url dir now f = (f', m')" and v: "mf_localVerified m'"
  shows "dumped env dir url d m' now f'" "ar_dump (mf_artifacts m') = backup_file now ''.dump''"
proof -
  let ?p = "dump_path dir now"
  obtain f1 ok where n: "nativeDump env url d ?p f = (f1, ok)" by (cases "nativeDump env url d ?p f")
  define f2 where "f2 = try_fs (writeFile (join dir (backup_file now ''_globals.sql''))
                 (''-- GMS Globals Dump '' @ isoStamp now @ [CHR 0x0A] @ ''-- Roles and tablespaces'' @ [CHR 0x0A])) f1"
  obtain f3 ar where a: "archiveUploads env d (join dir (backup_file now ''_attachments.json'')) f2 = (f3, ar)"
    by (cases "archiveUploads env d (join dir (backup_file now ''_attachments.json'')) f2")
  define m where "m = build_manifest env ty user d dir ok ar now f3"
  define f4 where "f4 = try_fs (writeFile (join dir (backup_file now ''_manifest.json'')) (be_manifestText env m)) f3"
  have c: "copyOffsite env dir m (re_checksum ar) now f4 = (f', m')"
    using w n a unfolding writeArtifacts_def f4_def m_def f2_def
    by (simp add: backup_paths dump_path_def Let_def)
  note co = copyOffsite_stable [OF c]
  have st: "stable ?p f1 f2" "stable ?p f3 f4"
    unfolding f2_def f4_def by (rule stable_try_write, simp add: backup_paths other_artifact)+
  have ar: "stable ?p f2 f3" "re_ok ar \<Longrightarrow> x \<in> set (attachments d) \<Longrightarrow> \<not> attachment_missing env f3 x" for x
    using archiveUploads_stable(1) [OF a, of ?p] archiveUploads_stable(2) [OF a, where p = ?p and a = x]
    by (simp_all add: backup_paths other_artifact)
  have later: "stable ?p f3 f'" using stable_trans [OF st(2) co(1)] .
  have m: "ok" "re_ok ar" "checksumForFile env ?p f3 \<noteq> []" "ck_dump (mf_checksums m) = checksumForFile env ?p f3"
    "\<exists>s. fs_files f3 ?p = Some s \<and> s \<noteq> []" "mf_offsite m = BS_PENDING" "ar_dump (mf_artifacts m) = backup_file now ''.dump''"
    using v unfolding co(2) m_def build_manifest_def
    by (auto simp: signed_def Let_def backup_paths dump_path_def split: option.splits)
  show "ar_dump (mf_artifacts m') = backup_file now ''.dump''" using co(3) m(7) by simp
  obtain s where s: "be_pgDump env url d = Some s" "fs_files f1 ?p = Some s"
    using nativeDump_ok [of env url d ?p f f1] n m(1) by auto
  have kept: "fs_files f3 ?p = Some s" "fs_files f' ?p = Some s"
    using s(2) st(1) ar(1) later by (simp_all add: stable_def)
  have "\<not> attachment_missing env f' x" if "x \<in> set (attachments d)" for x
    using stable_present [OF later ar(2) [OF m(2) that]] .
  moreover have "checksumForFile env (dump_path (be_offsite env) now) f' = ck_dump (mf_checksums m')" if "mf_offsite m' = BS_VERIFIED"
    using co(6) [OF that] m(6) co(4) by simp
  moreover have "ck_dump (mf_checksums m') = be_sha256 env s" "s \<noteq> []"
    using co(4) m(4,5) kept(1) by (auto simp: checksumForFile_def)
  ultimately show "dumped env dir url d m' now f'" using s(1) kept(2) by (auto simp: dumped_def)
qed

text \<open>A backup returns a manifest only when it found a place for its snapshot and a database to dump.\<close>

lemma create_cases:
  assumes "createNativePgDumpBackup env d f ty user now = ((d', f'), r)"
  obtains (failed) e where "r = Inl e" "d' = d"
  | (made) dir url f2 m where "r = Inr m" "dir \<in> {be_local env, uploadBackupDir env}" "dumpUrl env = Inr url"
      "writeArtifacts env ty user d url dir now f2 = (f', m)" "same_data d d'"
proof (cases r)
  case (Inl e)
  have "d' = d" using assms unfolding Inl
    by (auto simp: createNativePgDumpBackup_def Let_def split: option.splits prod.splits sum.splits)
  with Inl show ?thesis by (rule failed)
next
  case (Inr m)
  obtain dir0 f1 where a: "activeLocalDir env (ensureBackupDirectories env f) = Some (dir0, f1)"
    using assms Inr by (auto simp: createNativePgDumpBackup_def split: option.splits)
  let ?w = "writeSnapshot env dir0 (backup_file now ''_snapshot.json'') (be_payloadText env (jsonPayload env d user now)) f1"
  obtain f2 x where w: "?w = (f2, x)" by (cases ?w)
  obtain dir where x: "x = Inr dir" using assms Inr a w by (cases x) (auto simp: createNativePgDumpBackup_def)
  obtain url where u: "dumpUrl env = Inr url"
    using assms Inr a w x by (cases "dumpUrl env") (auto simp: createNativePgDumpBackup_def)
  obtain f3 m' where y: "writeArtifacts env ty user d url dir now f2 = (f3, m')" by (cases "writeArtifacts env ty user d url dir now f2")
  have d: "dir \<in> {be_local env, uploadBackupDir env}"
    using activeLocalDir_dir [OF a] writeSnapshot_dir [OF w [unfolded x]] by auto
  have "m' = m" "f3 = f'" "same_data d d'"
    using assms Inr a w x u y same_data_siteLog by (auto simp: createNativePgDumpBackup_def)
  with d u y Inr show ?thesis by (intro made) auto
qed

text \<open>
  C24. (safety) A backup that is recorded as verified is one. The dump in the directory of the backup
  is the non-empty output of pg_dump on the database as it was, the manifest has its checksum, and
  the file of every attachment row was there; the copy at the second site, where the manifest calls
  it verified, has the same checksum. Making the backup changes no table but the activity log.
\<close>
theorem backup_verified:
  assumes "createNativePgDumpBackup env d f ty user now = ((d', f'), Inr m)" "mf_localVerified m"
  shows "\<exists>dir \<in> {be_local env, uploadBackupDir env}. \<exists>url bytes. dumpUrl env = Inr url \<and>
     be_pgDump env url d = Some bytes \<and> bytes \<noteq> [] \<and>
     fs_files f' (join dir (ar_dump (mf_artifacts m))) = Some bytes \<and> ck_dump (mf_checksums m) = be_sha256 env bytes \<and>
     (\<forall>a \<in> set (attachments d). \<not> attachment_missing env f' a) \<and>
     (mf_offsite m = BS_VERIFIED \<longrightarrow>
        checksumForFile env (join (be_offsite env) (ar_dump (mf_artifacts m))) f' = be_sha256 env bytes) \<and> same_data d d'"
  using assms(1)
proof (cases rule: create_cases)
  case (made dir url f2 m1)
  then have m: "m1 = m" by simp
  have dir: "be_local env = dir \<or> uploadBackupDir env = dir" using made(2) by auto
  show ?thesis
    using writeArtifacts_dumped [OF made(4) [unfolded m] assms(2)] made(3,5) dir
    by (auto simp: dumped_def dump_path_def backup_paths)
qed simp

end
