(* ===== verification/Gms_Restore.thy ===== *)
theory Gms_Restore
  imports Gms_Backup Gms_JsValues
begin

text \<open>
  Restoring (settings/database-backup.service.ts and the routes of database-backup.controller.ts):
  from a backup on the server, and from a portable bundle, which carries dump and attachments. A
  rename moves a file; moving a directory counts as a failure.
\<close>

section \<open>Finding the artifacts\<close>

definition backup_dirs :: "backup_env \<Rightarrow> path list" where
  "backup_dirs env = [be_local env, be_offsite env, uploadBackupDir env]"

definition locate :: "backup_env \<Rightarrow> fs \<Rightarrow> string \<Rightarrow> path option" where
  "locate env f name = find_first (existsSync f) (map (\<lambda>dir. join dir name) (backup_dirs env))"

definition matches_payload :: "payload_metadata \<Rightarrow> manifest \<Rightarrow> bool" where
  "matches_payload md m \<longleftrightarrow>
     (case truthy_col (pm_backupId md) of None \<Rightarrow> False | Some i \<Rightarrow> mf_backupId m = i) \<or>
     ck_dump (mf_checksums m) = pm_checksum md \<or> mf_createdAt m = pm_createdAt md"

section \<open>Staging and promotion of attachments\<close>

definition entry_path :: "archive_entry \<Rightarrow> string" where
  "entry_path e = (if ae_relativePath e \<noteq> [] then ae_relativePath e else ae_fileName e)"

definition entry_intact :: "backup_env \<Rightarrow> archive_entry \<Rightarrow> bool" where
  "entry_intact env e \<longleftrightarrow> ae_checksum e = [] \<or>
     lower (be_sha256 env (be_unbase64 env (ae_base64 e))) = lower (ae_checksum e)"

text \<open>One entry: entries without content are skipped, the target must lie below the root.\<close>

definition stage_entry :: "backup_env \<Rightarrow> path \<Rightarrow> archive_entry \<Rightarrow> fs \<Rightarrow> fs \<times> bk_reason error option" where
  "stage_entry env base e f =
     (if entry_path e = [] \<or> ae_base64 e = [] then (f, None)
      else
        let target = resolve base (entry_path e)
        in if escapes base target then (f, Some (BadRequest BK_BadPath))
           else (case ensure_dir (butlast target) f of
               None \<Rightarrow> (f, Some (InternalError BK_Disk))
             | Some f1 \<Rightarrow>
                 (case writeFile target (be_unbase64 env (ae_base64 e)) f1 of
                    None \<Rightarrow> (f1, Some (InternalError BK_Disk))
                  | Some f2 \<Rightarrow> (f2, if entry_intact env e then None else Some (BadRequest BK_FileChecksum)))))"

fun stage_files :: "backup_env \<Rightarrow> path \<Rightarrow> archive_entry list \<Rightarrow> fs \<Rightarrow> fs \<times> bk_reason error option" where
  "stage_files env base [] f = (f, None)"
| "stage_files env base (e # es) f =
     (case stage_entry env base e f of
        (f', Some err) \<Rightarrow> (f', Some err)
      | (f', None) \<Rightarrow> stage_files env base es f')"

definition staged_count :: "archive_entry list \<Rightarrow> nat" where
  "staged_count es = length (filter (\<lambda>e. entry_path e \<noteq> [] \<and> ae_base64 e \<noteq> []) es)"

text \<open>Promotion joins the same name to the staging and to the live directory.\<close>

definition promote_entry :: "path \<Rightarrow> path \<Rightarrow> archive_entry \<Rightarrow> fs \<Rightarrow> fs \<times> bool" where
  "promote_entry staging live e f =
     (if entry_path e = [] then (f, True)
      else
        let p = join staging (entry_path e); q = join live (entry_path e)
        in (case ensure_dir (butlast q) f of
              None \<Rightarrow> (f, False)
            | Some f1 \<Rightarrow>
                if existsSync f1 p then (case rename p q f1 of None \<Rightarrow> (f1, False) | Some f2 \<Rightarrow> (f2, True))
                else (f1, True)))"

fun promote_files :: "path \<Rightarrow> path \<Rightarrow> archive_entry list \<Rightarrow> fs \<Rightarrow> fs \<times> bool" where
  "promote_files staging live [] f = (f, True)"
| "promote_files staging live (e # es) f =
     (case promote_entry staging live e f of
        (f', False) \<Rightarrow> (f', False)
      | (f', True) \<Rightarrow> promote_files staging live es f')"

definition fresh_dir :: "path \<Rightarrow> fs \<Rightarrow> fs option" where
  "fresh_dir p f = mkdirs p (if existsSync f p then rm_tree p f else f)"

definition remove_dir :: "path \<Rightarrow> fs \<Rightarrow> fs" where
  "remove_dir p f = (if existsSync f p then rm_tree p f else f)"

section \<open>Restore from a backup on the server\<close>

text \<open>Password, format and checksum of the payload; a refusal that is logged leaves a row.\<close>

definition checkPayload ::
  "backup_env \<Rightarrow> db \<Rightarrow> jwt_user \<Rightarrow> payload option \<Rightarrow> string \<Rightarrow> instant \<Rightarrow> db \<times> (bk_reason error + payload)"
where
  "checkPayload env d user pl password now =
     (case find_user d (ju_id user) of
        None \<Rightarrow> (d, Inl (Unauthorized BK_NoCredentials))
      | Some u \<Rightarrow>
          if u_passwordHash u = [] then (d, Inl (Unauthorized BK_NoCredentials))
          else if \<not> be_verify env (u_passwordHash u) password then
            (siteLog (Some user) ''DATABASE_RESTORE'' ''Database restore blocked: Invalid admin password confirmation''
               ''FAILED'' now d, Inl (Unauthorized BK_BadPassword))
          else (case pl of
              None \<Rightarrow> (d, Inl (BadRequest BK_BadFormat))
            | Some (md, data) \<Rightarrow>
                if pm_system md \<noteq> SYSTEM_NAME then (d, Inl (BadRequest BK_BadFormat))
                else if be_sha256 env (be_dataText env data) \<noteq> pm_checksum md then
                  (siteLog (Some user) ''DATABASE_RESTORE''
                     ''Database restore blocked: Backup file checksum mismatch / corrupted'' ''FAILED'' now d,
                   Inl (BadRequest BK_ChecksumMismatch))
                else (d, Inr (md, data))))"

text \<open>The dump to restore, and the entries of the archive when the manifest has one.\<close>

definition locateBackup :: "backup_env \<Rightarrow> payload_metadata \<Rightarrow> fs \<Rightarrow> fs \<times> (bk_reason error + path \<times> archive_entry list option)" where
  "locateBackup env md f =
     (let (f1, history) = getBackupHistory env f
      in case find_first (matches_payload md) history of
           None \<Rightarrow> (f1, Inl (BadRequest BK_NoManifest))
         | Some m \<Rightarrow>
             if ar_dump (mf_artifacts m) = [] then (f1, Inl (BadRequest BK_NoManifest))
             else (case locate env f1 (ar_dump (mf_artifacts m)) of
                 None \<Rightarrow> (f1, Inl (InternalError BK_DumpMissing))
               | Some dump \<Rightarrow>
                   (case truthy_col (ar_archive (mf_artifacts m)) of
                      None \<Rightarrow> (f1, Inr (dump, None))
                    | Some name \<Rightarrow>
                        (case locate env f1 name of
                           None \<Rightarrow> (f1, Inl (BadRequest BK_ArchiveMissing))
                         | Some p \<Rightarrow>
                             (case (case fs_files f1 p of None \<Rightarrow> None | Some t \<Rightarrow> be_parseArchive env t) of
                                None \<Rightarrow> (f1, Inl (BadRequest BK_ArchiveUnreadable))
                              | Some entries \<Rightarrow> (f1, Inr (dump, entries)))))))"

definition staging_dir :: "backup_env \<Rightarrow> instant \<Rightarrow> path" where
  "staging_dir env now = join (be_uploads env) (''_staging_restore_'' @ decimal (nat now))"

definition stageArchive ::
  "backup_env \<Rightarrow> archive_entry list option \<Rightarrow> instant \<Rightarrow> fs \<Rightarrow> fs \<times> (bk_reason error + unit)"
where
  "stageArchive env entries now f =
     (case entries of
        None \<Rightarrow> (f, Inr ())
      | Some es \<Rightarrow>
          (case fresh_dir (staging_dir env now) f of
             None \<Rightarrow> (f, Inl (InternalError BK_Disk))
           | Some f1 \<Rightarrow>
               (case stage_files env (staging_dir env now) es f1 of
                  (f2, Some err) \<Rightarrow> (remove_dir (staging_dir env now) f2, Inl err)
                | (f2, None) \<Rightarrow> (f2, Inr ()))))"

text \<open>
  \<open>pg_restore\<close> of the dump and the promotion of the staged files; the flag says whether the database
  was replaced.
\<close>

definition applyRestore ::
  "backup_env \<Rightarrow> path \<Rightarrow> archive_entry list option \<Rightarrow> instant \<Rightarrow> db \<Rightarrow> fs \<Rightarrow> (db \<times> fs) \<times> bool \<times> bool"
where
  "applyRestore env dump entries now d f =
     (case truthy_col (be_databaseUrl env) of
        None \<Rightarrow> ((d, f), False, False)
      | Some url \<Rightarrow>
          (case (case fs_files f dump of None \<Rightarrow> None | Some bytes \<Rightarrow> be_pgRestore env url bytes d) of
             None \<Rightarrow> ((d, f), False, False)
           | Some d1 \<Rightarrow>
               (case entries of
                  None \<Rightarrow> ((d1, f), True, True)
                | Some es \<Rightarrow>
                    if existsSync f (staging_dir env now) then
                      (case promote_files (staging_dir env now) (be_uploads env) es f of
                         (f1, False) \<Rightarrow> ((d1, f1), True, False)
                       | (f1, True) \<Rightarrow> ((d1, rm_tree (staging_dir env now) f1), True, True))
                    else ((d1, f), True, True))))"

text \<open>The compensation: the dump of the safety backup, looked for in the local directory.\<close>

definition rollBack :: "backup_env \<Rightarrow> manifest \<Rightarrow> db \<Rightarrow> fs \<Rightarrow> db" where
  "rollBack env m d f =
     (let name = ar_dump (mf_artifacts m)
      in if name = [] then d
         else (case (truthy_col (be_databaseUrl env), fs_files f (join (be_local env) name)) of
             (Some url, Some bytes) \<Rightarrow> val_or (be_pgRestore env url bytes d) d
           | _ \<Rightarrow> d))"

definition restoreDatabase ::
  "backup_env \<Rightarrow> site \<Rightarrow> jwt_user \<Rightarrow> payload option \<Rightarrow> string \<Rightarrow> instant \<Rightarrow> (nat \<times> instant) bk_outcome"
where
  "restoreDatabase env s user pl password now =
     (case checkPayload env (si_db s) user pl password now of
        (d, Inl e) \<Rightarrow> (s\<lparr>si_db := d\<rparr>, Inl e)
      | (d, Inr (md, data)) \<Rightarrow>
          (case locateBackup env md (si_fs s) of
             (f1, Inl e) \<Rightarrow> (s\<lparr>si_fs := f1\<rparr>, Inl e)
           | (f1, Inr (dump, entries)) \<Rightarrow>
               (case stageArchive env entries now f1 of
                  (f2, Inl e) \<Rightarrow> (s\<lparr>si_fs := f2\<rparr>, Inl e)
                | (f2, Inr _) \<Rightarrow>
                    (case runAutomatedScheduledBackup env (s\<lparr>si_fs := f2\<rparr>) AUTO_PRE_RESTORE (Some user) now of
                       (s3, Inl e) \<Rightarrow> (s3, Inl e)
                     | (s3, Inr m) \<Rightarrow>
                         if \<not> mf_localVerified m then
                           (s3\<lparr>si_fs := (if entries = None then si_fs s3 else remove_dir (staging_dir env now) (si_fs s3))\<rparr>,
                            Inl (InternalError BK_SnapshotFailed))
                         else
                           (case applyRestore env dump entries now (si_db s3) (si_fs s3) of
                              ((d4, f4), _, True) \<Rightarrow>
                                (s3\<lparr>si_fs := f4,
                                   si_db := siteLog (Some user) ''DATABASE_RESTORE''
                                     (''Successfully restored database from backup file ('' @ decimal (pm_totalRecords md) @ '' records)'')
                                     ''SUCCESS'' now d4\<rparr>,
                                 Inr (pm_totalRecords md, pm_createdAt md))
                            | ((d4, f4), committed, False) \<Rightarrow>
                                let f5 = (if entries = None then f4 else remove_dir (staging_dir env now) f4);
                                    d5 = (if committed then rollBack env m d4 f5 else d4)
                                in (s3\<lparr>si_fs := f5,
                                      si_db := siteLog (Some user) ''DATABASE_RESTORE'' ''Database restore failed'' ''FAILED'' now d5\<rparr>,
                                    Inl (BadRequest BK_RestoreFailed)))))))"

section \<open>The portable bundle\<close>

text \<open>\<open>/^BKP-\d{4}-\d{2}-\d{2}T\d{2}-\d{2}-\d{2}-\d+Z$/\<close>.\<close>

definition valid_backup_id :: "string \<Rightarrow> bool" where
  "valid_backup_id s \<longleftrightarrow>
     (let digits = (\<lambda>i n. list_all is_digit (take n (drop i s)))
      in 25 < length s \<and> take 4 s = ''BKP-'' \<and> digits 4 4 \<and> s ! 8 = CHR ''-'' \<and> digits 9 2 \<and> s ! 11 = CHR ''-'' \<and>
         digits 12 2 \<and> s ! 14 = CHR ''T'' \<and> digits 15 2 \<and> s ! 17 = CHR ''-'' \<and> digits 18 2 \<and> s ! 20 = CHR ''-'' \<and>
         digits 21 2 \<and> s ! 23 = CHR ''-'' \<and> list_all is_digit (butlast (drop 24 s)) \<and> last s = CHR ''Z'')"

definition chosen_manifest :: "string option \<Rightarrow> manifest list \<Rightarrow> manifest option" where
  "chosen_manifest backupId history =
     (case truthy_col backupId of
        Some i \<Rightarrow> find_first (\<lambda>m. mf_backupId m = i) history
      | None \<Rightarrow> opt_or (find_first mf_localVerified history) (case history of [] \<Rightarrow> None | m # _ \<Rightarrow> Some m))"

definition bundle_of :: "backup_env \<Rightarrow> manifest \<Rightarrow> fs \<Rightarrow> dr_bundle" where
  "bundle_of env m f =
     (let read = (\<lambda>name. case locate env f name of None \<Rightarrow> None | Some p \<Rightarrow> fs_files f p)
      in \<lparr>bu_system = SYSTEM_NAME, bu_createdAt = mf_createdAt m, bu_backupId = mf_backupId m,
          bu_dumpChecksum = ck_dump (mf_checksums m), bu_manifest = m,
          bu_dumpBase64 = (case read (ar_dump (mf_artifacts m)) of None \<Rightarrow> [] | Some s \<Rightarrow> be_base64 env s),
          bu_attachments = (case truthy_col (ar_archive (mf_artifacts m)) of
              None \<Rightarrow> None
            | Some name \<Rightarrow> (case read name of None \<Rightarrow> None | Some t \<Rightarrow> be_parseArchive env t))\<rparr>)"

definition exportPortableBackupBundle ::
  "backup_env \<Rightarrow> fs \<Rightarrow> string option \<Rightarrow> instant \<Rightarrow> fs \<times> (bk_reason error + path)"
where
  "exportPortableBackupBundle env f backupId now =
     (if (case truthy_col backupId of None \<Rightarrow> False | Some i \<Rightarrow> \<not> valid_backup_id i)
      then (f, Inl (BadRequest BK_BadBackupId))
      else
        let (f1, history) = getBackupHistory env f
        in case chosen_manifest backupId history of
             None \<Rightarrow> (f1, Inl (BadRequest BK_NoManifest))
           | Some m \<Rightarrow>
               (case truthy_col (be_secret env) of
                  None \<Rightarrow> (f1, Inl (InternalError BK_NoSecret))
                | Some secret \<Rightarrow>
                    let b = bundle_of env m f1;
                        p = join (be_tmp env) (''gms_dr_bundle_'' @ mf_backupId m @ ''_'' @ decimal (nat now) @ ''.gmsbackup'')
                    in (case writeFile p (be_signedText env (b, be_hmac env secret (be_bundleText env b))) f1 of
                          None \<Rightarrow> (f1, Inl (InternalError BK_Disk))
                        | Some f2 \<Rightarrow> (f2, Inr p))))"

text \<open>\<open>Buffer.from(s, 'hex')\<close>: pairs of digits up to the first that is none.\<close>

fun hex_bytes :: "string \<Rightarrow> nat list" where
  "hex_bytes (a # b # s) =
     (case (digit_value a, digit_value b) of (Some x, Some y) \<Rightarrow> (16 * x + y) # hex_bytes s | _ \<Rightarrow> [])"
| "hex_bytes _ = []"

text \<open>The check of a bundle: \<open>None\<close> is what is no object with metadata.\<close>

definition checkBundle :: "backup_env \<Rightarrow> db \<Rightarrow> jwt_user \<Rightarrow> (dr_bundle \<times> string option) option \<Rightarrow> string \<Rightarrow> bk_reason error + dr_bundle" where
  "checkBundle env d user pl password =
     (case pl of
        None \<Rightarrow> Inl (BadRequest BK_BadFormat)
      | Some (b, sig) \<Rightarrow>
          if bu_system b \<noteq> SYSTEM_NAME \<or> bu_dumpBase64 b = [] then Inl (BadRequest BK_BadFormat)
          else (case truthy_col sig of
              None \<Rightarrow> Inl (BadRequest BK_Unsigned)
            | Some signature \<Rightarrow>
                (case truthy_col (be_secret env) of
                   None \<Rightarrow> Inl (InternalError BK_NoSecret)
                 | Some secret \<Rightarrow>
                     if hex_bytes signature \<noteq> hex_bytes (be_hmac env secret (be_bundleText env b))
                     then Inl (BadRequest BK_SignatureMismatch)
                     else (case find_user d (ju_id user) of
                         None \<Rightarrow> Inl (Unauthorized BK_NoCredentials)
                       | Some u \<Rightarrow>
                           if u_passwordHash u = [] then Inl (Unauthorized BK_NoCredentials)
                           else if \<not> be_verify env (u_passwordHash u) password then Inl (Unauthorized BK_BadPassword)
                           else Inr b))))"

definition bundle_staging :: "backup_env \<Rightarrow> instant \<Rightarrow> path" where
  "bundle_staging env now = join (be_local env) (''_staging_bundle_'' @ decimal (nat now))"

text \<open>Staging, verification and promotion of the attachments of a bundle, after the database.\<close>

definition stage_bundle_entry :: "backup_env \<Rightarrow> path \<Rightarrow> archive_entry \<Rightarrow> fs \<Rightarrow> fs \<times> bk_reason error option" where
  "stage_bundle_entry env base e f =
     (if entry_path e = [] \<or> ae_base64 e = [] then (f, None)
      else
        let target = resolve base (entry_path e)
        in if escapes base target then (f, Some (BadRequest BK_BadPath))
           else (case ensure_dir (butlast target) f of
               None \<Rightarrow> (f, Some (InternalError BK_Disk))
             | Some f1 \<Rightarrow>
                 if \<not> entry_intact env e then (f1, Some (BadRequest BK_FileChecksum))
                 else (case writeFile target (be_unbase64 env (ae_base64 e)) f1 of
                     None \<Rightarrow> (f1, Some (InternalError BK_Disk))
                   | Some f2 \<Rightarrow> (f2, None))))"

fun stage_bundle_files :: "backup_env \<Rightarrow> path \<Rightarrow> archive_entry list \<Rightarrow> fs \<Rightarrow> fs \<times> bk_reason error option" where
  "stage_bundle_files env base [] f = (f, None)"
| "stage_bundle_files env base (e # es) f =
     (case stage_bundle_entry env base e f of
        (f', Some err) \<Rightarrow> (f', Some err)
      | (f', None) \<Rightarrow> stage_bundle_files env base es f')"

definition restoreBundleFiles :: "backup_env \<Rightarrow> dr_bundle \<Rightarrow> instant \<Rightarrow> fs \<Rightarrow> fs \<times> (bk_reason error + nat)" where
  "restoreBundleFiles env b now f =
     (case bu_attachments b of
        Some (Some es) \<Rightarrow>
          let base = join (bundle_staging env now) ''attachments''
          in (case mkdirs base f of
                None \<Rightarrow> (f, Inl (InternalError BK_Disk))
              | Some f1 \<Rightarrow>
                  (case stage_bundle_files env base es f1 of
                     (f2, Some err) \<Rightarrow> (f2, Inl err)
                   | (f2, None) \<Rightarrow>
                       (case ensure_dir (be_uploads env) f2 of
                          None \<Rightarrow> (f2, Inl (InternalError BK_Disk))
                        | Some f3 \<Rightarrow>
                            (case promote_files base (be_uploads env) es f3 of
                               (f4, False) \<Rightarrow> (f4, Inl (InternalError BK_Disk))
                             | (f4, True) \<Rightarrow> (f4, Inr (staged_count es))))))
      | _ \<Rightarrow> (f, Inr 0))"

text \<open>
  The body of the try block: the state it leaves, the manifest of the safety backup once it was
  made, and the answer.
\<close>

definition applyBundle ::
  "backup_env \<Rightarrow> site \<Rightarrow> dr_bundle \<Rightarrow> jwt_user \<Rightarrow> instant \<Rightarrow> site \<times> manifest option \<times> (bk_reason error + nat)"
where
  "applyBundle env s b user now =
     (let dumpBuffer = be_unbase64 env (bu_dumpBase64 b)
      in case writeFile (join (bundle_staging env now) ''restored_portable.dump'') dumpBuffer (si_fs s) of
           None \<Rightarrow> (s, None, Inl (InternalError BK_Disk))
         | Some f1 \<Rightarrow>
             if bu_dumpChecksum b \<noteq> [] \<and> be_sha256 env dumpBuffer \<noteq> bu_dumpChecksum b
             then (s\<lparr>si_fs := f1\<rparr>, None, Inl (BadRequest BK_DumpChecksum))
             else
               (case runAutomatedScheduledBackup env (s\<lparr>si_fs := f1\<rparr>) AUTO_PRE_RESTORE (Some user) now of
                  (s2, Inl e) \<Rightarrow> (s2, None, Inl e)
                | (s2, Inr m) \<Rightarrow>
                    if \<not> mf_localVerified m then (s2, Some m, Inl (InternalError BK_SnapshotFailed))
                    else
                      (case truthy_col (be_databaseUrl env) of
                         None \<Rightarrow> (s2, Some m, Inl (InternalError BK_NoUrl))
                       | Some url \<Rightarrow>
                           (case (case fs_files (si_fs s2) (join (bundle_staging env now) ''restored_portable.dump'') of
                                None \<Rightarrow> None | Some bytes \<Rightarrow> be_pgRestore env url bytes (si_db s2)) of
                              None \<Rightarrow> (s2, Some m, Inl (InternalError BK_RestoreFailed))
                            | Some d3 \<Rightarrow>
                                (case restoreBundleFiles env b now (si_fs s2) of
                                   (f3, Inl e) \<Rightarrow> (s2\<lparr>si_db := d3, si_fs := f3\<rparr>, Some m, Inl e)
                                 | (f3, Inr n) \<Rightarrow>
                                     (s2\<lparr>si_fs := f3,
                                        si_db := siteLog (Some user) ''DATABASE_RESTORE''
                                          (''Successfully restored database from portable bundle ('' @ bu_backupId b @ '')'')
                                          ''SUCCESS'' now d3\<rparr>,
                                      Some m, Inr n))))))"

definition restoreFromPortableBundle ::
  "backup_env \<Rightarrow> site \<Rightarrow> jwt_user \<Rightarrow> (dr_bundle \<times> string option) option \<Rightarrow> string \<Rightarrow> instant \<Rightarrow> (string \<times> nat) bk_outcome"
where
  "restoreFromPortableBundle env s user pl password now =
     (case checkBundle env (si_db s) user pl password of
        Inl e \<Rightarrow> (s, Inl e)
      | Inr b \<Rightarrow>
          (case fresh_dir (bundle_staging env now) (si_fs s) of
             None \<Rightarrow> (s, Inl (InternalError BK_Disk))
           | Some f1 \<Rightarrow>
               (case applyBundle env (s\<lparr>si_fs := f1\<rparr>) b user now of
                  (s2, _, Inr n) \<Rightarrow> (s2\<lparr>si_fs := remove_dir (bundle_staging env now) (si_fs s2)\<rparr>, Inr (bu_backupId b, n))
                | (s2, m, Inl e) \<Rightarrow>
                    (s2\<lparr>si_db := (case m of None \<Rightarrow> si_db s2 | Some m' \<Rightarrow> rollBack env m' (si_db s2) (si_fs s2)),
                        si_fs := remove_dir (bundle_staging env now) (si_fs s2)\<rparr>, Inl e))))"

section \<open>Routes\<close>

definition restoreRoute ::
  "backup_env \<Rightarrow> site \<Rightarrow> jwt_user \<Rightarrow> payload option \<Rightarrow> string \<Rightarrow> instant \<Rightarrow> (nat \<times> instant) bk_outcome"
where
  "restoreRoute env s user pl password now =
     (if be_production env then (s, Inl (Forbidden BK_ProductionOnly)) else restoreDatabase env s user pl password now)"

definition restoreBundleRoute ::
  "backup_env \<Rightarrow> site \<Rightarrow> jwt_user \<Rightarrow> (dr_bundle \<times> string option) option \<Rightarrow> string \<Rightarrow> instant \<Rightarrow> (string \<times> nat) bk_outcome"
where
  "restoreBundleRoute env s user pl password now =
     (if be_production env then (s, Inl (Forbidden BK_ProductionOnly))
      else restoreFromPortableBundle env s user pl password now)"

end
