(* ===== verification/Gms_Recovery.thy ===== *)
theory Gms_Recovery
  imports Gms_Verified Gms_Restore
begin

text \<open>
  When and how the database is replaced: what guards a restore, what is left when it fails, and
  what guards the restore of a portable bundle.
\<close>

section \<open>The safety backup\<close>

lemma backup_run:
  assumes "runAutomatedScheduledBackup env s ty user now = (s', r)"
  shows "same_data (si_db s) (si_db s')"
    "r = Inr m \<Longrightarrow> \<not> si_running s \<and>
       (\<exists>f'. createNativePgDumpBackup env (si_db s) (si_fs s) ty user now = ((si_db s', f'), Inr m))"
proof -
  obtain d' f' r' where c: "createNativePgDumpBackup env (si_db s) (si_fs s) ty user now = ((d', f'), r')"
    by (metis surj_pair)
  have "same_data (si_db s) d'" using c by (cases rule: create_cases) auto
  then show "same_data (si_db s) (si_db s')"
    using assms c by (auto simp: runAutomatedScheduledBackup_def split: if_splits sum.splits)
  show "r = Inr m \<Longrightarrow> \<not> si_running s \<and>
       (\<exists>f'. createNativePgDumpBackup env (si_db s) (si_fs s) ty user now = ((si_db s', f'), Inr m))"
    using assms c by (auto simp: runAutomatedScheduledBackup_def split: if_splits sum.splits)
qed

text \<open>\<open>pg_restore\<close> of a dump of the database gives that database back, whatever was there before.\<close>

definition pg_faithful :: "backup_env \<Rightarrow> db \<Rightarrow> bool" where
  "pg_faithful env d \<longleftrightarrow>
     (\<forall>url url' bytes d0. be_pgDump env url d = Some bytes \<longrightarrow> be_pgRestore env url' bytes d0 = Some d)"

text \<open>The safety dump is where the compensation looks for it.\<close>

definition dump_at_hand :: "backup_env \<Rightarrow> db \<Rightarrow> instant \<Rightarrow> fs \<Rightarrow> bool" where
  "dump_at_hand env d now f \<longleftrightarrow>
     (case dumpUrl env of
        Inl _ \<Rightarrow> False
      | Inr url \<Rightarrow> fs_files f (join (be_local env) (backup_file now ''.dump'')) = be_pgDump env url d)"

lemma create_names:
  assumes "createNativePgDumpBackup env d f ty user now = ((d', f'), Inr m)"
  shows "ar_dump (mf_artifacts m) = backup_file now ''.dump''"
  using assms
proof (cases rule: create_cases)
  case (made dir url f2 m1)
  let ?d = "join dir (backup_file now ''.dump'')"
  obtain f1 ok f3 ar f4 m0 where c: "copyOffsite env dir m0 (re_checksum ar) now f4 = (f', m1)"
    and m0: "m0 = build_manifest env ty user d dir ok ar now f3"
    using made(4) by (auto simp: writeArtifacts_def Let_def split: prod.splits)
  have "ar_dump (mf_artifacts m0) = backup_file now ''.dump''" by (simp add: m0 build_manifest_def signed_def Let_def)
  then show ?thesis using copyOffsite_stable(3) [OF c] made(1) by simp
qed simp

lemma rollBack_restores:
  assumes "createNativePgDumpBackup env d f ty user now = ((d', f'), Inr m)" "pg_faithful env d" "dump_at_hand env d now g"
  shows "rollBack env m d0 g = d \<or> rollBack env m d0 g = d0"
    "truthy_col (be_databaseUrl env) \<noteq> None \<Longrightarrow> mf_localVerified m \<Longrightarrow> rollBack env m d0 g = d"
proof -
  note name = create_names [OF assms(1)]
  have ne: "backup_file now ''.dump'' \<noteq> []" by (simp add: backup_file_def)
  obtain url where u: "dumpUrl env = Inr url" "fs_files g (join (be_local env) (backup_file now ''.dump'')) = be_pgDump env url d"
    using assms(3) by (auto simp: dump_at_hand_def split: sum.splits)
  have again: "be_pgDump env url d = Some bytes \<Longrightarrow> be_pgRestore env url' bytes d0 = Some d" for bytes url'
    using assms(2) by (auto simp: pg_faithful_def)
  show "rollBack env m d0 g = d \<or> rollBack env m d0 g = d0"
    by (cases "be_pgDump env url d"; cases "truthy_col (be_databaseUrl env)")
      (simp_all add: rollBack_def name ne u(2) again)
  assume t: "truthy_col (be_databaseUrl env) \<noteq> None" and v: "mf_localVerified m"
  have "be_pgDump env url d \<noteq> None"
    using assms(1)
  proof (cases rule: create_cases)
    case (made dir url1 f2 m1)
    then show ?thesis using writeArtifacts_dumped(1) [OF made(4)] v u(1) by (auto simp: dumped_def)
  qed simp
  then show "rollBack env m d0 g = d" using t by (auto simp: rollBack_def name ne u(2) again)
qed

section \<open>Restore from a backup on the server\<close>

lemma checkPayload_data: "checkPayload env d user pl password now = (d', r) \<Longrightarrow> same_data d d'"
  using same_data_siteLog by (auto simp: checkPayload_def Let_def split: option.splits if_splits prod.splits)

text \<open>What the password, the format and the checksum of the payload must be.\<close>

definition admitted :: "backup_env \<Rightarrow> db \<Rightarrow> jwt_user \<Rightarrow> payload option \<Rightarrow> string \<Rightarrow> payload \<Rightarrow> bool" where
  "admitted env d user pl password p \<longleftrightarrow> pl = Some p \<and> pm_system (fst p) = SYSTEM_NAME \<and>
     be_sha256 env (be_dataText env (snd p)) = pm_checksum (fst p) \<and>
     (case find_user d (ju_id user) of None \<Rightarrow> False
      | Some u \<Rightarrow> u_passwordHash u \<noteq> [] \<and> be_verify env (u_passwordHash u) password)"

lemma checkPayload_admitted:
  "checkPayload env d user pl password now = (d', Inr p) \<Longrightarrow> d' = d \<and> admitted env d user pl password p"
  by (auto simp: checkPayload_def admitted_def Let_def split: option.splits if_splits prod.splits)

lemma applyRestore_uncommitted: "applyRestore env dump entries now d f = ((d', f'), False, ok) \<Longrightarrow> d' = d \<and> \<not> ok"
  by (auto simp: applyRestore_def split: option.splits prod.splits bool.splits if_splits)

lemma applyRestore_committed:
  "applyRestore env dump entries now d f = ((d', f'), True, ok) \<Longrightarrow>
     \<exists>url bytes. truthy_col (be_databaseUrl env) = Some url \<and> fs_files f dump = Some bytes \<and> be_pgRestore env url bytes d = Some d'"
  by (auto simp: applyRestore_def split: option.splits prod.splits bool.splits if_splits)

text \<open>A restore is refused and leaves the tables alone, or it got as far as the safety backup.\<close>

lemma restore_cases:
  assumes "restoreDatabase env s user pl password now = (s', r)"
  obtains (refused) e where "r = Inl e" "same_data (si_db s) (si_db s')"
  | (applied) p f1 dump entries f2 s3 m d4 f4 committed ok where
      "admitted env (si_db s) user pl password p"
      "locateBackup env (fst p) (si_fs s) = (f1, Inr (dump, entries))"
      "stageArchive env entries now f1 = (f2, Inr ())"
      "runAutomatedScheduledBackup env (s\<lparr>si_fs := f2\<rparr>) AUTO_PRE_RESTORE (Some user) now = (s3, Inr m)"
      "mf_localVerified m"
      "applyRestore env dump entries now (si_db s3) (si_fs s3) = ((d4, f4), committed, ok)"
      "ok \<Longrightarrow> r = Inr (pm_totalRecords (fst p), pm_createdAt (fst p)) \<and> same_data d4 (si_db s')"
      "\<not> ok \<Longrightarrow> r = Inl (BadRequest BK_RestoreFailed) \<and>
         same_data (if committed then rollBack env m d4 (si_fs s') else d4) (si_db s')"
proof -
  obtain d x where c: "checkPayload env (si_db s) user pl password now = (d, x)"
    by (cases "checkPayload env (si_db s) user pl password now")
  note unf = restoreDatabase_def
  show thesis
  proof (cases x)
    case (Inl e)
    then show ?thesis using assms c checkPayload_data [OF c] by (intro refused [of e]) (auto simp: unf)
  next
    case x: (Inr p)
    obtain md data where p: "p = (md, data)" by (cases p)
    have adm: "d = si_db s" "admitted env (si_db s) user pl password p" using checkPayload_admitted c x by blast+
    obtain f1 y where l: "locateBackup env md (si_fs s) = (f1, y)" by (cases "locateBackup env md (si_fs s)")
    show ?thesis
    proof (cases y)
      case (Inl e)
      then show ?thesis using assms c x p l by (intro refused [of e]) (auto simp: unf)
    next
      case y: (Inr z)
      obtain dump entries where z: "z = (dump, entries)" by (cases z)
      obtain f2 w where st: "stageArchive env entries now f1 = (f2, w)" by (cases "stageArchive env entries now f1")
      show ?thesis
      proof (cases w)
        case (Inl e)
        then show ?thesis using assms c x p l y z st by (intro refused [of e]) (auto simp: unf)
      next
        case w: (Inr v)
        obtain s3 q where b: "runAutomatedScheduledBackup env (s\<lparr>si_fs := f2\<rparr>) AUTO_PRE_RESTORE (Some user) now = (s3, q)"
          by (cases "runAutomatedScheduledBackup env (s\<lparr>si_fs := f2\<rparr>) AUTO_PRE_RESTORE (Some user) now")
        have same: "same_data (si_db s) (si_db s3)" using backup_run(1) [OF b] by simp
        have run: "restoreDatabase env s user pl password now =
            (case (s3, q) of (s3, Inl e) \<Rightarrow> (s3, Inl e) | (s3, Inr m) \<Rightarrow> restoreDatabase env s user pl password now)"
          using c x p l y z st w b by (cases q) (simp_all add: unf)
        show ?thesis
        proof (cases q)
          case (Inl e)
          then show ?thesis using assms run same by (intro refused [of e]) auto
        next
          case q: (Inr m)
          obtain d4 f4 committed ok where a: "applyRestore env dump entries now (si_db s3) (si_fs s3) = ((d4, f4), committed, ok)"
            by (metis surj_pair)
          note eq = assms [unfolded unf c x p adm(1)] 
          show ?thesis
          proof (cases "mf_localVerified m")
            case False
            then show ?thesis using eq l y z st w b q same by (intro refused [of "InternalError BK_SnapshotFailed"]) auto
          next
            case True
            show ?thesis
              using eq l y z st w b q True a p adm(2) same_data_siteLog
              by (intro applied [of p f1 dump entries f2 s3 m d4 f4 committed ok]) (auto simp: Let_def)
          qed
        qed
      qed
    qed
  qed
qed

lemma locateBackup_found:
  assumes "locateBackup env md f = (f1, Inr (dump, entries))"
  shows "\<exists>m \<in> set (snd (getBackupHistory env f)). matches_payload md m \<and> ar_dump (mf_artifacts m) \<noteq> [] \<and>
     dump \<in> (\<lambda>dir. join dir (ar_dump (mf_artifacts m))) ` set (backup_dirs env)"
proof -
  obtain g history where h: "getBackupHistory env f = (g, history)" by (cases "getBackupHistory env f")
  obtain m where m: "find_first (matches_payload md) history = Some m" "ar_dump (mf_artifacts m) \<noteq> []"
      "locate env g (ar_dump (mf_artifacts m)) = Some dump"
    using assms by (auto simp: locateBackup_def h split: option.splits if_splits)
  show ?thesis
    using find_first_SomeD [OF m(1)] m(2) find_first_SomeD [OF m(3) [unfolded locate_def]] h by auto
qed

text \<open>An entry with a name and content lies below the staging directory and has its checksum.\<close>

definition sound_entry :: "backup_env \<Rightarrow> path \<Rightarrow> archive_entry \<Rightarrow> bool" where
  "sound_entry env base e \<longleftrightarrow> entry_path e = [] \<or> ae_base64 e = [] \<or>
     inside base (resolve base (entry_path e)) \<and> entry_intact env e"

lemma stage_entry_sound: "stage_entry env base e f = (f', None) \<Longrightarrow> sound_entry env base e"
  using not_escapes_inside
  by (auto simp: stage_entry_def sound_entry_def Let_def split: if_splits option.splits)

lemma stage_files_sound: "stage_files env base es f = (f', None) \<Longrightarrow> list_all (sound_entry env base) es"
  by (induction es arbitrary: f) (auto dest: stage_entry_sound split: prod.splits option.splits)

lemma stageArchive_sound:
  "stageArchive env entries now f = (f', Inr u) \<Longrightarrow> list_all (sound_entry env (staging_dir env now)) (val_or entries [])"
  using stage_files_sound by (auto simp: stageArchive_def split: option.splits prod.splits)

text \<open>
  C22. (safety) What guards a restore. Either a restore leaves every table but the activity log as
  it was, or all of this holds: the caller's password was right, the payload is one of this system
  and has its checksum, a recorded manifest matches it and names the dump that was found, every
  attachment of its archive with content lies below the staging directory and has its checksum, and
  a backup of the database as it was has just been made and verified.
\<close>
theorem restore_guarded:
  "same_data (si_db s) (si_db (fst (restoreDatabase env s user pl password now))) \<or>
   (\<exists>p f1 dump entries m f2 after safety.
      admitted env (si_db s) user pl password p \<and> locateBackup env (fst p) (si_fs s) = (f1, Inr (dump, entries)) \<and>
      m \<in> set (snd (getBackupHistory env (si_fs s))) \<and> matches_payload (fst p) m \<and>
      dump \<in> (\<lambda>dir. join dir (ar_dump (mf_artifacts m))) ` set (backup_dirs env) \<and>
      list_all (sound_entry env (staging_dir env now)) (val_or entries []) \<and>
      createNativePgDumpBackup env (si_db s) f2 AUTO_PRE_RESTORE (Some user) now = (after, Inr safety) \<and>
      mf_localVerified safety)"
proof -
  obtain s' r where r: "restoreDatabase env s user pl password now = (s', r)"
    by (cases "restoreDatabase env s user pl password now")
  then show ?thesis
  proof (cases rule: restore_cases)
    case (applied p f1 dump entries f2 s3 m d4 f4 committed ok)
    from locateBackup_found [OF applied(2)] obtain m' where m': "m' \<in> set (snd (getBackupHistory env (si_fs s)))"
      "matches_payload (fst p) m'" "dump \<in> (\<lambda>dir. join dir (ar_dump (mf_artifacts m'))) ` set (backup_dirs env)" by blast
    have "\<exists>f'. createNativePgDumpBackup env (si_db s) f2 AUTO_PRE_RESTORE (Some user) now = ((si_db s3, f'), Inr m)"
      using backup_run(2) [OF applied(4)] by simp
    then show ?thesis using applied(1,2,5) m' stageArchive_sound [OF applied(3)] by blast
  qed (simp add: r)
qed

text \<open>
  C21. (safety) A restore that fails leaves every table but the activity log as it was, also when it
  fails after the database was replaced, as long as pg_restore gives back what pg_dump took and the
  safety dump is in the local backup directory.
\<close>
theorem restore_all_or_nothing:
  assumes "restoreDatabase env s user pl password now = (s', Inl e)" "pg_faithful env (si_db s)"
    and "dump_at_hand env (si_db s) now (si_fs s')"
  shows "same_data (si_db s) (si_db s')"
  using assms(1)
proof (cases rule: restore_cases)
  case (applied p f1 dump entries f2 s3 m d4 f4 committed ok)
  have nok: "\<not> ok" using applied(7) by auto
  note final = conjunct2 [OF applied(8) [OF nok]]
  show ?thesis
  proof (cases committed)
    case True
    obtain f' where c: "createNativePgDumpBackup env (si_db s) f2 AUTO_PRE_RESTORE (Some user) now = ((si_db s3, f'), Inr m)"
      using backup_run(2) [OF applied(4)] by auto
    have "truthy_col (be_databaseUrl env) \<noteq> None" using applied(6) True by (auto dest!: applyRestore_committed)
    then show ?thesis using rollBack_restores(2) [OF c assms(2,3) _ applied(5)] final True by simp
  next
    case False
    then have "d4 = si_db s3" using applied(6) by (auto dest!: applyRestore_uncommitted)
    then show ?thesis using final False same_data_trans backup_run(1) [OF applied(4)] by simp
  qed
qed

section \<open>The portable bundle\<close>

lemma checkBundle_ok:
  assumes "checkBundle env d user pl password = Inr b"
  shows "\<exists>signature secret. pl = Some (b, Some signature) \<and> be_secret env = Some secret \<and> secret \<noteq> [] \<and>
     hex_bytes signature = hex_bytes (be_hmac env secret (be_bundleText env b)) \<and> bu_system b = SYSTEM_NAME \<and>
     (\<exists>u. find_user d (ju_id user) = Some u \<and> u_passwordHash u \<noteq> [] \<and> be_verify env (u_passwordHash u) password)"
  using assms by (auto simp: checkBundle_def truthy_col_def split: option.splits if_splits prod.splits)

text \<open>
  The body of the try block: nothing happened, or a safety backup was made and the database is the
  old one, or was replaced by a dump that has the checksum of the bundle.
\<close>

lemma applyBundle_cases:
  assumes "applyBundle env s b user now = (s', m, r)"
  obtains (early) e where "m = None" "r = Inl e" "same_data (si_db s) (si_db s')"
  | (kept) safety f0 after e where "m = Some safety" "r = Inl e" "same_data (si_db s) (si_db s')"
      "createNativePgDumpBackup env (si_db s) f0 AUTO_PRE_RESTORE (Some user) now = (after, Inr safety)"
  | (replaced) safety f0 after url bytes d2 d3 where "m = Some safety" "mf_localVerified safety"
      "createNativePgDumpBackup env (si_db s) f0 AUTO_PRE_RESTORE (Some user) now = (after, Inr safety)"
      "truthy_col (be_databaseUrl env) = Some url" "be_pgRestore env url bytes d2 = Some d3" "same_data d3 (si_db s')"
proof -
  let ?p = "join (bundle_staging env now) ''restored_portable.dump''"
  let ?b = "be_unbase64 env (bu_dumpBase64 b)"
  note unf = applyBundle_def Let_def
  show thesis
  proof (cases "writeFile ?p ?b (si_fs s)")
    case None
    then show ?thesis using assms by (intro early [of "InternalError BK_Disk"]) (auto simp: unf)
  next
    case w: (Some f1)
    show ?thesis
    proof (cases "bu_dumpChecksum b \<noteq> [] \<and> be_sha256 env ?b \<noteq> bu_dumpChecksum b")
      case True
      then show ?thesis using assms w by (intro early [of "BadRequest BK_DumpChecksum"]) (auto simp: unf)
    next
      case ck: False
      obtain s2 q where b: "runAutomatedScheduledBackup env (s\<lparr>si_fs := f1\<rparr>) AUTO_PRE_RESTORE (Some user) now = (s2, q)"
        by (cases "runAutomatedScheduledBackup env (s\<lparr>si_fs := f1\<rparr>) AUTO_PRE_RESTORE (Some user) now")
      have same: "same_data (si_db s) (si_db s2)" using backup_run(1) [OF b] by simp
      show ?thesis
      proof (cases q)
        case (Inl e)
        then show ?thesis using assms w ck b same by (intro early [of e]) (auto simp: unf)
      next
        case q: (Inr safety)
        obtain f' where c: "createNativePgDumpBackup env (si_db s) f1 AUTO_PRE_RESTORE (Some user) now = ((si_db s2, f'), Inr safety)"
          using backup_run(2) [OF b q] by auto
        define bytes where "bytes = fs_files (si_fs s2) ?p"
        define d3 where "d3 = (case bytes of None \<Rightarrow> None | Some x \<Rightarrow> be_pgRestore env (val_or (truthy_col (be_databaseUrl env)) []) x (si_db s2))"
        consider "\<not> mf_localVerified safety" | "mf_localVerified safety" "truthy_col (be_databaseUrl env) = None"
          | url where "mf_localVerified safety" "truthy_col (be_databaseUrl env) = Some url" "d3 = None"
          | url d where "mf_localVerified safety" "truthy_col (be_databaseUrl env) = Some url" "d3 = Some d"
          by (cases "mf_localVerified safety"; cases "truthy_col (be_databaseUrl env)"; cases d3) auto
        then show ?thesis
        proof cases
          case 1
          then show ?thesis using assms w ck b q c same by (intro kept [of safety "InternalError BK_SnapshotFailed"]) (auto simp: unf)
        next
          case 2
          then show ?thesis using assms w ck b q c same by (intro kept [of safety "InternalError BK_NoUrl"]) (auto simp: unf)
        next
          case 3
          have "(case fs_files (si_fs s2) ?p of None \<Rightarrow> None | Some x \<Rightarrow> be_pgRestore env url x (si_db s2)) = None"
            using 3 unfolding d3_def bytes_def by (auto split: option.splits)
          then have "s' = s2" "m = Some safety" "r = Inl (InternalError BK_RestoreFailed)"
            using assms w ck b q 3(1,2) by (auto simp: unf)
          then show ?thesis using c same by (intro kept) auto
        next
          case 4
          obtain x where x: "bytes = Some x" "be_pgRestore env url x (si_db s2) = Some d"
            using 4 by (auto simp: d3_def split: option.splits)
          obtain f3 z where z: "restoreBundleFiles env b now (si_fs s2) = (f3, z)" by (cases "restoreBundleFiles env b now (si_fs s2)")
          have "m = Some safety" "same_data d (si_db s')"
            using assms w ck b q 4 x z same_data_siteLog by (auto simp: unf bytes_def split: sum.splits)
          then show ?thesis using 4 c x by (intro replaced) auto
        qed
      qed
    qed
  qed
qed

text \<open>The staging directory is not where the safety dump is.\<close>

lemma dump_at_hand_staging: "dump_at_hand env d now (remove_dir (bundle_staging env now') f) = dump_at_hand env d now f"
proof -
  have "is_name (''_staging_bundle_'' @ decimal n)" for n
    using slash_decimal by (auto simp: is_name_def slash_def)
  then have "bundle_staging env now' = be_local env @ [''_staging_bundle_'' @ decimal (nat now')]"
    by (simp add: bundle_staging_def join_name)
  then have "\<not> is_prefix_of (bundle_staging env now') (be_local env @ [backup_file now ''.dump''])"
    by (simp add: is_prefix_of_iff backup_file_def)
  then show ?thesis
    by (simp add: dump_at_hand_def backup_paths remove_dir_def rm_tree_def split: sum.splits)
qed


end
