(* ===== verification/Gms_Healthy.thy ===== *)
theory Gms_Healthy
  imports Gms_Recovery
begin

text \<open>
  What a backup writes (files of its own only), and that it is verified when the directories are
  there and writable, pg_dump answers and no attachment file is missing.
\<close>

section \<open>The files of a backup\<close>

text \<open>Only files whose name begins like that of a backup change, and no directory goes.\<close>

definition own_name :: "path \<Rightarrow> bool" where
  "own_name p \<longleftrightarrow> p \<noteq> [] \<and> is_prefix_of ''gms_'' (last p)"

definition own_files :: "fs \<Rightarrow> fs \<Rightarrow> bool" where
  "own_files f f' \<longleftrightarrow> fs_writable f' = fs_writable f \<and> set (fs_dirs f) \<subseteq> set (fs_dirs f') \<and>
     (\<forall>p. fs_files f' p = fs_files f p \<or> own_name p)"

lemma own_files_refl [simp]: "own_files f f"
  by (simp add: own_files_def)

lemma own_files_trans: "own_files f f' \<Longrightarrow> own_files f' f'' \<Longrightarrow> own_files f f''"
  unfolding own_files_def by (metis subset_trans)

lemma own_write: "writeFile p s f = Some f' \<Longrightarrow> own_name p \<Longrightarrow> own_files f f'"
  by (auto simp: writeFile_def own_files_def split: if_splits)

lemma own_try: "(\<And>f'. g f = Some f' \<Longrightarrow> own_files f f') \<Longrightarrow> own_files f (try_fs g f)"
  by (cases "g f") (simp_all add: try_fs_def)

lemma own_ensure: "ensure_dir p f = Some f' \<Longrightarrow> own_files f f'"
  using ensure_dir_frame [of p f f'] by (simp add: own_files_def)

lemma own_unlink: "unlink p f = Some f' \<Longrightarrow> own_name p \<Longrightarrow> own_files f f'"
  by (auto simp: unlink_def own_files_def split: if_splits)

lemma own_rename: "rename p q f = Some f' \<Longrightarrow> own_name p \<Longrightarrow> own_name q \<Longrightarrow> own_files f f'"
  using rename_files [of p q f f'] rename_frame [of p q f f'] by (auto simp: own_files_def)

lemma own_copy: "copyFile p q f = Some f' \<Longrightarrow> own_name q \<Longrightarrow> own_files f f'"
  using own_write by (auto simp: copyFile_def split: option.splits)

lemma own_copy_all: "\<forall>(p, q) \<in> set xs. own_name q \<Longrightarrow> own_files f (fst (copy_all xs f))"
proof (induction xs f rule: copy_all.induct)
  case (2 p q r f)
  then show ?case by (auto split: option.splits dest: own_copy intro: own_files_trans)
qed simp

lemma own_backup_file: "own_name (dir @ [backup_file now suffix])" "own_name (dir @ [backup_file now suffix @ s])"
  by (simp_all add: own_name_def backup_file_def is_prefix_of_iff)

lemmas own_intros = own_files_trans own_write own_try own_ensure own_backup_file

lemma own_nativeDump: "own_files f (fst (nativeDump env url d (dump_path dir now) f))"
proof -
  let ?p = "dump_path dir now"
  let ?q = "butlast ?p @ [last ?p @ ''.partial'']"
  have own: "own_name ?p" "own_name ?q" using own_backup_file by (simp_all add: dump_path_def)
  define body where "body = (case be_pgDump env url d of None \<Rightarrow> (f, False) | Some s \<Rightarrow>
     (case writeFile ?q s f of None \<Rightarrow> (f, False)
      | Some f' \<Rightarrow> (case rename ?q ?p f' of None \<Rightarrow> (f', False) | Some f'' \<Rightarrow> (f'', True))))"
  have "own_files f (fst body)"
    unfolding body_def
    by (auto split: option.splits dest!: own_write [OF _ own(2)] own_rename [OF _ own(2,1)] intro: own_files_trans)
  moreover have "own_files g (try_fs (unlink ?p) g)" for g
    by (rule own_try) (rule own_unlink [OF _ own(1)])
  ultimately show ?thesis
    unfolding nativeDump_def Let_def body_def [symmetric] using own_files_trans by (auto split: prod.splits)
qed

lemma own_archiveUploads: "own_name q \<Longrightarrow> own_files f (fst (archiveUploads env d q f))"
  using own_write by (auto simp: archiveUploads_def Let_def split: option.splits)

lemma own_copyOffsite: "own_files f (fst (copyOffsite env dir m ck now f))"
proof -
  let ?xs = "map (\<lambda>x. (join dir (backup_file now x), join (be_offsite env) (backup_file now x))) backup_suffixes"
  have j: "own_name (join d' (backup_file now x))" if "x \<in> insert ''_manifest.json'' (set backup_suffixes)" for d' x
  proof -
    have "slash \<notin> set x" using that backup_names by (auto simp: backup_suffixes_def)
    then show ?thesis by (simp add: backup_path own_backup_file)
  qed
  have c: "own_files f (fst (copy_all ?xs f))" by (rule own_copy_all) (auto simp: j)
  have w: "writeFile (join d' (backup_file now ''_manifest.json'')) s g = Some g' \<Longrightarrow> own_files g g'" for d' s g g'
    using own_write j by blast
  have t: "own_files g (try_fs (writeFile (join d' (backup_file now ''_manifest.json'')) s) g)" for d' s g
    by (rule own_try) (rule w)
  obtain f1 ok where f1: "copy_all ?xs f = (f1, ok)" by (cases "copy_all ?xs f")
  have "own_files f f1" using c f1 by simp
  then show ?thesis
    unfolding copyOffsite_def f1 Let_def
    by (auto split: option.splits dest!: w intro: own_files_trans [OF _ t] own_files_trans)
qed

lemma own_writeArtifacts: "own_files f (fst (writeArtifacts env ty user d url dir now f))"
proof -
  have t: "own_files g (try_fs (writeFile (join d' (backup_file now x)) s) g)" if "slash \<notin> set x" for d' s g x
    using that by (intro own_try) (auto simp: backup_path intro: own_write own_backup_file)
  obtain f1 ok where n: "nativeDump env url d (dump_path dir now) f = (f1, ok)"
    by (cases "nativeDump env url d (dump_path dir now) f")
  have 1: "own_files f f1" using own_nativeDump [of f env url d dir now] n by simp
  let ?f2 = "try_fs (writeFile (join dir (backup_file now ''_globals.sql''))
                 (''-- GMS Globals Dump '' @ isoStamp now @ [CHR 0x0A] @ ''-- Roles and tablespaces'' @ [CHR 0x0A])) f1"
  let ?a = "archiveUploads env d (join dir (backup_file now ''_attachments.json'')) ?f2"
  obtain f3 ar where a: "?a = (f3, ar)" by (cases ?a)
  have 2: "own_files f1 ?f2" by (rule t) (rule backup_names)
  have 3: "own_files ?f2 f3"
    using own_archiveUploads [of "join dir (backup_file now ''_attachments.json'')" ?f2 env d] a
    by (simp add: backup_paths own_backup_file)
  let ?m = "build_manifest env ty user d dir ok ar now f3"
  let ?f4 = "try_fs (writeFile (join dir (backup_file now ''_manifest.json'')) (be_manifestText env ?m)) f3"
  have 4: "own_files f3 ?f4" by (rule t) (rule backup_names)
  have 5: "own_files ?f4 (fst (copyOffsite env dir ?m (re_checksum ar) now ?f4))" by (rule own_copyOffsite)
  have "writeArtifacts env ty user d url dir now f = copyOffsite env dir ?m (re_checksum ar) now ?f4"
    using n a by (simp add: writeArtifacts_def backup_paths dump_path_def Let_def)
  then show ?thesis
    using own_files_trans [OF 1 own_files_trans [OF 2 own_files_trans [OF 3 own_files_trans [OF 4 5]]]] by simp
qed

lemma own_writeSnapshot: "own_name (join dir name) \<Longrightarrow> own_name (join (uploadBackupDir env) name) \<Longrightarrow>
    own_files f (fst (writeSnapshot env dir name text f))"
  by (auto simp: writeSnapshot_def split: option.splits dest!: own_ensure dest: own_write intro: own_files_trans)

lemma own_activeLocalDir: "activeLocalDir env f = Some (dir, f') \<Longrightarrow> own_files f f'"
  using own_ensure by (auto simp: activeLocalDir_def split: option.splits)

lemma own_ensureBackup: "own_files f (ensureBackupDirectories env f)"
  unfolding ensureBackupDirectories_def using own_try own_ensure own_files_trans by metis

lemma own_create: "own_files f (snd (fst (createNativePgDumpBackup env d f ty user now)))"
proof (cases "activeLocalDir env (ensureBackupDirectories env f)")
  case None
  then show ?thesis by (simp add: createNativePgDumpBackup_def own_ensureBackup)
next
  case (Some x)
  obtain dir f1 where x: "x = (dir, f1)" by (cases x)
  have 1: "own_files f f1"
    using own_files_trans [OF own_ensureBackup own_activeLocalDir [OF Some [unfolded x]]] .
  let ?w = "writeSnapshot env dir (backup_file now ''_snapshot.json'') (be_payloadText env (jsonPayload env d user now)) f1"
  obtain f2 y where w: "?w = (f2, y)" by (cases ?w)
  have "own_files f1 f2"
    using own_writeSnapshot [of dir "backup_file now ''_snapshot.json''" env f1] w
    by (simp add: backup_paths own_backup_file split: prod.splits)
      (metis fst_conv)
  then have 2: "own_files f f2" using own_files_trans [OF 1] by blast
  show ?thesis
  proof (cases y)
    case (Inl e)
    then show ?thesis using 2 by (simp add: createNativePgDumpBackup_def Some x w)
  next
    case y: (Inr dir')
    show ?thesis
    proof (cases "dumpUrl env")
      case (Inl e)
      then show ?thesis using 2 y by (simp add: createNativePgDumpBackup_def Some x w)
    next
      case (Inr url)
      then show ?thesis
        using 2 y own_files_trans [OF 2 own_writeArtifacts]
        by (simp add: createNativePgDumpBackup_def Some x w split: prod.splits) (metis fst_conv)
    qed
  qed
qed

section \<open>A healthy site\<close>

text \<open>
  The two directories are there, the local one takes the files of a backup and lies outside the
  uploads, pg_dump answers, the checksum of a file is not empty, and no attachment file is missing.
\<close>

definition healthy :: "backup_env \<Rightarrow> db \<Rightarrow> fs \<Rightarrow> bool" where
  "healthy env d f \<longleftrightarrow> be_local env \<in> set (fs_dirs f) \<and> be_offsite env \<in> set (fs_dirs f) \<and>
     (\<forall>p. own_name p \<and> butlast p = be_local env \<longrightarrow>
        fs_writable f p \<and> p \<notin> set (fs_dirs f) \<and> \<not> inside (be_uploads env) p) \<and>
     (\<exists>url bytes. dumpUrl env = Inr url \<and> be_pgDump env url d = Some bytes \<and> bytes \<noteq> []) \<and>
     (\<forall>s. be_sha256 env s \<noteq> []) \<and> (\<forall>a \<in> set (attachments d). \<not> attachment_missing env f a)"

definition same_shape :: "fs \<Rightarrow> fs \<Rightarrow> bool" where
  "same_shape f f' \<longleftrightarrow> fs_dirs f' = fs_dirs f \<and> fs_writable f' = fs_writable f"

lemma same_shape_write: "writeFile p s f = Some f' \<Longrightarrow> same_shape f f'"
  by (auto simp: writeFile_def same_shape_def split: if_splits)

lemma same_shape_try_write: "same_shape f (try_fs (writeFile p s) f)"
  using same_shape_write [of p s f] by (cases "writeFile p s f") (auto simp: try_fs_def same_shape_def)

lemma healthy_put:
  assumes "healthy env d f" "same_shape f g" "slash \<notin> set suffix"
  shows "can_put g (be_local env @ [backup_file now suffix])"
  using assms own_backup_file(1) [of "be_local env" now suffix]
  by (simp add: healthy_def same_shape_def can_put_def)

lemma nativeDump_succeeds:
  assumes "can_put f p" "can_put f (butlast p @ [last p @ ''.partial''])" "be_pgDump env url d = Some s" "p \<noteq> []"
  shows "\<exists>f'. nativeDump env url d p f = (f', True) \<and> same_shape f f' \<and>
    (\<forall>q. q \<noteq> butlast p @ [last p @ ''.partial''] \<longrightarrow> existsSync f q \<longrightarrow> existsSync f' q)"
proof -
  have "butlast p @ [last p @ ''.partial''] \<noteq> p" using assms(4) by (metis append_butlast_last_id append_self_conv last_snoc list.discI)
  with assms show ?thesis
    by (auto simp: nativeDump_def Let_def writeFile_def rename_def can_put_def same_shape_def existsSync_def)
qed

lemma archive_succeeds:
  assumes "can_put f q" "\<forall>a \<in> set (attachments d). \<not> attachment_missing env f a"
  shows "re_ok (snd (archiveUploads env d q f))"
proof -
  have "filter (attachment_missing env f) (attachments d) = []" using assms(2) by (simp add: filter_empty_conv)
  moreover have st: "stable [] f (put_file q s f)" if "q \<noteq> []" for s using that by (intro stable_put) simp
  have "filter (attachment_missing env (put_file q s f)) (attachments d) = []" if "q \<noteq> []" for s
    using assms(2) stable_present [OF st [OF that]] by (simp add: filter_empty_conv)
  moreover have "q \<noteq> []" using assms(1) by (auto simp: can_put_def)
  ultimately show ?thesis using assms(1) by (simp add: archiveUploads_def Let_def writeFile_def)
qed

lemma attachment_kept:
  assumes "\<not> attachment_missing env f a" "\<And>q. inside (be_uploads env) q \<Longrightarrow> existsSync f q \<Longrightarrow> existsSync f' q"
  shows "\<not> attachment_missing env f' a"
  using assms not_escapes_inside by (auto simp: attachment_missing_def Let_def)

lemma writeArtifacts_succeeds:
  assumes h: "healthy env d f" and g: "same_shape f g" "\<And>q. existsSync f q \<Longrightarrow> existsSync g q"
    and url: "dumpUrl env = Inr url"
  shows "mf_localVerified (snd (writeArtifacts env ty user d url (be_local env) now g))"
proof -
  let ?p = "dump_path (be_local env) now"
  let ?q = "butlast ?p @ [last ?p @ ''.partial'']"
  obtain bytes where b: "be_pgDump env url d = Some bytes" "bytes \<noteq> []" using h url by (auto simp: healthy_def)
  have q: "?q = be_local env @ [backup_file now (''.dump'' @ ''.partial'')]" by (simp add: dump_path_def backup_file_def)
  have "slash \<notin> set (''.dump'' @ ''.partial'')" by (simp add: slash_def)
  then have put: "can_put g ?q" "can_put g ?p"
    unfolding q using healthy_put [OF h g(1)] backup_names by (simp_all add: dump_path_def)
  obtain f1 where f1: "nativeDump env url d ?p g = (f1, True)" "same_shape g f1"
      "\<And>x. x \<noteq> ?q \<Longrightarrow> existsSync g x \<Longrightarrow> existsSync f1 x"
    using nativeDump_succeeds [OF put(2,1) b(1)] by (auto simp: dump_path_def)
  define f2 where "f2 = try_fs (writeFile (join (be_local env) (backup_file now ''_globals.sql''))
                 (''-- GMS Globals Dump '' @ isoStamp now @ [CHR 0x0A] @ ''-- Roles and tablespaces'' @ [CHR 0x0A])) f1"
  have st: "stable ?p f1 f2" unfolding f2_def by (rule stable_try_write) (simp add: backup_paths other_artifact)
  have shape: "same_shape f f2"
    using g(1) f1(2) same_shape_try_write [of f1] by (simp add: same_shape_def f2_def)
  let ?r = "join (be_local env) (backup_file now ''_attachments.json'')"
  obtain f3 ar where a: "archiveUploads env d ?r f2 = (f3, ar)" by (cases "archiveUploads env d ?r f2")
  have inq: "\<not> inside (be_uploads env) ?q"
    unfolding q using h own_backup_file(1) [of "be_local env" now] by (simp add: healthy_def)
  have "\<not> attachment_missing env f2 x" if "x \<in> set (attachments d)" for x
  proof (rule attachment_kept)
    show "\<not> attachment_missing env f x" using h that by (simp add: healthy_def)
    show "inside (be_uploads env) y \<Longrightarrow> existsSync f y \<Longrightarrow> existsSync f2 y" for y
      using g(2) f1(3) [of y] inq st by (auto simp: stable_def)
  qed
  then have ok: "re_ok ar"
    using archive_succeeds [of f2 ?r d env] healthy_put [OF h shape] backup_names a by (simp add: backup_paths)
  have "stable ?p f2 f3" using archiveUploads_stable(1) [OF a] by (simp add: backup_paths other_artifact)
  then have content: "fs_files f3 ?p = Some bytes"
    using nativeDump_ok [OF f1(1)] b(1) st by (auto simp: stable_def)
  define m where "m = build_manifest env ty user d (be_local env) True ar now f3"
  have v: "mf_localVerified m"
    using ok content b(2) h
    by (simp add: m_def build_manifest_def signed_def Let_def backup_paths dump_path_def existsSync_def checksumForFile_def healthy_def)
  obtain f' m' where c: "copyOffsite env (be_local env) m (re_checksum ar) now
      (try_fs (writeFile (join (be_local env) (backup_file now ''_manifest.json'')) (be_manifestText env m)) f3) = (f', m')"
    by (metis surj_pair)
  have "writeArtifacts env ty user d url (be_local env) now g = (f', m')"
    using f1(1) a c unfolding writeArtifacts_def m_def f2_def by (simp add: backup_paths dump_path_def Let_def)
  then show ?thesis using copyOffsite_stable(2) [OF c] v by simp
qed

lemma healthy_backup:
  assumes "healthy env d f"
  obtains d' f' m url where "createNativePgDumpBackup env d f ty user now = ((d', f'), Inr m)" "mf_localVerified m"
    "dumpUrl env = Inr url" "dumped env (be_local env) url d m now f'" "ar_dump (mf_artifacts m) = backup_file now ''.dump''"
proof -
  have dirs: "existsSync f (be_local env)" "existsSync f (be_offsite env)"
    using assms by (simp_all add: healthy_def existsSync_def)
  have e: "ensureBackupDirectories env f = f"
    by (simp add: ensureBackupDirectories_def try_fs_def ensure_dir_def dirs)
  have a: "activeLocalDir env f = Some (be_local env, f)"
    by (simp add: activeLocalDir_def ensure_dir_def dirs)
  obtain url where u: "dumpUrl env = Inr url" using assms by (auto simp: healthy_def)
  let ?t = "be_payloadText env (jsonPayload env d user now)"
  let ?p = "be_local env @ [backup_file now ''_snapshot.json'']"
  have shape: "same_shape f f" by (simp add: same_shape_def)
  have w: "writeSnapshot env (be_local env) (backup_file now ''_snapshot.json'') ?t f = (put_file ?p ?t f, Inr (be_local env))"
    using healthy_put [OF assms shape] backup_names by (simp add: writeSnapshot_def backup_paths writeFile_def)
  have g: "same_shape f (put_file ?p ?t f)" "\<And>q. existsSync f q \<Longrightarrow> existsSync (put_file ?p ?t f) q"
    by (auto simp: same_shape_def existsSync_def)
  obtain f' m where r: "writeArtifacts env ty user d url (be_local env) now (put_file ?p ?t f) = (f', m)"
    by (metis surj_pair)
  have v: "mf_localVerified m" using writeArtifacts_succeeds [OF assms g u, of ty user now] r by simp
  show thesis
    using that [OF _ v u writeArtifacts_dumped [OF r v]] by (simp add: createNativePgDumpBackup_def e a w u r)
qed

text \<open>
  C25. (liveness) A healthy site gets its backup: when the backup directories are there and the local
  one takes files, pg_dump answers with something and no attachment file is missing, the backup is
  made and recorded as verified, and what pg_dump gave lies in the local directory under the name
  that the manifest has.
\<close>
theorem backup_succeeds:
  assumes "healthy env d f"
  shows "\<exists>d' f' m url. createNativePgDumpBackup env d f ty user now = ((d', f'), Inr m) \<and> mf_localVerified m \<and>
    dumpUrl env = Inr url \<and> fs_files f' (join (be_local env) (ar_dump (mf_artifacts m))) = be_pgDump env url d"
proof -
  obtain d' f' m url where b: "createNativePgDumpBackup env d f ty user now = ((d', f'), Inr m)" "mf_localVerified m"
    "dumpUrl env = Inr url" "dumped env (be_local env) url d m now f'" "ar_dump (mf_artifacts m) = backup_file now ''.dump''"
    using healthy_backup [OF assms] by blast
  then have "fs_files f' (join (be_local env) (ar_dump (mf_artifacts m))) = be_pgDump env url d"
    by (auto simp: dumped_def dump_path_def backup_paths)
  with b show ?thesis by blast
qed

section \<open>Retention after a backup\<close>

lemma distinct_backups_subset: "set (distinct_backups found ms) \<subseteq> set found \<union> set ms"
  by (induction found ms rule: distinct_backups.induct) auto

lemma history_parsed: "m \<in> set (snd (getBackupHistory env f)) \<Longrightarrow> \<exists>s. be_parseManifest env s = Some m"
proof -
  have dir: "m \<in> set (manifests_in env g dir) \<Longrightarrow> \<exists>s. be_parseManifest env s = Some m" for g dir
    by (auto simp: manifests_in_def map_filter_def split: option.splits)
  assume "m \<in> set (snd (getBackupHistory env f))"
  then show ?thesis
    using distinct_backups_subset [of "[]"] dir by (fastforce simp: getBackupHistory_list newest_first_def)
qed

text \<open>Where every manifest is young, the clean-up deletes nothing.\<close>

lemma clean_young:
  assumes "\<And>s m. be_parseManifest env s = Some m \<Longrightarrow> now - mf_createdAt m \<le> 30 * DAY_MS"
  shows "cleanOldBackupsRetention env now f = ensureBackupDirectories env f"
proof -
  have "\<not> 30 * DAY_MS < now - mf_createdAt m" if "m \<in> set (snd (getBackupHistory env f))" for m
    using history_parsed [OF that] assms by (auto simp: not_less)
  then have "m \<notin> set (past_retention (be_zone env) now [] [] (snd (getBackupHistory env f)))" for m
    using subsetD [OF expired_subset, of m] by blast
  then have "past_retention (be_zone env) now [] [] (snd (getBackupHistory env f)) = []" by (meson last_in_set)
  then show ?thesis
    by (simp add: cleanOldBackupsRetention_def case_prod_unfold Let_def getBackupHistory_list(2))
qed

lemma history_state [simp]: "fst (locateBackup env md f) = ensureBackupDirectories env f"
  by (auto simp: locateBackup_def case_prod_unfold getBackupHistory_list(2) Let_def split: option.splits)

end
