(* ===== verification/Gms_Drill.thy ===== *)
theory Gms_Drill
  imports Gms_Scenario Gms_Healthy
begin

text \<open>
  A recovery drill on a small site: an old backup with one attachment is restored while the live
  file can not be replaced, so the restore fails after pg_restore and is compensated.
\<close>

section \<open>The site\<close>

definition today :: instant where
  "today = 0"

definition old_manifest :: "string \<Rightarrow> instant \<Rightarrow> string option \<Rightarrow> manifest" where
  "old_manifest i age archive =
     \<lparr>mf_backupId = i, mf_backupType = AUTOMATIC_6HR, mf_dumpFormat = PG_CUSTOM, mf_createdAt = today - age,
      mf_createdBy = None, mf_recordCounts = [],
      mf_artifacts = \<lparr>ar_dump = i @ ''.dump'', ar_globals = [], ar_manifest = i @ ''_manifest.json'',
        ar_snapshot = None, ar_archive = archive\<rparr>,
      mf_attachmentsCount = 1, mf_reconciliation = \<lparr>rc_dbAttachments = 1, rc_physical = 1, rc_missing = 0, rc_orphans = 0\<rparr>,
      mf_localVerified = True, mf_offsite = BS_PENDING,
      mf_checksums = \<lparr>ck_dump = ''#'', ck_globals = [], ck_snapshot = None, ck_archive = None\<rparr>, mf_signature = []\<rparr>"

definition seal_entry :: archive_entry where
  "seal_entry = \<lparr>ae_relativePath = ''gate/seal.jpg'', ae_fileName = ''seal.jpg'', ae_size = 3, ae_checksum = ''#old'',
     ae_base64 = ''old''\<rparr>"

definition keys :: "string \<Rightarrow> manifest option" where
  "keys s = (if s = ''last'' then Some (old_manifest ''last'' HOUR_MS (Some ''last_attachments.json''))
     else if s = ''a'' then Some (old_manifest ''a'' (40 * DAY_MS) None)
     else if s = ''b'' then Some (old_manifest ''b'' (40 * DAY_MS + HOUR_MS) None)
     else if s = ''c'' then Some (old_manifest ''c'' (40 * DAY_MS + 2 * HOUR_MS) None) else None)"

definition seal_row :: attachment where
  "seal_row = \<lparr>v_id = 1, v_transactionId = 7, v_createdAt = 0, v_isCurrent = True, v_supersededAt = None,
     v_supersededByCorrectionId = None, v_revision = 1, at_attachmentLineageId = 1, at_module = ''gate'',
     at_attachmentType = PHOTO, at_originalName = ''seal.jpg'', at_fileName = ''seal.jpg'',
     at_filePath = ''gate/seal.jpg'', at_mimeType = ''image/jpeg'', at_size = 3, at_description = None,
     at_uploadedById = Some 0, at_sha256 = None\<rparr>"

definition admin_row :: user_row where
  "admin_row = \<lparr>u_id = 0, u_email = ''admin@plant'', u_username = ''admin'', u_name = ''Admin'', u_role = ADMIN,
     u_isActive = True, u_isDeleted = False, u_passwordHash = ''hash'', u_refreshTokenHash = None,
     u_lastLoginAt = None, u_mustChangePassword = False, u_passwordChangedAt = None,
     u_temporaryPasswordExpiresAt = None, u_tokenVersion = 0, u_createdAt = 0, u_phone = None,
     u_department = None, u_site = None, u_area = None, u_avatarUrl = None\<rparr>"

definition live :: db where
  "live = empty_db\<lparr>nextId := 9, users := [admin_row], attachments := [seal_row]\<rparr>"

definition lost :: db where
  "lost = live\<lparr>attachments := []\<rparr>"

definition drill_env :: backup_env where
  "drill_env = \<lparr>be_local = [''bk''], be_offsite = [''nas''], be_uploads = [''up''], be_tmp = [''tmp''],
     be_production = False, be_backupUrl = None, be_databaseUrl = Some ''pg'', be_secret = Some ''k'', be_zone = 0,
     be_sha256 = (#) (CHR ''#''), be_hmac = (\<lambda>k s. if k = ''k'' then ''a1b2'' else ''00''), be_base64 = id, be_unbase64 = id,
     be_dataText = (\<lambda>d. ''data''), be_payloadText = (\<lambda>p. ''payload''), be_parsePayload = (\<lambda>s. None),
     be_manifestText = (\<lambda>m. ''new''), be_parseManifest = (\<lambda>s. if s = ''last'' then keys s else None), be_archiveText = (\<lambda>es. ''archive''),
     be_parseArchive = (\<lambda>s. if s = ''entries'' then Some (Some [seal_entry]) else None),
     be_bundleText = (\<lambda>b. bu_backupId b), be_signedText = (\<lambda>(b, s). s), be_parseDrill = (\<lambda>s. None),
     be_pgDump = (\<lambda>url d. if attachments d = [] then Some ''empty'' else Some ''full''),
     be_pgRestore = (\<lambda>url s d. if s = ''full'' then Some live else Some lost),
     be_verify = (\<lambda>h p. h = ''hash'' \<and> p = ''secret'')\<rparr>"

text \<open>The live file of the attachment can be read but not replaced.\<close>

definition files_of :: "(path \<times> string) list \<Rightarrow> fs" where
  "files_of xs = \<lparr>fs_files = map_of xs, fs_paths = map fst xs,
     fs_dirs = [[], [''bk''], [''nas''], [''up''], [''up'', ''gate''], [''tmp'']],
     fs_writable = (\<lambda>p. p \<noteq> [''up'', ''gate'', ''seal.jpg''])\<rparr>"

definition drill_site :: site where
  "drill_site = \<lparr>si_db = live, si_fs = files_of
     [([''up'', ''gate'', ''seal.jpg''], ''now''), ([''bk'', ''last.dump''], ''old''),
      ([''bk'', ''last_manifest.json''], ''last''), ([''bk'', ''last_attachments.json''], ''entries'')], si_running = False\<rparr>"

definition drill_payload :: payload where
  "drill_payload = (\<lparr>pm_backupId = Some ''last'', pm_system = SYSTEM_NAME, pm_createdAt = today, pm_createdBy = None,
     pm_totalRecords = 4, pm_checksum = ''#data''\<rparr>, live)"

section \<open>The failed restore\<close>

text \<open>The staged files.\<close>

definition drill_staged :: fs where
  "drill_staged = fst (stageArchive drill_env (Some [seal_entry]) today (si_fs drill_site))"

lemma drill_located:
  "locateBackup drill_env (fst drill_payload) (si_fs drill_site) = (si_fs drill_site, Inr ([''bk'', ''last.dump''], Some [seal_entry]))"
proof (rule prod_eqI)
  have "existsSync (si_fs drill_site) (be_local drill_env)" "existsSync (si_fs drill_site) (be_offsite drill_env)" by code_simp+
  then have "ensureBackupDirectories drill_env (si_fs drill_site) = si_fs drill_site"
    by (simp add: ensureBackupDirectories_def try_fs_def ensure_dir_def)
  then show "fst (locateBackup drill_env (fst drill_payload) (si_fs drill_site)) =
      fst (si_fs drill_site, Inr ([''bk'', ''last.dump''], Some [seal_entry]) :: bk_reason error + path \<times> archive_entry list option)"
    by simp
  show "snd (locateBackup drill_env (fst drill_payload) (si_fs drill_site)) =
      snd (si_fs drill_site, Inr ([''bk'', ''last.dump''], Some [seal_entry]) :: bk_reason error + path \<times> archive_entry list option)"
    by code_simp
qed

lemma staging: "staging_dir drill_env today = [''up'', ''_staging_restore_0'']"
  by code_simp

lemma drill_stage: "stageArchive drill_env (Some [seal_entry]) today (si_fs drill_site) = (drill_staged, Inr ())"
proof -
  have "snd (stageArchive drill_env (Some [seal_entry]) today (si_fs drill_site)) = Inr ()" by code_simp
  then show ?thesis by (simp add: drill_staged_def prod_eq_iff)
qed

lemma drill_staged_facts:
  "existsSync drill_staged [''up'', ''_staging_restore_0'']" "fs_files drill_staged [''bk'', ''last.dump''] = Some ''old''"
  "fs_files drill_staged [''up'', ''_staging_restore_0'', ''gate'', ''seal.jpg''] = Some ''old''"
  "fs_dirs drill_staged = [[], [''bk''], [''nas''], [''up''], [''up'', ''gate''], [''tmp''],
     [''up'', ''_staging_restore_0''], [''up'', ''_staging_restore_0'', ''gate'']]"
  by code_simp+

lemma fresh_dir_writable: "fresh_dir p f = Some f' \<Longrightarrow> fs_writable f' = fs_writable f"
  using mkdirs_frame [of p _ f'] by (auto simp: fresh_dir_def rm_tree_def split: if_splits)

lemma stage_entry_writable: "fs_writable (fst (stage_entry env base e f)) = fs_writable f"
  by (auto simp: stage_entry_def Let_def writeFile_def split: option.splits dest!: ensure_dir_frame)

lemma stage_files_writable: "fs_writable (fst (stage_files env base es f)) = fs_writable f"
proof (induction es arbitrary: f)
  case (Cons e es)
  obtain g r where g: "stage_entry env base e f = (g, r)" by (cases "stage_entry env base e f")
  then have "fs_writable g = fs_writable f" using stage_entry_writable [of env base e f] by simp
  then show ?case using Cons g by (cases r) simp_all
qed simp

lemma drill_writable: "fs_writable drill_staged p \<longleftrightarrow> p \<noteq> [''up'', ''gate'', ''seal.jpg'']"
proof -
  let ?d = "staging_dir drill_env today"
  obtain f1 where f1: "fresh_dir ?d (si_fs drill_site) = Some f1"
    using drill_stage by (cases "fresh_dir ?d (si_fs drill_site)") (simp_all add: stageArchive_def)
  then have w: "fs_writable f1 = fs_writable (si_fs drill_site)"
    using mkdirs_frame by (auto simp: fresh_dir_def rm_tree_def)
  obtain f2 r where f2: "stage_files drill_env ?d [seal_entry] f1 = (f2, r)" by (cases "stage_files drill_env ?d [seal_entry] f1")
  then have "fs_writable f2 = fs_writable f1" "drill_staged = f2"
    using stage_files_writable [of drill_env ?d "[seal_entry]" f1] drill_stage
    by (cases r; simp add: stageArchive_def f1)+
  then show ?thesis by (simp add: w drill_site_def files_of_def)
qed

text \<open>Where the tree has its directories and lets everything but the one file be written, it is healthy.\<close>

lemma drill_healthy_at:
  assumes "fs_writable f = fs_writable drill_staged" "[''bk''] \<in> set (fs_dirs f)" "[''nas''] \<in> set (fs_dirs f)"
    and "\<forall>p \<in> set (fs_dirs f). butlast p = [''bk''] \<longrightarrow> \<not> own_name p"
    and "\<forall>a \<in> set (attachments live). \<not> attachment_missing drill_env f a"
  shows "healthy drill_env live f"
proof -
  have "dumpUrl drill_env = Inr ''pg''" "be_pgDump drill_env ''pg'' live = Some ''full''"
    "be_local drill_env = [''bk'']" "be_offsite drill_env = [''nas'']" "be_uploads drill_env = [''up'']" "be_sha256 drill_env = (#) (CHR ''#'')"
    by (code_simp, code_simp, simp_all add: drill_env_def)
  moreover have "p = [''bk'', last p]" if "butlast p = [''bk'']" for p :: path
    using that by (metis append_Cons append_Nil append_butlast_last_id butlast.simps(1) list.discI)
  then have "fs_writable drill_staged p \<and> \<not> inside [''up''] p" if "butlast p = [''bk'']" for p
    using that drill_writable by (force simp: inside_def)
  ultimately show ?thesis using assms unfolding healthy_def by auto
qed

lemma drill_healthy: "healthy drill_env live drill_staged"
proof (rule drill_healthy_at)
  show "\<forall>a \<in> set (attachments live). \<not> attachment_missing drill_env drill_staged a" by code_simp
qed (simp_all add: drill_staged_facts(4))

lemma drill_young: "be_parseManifest drill_env s = Some m \<Longrightarrow> today - mf_createdAt m \<le> 30 * DAY_MS"
  by (auto simp: drill_env_def keys_def old_manifest_def HOUR_MS_def DAY_MS_def split: if_splits)

lemma drill_check:
  "checkPayload drill_env live boss (Some drill_payload) ''secret'' today = (live, Inr drill_payload)"
proof -
  have "find_user live (ju_id boss) = Some admin_row" by code_simp
  then show ?thesis
    by (simp add: checkPayload_def admin_row_def drill_env_def drill_payload_def)
qed

text \<open>The safety backup is made, and afterwards the files of others are as they were.\<close>

lemma drill_safety:
  assumes "healthy drill_env live g"
  obtains s3 m where "runAutomatedScheduledBackup drill_env (drill_site\<lparr>si_fs := g\<rparr>) AUTO_PRE_RESTORE (Some boss) today = (s3, Inr m)"
    "mf_localVerified m" "own_files g (si_fs s3)" "dump_at_hand drill_env live today (si_fs s3)"
proof -
  obtain d' f' m url where b: "createNativePgDumpBackup drill_env live g AUTO_PRE_RESTORE (Some boss) today = ((d', f'), Inr m)"
    "mf_localVerified m" "dumpUrl drill_env = Inr url" "dumped drill_env (be_local drill_env) url live m today f'"
    using healthy_backup [OF assms] by metis
  let ?g = "cleanOldBackupsRetention drill_env today f'"
  have g: "?g = ensureBackupDirectories drill_env f'" using clean_young [OF drill_young] .
  have "own_files g f'" using own_create [of g drill_env live AUTO_PRE_RESTORE "Some boss" today] b(1) by simp
  then have own: "own_files g ?g" unfolding g using own_files_trans own_ensureBackup by blast
  have hand: "dump_at_hand drill_env live today ?g"
    using b(3,4) unfolding g dump_at_hand_def by (auto simp: dumped_def dump_path_def backup_paths)
  have "runAutomatedScheduledBackup drill_env (drill_site\<lparr>si_fs := g\<rparr>) AUTO_PRE_RESTORE (Some boss) today =
      (\<lparr>si_db = d', si_fs = ?g, si_running = False\<rparr>, Inr m)"
    using b(1) by (simp add: runAutomatedScheduledBackup_def drill_site_def)
  then show ?thesis using that b(2) own hand by simp
qed

text \<open>The promotion can not replace the live file.\<close>

lemma drill_apply:
  assumes "own_files drill_staged f"
  shows "applyRestore drill_env [''bk'', ''last.dump''] (Some [seal_entry]) today d f = ((lost, f), True, False)"
proof -
  let ?p = "[''up'', ''_staging_restore_0'', ''gate'', ''seal.jpg'']" and ?q = "[''up'', ''gate'', ''seal.jpg'']"
  have "\<not> own_name [''bk'', ''last.dump'']" "\<not> own_name ?p" by (simp_all add: own_name_def)
  then have same: "fs_files f [''bk'', ''last.dump''] = Some ''old''" "fs_files f ?p = Some ''old''"
    using assms drill_staged_facts unfolding own_files_def by metis+
  have dirs: "[''up'', ''_staging_restore_0''] \<in> set (fs_dirs f)" "[''up'', ''gate''] \<in> set (fs_dirs f)" "\<not> fs_writable f ?q"
    using assms drill_staged_facts(4) drill_writable by (auto simp: own_files_def)
  have j: "join [''up'', ''_staging_restore_0''] (entry_path seal_entry) = ?p" "join [''up''] (entry_path seal_entry) = ?q"
    "entry_path seal_entry \<noteq> []" by code_simp+
  have "promote_files [''up'', ''_staging_restore_0''] [''up''] [seal_entry] f = (f, False)"
    using same dirs by (simp add: promote_entry_def j existsSync_def ensure_dir_def rename_def can_put_def)
  moreover have "be_uploads drill_env = [''up'']" "truthy_col (be_databaseUrl drill_env) = Some ''pg''"
    "be_pgRestore drill_env ''pg'' ''old'' d = Some lost"
    by (simp_all add: drill_env_def truthy_col_def)
  ultimately show ?thesis using same(1) dirs by (simp add: applyRestore_def staging existsSync_def)
qed

lemma drill_state: "si_db drill_site = live" "\<not> si_running drill_site"
  by (simp_all add: drill_site_def)

lemma drill_restore:
  obtains s' where "restoreDatabase drill_env drill_site boss (Some drill_payload) ''secret'' today = (s', Inl (BadRequest BK_RestoreFailed))"
    "dump_at_hand drill_env live today (si_fs s')"
proof -
  obtain s3 m where b: "runAutomatedScheduledBackup drill_env (drill_site\<lparr>si_fs := drill_staged\<rparr>) AUTO_PRE_RESTORE (Some boss) today = (s3, Inr m)"
    "mf_localVerified m" "own_files drill_staged (si_fs s3)" "dump_at_hand drill_env live today (si_fs s3)"
    by (rule drill_safety [OF drill_healthy])
  obtain md data where pl: "drill_payload = (md, data)" by (cases drill_payload)
  note check = drill_check [unfolded pl] and loc = drill_located [unfolded pl fst_conv]
  note ap = drill_apply [OF b(3), of "si_db s3"]
  let ?f = "remove_dir (staging_dir drill_env today) (si_fs s3)"
  have site: "drill_site\<lparr>si_fs := si_fs drill_site\<rparr> = drill_site" by simp
  have bk: "be_local drill_env = [''bk'']" by (simp add: drill_env_def)
  have keep: "dump_at_hand drill_env live today ?f"
    using b(4) by (auto simp: dump_at_hand_def staging remove_dir_def rm_tree_def backup_paths bk split: sum.splits)
  have "restoreDatabase drill_env drill_site boss (Some drill_payload) ''secret'' today =
      (s3\<lparr>si_fs := ?f, si_db := siteLog (Some boss) ''DATABASE_RESTORE'' ''Database restore failed'' ''FAILED'' today
         (rollBack drill_env m lost ?f)\<rparr>, Inl (BadRequest BK_RestoreFailed))"
    using check loc drill_stage b(1,2) ap
    by (simp add: restoreDatabase_def pl drill_state Let_def)
  then show ?thesis using that keep by simp
qed

lemma drill_faithful: "pg_faithful drill_env live"
proof -
  have "attachments live \<noteq> []" by (simp add: live_def)
  then show ?thesis by (simp add: pg_faithful_def drill_env_def)
qed

theorem restore_all_or_nothing_witness:
  "\<exists>s'. restoreDatabase drill_env drill_site boss (Some drill_payload) ''secret'' today = (s', Inl (BadRequest BK_RestoreFailed)) \<and>
     attachments (si_db s') = [seal_row]"
proof -
  obtain s' where r: "restoreDatabase drill_env drill_site boss (Some drill_payload) ''secret'' today = (s', Inl (BadRequest BK_RestoreFailed))"
    "dump_at_hand drill_env live today (si_fs s')"
    by (rule drill_restore)
  have "same_data (si_db drill_site) (si_db s')"
    using restore_all_or_nothing [OF r(1)] drill_faithful r(2) by (simp add: drill_state)
  then have "attachments (si_db s') = attachments live"
    by (auto simp: same_data_def drill_state dest: arg_cong [where f = attachments])
  then show ?thesis using r(1) by (auto simp: live_def)
qed

theorem backup_succeeds_witness:
  "\<exists>d' f' m url. createNativePgDumpBackup drill_env live drill_staged MANUAL_EXPLICIT None today = ((d', f'), Inr m) \<and>
     mf_localVerified m \<and> dumpUrl drill_env = Inr url"
  using backup_succeeds [OF drill_healthy, of MANUAL_EXPLICIT None today] by blast

theorem backup_verified_witness:
  "\<exists>d' f' m bytes. createNativePgDumpBackup drill_env live drill_staged MANUAL_EXPLICIT None today = ((d', f'), Inr m) \<and>
     be_pgDump drill_env ''pg'' live = Some bytes \<and> ck_dump (mf_checksums m) = be_sha256 drill_env bytes"
proof -
  obtain d' f' m url where b: "createNativePgDumpBackup drill_env live drill_staged MANUAL_EXPLICIT None today = ((d', f'), Inr m)"
    "mf_localVerified m"
    using healthy_backup [OF drill_healthy] by metis
  have "dumpUrl drill_env = Inr ''pg''" by code_simp
  with backup_verified [OF b] b(1) show ?thesis by auto
qed

section \<open>Retention\<close>

text \<open>Three old backups of one week: the newest is kept for the week, the next for the month.\<close>

definition shelf_env :: backup_env where
  "shelf_env = drill_env\<lparr>be_parseManifest := keys\<rparr>"

definition shelf :: fs where
  "shelf = files_of [([''bk'', ''a_manifest.json''], ''a''), ([''bk'', ''b_manifest.json''], ''b''),
     ([''bk'', ''c_manifest.json''], ''c''), ([''bk'', ''c.dump''], ''dump'')]"

lemma shelf_history: "map mf_backupId (snd (getBackupHistory shelf_env shelf)) = [''a'', ''b'', ''c'']"
  by code_simp


section \<open>The restore of a bundle\<close>

definition drill_bundle :: dr_bundle where
  "drill_bundle = \<lparr>bu_system = SYSTEM_NAME, bu_createdAt = today, bu_backupId = ''last'', bu_dumpChecksum = [],
     bu_manifest = old_manifest ''last'' HOUR_MS None, bu_dumpBase64 = ''old'', bu_attachments = None\<rparr>"

definition bundle_fs1 :: fs where
  "bundle_fs1 = the (fresh_dir (bundle_staging drill_env today) (si_fs drill_site))"

definition bundle_fs2 :: fs where
  "bundle_fs2 = the (writeFile [''bk'', ''_staging_bundle_0'', ''restored_portable.dump''] ''old'' bundle_fs1)"

lemma bundle_steps:
  "fresh_dir (bundle_staging drill_env today) (si_fs drill_site) = Some bundle_fs1"
  "writeFile [''bk'', ''_staging_bundle_0'', ''restored_portable.dump''] ''old'' bundle_fs1 = Some bundle_fs2"
proof -
  have "fresh_dir (bundle_staging drill_env today) (si_fs drill_site) \<noteq> None"
    "writeFile [''bk'', ''_staging_bundle_0'', ''restored_portable.dump''] ''old'' bundle_fs1 \<noteq> None"
    by code_simp+
  then show "fresh_dir (bundle_staging drill_env today) (si_fs drill_site) = Some bundle_fs1"
    "writeFile [''bk'', ''_staging_bundle_0'', ''restored_portable.dump''] ''old'' bundle_fs1 = Some bundle_fs2"
    by (simp_all add: bundle_fs1_def bundle_fs2_def)
qed

lemma bundle_fs2_facts:
  "fs_files bundle_fs2 [''bk'', ''_staging_bundle_0'', ''restored_portable.dump''] = Some ''old''"
  "fs_dirs bundle_fs2 = [[], [''bk''], [''nas''], [''up''], [''up'', ''gate''], [''tmp''], [''bk'', ''_staging_bundle_0'']]"
  by code_simp+

lemma bundle_healthy: "healthy drill_env live bundle_fs2"
proof (rule drill_healthy_at)
  show "fs_writable bundle_fs2 = fs_writable drill_staged"
  proof -
    have "fs_writable bundle_fs1 = fs_writable (si_fs drill_site)" using fresh_dir_writable [OF bundle_steps(1)] .
    moreover have "fs_writable bundle_fs2 = fs_writable bundle_fs1"
      using same_shape_write [OF bundle_steps(2)] by (simp add: same_shape_def)
    ultimately show ?thesis by (simp add: drill_writable drill_site_def files_of_def fun_eq_iff)
  qed
  show "\<forall>a \<in> set (attachments live). \<not> attachment_missing drill_env bundle_fs2 a" by code_simp
qed (simp_all add: bundle_fs2_facts(2) own_name_def)

lemma bundle_checked:
  "checkBundle drill_env live boss (Some (drill_bundle, Some ''A1B2'')) ''secret'' = Inr drill_bundle"
proof -
  have "find_user live (ju_id boss) = Some admin_row" "hex_bytes ''A1B2'' = hex_bytes ''a1b2''" by code_simp+
  then show ?thesis
    by (simp add: checkBundle_def admin_row_def drill_env_def drill_bundle_def truthy_col_def)
qed

lemma bundle_restored:
  obtains s' where "restoreFromPortableBundle drill_env drill_site boss (Some (drill_bundle, Some ''A1B2'')) ''secret'' today =
      (s', Inr (''last'', 0))" "attachments (si_db s') = []" "dump_at_hand drill_env live today (si_fs s')"
proof -
  obtain s3 m where b: "runAutomatedScheduledBackup drill_env (drill_site\<lparr>si_fs := bundle_fs2\<rparr>) AUTO_PRE_RESTORE (Some boss) today = (s3, Inr m)"
    "mf_localVerified m" "own_files bundle_fs2 (si_fs s3)" "dump_at_hand drill_env live today (si_fs s3)"
    by (rule drill_safety [OF bundle_healthy])
  let ?p = "[''bk'', ''_staging_bundle_0'', ''restored_portable.dump'']"
  have "\<not> own_name ?p" by (simp add: own_name_def)
  then have same: "fs_files (si_fs s3) ?p = Some ''old''"
    using b(3) bundle_fs2_facts(1) unfolding own_files_def by metis
  have p: "join (bundle_staging drill_env today) ''restored_portable.dump'' = ?p" by code_simp
  have env: "be_unbase64 drill_env (bu_dumpBase64 drill_bundle) = ''old''" "bu_dumpChecksum drill_bundle = []"
    "bu_attachments drill_bundle = None" "truthy_col (be_databaseUrl drill_env) = Some ''pg''" "bu_backupId drill_bundle = ''last''"
    "be_pgRestore drill_env ''pg'' ''old'' (si_db s3) = Some lost"
    by (simp_all add: drill_env_def drill_bundle_def truthy_col_def)
  define s' where "s' = s3\<lparr>si_db := siteLog (Some boss) ''DATABASE_RESTORE''
     (''Successfully restored database from portable bundle ('' @ bu_backupId drill_bundle @ '')'') ''SUCCESS'' today lost\<rparr>"
  have "applyBundle drill_env (drill_site\<lparr>si_fs := bundle_fs1\<rparr>) drill_bundle boss today = (s', Some m, Inr 0)"
    using b(1,2) same by (simp add: applyBundle_def Let_def env p bundle_steps(2) restoreBundleFiles_def s'_def)
  then have "restoreFromPortableBundle drill_env drill_site boss (Some (drill_bundle, Some ''A1B2'')) ''secret'' today =
      (s'\<lparr>si_fs := remove_dir (bundle_staging drill_env today) (si_fs s')\<rparr>, Inr (''last'', 0))"
    using bundle_checked by (simp add: restoreFromPortableBundle_def drill_state bundle_steps(1) env(5))
  moreover have "attachments (si_db s') = []"
    using same_data_siteLog [of lost "Some boss"]
    by (auto simp: s'_def same_data_def lost_def siteLog_def audit_def logAction_def Let_def split: option.splits)
  moreover have "dump_at_hand drill_env live today (si_fs s')" using b(4) by (simp add: s'_def)
  ultimately show ?thesis using that dump_at_hand_staging by simp
qed


section \<open>An entry without content\<close>

text \<open>
  Staging skips an entry without content before it looks at the path, and promotion does not look
  again: its name may lead out of the uploads.
\<close>

definition stray_entry :: archive_entry where
  "stray_entry = \<lparr>ae_relativePath = ''../restored_portable.dump'', ae_fileName = [], ae_size = 0, ae_checksum = [], ae_base64 = []\<rparr>"

lemma empty_entry_escapes:
  "snd (stage_bundle_files drill_env [''bk'', ''_staging_bundle_0'', ''attachments''] [stray_entry] bundle_fs2) = None"
  "fs_files (fst (promote_files [''bk'', ''_staging_bundle_0'', ''attachments''] [''up''] [stray_entry] bundle_fs2))
     [''restored_portable.dump''] = Some ''old''"
  by code_simp+

end
