(* ===== verification/Gms_Reports.thy ===== *)
theory Gms_Reports
  imports Gms_Transactions Gms_JsValues Gms_Dashboard
begin

text \<open>
  The reports on finished visits (reports/reports.service.ts): the paginated history and the CSV
  export. The text of a number is a parameter; the dates of a query are the instants they denote,
  and the time zone of the server dates the end of a day. The export reads its batches from one
  state of the database.
\<close>

section \<open>The history\<close>

record report_query =
  rq_page :: nat
  rq_limit :: nat
  rq_processType :: "process_type option"
  rq_startDate :: "instant option"
  rq_endDate :: "instant option"
  rq_search :: "string option"

definition reportWhere :: "int \<Rightarrow> report_query \<Rightarrow> transaction \<Rightarrow> bool" where
  "reportWhere tz q t \<longleftrightarrow>
     status t \<in> {COMPLETED, CANCELLED} \<and>
     (case rq_processType q of None \<Rightarrow> True | Some p \<Rightarrow> processType t = p) \<and>
     (case truthy_col (rq_search q) of None \<Rightarrow> True
      | Some s \<Rightarrow> contains_ci (transactionNumber t) s \<or> contains_ci (plateNumber t) s \<or> contains_ci (vendorName t) s) \<and>
     within_dates tz (rq_startDate q) (rq_endDate q) (createdAt t)"

text \<open>\<open>REPORTS_CURRENT_RELATIONS_INCLUDE\<close>.\<close>

record report_view =
  rv_transaction :: transaction
  rv_statusHistory :: "status_history list"
  rv_weighbridgeRecords :: "weighbridge_record list"
  rv_warehouseProcesses :: "warehouse_process list"
  rv_qcVehicleChecks :: "(qc_vehicle_check \<times> (ident \<times> string) option) list"
  rv_incomingMaterialChecks :: "(incoming_material_check \<times> (ident \<times> string) option) list"
  rv_fraudChecks :: "fraud_check list"
  rv_users :: "(ident \<times> string) option list"

definition name_ref :: "db \<Rightarrow> ident option \<Rightarrow> (ident \<times> string) option" where
  "name_ref d oid = map_option (\<lambda>(i, n, r). (i, n)) (user_ref d oid)"

definition report_view_of :: "db \<Rightarrow> transaction \<Rightarrow> report_view" where
  "report_view_of d t =
     (let i = tx_id t
      in \<lparr>rv_transaction = t,
          rv_statusHistory = newest_first sh_changedAt (filter (\<lambda>h. sh_transactionId h = i) (statusHistories d)),
          rv_weighbridgeRecords = filter (current_row i) (weighbridgeRecords d),
          rv_warehouseProcesses = filter (current_row i) (warehouseProcesses d),
          rv_qcVehicleChecks = map (\<lambda>c. (c, name_ref d (qv_checkedById c))) (filter (current_row i) (qcVehicleChecks d)),
          rv_incomingMaterialChecks = map (\<lambda>c. (c, name_ref d (im_checkedById c)))
            (filter (current_row i) (incomingMaterialChecks d)),
          rv_fraudChecks = filter (\<lambda>f. fc_transactionId f = i) (fraudChecks d),
          rv_users = map (name_ref d) [weighInById t, weighOutById t, warehouseStartById t, warehouseEndById t]\<rparr>)"

definition getTransactionHistory ::
  "db \<Rightarrow> int \<Rightarrow> report_query \<Rightarrow> jwt_user \<Rightarrow> instant \<Rightarrow> db \<times> report_view list \<times> page_meta"
where
  "getTransactionHistory d tz q user now =
     (let (rows, meta) = find_page (rq_page q) (rq_limit q) (reportWhere tz q) createdAt (transactions d)
      in (audit (ju_id user) ''REPORT_HISTORY_VIEW'' ''REPORTS'' None
            (Some (JStr ''User viewed transaction history report'')) ''SUCCESS'' now d,
          map (report_view_of d) rows, meta))"

section \<open>The CSV export\<close>

definition quote :: char where "quote = CHR 0x22"
definition newline :: char where "newline = CHR 0x0A"

definition CSV_HEADERS :: "string list" where
  "CSV_HEADERS = [''TRX ID'', ''Plate Number'', ''Vendor'', ''Type'', ''Status'', ''Gate In'', ''Gate Out'',
     ''Net WB'', ''WH Scale'', ''Deviation Status'']"

text \<open>\<open>replace(/"/g, '""')\<close>.\<close>

fun double_quotes :: "string \<Rightarrow> string" where
  "double_quotes [] = []"
| "double_quotes (c # s) = (if c = quote then quote # quote # double_quotes s else c # double_quotes s)"

text \<open>\<open>/^[=\-+@]/\<close>: what a spreadsheet would take for a formula.\<close>

definition is_formula :: "string \<Rightarrow> bool" where
  "is_formula s = (case s of [] \<Rightarrow> False | c # _ \<Rightarrow> c = CHR ''='' \<or> c = CHR ''-'' \<or> c = CHR ''+'' \<or> c = CHR ''@'')"

definition escapeCsv :: "string \<Rightarrow> string" where
  "escapeCsv v =
     (let s = double_quotes v
      in quote # (if is_formula s then CHR 0x27 # s else s) @ [quote])"

fun join_with :: "char \<Rightarrow> string list \<Rightarrow> string" where
  "join_with c [] = []"
| "join_with c [s] = s"
| "join_with c (s # ss) = s @ c # join_with c ss"

fun risk_name :: "risk_level \<Rightarrow> string" where
  "risk_name PENDING_DATA = ''PENDING_DATA''"
| "risk_name SAFE = ''SAFE''"
| "risk_name WARNING = ''WARNING''"
| "risk_name CRITICAL_RISK = ''CRITICAL''"
| "risk_name INVALID_DATA = ''INVALID_DATA''"

definition csv_fields :: "(num \<Rightarrow> string) \<Rightarrow> db \<Rightarrow> transaction \<Rightarrow> string list" where
  "csv_fields nt d t =
     [transactionNumber t, plateNumber t, vendorName t, process_name (processType t), status_name (status t),
      (case gateInAt t of None \<Rightarrow> [] | Some a \<Rightarrow> iso_string a),
      (case gateOutAt t of None \<Rightarrow> [] | Some a \<Rightarrow> iso_string a),
      nt (val_or (truthy_num (netWeight t)) 0), nt (val_or (truthy_num (actualWeight t)) 0),
      (case filter (\<lambda>f. fc_transactionId f = tx_id t) (fraudChecks d) of [] \<Rightarrow> ''SAFE'' | f # _ \<Rightarrow> risk_name (fc_riskLevel f))]"

definition csv_row :: "(num \<Rightarrow> string) \<Rightarrow> db \<Rightarrow> transaction \<Rightarrow> string" where
  "csv_row nt d t = join_with (CHR '','') (map escapeCsv (csv_fields nt d t)) @ [newline]"

definition batchSize :: nat where
  "batchSize = 500"

text \<open>The loop over the batches, from the row \<open>skip\<close> on.\<close>

function export_loop :: "(num \<Rightarrow> string) \<Rightarrow> db \<Rightarrow> transaction list \<Rightarrow> nat \<Rightarrow> string list" where
  "export_loop nt d rows skip =
     (let batch = take batchSize (drop skip rows)
      in if batch = [] then []
         else map (csv_row nt d) batch @
           (if length batch < batchSize then [] else export_loop nt d rows (skip + batchSize)))"
  by pat_completeness auto
termination
  by (relation "measure (\<lambda>(nt, d, rows, skip). length rows - skip)") (auto simp: batchSize_def)

declare export_loop.simps [simp del]

definition exportCsvStream ::
  "(num \<Rightarrow> string) \<Rightarrow> db \<Rightarrow> int \<Rightarrow> report_query \<Rightarrow> jwt_user \<Rightarrow> instant \<Rightarrow> db \<times> string list"
where
  "exportCsvStream nt d tz q user now =
     (let d' = audit (ju_id user) ''REPORT_EXPORT_STREAM'' ''REPORTS'' None
            (Some (JStr ''User initiated streaming CSV export of transaction history'')) ''SUCCESS'' now d
      in (d', (join_with (CHR '','') CSV_HEADERS @ [newline]) #
            export_loop nt d' (newest_first createdAt (filter (reportWhere tz q) (transactions d'))) 0))"

definition trimEnd :: "string \<Rightarrow> string" where
  "trimEnd s = rev (dropWhile is_blank (rev s))"

definition exportCsv ::
  "(num \<Rightarrow> string) \<Rightarrow> db \<Rightarrow> int \<Rightarrow> report_query \<Rightarrow> jwt_user \<Rightarrow> instant \<Rightarrow> db \<times> string"
where
  "exportCsv nt d tz q user now =
     (let (d', chunks) = exportCsvStream nt d tz q user now in (d', trimEnd (concat chunks)))"

section \<open>Reading the file\<close>

text \<open>A reader of CSV (RFC 4180): a field is plain, or quoted with its quotes doubled.\<close>

datatype csv_mode = Fresh | Plain | Quoted | Closed

fun csv_scan :: "csv_mode \<Rightarrow> string \<Rightarrow> string list \<Rightarrow> string \<Rightarrow> string list list" where
  "csv_scan m cell cells [] = [cells @ [cell]]"
| "csv_scan m cell cells (c # s) =
     (if m = Quoted then
        (if c = quote then csv_scan Closed cell cells s else csv_scan Quoted (cell @ [c]) cells s)
      else if c = quote \<and> m = Fresh then csv_scan Quoted cell cells s
      else if c = quote \<and> m = Closed then csv_scan Quoted (cell @ [quote]) cells s
      else if c = CHR '','' then csv_scan Fresh [] (cells @ [cell]) s
      else if c = newline then (cells @ [cell]) # csv_scan Fresh [] [] s
      else csv_scan Plain (cell @ [c]) cells s)"

definition csv_read :: "string \<Rightarrow> string list list" where
  "csv_read s = csv_scan Fresh [] [] s"

definition csv_guard :: "string \<Rightarrow> string" where
  "csv_guard v = (if is_formula v then CHR 0x27 # v else v)"

lemma csv_guard_safe: "\<not> is_formula (csv_guard v)"
  by (simp add: csv_guard_def is_formula_def)

lemma is_formula_double [simp]: "is_formula (double_quotes v) = is_formula v"
  by (cases v) (auto simp: is_formula_def quote_def)

lemma scan_quoted: "csv_scan Quoted cell cells (double_quotes v @ quote # r) = csv_scan Closed (cell @ v) cells r"
  by (induction v arbitrary: cell) simp_all

lemma scan_field: "csv_scan Fresh [] cells (escapeCsv v @ r) = csv_scan Closed (csv_guard v) cells r"
  using scan_quoted [of "[CHR 0x27]" cells v r] scan_quoted [of "[]" cells v r]
  by (simp add: escapeCsv_def csv_guard_def Let_def quote_def)

lemma csv_marks [simp]: "CHR '','' \<noteq> quote" "newline \<noteq> quote" "newline \<noteq> CHR '',''"
  by (simp_all add: quote_def newline_def)

lemma scan_line:
  assumes "vs \<noteq> []"
  shows "csv_scan Fresh [] cells (join_with (CHR '','') (map escapeCsv vs) @ newline # r) =
      (cells @ map csv_guard vs) # csv_scan Fresh [] [] r"
    "csv_scan Fresh [] cells (join_with (CHR '','') (map escapeCsv vs)) = [cells @ map csv_guard vs]"
proof -
  have "csv_scan Fresh [] cells (join_with (CHR '','') (map escapeCsv (v # vs')) @ newline # r) =
      (cells @ map csv_guard (v # vs')) # csv_scan Fresh [] [] r \<and>
    csv_scan Fresh [] cells (join_with (CHR '','') (map escapeCsv (v # vs'))) = [cells @ map csv_guard (v # vs')]" for v vs'
  proof (induction vs' arbitrary: v cells)
    case Nil
    show ?case using scan_field [of cells v "[]"] by (simp add: scan_field)
  next
    case (Cons w ws)
    then show ?case by (simp add: scan_field)
  qed
  from this [of "hd vs" "tl vs"] show
    "csv_scan Fresh [] cells (join_with (CHR '','') (map escapeCsv vs) @ newline # r) =
      (cells @ map csv_guard vs) # csv_scan Fresh [] [] r"
    "csv_scan Fresh [] cells (join_with (CHR '','') (map escapeCsv vs)) = [cells @ map csv_guard vs]"
    using assms by simp_all
qed

lemma scan_lines:
  assumes "vss \<noteq> []" "\<forall>vs \<in> set vss. vs \<noteq> []"
  shows "csv_scan Fresh [] [] (join_with newline (map (\<lambda>vs. join_with (CHR '','') (map escapeCsv vs)) vss)) = map (map csv_guard) vss"
  using assms
proof (induction vss rule: induct_list012)
  case (2 vs)
  then show ?case by (simp add: scan_line(2))
next
  case (3 vs ws vss)
  then show ?case by (simp add: scan_line(1))
qed simp

text \<open>The header is written without quotes.\<close>

definition plain_cell :: "string \<Rightarrow> bool" where
  "plain_cell s \<longleftrightarrow> s \<noteq> [] \<and> list_all (\<lambda>c. c \<noteq> quote \<and> c \<noteq> CHR '','' \<and> c \<noteq> newline) s"

lemma scan_plain: "list_all (\<lambda>c. c \<noteq> quote \<and> c \<noteq> CHR '','' \<and> c \<noteq> newline) s \<Longrightarrow>
    csv_scan Plain cell cells (s @ r) = csv_scan Plain (cell @ s) cells r"
  by (induction s arbitrary: cell) simp_all

lemma scan_cell: "plain_cell s \<Longrightarrow> csv_scan Fresh [] cells (s @ r) = csv_scan Plain s cells r"
  by (cases s) (simp_all add: plain_cell_def scan_plain)

lemma scan_plain_line:
  assumes "list_all plain_cell (v # vs)"
  shows "csv_scan Fresh [] cells (join_with (CHR '','') (v # vs) @ newline # r) = (cells @ v # vs) # csv_scan Fresh [] [] r"
    "csv_scan Fresh [] cells (join_with (CHR '','') (v # vs)) = [cells @ v # vs]"
  using assms scan_cell [of _ _ "[]"]
  by (induction vs arbitrary: v cells) (simp_all add: scan_cell)

lemma headers_plain: "list_all plain_cell CSV_HEADERS" "CSV_HEADERS \<noteq> []"
  by (simp_all add: CSV_HEADERS_def plain_cell_def quote_def newline_def)

section \<open>The export is the table\<close>

lemma export_loop_all: "export_loop nt d rows skip = map (csv_row nt d) (drop skip rows)"
proof (induction nt d rows skip rule: export_loop.induct)
  case (1 nt d rows skip)
  let ?batch = "take batchSize (drop skip rows)"
  show ?case
  proof (cases "?batch = []")
    case True
    then have "drop skip rows = []" by (simp add: batchSize_def)
    then show ?thesis by (simp add: export_loop.simps [of nt d rows skip])
  next
    case False
    have split: "drop skip rows = ?batch @ drop (skip + batchSize) rows"
      by (metis add.commute append_take_drop_id drop_drop)
    show ?thesis
    proof (cases "length ?batch < batchSize")
      case True
      then have "drop (skip + batchSize) rows = []" by (auto simp: min_def split: if_splits)
      then have "?batch = drop skip rows" using split by simp
      then show ?thesis using False True by (simp add: export_loop.simps [of nt d rows skip] Let_def)
    next
      case more: False
      have "export_loop nt d rows skip = map (csv_row nt d) ?batch @ export_loop nt d rows (skip + batchSize)"
        using False more by (simp add: export_loop.simps [of nt d rows skip] Let_def)
      then show ?thesis using 1 [OF refl False more] split by (metis map_append)
    qed
  qed
qed

lemma concat_lines: "concat (map (\<lambda>x. x @ [newline]) (y # ys)) = join_with newline (y # ys) @ [newline]"
  by (induction ys arbitrary: y) simp_all

lemma trimEnd_line: "s \<noteq> [] \<Longrightarrow> \<not> is_blank (last s) \<Longrightarrow> trimEnd (s @ [newline]) = s"
  by (cases s rule: rev_cases) (simp_all add: trimEnd_def newline_def is_blank_def)

lemma csv_fields_audit [simp]: "csv_fields nt (audit u a m r ds st now d) = csv_fields nt d"
  by (rule ext) (simp add: csv_fields_def)

text \<open>The text of the file: the header and one line per visit.\<close>

lemma exported_text:
  "snd (exportCsv nt d tz q user now) =
     join_with newline (join_with (CHR '','') CSV_HEADERS #
       map (\<lambda>t. join_with (CHR '','') (map escapeCsv (csv_fields nt d t)))
         (newest_first createdAt (filter (reportWhere tz q) (transactions d))))"
proof -
  let ?h = "join_with (CHR '','') CSV_HEADERS"
  let ?line = "\<lambda>t. join_with (CHR '','') (map escapeCsv (csv_fields nt d t))"
  let ?ts = "newest_first createdAt (filter (reportWhere tz q) (transactions d))"
  have chunks: "concat (snd (exportCsvStream nt d tz q user now)) = join_with newline (?h # map ?line ?ts) @ [newline]"
    unfolding concat_lines [symmetric]
    by (simp add: exportCsvStream_def Let_def export_loop_all csv_row_def [abs_def] comp_def)
  have ends: "last (?line t) = quote" "?line t \<noteq> []" for t
    by (simp_all add: csv_fields_def escapeCsv_def Let_def)
  have "last (join_with newline (y # map ?line us)) = (if us = [] then last y else quote) \<and> join_with newline (y # map ?line us) \<noteq> []"
    if "y \<noteq> []" for y us
    using that
  proof (induction us arbitrary: y)
    case (Cons t us)
    have "join_with newline (?line t # map ?line us) \<noteq> []" "last (join_with newline (?line t # map ?line us)) = quote"
      using Cons.IH [OF ends(2), of t] ends(1) by simp_all
    then show ?case by simp
  qed simp
  moreover have "?h \<noteq> []" "\<not> is_blank (last ?h)" "\<not> is_blank quote" by (simp_all add: CSV_HEADERS_def is_blank_def quote_def)
  ultimately have "trimEnd (join_with newline (?h # map ?line ?ts) @ [newline]) = join_with newline (?h # map ?line ?ts)"
    by (intro trimEnd_line) (metis (full_types))+
  then show ?thesis by (simp add: exportCsv_def case_prod_unfold Let_def chunks)
qed

text \<open>
  C32. (roundtrip) The CSV export can be read back. A reader of CSV finds the header and below it,
  newest first, exactly the finished visits the query admits, none left out at the borders of the
  batches, with their fields as they are stored whatever quotes, commas or line breaks are in them;
  a field that a spreadsheet would take for a formula has an apostrophe in front. The export leaves
  every table but the log as it was.
\<close>
theorem csv_roundtrip:
  "csv_read (snd (exportCsv nt d tz q user now)) =
     CSV_HEADERS # map (\<lambda>t. map csv_guard (csv_fields nt d t))
       (newest_first createdAt (filter (reportWhere tz q) (transactions d))) \<and>
   list_all (list_all (\<lambda>cell. \<not> is_formula cell)) (csv_read (snd (exportCsv nt d tz q user now))) \<and>
   same_data d (fst (exportCsv nt d tz q user now))"
proof -
  let ?ts = "newest_first createdAt (filter (reportWhere tz q) (transactions d))"
  let ?line = "\<lambda>vs. join_with (CHR '','') (map escapeCsv vs)"
  obtain h hs where h: "CSV_HEADERS = h # hs" "list_all plain_cell (h # hs)"
    using headers_plain by (cases CSV_HEADERS) auto
  have read: "csv_read (snd (exportCsv nt d tz q user now)) = CSV_HEADERS # map (\<lambda>t. map csv_guard (csv_fields nt d t)) ?ts"
  proof (cases ?ts)
    case Nil
    then show ?thesis using scan_plain_line(2) [OF h(2), of "[]"] by (simp add: csv_read_def exported_text h(1))
  next
    case (Cons t us)
    have "csv_scan Fresh [] [] (join_with newline (map ?line (map (csv_fields nt d) (t # us)))) = map (map csv_guard) (map (csv_fields nt d) (t # us))"
      by (rule scan_lines) (auto simp: csv_fields_def)
    then show ?thesis
      using scan_plain_line(1) [OF h(2), of "[]"] by (simp add: csv_read_def exported_text h(1) Cons comp_def)
  qed
  moreover have "list_all (\<lambda>cell. \<not> is_formula cell) CSV_HEADERS" by (simp add: CSV_HEADERS_def is_formula_def)
  then have "list_all (list_all (\<lambda>cell. \<not> is_formula cell)) (csv_read (snd (exportCsv nt d tz q user now)))"
    unfolding read by (simp add: list_all_iff csv_guard_safe)
  moreover have "same_data d (fst (exportCsv nt d tz q user now))"
    by (simp add: exportCsv_def exportCsvStream_def case_prod_unfold Let_def)
  ultimately show ?thesis by blast
qed

section \<open>The deviation that is exported\<close>

text \<open>The first fraud check of a visit is exported, not the last one.\<close>

lemma superseded_risk_exported:
  "fraudChecks d = [a, b] \<Longrightarrow> fc_transactionId a = tx_id t \<Longrightarrow> fc_transactionId b = tx_id t \<Longrightarrow>
     last (csv_fields nt d t) = risk_name (fc_riskLevel a)"
  by (simp add: csv_fields_def)

end
