(* ===== verification/Gms_Accepted.thy ===== *)
theory Gms_Accepted
  imports Gms_System
begin

text \<open>
  When the server accepts a request that nothing disturbs: for every operation the conditions under
  which the handler, run on the row it read, answers without an error.
\<close>

definition accepted :: "(num \<Rightarrow> string) \<Rightarrow> db \<Rightarrow> ident \<Rightarrow> jwt_user \<Rightarrow> op \<Rightarrow> instant \<Rightarrow> bool" where
  "accepted nt d i user r now \<longleftrightarrow> snd (serve nt d i user r now) = None"

lemma claim_fresh:
  assumes "db_ok d" "find_tx d i = Some t" "g t"
  shows "\<exists>d1. claim i g f d = (d1, 1)"
  using claim_current [of d i t g f] assms by (auto simp: db_ok_def)

lemma truck_facts:
  assumes "db_ok d" "find_tx d i = Some t"
  shows "status_fits (processType t) (status t)" "stage_ok (truck_for d i t)"
  using db_ok_stage [OF assms] by (auto simp: truck_ok_def truck_for_def)

section \<open>Gate and weighbridge\<close>

lemma accepted_checkOut:
  "db_ok d \<Longrightarrow> find_tx d i = Some tx \<Longrightarrow> status tx = WEIGH_OUT_DONE \<Longrightarrow> accepted nt d i user CheckOut now"
  using checkOut_result [of d i tx user now] by (auto simp: accepted_def serve_is_handler handler_def)

lemma accepted_cancel:
  assumes "db_ok d" "find_tx d i = Some tx" "\<not> final_status (status tx)"
  shows "accepted nt d i user (CancelTx reason) now"
proof -
  have st: "status tx \<notin> {CANCELLED, COMPLETED}" using assms(3) by auto
  obtain d1 where "claim i (\<lambda>t. revision t = revision tx \<and> status t \<notin> {CANCELLED, COMPLETED}) (trCancelled reason user now) d = (d1, 1)"
    using claim_fresh [OF assms(1,2), of "\<lambda>t. revision t = revision tx \<and> status t \<notin> {CANCELLED, COMPLETED}"] st by blast
  then show ?thesis
    using st by (simp add: accepted_def serve_is_handler handler_def trCancel_def assms(2) trCancel_at_def trCancelCommit_def)
qed

lemma accepted_weighIn:
  assumes "db_ok d" "find_tx d i = Some tx" "status tx = REGISTERED"
  shows "accepted nt d i user (WeighIn dto) now"
proof -
  obtain g ta s where w: "weighInWeights (processType tx) (wd_weight dto) = (g, ta, s)" by (cases "weighInWeights (processType tx) (wd_weight dto)")
  have s: "s = QC_VEHICLE_PENDING" using weighInWeights_next [OF w] .
  have dup: "find_first (current_wr i IN) (weighbridgeRecords d) = None" using no_duplicate_in assms by blast
  have v: "assertValidStatusTransition (status tx) s = (None :: wb_reason error option)"
    using assms(3) s by (simp add: assert_None_iff isValidStatusTransition_def)
  have "snd (claim i (\<lambda>t. status t = REGISTERED \<and> revision t = revision tx) f (add_weighbridge (weigh_record i IN dto user now d) d)) = 1" for f
    using assms by (subst claim_count) (auto simp: db_ok_def)
  then obtain d' where c: "weighInCommit tx i dto user now d = Inr d'"
    using dup v by (simp add: weighInCommit_def w Let_def case_prod_unfold)
  moreover obtain t where "find_tx d' i = Some t"
    using weighIn_commit [OF c assms(1) snapshot_current [OF assms(2)]] by (auto simp: w)
  moreover have "weighInRefusal tx i user now d = None" using dup assms(3) by (simp add: weighInRefusal_def)
  ultimately show ?thesis
    by (simp add: accepted_def serve_is_handler handler_def submitWeighIn_def assms(2) submitWeighIn_at_def)
qed

definition plausible :: "transaction \<Rightarrow> ident \<Rightarrow> weigh_dto \<Rightarrow> db \<Rightarrow> bool" where
  "plausible tx i dto d \<longleftrightarrow>
     (\<exists>gross tare. weighOutWeights tx i dto d = Inr (gross, tare) \<and> (isRejected (status tx) \<or> tare < gross))"

lemma accepted_weighOut:
  assumes "db_ok d" "find_tx d i = Some tx" "status tx \<in> set (weighOutStatuses (processType tx))" "plausible tx i dto d"
  shows "accepted nt d i user (WeighOut dto) now"
proof -
  obtain g ta where w: "weighOutWeights tx i dto d = Inr (g, ta)" and "isRejected (status tx) \<or> ta < g"
    using assms(4) by (auto simp: plausible_def)
  then obtain n where n: "weighOutNet (status tx) g ta = Inr n" by (auto simp: weighOutNet_def)
  have "weighOutRefusal tx i user now d = None"
    using assms(3) no_duplicate_out [OF assms(1,2,3)] by (auto simp: weighOutRefusal_def weighOutStatuses_spec in_weigh_out_from)
  then have p: "weighOutPrepare tx i dto user now d = (d, Inr (g, ta, n))" by (simp add: weighOutPrepare_def w n)
  obtain d' where c: "weighOutCommit tx i dto g ta n user now d = Inr d'"
    using weighOut_commit_succeeds [OF assms(1,2,3)] by blast
  obtain t where "find_tx d' i = Some t"
    using weighOut_commit [OF c assms(1) snapshot_current [OF assms(2)] assms(3)] by blast
  then show ?thesis
    by (simp add: accepted_def serve_is_handler handler_def submitWeighOut_def assms(2) submitWeighOut_at_def p c)
qed

section \<open>QC\<close>

lemma access_granted:
  "find_tx d i = Some tx \<Longrightarrow> assertProcessAccess user (processType tx) = (None :: qc_reason error option) \<Longrightarrow>
     findTransactionWithAccess d i (Some user) = Inr tx"
  by (simp add: findTransactionWithAccess_def)

lemma accepted_startQc:
  assumes "db_ok d" "find_tx d i = Some tx" "assertProcessAccess user (processType tx) = (None :: qc_reason error option)"
    "startQcStatus (status tx) = Some s"
  shows "accepted nt d i user StartQc now"
proof -
  have v: "assertValidStatusTransition (status tx) s = (None :: qc_reason error option)"
    using assms(4) by (cases "status tx") (auto simp: assert_None_iff isValidStatusTransition_def)
  obtain d1 where "claim i (\<lambda>t. status t = status tx \<and> revision t = revision tx) (qcStarted tx s now) d = (d1, 1)"
    using claim_fresh [OF assms(1,2), of "\<lambda>t. status t = status tx \<and> revision t = revision tx"] by blast
  then show ?thesis
    by (simp add: accepted_def serve_is_handler handler_def startQc_def access_granted [OF assms(2,3)] startQc_at_def assms(4) v startQcCommit_def)
qed

lemma no_vehicle_check:
  assumes "db_ok d" "find_tx d i = Some tx" "status tx \<in> {QC_VEHICLE_PENDING, QC_VEHICLE_IN_PROGRESS}"
  shows "filter (current_row i) (qcVehicleChecks d) = []"
  using truck_facts(2) [OF assms(1,2)] assms(3)
  by (auto simp: stage_ok_def truck_for_def Let_def count_where_def)

lemma no_incoming_check:
  assumes "db_ok d" "find_tx d i = Some tx" "status tx \<in> {INCOMING_CHECK_PENDING, INCOMING_CHECK_IN_PROGRESS}"
  shows "filter (current_row i) (incomingMaterialChecks d) = []" "count_where (current_row i) (incomingMaterialChecks d) = 0"
  using truck_facts(2) [OF assms(1,2)] assms(3)
  by (auto simp: stage_ok_def truck_for_def Let_def count_where_def)

lemma vehicle_transition:
  "s \<in> {QC_VEHICLE_PENDING, QC_VEHICLE_IN_PROGRESS} \<Longrightarrow> assertValidStatusTransition s (vehicleStatus r) = (None :: qc_reason error option)"
  by (cases r) (auto simp: assert_None_iff isValidStatusTransition_def)

lemma accepted_vehicleCheck:
  assumes "db_ok d" "find_tx d i = Some tx" "assertProcessAccess user (processType tx) = (None :: qc_reason error option)"
    "status tx \<in> {QC_VEHICLE_PENDING, QC_VEHICLE_IN_PROGRESS}"
    and gbj: "processType tx = GBJ \<Longrightarrow> \<exists>items m. validateChecklist (vc_checklistItems dto) = Inr items \<and>
      gbjDecision (vc_decisionMode dto) (vc_result dto) (vc_deviationReason dto) items = Inr m"
  shows "accepted nt d i user (VehicleCheck dto) now"
proof -
  have i: "tx_id tx = i" using assms(2) by (auto dest: find_tx_SomeD)
  have c: "\<exists>d1. claim i (\<lambda>t. status t = status tx \<and> revision t = revision tx) f d = (d1, 1)" for f
    using claim_fresh [OF assms(1,2), of "\<lambda>t. status t = status tx \<and> revision t = revision tx"] by blast
  have st: "\<not> (status tx \<noteq> QC_VEHICLE_IN_PROGRESS \<and> status tx \<noteq> QC_VEHICLE_PENDING)" using assms(4) by auto
  have "\<exists>d' v. submitVehicleCheck_at tx False i dto (ju_id user) now d = (d', Inr v)"
  proof (cases "processType tx = GBJ")
    case True
    then obtain items m where g: "validateChecklist (vc_checklistItems dto) = Inr items"
      "gbjDecision (vc_decisionMode dto) (vc_result dto) (vc_deviationReason dto) items = Inr m" using gbj by blast
    obtain d1 where "claim i (\<lambda>t. status t = status tx \<and> revision t = revision tx)
        (vehicleChecked tx (vehicleStatus (serverResult m)) now) d = (d1, 1)" using c by blast
    then show ?thesis using st True
      by (simp add: submitVehicleCheck_at_def submitGbjVehicleCheck_def g vehicle_transition [OF assms(4)] gbjCheckCommit_def Let_def i)
  next
    case False
    then have p: "processType tx = GBB \<or> processType tx = GSP" by (cases "processType tx") auto
    obtain d1 where "claim i (\<lambda>t. status t = status tx \<and> revision t = revision tx)
        (vehicleChecked tx (vehicleStatus (vc_result dto)) now) d = (d1, 1)" using c by blast
    then show ?thesis using st p
      by (auto simp: submitVehicleCheck_at_def vehicle_transition [OF assms(4)] legacyCheckCommit_def Let_def)
  qed
  then show ?thesis
    using no_vehicle_check [OF assms(1,2,4)]
    by (auto simp: accepted_def serve_is_handler handler_def submitVehicleCheck_def access_granted [OF assms(2,3)])
qed

lemma accepted_incomingCheck:
  assumes "db_ok d" "find_tx d i = Some tx" "assertProcessAccess user (processType tx) = (None :: qc_reason error option)"
    "status tx \<in> {INCOMING_CHECK_PENDING, INCOMING_CHECK_IN_PROGRESS}"
  shows "accepted nt d i user (IncomingCheck dto) now"
proof -
  have p: "processType tx = GBB \<or> processType tx = GSP"
    using truck_facts(1) [OF assms(1,2)] assms(4) by (cases "processType tx") (auto simp: status_fits_def)
  have v: "assertValidStatusTransition (status tx) (incomingStatus (ic_result dto)) = (None :: qc_reason error option)"
    using assms(4) by (cases "ic_result dto") (auto simp: assert_None_iff isValidStatusTransition_def)
  have "snd (claim i (\<lambda>t. status t = status tx \<and> revision t = revision tx) f (add_incoming_check r d)) = 1" for f r
    using assms(1,2) by (subst claim_count) (auto simp: db_ok_def)
  then show ?thesis
    using p assms(4) no_incoming_check [OF assms(1,2,4)]
    by (auto simp: accepted_def serve_is_handler handler_def submitIncomingCheck_def access_granted [OF assms(2,3)]
        submitIncomingCheck_at_def v incomingCheckCommit_def Let_def case_prod_unfold)
qed

section \<open>Warehouse\<close>

lemma accepted_startWarehouse:
  assumes "db_ok d" "find_tx d i = Some tx" "processType tx \<in> set (getWarehouseAccess d user)" "status tx = QC_VEHICLE_PASSED"
  shows "accepted nt d i user (StartWarehouse dto) now"
proof -
  obtain d1 where "claim i (\<lambda>t. status t = QC_VEHICLE_PASSED \<and> revision t = revision tx) (warehouseStarted tx dto user now) d = (d1, 1)"
    using claim_fresh [OF assms(1,2), of "\<lambda>t. status t = QC_VEHICLE_PASSED \<and> revision t = revision tx"] assms(4) by blast
  then obtain d' where c: "startCommit tx i dto user now d = Inr d'" by (simp add: startCommit_def Let_def)
  then obtain t where "find_tx d' i = Some t"
    using start_commit [OF c assms(1) snapshot_current [OF assms(2)] assms(4)] by blast
  moreover have "startRefusal tx i user now d = None" using assms(3,4) by (simp add: startRefusal_None)
  ultimately show ?thesis
    using c by (simp add: accepted_def serve_is_handler handler_def startWarehouse_def assms(2,4) startWarehouse_at_def start_valid)
qed

lemma accepted_completeWarehouse:
  assumes "db_ok d" "find_tx d i = Some tx" "processType tx \<in> set (getWarehouseAccess d user)" "status tx = WAREHOUSE_IN_PROGRESS"
    "warehouseEndAt tx = None" "\<not> (nullish (cd_actualWeight dto) \<and> nullish (cd_actualQuantity dto))"
  shows "accepted nt d i user (CompleteWarehouse dto) now"
proof -
  let ?g = "\<lambda>t. status t = WAREHOUSE_IN_PROGRESS \<and> revision t = revision tx \<and> warehouseEndAt t = None"
  obtain d1 where "claim i ?g (warehouseCompleted tx dto (finalRemarks nt dto) (completeStatus (processType tx)) user now) d = (d1, 1)"
    using claim_fresh [OF assms(1,2), of ?g] assms(4,5) by blast
  then obtain d' where c: "completeCommit nt tx i dto (completeStatus (processType tx)) user now d = Inr d'"
    by (simp add: completeCommit_def Let_def)
  then obtain t where "find_tx d' i = Some t"
    using complete_commit [OF c assms(1) snapshot_current [OF assms(2)] assms(4)] by blast
  moreover have "completeRefusal tx i user now d = None" using assms(3-5) by (simp add: completeRefusal_None)
  ultimately show ?thesis
    using c assms(6)
    by (simp add: accepted_def serve_is_handler handler_def completeWarehouse_def assms(2,4) completeWarehouse_at_def complete_valid)
qed

end
