(* ===== verification/Gms_ClientQc.thy ===== *)
theory Gms_ClientQc
  imports Gms_Qc Gms_Period
begin

text \<open>
  The vehicle check of GBJ trucks in the frontend (frontend/src/utils/gbjQcFlow.js and the buttons
  of frontend/src/views/QCVerification.vue), and that client and server agree on it.
\<close>

section \<open>The form\<close>

datatype gbj_answer = AnswerOk | AnswerNotOk

record gbj_state =
  gs_status :: "gbj_answer option"
  gs_photo :: "string option"

definition GBJ_VEHICLE_CHECKLIST :: "string list" where
  "GBJ_VEHICLE_CHECKLIST =
     [''Tidak ditemukan hama / No pest found'',
      ''Bebas dari barang haram dan najis / Free of haram and najis material'',
      ''Truk dalam kondisi bersih dan tidak berbau / Truck in clean condition and odour free'',
      ''Tidak ditemukan bahan kimia atau kontaminan lain / No chemical or other contaminant found'',
      ''Terdapat alas jika lantai truk kotor atau berlubang / There is a cover if the floor is holey or dirty'']"

definition CLIENT_SEVERITY :: "severity list" where
  "CLIENT_SEVERITY = [CRITICAL, CRITICAL, CONDITIONAL, CRITICAL, CONDITIONAL]"

datatype stage1_mode = GBJ_VEHICLE_CHECK | SAMPLING_AWAL | UNKNOWN_MODE

definition getQcStage1Mode :: "string option \<Rightarrow> stage1_mode" where
  "getQcStage1Mode ty =
     (if ty = Some ''GBJ'' then GBJ_VEHICLE_CHECK
      else if ty = Some ''GBB'' \<or> ty = Some ''GSP'' then SAMPLING_AWAL else UNKNOWN_MODE)"

record not_ok_item =
  ni_index :: nat
  ni_label :: string
  ni_severity :: severity
  ni_hasPhoto :: bool
  ni_photo :: "string option"

record gbj_evaluation =
  ev_isComplete :: bool
  ev_doneCount :: nat
  ev_remainingCount :: int
  ev_hasNotOk :: bool
  ev_passed :: bool
  ev_result :: qc_result
  ev_notOkLabels :: "string list"
  ev_notOkItems :: "not_ok_item list"
  ev_hasCriticalNotOk :: bool
  ev_hasConditionalNotOk :: bool
  ev_canApproveWithDeviation :: bool
  ev_defaultNotes :: string

definition item_label :: "nat \<Rightarrow> string" where
  "item_label i = (if i < length GBJ_VEHICLE_CHECKLIST then GBJ_VEHICLE_CHECKLIST ! i else ''Checklist item'')"

definition client_severity :: "nat \<Rightarrow> severity" where
  "client_severity i = (if i < length CLIENT_SEVERITY then CLIENT_SEVERITY ! i else CONDITIONAL)"

definition item_done :: "gbj_state \<Rightarrow> bool" where
  "item_done s \<longleftrightarrow> gs_status s = Some AnswerOk \<or> gs_status s = Some AnswerNotOk \<and> truthy_col (gs_photo s) \<noteq> None"

definition notOkItems :: "gbj_state list \<Rightarrow> not_ok_item list" where
  "notOkItems states =
     map (\<lambda>(i, s). \<lparr>ni_index = i, ni_label = item_label i, ni_severity = client_severity i,
           ni_hasPhoto = (truthy_col (gs_photo s) \<noteq> None), ni_photo = truthy_col (gs_photo s)\<rparr>)
       (filter (\<lambda>(i, s). gs_status s = Some AnswerNotOk) (enumerate 0 states))"

fun join_labels :: "string list \<Rightarrow> string" where
  "join_labels [] = []"
| "join_labels [s] = s"
| "join_labels (s # ss) = s @ ''; '' @ join_labels ss"

definition evaluateGbjChecklist :: "gbj_state list \<Rightarrow> gbj_evaluation" where
  "evaluateGbjChecklist states =
     (let totalCount = length GBJ_VEHICLE_CHECKLIST;
          doneCount = length (filter item_done states);
          isComplete = (length states = totalCount \<and> doneCount = totalCount);
          hasNotOk = list_ex (\<lambda>s. gs_status s = Some AnswerNotOk) states;
          passed = (isComplete \<and> \<not> hasNotOk);
          items = notOkItems states;
          critical = list_ex (\<lambda>x. ni_severity x = CRITICAL) items;
          labels = map (\<lambda>x. decimal (ni_index x + 1) @ ''. '' @ ni_label x) items
      in \<lparr>ev_isComplete = isComplete, ev_doneCount = doneCount, ev_remainingCount = int totalCount - int doneCount,
          ev_hasNotOk = hasNotOk, ev_passed = passed, ev_result = (if passed then QC_PASS else QC_REJECT),
          ev_notOkLabels = labels, ev_notOkItems = items, ev_hasCriticalNotOk = critical,
          ev_hasConditionalNotOk = list_ex (\<lambda>x. ni_severity x = CONDITIONAL) items,
          ev_canApproveWithDeviation = (isComplete \<and> hasNotOk \<and> \<not> critical),
          ev_defaultNotes = (if passed then ''Lolos QC Vehicle Checklist GBJ''
            else ''[REJECT QC VEHICLE GBJ] Temuan NOT OK ('' @ decimal (length labels) @ '' item): '' @ join_labels labels)\<rparr>)"

section \<open>The payload\<close>

definition answered_ok :: "gbj_state list \<Rightarrow> nat \<Rightarrow> bool" where
  "answered_ok states i \<longleftrightarrow> i < length states \<and> gs_status (states ! i) = Some AnswerOk"

definition payload_item :: "nat \<times> gbj_state \<Rightarrow> jsv" where
  "payload_item x =
     (case x of (i, s) \<Rightarrow> JObj [(''label'', JStr (item_label i)), (''ok'', JBool (gs_status s = Some AnswerOk)),
        (''photo'', (case truthy_col (gs_photo s) of None \<Rightarrow> JNull | Some p \<Rightarrow> JStr p))])"

definition buildGbjQcPayload ::
  "gbj_state list \<Rightarrow> qc_vehicle_decision_mode option \<Rightarrow> string option \<Rightarrow> vehicle_check_dto"
where
  "buildGbjQcPayload states decisionMode deviationReason =
     (let ev = evaluateGbjChecklist states
      in \<lparr>vc_result = ev_result ev,
          vc_decisionMode = (case decisionMode of None \<Rightarrow> Undefined | Some m \<Rightarrow> Value m),
          vc_deviationReason =
            (case (decisionMode, truthy_col deviationReason) of
               (Some APPROVED_WITH_DEVIATION, Some r) \<Rightarrow> Value (trim r) | _ \<Rightarrow> Undefined),
          vc_vehicleCleanliness = Value (answered_ok states 2), vc_vehicleOdor = Value (answered_ok states 2),
          vc_pestEvidence = Value (answered_ok states 0), vc_vehicleCondition = Value (ev_passed ev),
          vc_documentCompleteness = Undefined, vc_sealCondition = Undefined,
          vc_notes = Value (ev_defaultNotes ev),
          vc_checklistItems = Value (JObj [(''initialMoisture'', JNum 0),
            (''items'', JArr (map payload_item (enumerate 0 states)))])\<rparr>)"

text \<open>The buttons below the form, in the states of the template.\<close>

definition offeredModes :: "gbj_state list \<Rightarrow> qc_vehicle_decision_mode list" where
  "offeredModes states =
     (let ev = evaluateGbjChecklist states
      in if \<not> ev_isComplete ev then []
         else if \<not> ev_hasNotOk ev then [NORMAL_PASS]
         else if ev_canApproveWithDeviation ev then [REJECTED, APPROVED_WITH_DEVIATION]
         else [REJECTED])"

text \<open>
  \<open>submitGbjChecklist\<close> and \<open>confirmDeviation\<close>: what is sent for a mode, given the reason in the form.
\<close>

definition submittedPayload :: "gbj_state list \<Rightarrow> qc_vehicle_decision_mode \<Rightarrow> string \<Rightarrow> vehicle_check_dto option" where
  "submittedPayload states mode reason =
     (if \<not> ev_isComplete (evaluateGbjChecklist states) then None
      else if mode = APPROVED_WITH_DEVIATION then
        (if length (trim reason) < 10 then None else Some (buildGbjQcPayload states (Some mode) (Some reason)))
      else Some (buildGbjQcPayload states (Some mode) None))"

section \<open>Client and server\<close>

lemma json_get_item [simp]:
  "json_get ''ok'' (Value (payload_item (i, s))) = Value (JBool (gs_status s = Some AnswerOk))"
  "json_get ''photo'' (Value (payload_item (i, s))) =
     Value (case truthy_col (gs_photo s) of None \<Rightarrow> JNull | Some p \<Rightarrow> JStr p)"
  by (simp_all add: payload_item_def)

text \<open>What the canvas of the form produces: a JPEG of at most 2 MB.\<close>

definition photo_fits :: "gbj_state \<Rightarrow> bool" where
  "photo_fits s \<longleftrightarrow>
     (case truthy_col (gs_photo s) of None \<Rightarrow> True
      | Some p \<Rightarrow> match_data_uri p = Some ''image/jpeg'' \<and> estimated_bytes p \<le> MAX_PHOTO_DECODED_BYTES)"

definition checked :: "gbj_state \<Rightarrow> checked_item" where
  "checked s = (if gs_status s = Some AnswerOk then (True, None) else (False, truthy_col (gs_photo s)))"

lemma validate_item:
  assumes "item_done s" "photo_fits s"
  shows "validateItem i (payload_item (k, s)) = Inr (checked s)"
proof (cases "gs_status s = Some AnswerOk")
  case False
  then obtain p where p: "truthy_col (gs_photo s) = Some p" "gs_status s = Some AnswerNotOk" using assms(1) by (auto simp: item_done_def)
  then have "p \<noteq> []" by (auto simp: truthy_col_def split: option.splits if_splits)
  moreover have "match_data_uri p = Some ''image/jpeg''" "estimated_bytes p \<le> MAX_PHOTO_DECODED_BYTES"
    using assms(2) p by (simp_all add: photo_fits_def)
  moreover have "map ascii_lower ''image/jpeg'' \<in> set ALLOWED_PHOTO_MIMES"
    by (simp add: ascii_lower_def ALLOWED_PHOTO_MIMES_def)
  ultimately have "validatePhoto i (Value (JStr p)) = Inr p" by (simp add: validatePhoto_def Let_def del: list.map)
  then show ?thesis using p by (simp add: validateItem_def checked_def)
qed (simp add: validateItem_def checked_def)

lemma validate_items:
  "\<forall>s \<in> set states. item_done s \<and> photo_fits s \<Longrightarrow>
     validateItemsFrom i (map payload_item (enumerate k states)) = Inr (map checked states)"
  by (induction states arbitrary: i k) (simp_all add: validate_item)

lemma client_constants: "length GBJ_VEHICLE_CHECKLIST = 5" "GBJ_VEHICLE_CHECKLIST = GBJ_CHECKLIST_ITEMS"
  "CLIENT_SEVERITY = GBJ_CHECKLIST_SEVERITY"
  by (simp_all add: GBJ_VEHICLE_CHECKLIST_def GBJ_CHECKLIST_ITEMS_def CLIENT_SEVERITY_def GBJ_CHECKLIST_SEVERITY_def)

lemma complete_iff: "ev_isComplete (evaluateGbjChecklist states) \<longleftrightarrow> length states = 5 \<and> (\<forall>s \<in> set states. item_done s)"
proof -
  have "length (filter item_done states) = length states \<longleftrightarrow> (\<forall>s \<in> set states. item_done s)"
    by (metis filter_True length_filter_less nat_neq_iff)
  then show ?thesis by (auto simp: evaluateGbjChecklist_def Let_def client_constants(1))
qed

lemma five: "length xs = 5 \<Longrightarrow> \<exists>a b c d e. xs = [a, b, c, d, e]"
  by (auto simp: numeral_eq_Suc length_Suc_conv)

text \<open>The client's findings are the server's.\<close>

lemma same_findings:
  assumes "length states = 5" "\<forall>s \<in> set states. item_done s"
  shows "ev_hasNotOk (evaluateGbjChecklist states) \<longleftrightarrow> notOkIndices (map checked states) \<noteq> []"
    "ev_hasCriticalNotOk (evaluateGbjChecklist states) \<longleftrightarrow> criticalIndices (map checked states) \<noteq> []"
    "ev_hasNotOk (evaluateGbjChecklist states) \<longleftrightarrow> ev_result (evaluateGbjChecklist states) = QC_REJECT"
proof -
  obtain a b c d e where s: "states = [a, b, c, d, e]" using five [OF assms(1)] by blast
  have ok: "gs_status x = Some AnswerOk \<longleftrightarrow> gs_status x \<noteq> Some AnswerNotOk" if "x \<in> set states" for x
    using assms(2) that by (auto simp: item_done_def)
  have up: "[0..<5] = [0, 1, 2, 3, 4::nat]" by (simp add: upt_rec)
  show h: "ev_hasNotOk (evaluateGbjChecklist states) \<longleftrightarrow> notOkIndices (map checked states) \<noteq> []"
    using ok unfolding s
    by (auto simp: evaluateGbjChecklist_def Let_def notOkIndices_def checked_def up)
  have "criticalIndices (map checked states) \<noteq> [] \<longleftrightarrow>
      gs_status a = Some AnswerNotOk \<or> gs_status b = Some AnswerNotOk \<or> gs_status d = Some AnswerNotOk"
    using criticalIndices_Nil [of "map checked states"] ok unfolding s by (auto simp: checked_def)
  also have "\<dots> \<longleftrightarrow> ev_hasCriticalNotOk (evaluateGbjChecklist states)"
    unfolding s by (auto simp: evaluateGbjChecklist_def Let_def notOkItems_def client_severity_def CLIENT_SEVERITY_def)
  finally show "ev_hasCriticalNotOk (evaluateGbjChecklist states) \<longleftrightarrow> criticalIndices (map checked states) \<noteq> []" by simp
  have "ev_isComplete (evaluateGbjChecklist states)" using complete_iff assms by blast
  then show "ev_hasNotOk (evaluateGbjChecklist states) \<longleftrightarrow> ev_result (evaluateGbjChecklist states) = QC_REJECT"
    by (simp add: evaluateGbjChecklist_def Let_def)
qed

text \<open>
  The form and the server agree on GBJ trucks. Whatever is submitted from a
  complete form passes the validation of the checklist, with the answers of the form, and the server
  takes the decision that was asked for exactly when the form offers its button; a complete form
  always offers at least one.
\<close>
lemma client_server_agree:
  assumes "submittedPayload states mode reason = Some p" "\<forall>s \<in> set states. photo_fits s"
  shows "\<exists>items. validateChecklist (vc_checklistItems p) = Inr items \<and>
     map fst items = map (\<lambda>s. gs_status s = Some AnswerOk) states \<and>
     (gbjDecision (vc_decisionMode p) (vc_result p) (vc_deviationReason p) items = Inr mode \<longleftrightarrow>
        mode \<in> set (offeredModes states)) \<and> offeredModes states \<noteq> []"
proof -
  have full: "length states = 5" "\<forall>s \<in> set states. item_done s"
    using assms(1) complete_iff [of states] by (auto simp: submittedPayload_def split: if_splits)
  have p: "vc_checklistItems p = Value (JObj [(''initialMoisture'', JNum 0), (''items'', JArr (map payload_item (enumerate 0 states)))])"
    "vc_decisionMode p = Value mode"
    using assms(1) by (auto simp: submittedPayload_def buildGbjQcPayload_def Let_def split: if_splits)
  have reason: "mode = APPROVED_WITH_DEVIATION \<Longrightarrow>
      vc_deviationReason p = Value (trim reason) \<and> 10 \<le> length (trim (trim reason)) \<and> trim reason \<noteq> []"
  proof -
    assume m: "mode = APPROVED_WITH_DEVIATION"
    then have len: "10 \<le> length (trim reason)" and b: "p = buildGbjQcPayload states (Some mode) (Some reason)"
      using assms(1) by (auto simp: submittedPayload_def split: if_splits)
    have "trim [] = []" by (simp add: trim_def)
    with len have "reason \<noteq> []" "trim reason \<noteq> []" by auto
    then show "vc_deviationReason p = Value (trim reason) \<and> 10 \<le> length (trim (trim reason)) \<and> trim reason \<noteq> []"
      using len by (simp add: b m buildGbjQcPayload_def Let_def truthy_col_def)
  qed
  have "validateChecklist (vc_checklistItems p) = Inr (map checked states)"
    using validate_items [of states] full assms(2) by (simp add: p(1) validateChecklist_def)
  moreover have "map fst (map checked states) = map (\<lambda>s. gs_status s = Some AnswerOk) states"
    by (simp add: checked_def)
  moreover have "offeredModes states \<noteq> []"
    using full complete_iff [of states] by (simp add: offeredModes_def Let_def)
  moreover have "gbjDecision (Value mode) r (vc_deviationReason p) (map checked states) = Inr mode \<longleftrightarrow> mode \<in> set (offeredModes states)" for r
  proof -
    have can: "ev_canApproveWithDeviation (evaluateGbjChecklist states) \<longleftrightarrow>
        notOkIndices (map checked states) \<noteq> [] \<and> criticalIndices (map checked states) = []"
      using same_findings [OF full] full complete_iff [of states]
      by (simp add: evaluateGbjChecklist_def Let_def)
    show ?thesis
      using reason same_findings [OF full] can full complete_iff [of states]
      by (cases mode) (auto simp: offeredModes_def Let_def gbjDecision_def effectiveDecisionMode_def checkDecisionMatrix_def
          MIN_DEVIATION_REASON_LENGTH_def split: if_splits)
  qed
  ultimately show ?thesis using p(2) by auto
qed

text \<open>A truck with a dirty floor, approved with deviation.\<close>

definition ticked :: "gbj_answer \<Rightarrow> string option \<Rightarrow> gbj_state" where
  "ticked a ph = \<lparr>gs_status = Some a, gs_photo = ph\<rparr>"

definition dirty_floor :: "gbj_state list" where
  "dirty_floor = [ticked AnswerOk None, ticked AnswerOk None, ticked AnswerOk None, ticked AnswerOk None,
     ticked AnswerNotOk (Some ''data:image/jpeg;base64,QUJD'')]"

lemma deviation_form_applied:
  "\<exists>p items. submittedPayload dirty_floor APPROVED_WITH_DEVIATION ''dilapisi terpal bersih'' = Some p \<and>
     gbjDecision (vc_decisionMode p) (vc_result p) (vc_deviationReason p) items = Inr APPROVED_WITH_DEVIATION"
proof -
  have "ev_isComplete (evaluateGbjChecklist dirty_floor)"
    by (simp add: complete_iff dirty_floor_def ticked_def item_done_def truthy_col_def)
  moreover have "\<not> length (trim ''dilapisi terpal bersih'') < 10" by (simp add: trim_def is_blank_def)
  ultimately obtain p where p: "submittedPayload dirty_floor APPROVED_WITH_DEVIATION ''dilapisi terpal bersih'' = Some p"
    by (simp add: submittedPayload_def)
  have "\<forall>s \<in> set dirty_floor. photo_fits s"
    by (simp add: dirty_floor_def ticked_def photo_fits_def truthy_col_def match_data_uri_def mime_char_def
        estimated_bytes_def MAX_PHOTO_DECODED_BYTES_def)
  from client_server_agree [OF p this] obtain items where
    "gbjDecision (vc_decisionMode p) (vc_result p) (vc_deviationReason p) items = Inr APPROVED_WITH_DEVIATION \<longleftrightarrow>
        APPROVED_WITH_DEVIATION \<in> set (offeredModes dirty_floor)" by blast
  moreover have "APPROVED_WITH_DEVIATION \<in> set (offeredModes dirty_floor)"
    by (simp add: offeredModes_def evaluateGbjChecklist_def Let_def client_constants(1) dirty_floor_def ticked_def
        item_done_def truthy_col_def notOkItems_def client_severity_def CLIENT_SEVERITY_def)
  ultimately show ?thesis using p by blast
qed

section \<open>The note of an approved deviation\<close>

text \<open>The client's default note says that the truck was rejected, also when it was approved.\<close>

lemma deviation_noted_as_reject:
  assumes "submittedPayload states APPROVED_WITH_DEVIATION reason = Some p" "APPROVED_WITH_DEVIATION \<in> set (offeredModes states)"
  shows "\<exists>note. vc_notes p = Value (''[REJECT QC VEHICLE GBJ] '' @ note)"
proof -
  have "\<not> ev_passed (evaluateGbjChecklist states)"
    using assms(2) by (auto simp: offeredModes_def evaluateGbjChecklist_def Let_def split: if_splits)
  then have "\<exists>note. ev_defaultNotes (evaluateGbjChecklist states) = ''[REJECT QC VEHICLE GBJ] '' @ note"
    by (auto simp: evaluateGbjChecklist_def Let_def)
  then show ?thesis using assms(1) by (auto simp: submittedPayload_def buildGbjQcPayload_def Let_def split: if_splits)
qed

end
