(* ===== verification/Gms_Navigation.thy ===== *)
theory Gms_Navigation
  imports Gms_Scope
begin

text \<open>
  Signing in and moving between the pages of the frontend: the store of the session
  (frontend/src/stores/authStore.js) and the guard of the router (frontend/src/router/index.js).
  A reply of the server is an argument: the message of a failed request, or what it answered.
\<close>

section \<open>The session store\<close>

record client_user =
  cu_role :: role
  cu_warehouseAccess :: "process_type list"
  cu_mustChangePassword :: "bool option"

record auth_store =
  as_user :: "client_user option"
  as_token :: "string option"
  as_mustChangePassword :: bool
  as_loading :: bool
  as_error :: "string option"
  as_isInitialized :: bool

record auth_data =
  ad_accessToken :: "string option"
  ad_user :: "client_user option"
  ad_mustChangePassword :: bool

type_synonym 'a reply = "string + 'a"

definition emptyStore :: auth_store where
  "emptyStore = \<lparr>as_user = None, as_token = None, as_mustChangePassword = False, as_loading = False,
     as_error = None, as_isInitialized = False\<rparr>"

definition isAuthenticated :: "auth_store \<Rightarrow> bool" where
  "isAuthenticated st \<longleftrightarrow> truthy_col (as_token st) \<noteq> None \<and> as_user st \<noteq> None"

definition clearAuth :: "auth_store \<Rightarrow> auth_store" where
  "clearAuth st = st\<lparr>as_user := None, as_token := None, as_mustChangePassword := False,
     as_error := None, as_loading := False\<rparr>"

definition failedAuth :: "string \<Rightarrow> auth_store \<Rightarrow> auth_store" where
  "failedAuth msg st = (clearAuth st)\<lparr>as_error := Some msg, as_loading := False\<rparr>"

definition storeLogin :: "auth_data reply \<Rightarrow> auth_store \<Rightarrow> auth_store \<times> bool" where
  "storeLogin reply st =
     (case reply of
        Inl msg \<Rightarrow> (failedAuth msg st, False)
      | Inr a \<Rightarrow>
          (case (truthy_col (ad_accessToken a), ad_user a) of
             (Some t, Some u) \<Rightarrow>
               (st\<lparr>as_token := Some t, as_user := Some u, as_mustChangePassword := ad_mustChangePassword a,
                  as_isInitialized := True, as_loading := False, as_error := None\<rparr>, True)
           | _ \<Rightarrow> (failedAuth ''Invalid response data from server'' st, False)))"

definition storeLogout :: "auth_store \<Rightarrow> auth_store" where
  "storeLogout st = clearAuth st"

definition setToken :: "string option \<Rightarrow> auth_store \<Rightarrow> auth_store" where
  "setToken t st = st\<lparr>as_token := t\<rparr>"

definition fetchMe :: "client_user option reply \<Rightarrow> auth_store \<Rightarrow> auth_store \<times> bool" where
  "fetchMe reply st =
     (case reply of
        Inl msg \<Rightarrow> (st\<lparr>as_error := Some msg, as_loading := False\<rparr>, False)
      | Inr None \<Rightarrow> (st\<lparr>as_error := Some ''Invalid user info from server'', as_loading := False\<rparr>, False)
      | Inr (Some u) \<Rightarrow>
          (st\<lparr>as_user := Some u,
              as_mustChangePassword := val_or (cu_mustChangePassword u) (as_mustChangePassword st),
              as_error := None, as_loading := False\<rparr>, True))"

definition refreshAccessToken :: "string option reply \<Rightarrow> auth_store \<Rightarrow> auth_store \<times> bool" where
  "refreshAccessToken reply st =
     (case reply of
        Inl msg \<Rightarrow> (failedAuth msg st, False)
      | Inr a \<Rightarrow>
          (case truthy_col a of
             None \<Rightarrow> (failedAuth ''No access token returned from refresh request'' st, False)
           | Some t \<Rightarrow> (st\<lparr>as_token := Some t, as_error := None, as_loading := False\<rparr>, True)))"

definition initializeAuth ::
  "string option reply \<Rightarrow> client_user option reply \<Rightarrow> auth_store \<Rightarrow> auth_store"
where
  "initializeAuth refresh me st =
     (if as_isInitialized st then st
      else let st1 = st\<lparr>as_isInitialized := True\<rparr>
           in if truthy_col (as_token st1) \<noteq> None then st1
              else (case refreshAccessToken refresh st1 of
                      (st2, ok) \<Rightarrow> if ok then fst (fetchMe me st2) else st2))"

section \<open>The routes\<close>

datatype page =
    LoginPage | ChangePasswordPage | DashboardPage | GateInPage | WeighbridgePage | GbbPage | GbjPage | GspPage
  | QcPage | GateOutPage | HistoryPage | SettingsPage | UsersPage | UnauthorizedPage | NotFoundPage

record route_meta =
  rm_requiresAuth :: bool
  rm_roles :: "role list option"
  rm_warehouseCode :: "process_type option"

definition guarded_by :: "role list \<Rightarrow> process_type option \<Rightarrow> route_meta" where
  "guarded_by rs w = \<lparr>rm_requiresAuth = True, rm_roles = Some rs, rm_warehouseCode = w\<rparr>"

definition open_route :: route_meta where
  "open_route = \<lparr>rm_requiresAuth = False, rm_roles = None, rm_warehouseCode = None\<rparr>"

fun page_meta_of :: "page \<Rightarrow> route_meta" where
  "page_meta_of LoginPage = open_route"
| "page_meta_of ChangePasswordPage = open_route\<lparr>rm_requiresAuth := True\<rparr>"
| "page_meta_of DashboardPage = guarded_by [ADMIN, SECURITY, WAREHOUSE, QC] None"
| "page_meta_of GateInPage = guarded_by [ADMIN, SECURITY] None"
| "page_meta_of WeighbridgePage = guarded_by [ADMIN, SECURITY] None"
| "page_meta_of GbbPage = guarded_by [ADMIN, WAREHOUSE] (Some GBB)"
| "page_meta_of GbjPage = guarded_by [ADMIN, WAREHOUSE] (Some GBJ)"
| "page_meta_of GspPage = guarded_by [ADMIN, WAREHOUSE] (Some GSP)"
| "page_meta_of QcPage = guarded_by [ADMIN, QC] None"
| "page_meta_of GateOutPage = guarded_by [ADMIN, SECURITY] None"
| "page_meta_of HistoryPage = guarded_by [ADMIN, SECURITY, WAREHOUSE, QC] None"
| "page_meta_of SettingsPage = guarded_by [ADMIN] None"
| "page_meta_of UsersPage = guarded_by [ADMIN] None"
| "page_meta_of UnauthorizedPage = open_route"
| "page_meta_of NotFoundPage = open_route"

definition hasRoleAccess :: "role option \<Rightarrow> role list option \<Rightarrow> bool" where
  "hasRoleAccess r allowedRoles =
     (case allowedRoles of None \<Rightarrow> True
      | Some rs \<Rightarrow> rs = [] \<or> r = Some ADMIN \<or> (case r of None \<Rightarrow> False | Some x \<Rightarrow> x \<in> set rs))"

definition hasWarehouseAccess :: "client_user option \<Rightarrow> process_type option \<Rightarrow> bool" where
  "hasWarehouseAccess user warehouseCode =
     (case warehouseCode of None \<Rightarrow> True
      | Some w \<Rightarrow>
          (case user of None \<Rightarrow> False
           | Some u \<Rightarrow> cu_role u \<in> {ADMIN, SECURITY} \<or> w \<in> set (cu_warehouseAccess u)))"

section \<open>The guard\<close>

datatype verdict = Next | RedirectTo page

definition beforeEach ::
  "string option reply \<Rightarrow> client_user option reply \<Rightarrow> page \<Rightarrow> auth_store \<Rightarrow> auth_store \<times> verdict"
where
  "beforeEach refresh me target st0 =
     (let st = initializeAuth refresh me st0; meta = page_meta_of target
      in if target \<noteq> LoginPage \<and> \<not> isAuthenticated st then (st, RedirectTo LoginPage)
         else if target = LoginPage \<and> isAuthenticated st then
           (if as_mustChangePassword st then (storeLogout st, Next) else (st, RedirectTo DashboardPage))
         else if rm_requiresAuth meta \<and> isAuthenticated st then
           (if as_mustChangePassword st \<and> target \<noteq> ChangePasswordPage then (st, RedirectTo ChangePasswordPage)
            else if rm_roles meta \<noteq> None \<and> \<not> hasRoleAccess (map_option cu_role (as_user st)) (rm_roles meta)
              then (st, RedirectTo UnauthorizedPage)
            else if rm_warehouseCode meta \<noteq> None \<and> \<not> hasWarehouseAccess (as_user st) (rm_warehouseCode meta)
              then (st, RedirectTo UnauthorizedPage)
            else (st, Next))
         else (st, Next))"

text \<open>The router runs the guard again on every redirect, until it lets a page through.\<close>

partial_function (option) navigate ::
  "string option reply \<Rightarrow> client_user option reply \<Rightarrow> auth_store \<Rightarrow> page \<Rightarrow> (auth_store \<times> page) option"
where
  "navigate refresh me st target =
     (case beforeEach refresh me target st of
        (st', v) \<Rightarrow> (case v of Next \<Rightarrow> Some (st', target) | RedirectTo p \<Rightarrow> navigate refresh me st' p))"

section \<open>Which page is shown\<close>

text \<open>What the routes are meant to allow.\<close>

definition page_allowed :: "auth_store \<Rightarrow> page \<Rightarrow> bool" where
  "page_allowed st p \<longleftrightarrow>
     (if \<not> isAuthenticated st then p = LoginPage
      else p \<noteq> LoginPage \<and>
        (rm_requiresAuth (page_meta_of p) \<longrightarrow>
           (as_mustChangePassword st \<longrightarrow> p = ChangePasswordPage) \<and>
           hasRoleAccess (map_option cu_role (as_user st)) (rm_roles (page_meta_of p)) \<and>
           hasWarehouseAccess (as_user st) (rm_warehouseCode (page_meta_of p))))"

lemma initialize_once [simp]:
  "as_isInitialized (initializeAuth refresh me st)"
  "initializeAuth refresh me (initializeAuth refresh me st) = initializeAuth refresh me st"
proof -
  show i: "as_isInitialized (initializeAuth refresh me st)"
    by (auto simp: initializeAuth_def Let_def refreshAccessToken_def fetchMe_def failedAuth_def clearAuth_def
        split: sum.splits option.splits)
  then show "initializeAuth refresh me (initializeAuth refresh me st) = initializeAuth refresh me st"
    by (subst initializeAuth_def) simp
qed

lemma initialized [simp]: "as_isInitialized st \<Longrightarrow> initializeAuth refresh me st = st"
  by (simp add: initializeAuth_def)

lemma not_authenticated_logout [simp]: "\<not> isAuthenticated (storeLogout st)"
  by (simp add: isAuthenticated_def storeLogout_def clearAuth_def)

lemma no_restriction [simp]: "hasRoleAccess r None" "hasWarehouseAccess u None"
  by (simp_all add: hasRoleAccess_def hasWarehouseAccess_def)

text \<open>Where the guard sends a request for a page, once the session is initialised.\<close>

lemma guard_next: "as_isInitialized st \<Longrightarrow> page_allowed st p \<Longrightarrow> beforeEach refresh me p st = (st, Next)"
  by (auto simp: beforeEach_def page_allowed_def Let_def split: if_splits)

lemma navigate_allowed: "as_isInitialized st \<Longrightarrow> page_allowed st p \<Longrightarrow> navigate refresh me st p = Some (st, p)"
  by (subst navigate.simps) (simp add: guard_next)

lemma fixed_pages:
  "isAuthenticated st \<Longrightarrow> page_allowed st UnauthorizedPage"
  "isAuthenticated st \<Longrightarrow> page_allowed st ChangePasswordPage"
  "\<not> isAuthenticated st \<Longrightarrow> page_allowed st LoginPage"
  by (simp_all add: page_allowed_def open_route_def hasRoleAccess_def hasWarehouseAccess_def)

lemma dashboard_allowed: "isAuthenticated st \<Longrightarrow> \<not> as_mustChangePassword st \<Longrightarrow> page_allowed st DashboardPage"
  by (auto simp: page_allowed_def guarded_by_def hasRoleAccess_def hasWarehouseAccess_def isAuthenticated_def)
    (metis (full_types) role.exhaust)

lemma navigate_initialized:
  assumes "as_isInitialized st"
  shows "\<exists>st' p. navigate refresh me st target = Some (st', p) \<and> page_allowed st' p \<and> (page_allowed st' target \<longrightarrow> p = target)
     \<and> (st' = st \<or> st' = storeLogout st \<and> target = LoginPage)"
proof (cases "page_allowed st target")
  case True
  then show ?thesis using navigate_allowed [OF assms] by blast
next
  case no: False
  obtain st1 v where g: "beforeEach refresh me target st = (st1, v)" by (cases "beforeEach refresh me target st")
  show ?thesis
  proof (cases v)
    case Next
    have t: "target = LoginPage" "st1 = storeLogout st"
      using g no assms Next by (auto simp: beforeEach_def page_allowed_def Let_def split: if_splits)
    moreover have "navigate refresh me st target = Some (st1, target)"
      using g Next by (subst navigate.simps) simp
    ultimately show ?thesis using fixed_pages(3) [OF not_authenticated_logout] by blast
  next
    case (RedirectTo p)
    then have r: "st1 = st" "page_allowed st p"
      using g no assms fixed_pages [of st] dashboard_allowed [of st]
      by (auto simp: beforeEach_def Let_def split: if_splits)
    then have "navigate refresh me st target = Some (st, p)"
      using g RedirectTo navigate_allowed [OF assms] by (subst navigate.simps) simp
    then show ?thesis using r no by blast
  qed
qed

lemma navigate_initialize: "navigate refresh me st target = navigate refresh me (initializeAuth refresh me st) target"
  by (subst (1 2) navigate.simps) (simp add: beforeEach_def)

text \<open>
  C30. (safety) Navigation in the frontend always ends, after the silent refresh at the start and whatever
  redirects: on the login page without a session, and with one on a page that the role, the
  warehouses and a pending change of password allow; the page asked for is shown whenever it is
  allowed, and only asking for the login page can end a session.
\<close>
theorem navigation_guarded:
  "\<exists>st' p. navigate refresh me st target = Some (st', p) \<and> page_allowed st' p \<and>
     (page_allowed st' target \<longrightarrow> p = target) \<and>
     (st' = initializeAuth refresh me st \<or> st' = storeLogout (initializeAuth refresh me st) \<and> target = LoginPage)"
  using navigate_initialized [OF initialize_once(1)] by (subst navigate_initialize) blast

text \<open>A warehouse user of GBB opens the page of another warehouse from a bookmark.\<close>

definition gbb_user :: client_user where
  "gbb_user = \<lparr>cu_role = WAREHOUSE, cu_warehouseAccess = [GBB], cu_mustChangePassword = Some False\<rparr>"

theorem navigation_guarded_witness:
  "\<exists>st'. navigate (Inr (Some ''t'')) (Inr (Some gbb_user)) emptyStore GbbPage = Some (st', GbbPage) \<and> isAuthenticated st'"
proof -
  let ?r = "Inr (Some ''t'') :: string option reply" and ?m = "Inr (Some gbb_user) :: client_user option reply"
  have "page_allowed (initializeAuth ?r ?m emptyStore) GbbPage" and a: "isAuthenticated (initializeAuth ?r ?m emptyStore)"
    by code_simp+
  then show ?thesis using navigation_guarded [of ?r ?m emptyStore GbbPage] by blast
qed

end
