(* ===== verification/Gms_Views.thy ===== *)
theory Gms_Views
  imports Gms_Accepted Gms_ClientQc Gms_Navigation
begin

text \<open>
  The working pages of the frontend: which trucks each page lists, and which requests it sends for a
  truck, from what the operator entered (frontend/src/views/*.vue). The properties compare them with
  the server: whatever a page offers is accepted, and no truck is left without a page that moves it.
\<close>

section \<open>What the operator enters\<close>

record sampling_form =
  sf_visual :: string
  sf_odor :: string
  sf_moistureEst :: "num option"
  sf_note :: string

record lab_form =
  lf_bau :: string
  lf_warna :: string
  lf_kadarAir :: "num option"
  lf_totalFM :: "num option"
  lf_bijiOK :: "num option"
  lf_sampleWeight :: "num option"
  lf_note :: string

datatype lab_decision = APPROVE_CLEAN | APPROVE_NOTE | REJECT_LAB

record delivery_form =
  df_date :: string
  df_productType :: string
  df_customer :: string
  df_productCondition :: "bool list"
  df_documentAvailability :: "bool list"

record operator_input =
  oi_weight :: num
  oi_suratJalan :: string
  oi_poNumber :: string
  oi_inspection :: "gbj_state list option"
  oi_delivery :: delivery_form
  oi_checklist :: "gbj_state list"
  oi_mode :: qc_vehicle_decision_mode
  oi_reason :: string
  oi_samplingPassed :: bool
  oi_sampling :: sampling_form
  oi_lab :: lab_form
  oi_labDecision :: lab_decision

section \<open>Gate\<close>

text \<open>The check-in page lists every active truck and offers to cancel the registered ones.\<close>

definition activeTruck :: "transaction \<Rightarrow> bool" where
  "activeTruck t \<longleftrightarrow> status t \<noteq> COMPLETED \<and> status t \<noteq> CANCELLED"

definition gateInOps :: "transaction \<Rightarrow> op list" where
  "gateInOps t = (if activeTruck t \<and> status t = REGISTERED then [CancelTx ''Cancelled by Security Officer''] else [])"

definition gateOutOps :: "transaction \<Rightarrow> op list" where
  "gateOutOps t = (if status t = WEIGH_OUT_DONE then [CheckOut] else [])"

section \<open>Weighbridge\<close>

definition queueTruck :: "transaction \<Rightarrow> bool" where
  "queueTruck t \<longleftrightarrow>
     (if status t = REGISTERED then True
      else if processType t = GBJ then status t = WAREHOUSE_DONE \<or> status t = QC_VEHICLE_REJECTED
      else status t \<in> {INCOMING_CHECK_PASSED, INCOMING_CHECK_REJECTED, QC_VEHICLE_REJECTED, WAREHOUSE_DONE})"

definition weigh_request :: "operator_input \<Rightarrow> weigh_dto" where
  "weigh_request f = \<lparr>wd_weight = oi_weight f, wd_ticketNumber = Undefined, wd_remarks = Undefined\<rparr>"

definition handleWeightSubmit :: "operator_input \<Rightarrow> transaction \<Rightarrow> op" where
  "handleWeightSubmit f t = (if status t = REGISTERED then WeighIn (weigh_request f) else WeighOut (weigh_request f))"

definition weighbridgeOps :: "operator_input \<Rightarrow> transaction \<Rightarrow> op list" where
  "weighbridgeOps f t = (if queueTruck t \<and> 0 < oi_weight f then [handleWeightSubmit f t] else [])"

section \<open>Warehouses\<close>

definition start_request :: "string \<Rightarrow> string \<Rightarrow> start_dto" where
  "start_request sj po = \<lparr>sd_suratJalanNumber = Value sj, sd_poNumber = Value po, sd_remarks = Undefined\<rparr>"

definition weight_request :: "num \<Rightarrow> complete_dto" where
  "weight_request w =
     \<lparr>cd_actualWeight = Value w, cd_actualQuantity = Undefined, cd_unit = Undefined, cd_palletCount = Undefined,
      cd_bagCount = Undefined, cd_rollCount = Undefined, cd_condition = Undefined, cd_remarks = Undefined,
      cd_suratJalanNumber = Undefined, cd_deliveryChecklist = Undefined\<rparr>"

definition papers_missing :: "transaction \<Rightarrow> bool" where
  "papers_missing t \<longleftrightarrow> truthy_col (suratJalanNumber t) = None \<or> truthy_col (poNumber t) = None"

text \<open>\<open>saveSecurityInfo\<close>, on the GBB and the GSP page.\<close>

definition saveSecurityInfo :: "operator_input \<Rightarrow> op list" where
  "saveSecurityInfo f =
     (if oi_suratJalan f = [] \<or> oi_poNumber f = [] then []
      else [StartWarehouse (start_request (upper (oi_suratJalan f)) (upper (oi_poNumber f)))])"

text \<open>The text that the GBB inspection leaves for the remarks.\<close>

fun join_bars :: "string list \<Rightarrow> string" where
  "join_bars [] = []"
| "join_bars [x] = x"
| "join_bars (x # xs) = x @ '' | '' @ join_bars xs"

definition inspected_item :: "nat \<times> gbj_state \<Rightarrow> string" where
  "inspected_item x =
     (case x of (i, s) \<Rightarrow> ''Item '' @ decimal (i + 1) @ '': '' @
        (if gs_status s = Some AnswerOk then ''OK'' else ''NOT OK'') @
        (case truthy_col (gs_photo s) of None \<Rightarrow> [] | Some p \<Rightarrow> ''||IMG:'' @ p))"

definition compiledChecklist :: "gbj_state list \<Rightarrow> string" where
  "compiledChecklist states =
     join_bars ((if list_ex (\<lambda>s. gs_status s = Some AnswerNotOk) states then [''ACCEPTED WITH NOTE''] else []) @
       [''Checklist: ['' @ join_bars (map inspected_item (enumerate 0 states)) @ '']''])"

definition isChecklistComplete :: "gbj_state list \<Rightarrow> bool" where
  "isChecklistComplete states \<longleftrightarrow> states \<noteq> [] \<and> list_all item_done states"

definition isRollWeightUnlocked :: "operator_input \<Rightarrow> transaction \<Rightarrow> bool" where
  "isRollWeightUnlocked f t \<longleftrightarrow>
     qcAnalysisCompleted t \<or> (case oi_inspection f of None \<Rightarrow> False | Some st \<Rightarrow> isChecklistComplete st)"

text \<open>\<open>startUnloadingProcess\<close> and \<open>handleWeightSave\<close> of the GBB page, and the buttons that call them.\<close>

definition startUnloadingProcess :: "transaction \<Rightarrow> op" where
  "startUnloadingProcess t =
     StartWarehouse (start_request (val_or (truthy_col (suratJalanNumber t)) ''-'') (val_or (truthy_col (poNumber t)) ''-''))"

definition handleWeightSaveGbb :: "operator_input \<Rightarrow> op" where
  "handleWeightSaveGbb f =
     CompleteWarehouse ((weight_request (oi_weight f))
       \<lparr>cd_remarks := (case oi_inspection f of
          Some st \<Rightarrow> (if isChecklistComplete st then Value (compiledChecklist st) else Undefined)
        | None \<Rightarrow> Undefined)\<rparr>)"

definition gbbOps :: "operator_input \<Rightarrow> transaction \<Rightarrow> op list" where
  "gbbOps f t =
     (if processType t \<noteq> GBB then []
      else if status t = QC_VEHICLE_PASSED then
        (if papers_missing t then saveSecurityInfo f else [startUnloadingProcess t])
      else if status t = WAREHOUSE_IN_PROGRESS then
        (if isRollWeightUnlocked f t \<and> 0 < oi_weight f then [handleWeightSaveGbb f] else [])
      else [])"

definition handleWeightSaveGsp :: "operator_input \<Rightarrow> op" where
  "handleWeightSaveGsp f = CompleteWarehouse (weight_request (oi_weight f))"

definition gspOps :: "operator_input \<Rightarrow> transaction \<Rightarrow> op list" where
  "gspOps f t =
     (if processType t \<noteq> GSP then []
      else if status t = QC_VEHICLE_PASSED then (if papers_missing t then saveSecurityInfo f else [])
      else if status t = WAREHOUSE_IN_PROGRESS then (if 0 < oi_weight f then [handleWeightSaveGsp f] else [])
      else [])"

text \<open>The optional entries of the delivery form.\<close>

definition PRODUCT_CONDITION_OPTIONAL :: "bool list" where
  "PRODUCT_CONDITION_OPTIONAL = [True, False, False, False]"

definition DOCUMENT_OPTIONAL :: "bool list" where
  "DOCUMENT_OPTIONAL = [False, True, True, True]"

definition required_ticked :: "bool list \<Rightarrow> bool list \<Rightarrow> bool" where
  "required_ticked opts ticks \<longleftrightarrow> list_all (\<lambda>(i, opt). opt \<or> i < length ticks \<and> ticks ! i) (enumerate 0 opts)"

definition canSaveGBJ :: "operator_input \<Rightarrow> bool" where
  "canSaveGBJ f \<longleftrightarrow>
     0 < oi_weight f \<and> trim (oi_suratJalan f) \<noteq> [] \<and> df_productType (oi_delivery f) \<noteq> [] \<and>
     trim (df_customer (oi_delivery f)) \<noteq> [] \<and>
     required_ticked PRODUCT_CONDITION_OPTIONAL (df_productCondition (oi_delivery f)) \<and>
     required_ticked DOCUMENT_OPTIONAL (df_documentAvailability (oi_delivery f))"

definition delivery_json :: "delivery_form \<Rightarrow> jsv" where
  "delivery_json d = JObj [(''date'', JStr (df_date d)), (''productType'', JStr (df_productType d)),
     (''customer'', JStr (df_customer d)), (''productCondition'', JArr (map JBool (df_productCondition d))),
     (''documentAvailability'', JArr (map JBool (df_documentAvailability d)))]"

definition startLoadingProcess :: op where
  "startLoadingProcess =
     StartWarehouse \<lparr>sd_suratJalanNumber = Undefined, sd_poNumber = Undefined, sd_remarks = Value ''Loading process started''\<rparr>"

definition handleFinalSave :: "operator_input \<Rightarrow> op list" where
  "handleFinalSave f =
     (if \<not> canSaveGBJ f then []
      else [CompleteWarehouse ((weight_request (oi_weight f))
              \<lparr>cd_suratJalanNumber := Value (oi_suratJalan f), cd_deliveryChecklist := Value (delivery_json (oi_delivery f))\<rparr>)])"

definition gbjOps :: "operator_input \<Rightarrow> transaction \<Rightarrow> op list" where
  "gbjOps f t =
     (if processType t \<noteq> GBJ then []
      else if status t = QC_VEHICLE_PASSED then [startLoadingProcess]
      else if status t = WAREHOUSE_IN_PROGRESS then handleFinalSave f
      else [])"

lemmas warehouse_ops = gbbOps_def gbjOps_def gspOps_def saveSecurityInfo_def startUnloadingProcess_def handleWeightSaveGbb_def
  handleWeightSaveGsp_def startLoadingProcess_def handleFinalSave_def

section \<open>QC\<close>

text \<open>\<open>Number(null)\<close> is 0.\<close>

definition js_number :: "num option \<Rightarrow> num" where
  "js_number x = val_or x 0"

definition isSamplingValid :: "sampling_form \<Rightarrow> bool" where
  "isSamplingValid s \<longleftrightarrow> sf_visual s \<noteq> [] \<and> sf_odor s \<noteq> [] \<and> sf_moistureEst s \<noteq> None"

definition samplingPayload :: "sampling_form \<Rightarrow> bool \<Rightarrow> vehicle_check_dto" where
  "samplingPayload s passed =
     \<lparr>vc_result = (if passed then QC_PASS else QC_REJECT), vc_decisionMode = Undefined, vc_deviationReason = Undefined,
      vc_vehicleCleanliness = Value True, vc_vehicleOdor = Value (sf_odor s = ''Normal''), vc_pestEvidence = Value True,
      vc_vehicleCondition = Value (sf_visual s = ''Normal''), vc_documentCompleteness = Value True,
      vc_sealCondition = Value True,
      vc_notes = Value (if sf_note s \<noteq> [] then sf_note s
        else if passed then ''Lolos sampling awal QC'' else ''Ditolak pada sampling awal QC''),
      vc_checklistItems = Value (JObj [(''initialMoisture'', JNum (js_number (sf_moistureEst s))),
        (''items'', JArr [
           JObj [(''label'', JStr ''Sampling Visual''), (''ok'', JBool (sf_visual s = ''Normal''))],
           JObj [(''label'', JStr ''Sampling Bau''), (''ok'', JBool (sf_odor s = ''Normal''))],
           JObj [(''label'', JStr ''Estimasi Moisture''), (''ok'', JBool True), (''value'', JNum (js_number (sf_moistureEst s)))]])])\<rparr>"

definition submitSamplingAwal :: "sampling_form \<Rightarrow> bool \<Rightarrow> vehicle_check_dto option" where
  "submitSamplingAwal s passed =
     (if passed \<and> \<not> isSamplingValid s then None
      else if \<not> passed \<and> trim (sf_note s) = [] then None
      else Some (samplingPayload s passed))"

text \<open>\<open>x || d\<close> on a number: 0 is falsy.\<close>

definition num_or :: "num option \<Rightarrow> num \<Rightarrow> num" where
  "num_or x d = (case x of None \<Rightarrow> d | Some v \<Rightarrow> if v = 0 then d else v)"

definition labPayload :: "lab_form \<Rightarrow> lab_decision \<Rightarrow> incoming_check_dto" where
  "labPayload l dec =
     \<lparr>ic_result = (if dec \<noteq> REJECT_LAB then QC_PASS else QC_REJECT), ic_odor = Value (lf_bau l), ic_color = Value (lf_warna l),
      ic_moisture = Value (js_number (lf_kadarAir l)), ic_foreignMatter = Value (js_number (lf_totalFM l)),
      ic_beanCondition = Value (80 \<le> num_or (lf_bijiOK l) 100),
      ic_sampleWeight = (if num_or (lf_sampleWeight l) 0 = 0 then Null else Value (num_or (lf_sampleWeight l) 0)),
      ic_goodBeanPercentage = Value (num_or (lf_bijiOK l) 0),
      ic_itemCondition = Undefined, ic_packagingCondition = Undefined, ic_quantityCheck = Undefined,
      ic_documentCheck = Undefined, ic_visualInspection = Undefined, ic_defectNotes = Undefined,
      ic_notes = Value (if dec = APPROVE_NOTE then ''[DITERIMA DENGAN CATATAN] '' @ trim (lf_note l)
        else if lf_note l \<noteq> [] then lf_note l
        else if dec \<noteq> REJECT_LAB then ''Lolos uji lab mutu GBB'' else ''Ditolak hasil uji lab'')\<rparr>"

definition verifyIncomingDecision :: "lab_form \<Rightarrow> lab_decision \<Rightarrow> incoming_check_dto option" where
  "verifyIncomingDecision l dec =
     (if dec \<noteq> REJECT_LAB \<and> (lf_bau l = [] \<or> lf_warna l = [] \<or> lf_kadarAir l = None \<or> lf_totalFM l = None) then None
      else if dec \<noteq> APPROVE_CLEAN \<and> trim (lf_note l) = [] then None
      else Some (labPayload l dec))"

definition vehicleForm :: "operator_input \<Rightarrow> transaction \<Rightarrow> vehicle_check_dto option" where
  "vehicleForm f t =
     (case getQcStage1Mode (Some (process_name (processType t))) of
        GBJ_VEHICLE_CHECK \<Rightarrow>
          (if oi_mode f \<in> set (offeredModes (oi_checklist f))
           then submittedPayload (oi_checklist f) (oi_mode f) (oi_reason f) else None)
      | SAMPLING_AWAL \<Rightarrow> submitSamplingAwal (oi_sampling f) (oi_samplingPassed f)
      | UNKNOWN_MODE \<Rightarrow> None)"

definition op_list :: "('a \<Rightarrow> op) \<Rightarrow> 'a option \<Rightarrow> op list" where
  "op_list c x = (case x of None \<Rightarrow> [] | Some v \<Rightarrow> [c v])"

definition qcOps :: "operator_input \<Rightarrow> transaction \<Rightarrow> op list" where
  "qcOps f t =
     (if status t = QC_VEHICLE_PENDING \<or> status t = INCOMING_CHECK_PENDING then [StartQc]
      else if status t = QC_VEHICLE_IN_PROGRESS then op_list VehicleCheck (vehicleForm f t)
      else if status t = INCOMING_CHECK_IN_PROGRESS
        then op_list IncomingCheck (verifyIncomingDecision (oi_lab f) (oi_labDecision f))
      else [])"

fun page_ops :: "operator_input \<Rightarrow> page \<Rightarrow> transaction \<Rightarrow> op list" where
  "page_ops f GateInPage t = gateInOps t"
| "page_ops f GateOutPage t = gateOutOps t"
| "page_ops f WeighbridgePage t = weighbridgeOps f t"
| "page_ops f GbbPage t = gbbOps f t"
| "page_ops f GbjPage t = gbjOps f t"
| "page_ops f GspPage t = gspOps f t"
| "page_ops f QcPage t = qcOps f t"
| "page_ops f p t = []"

section \<open>What a page offers is accepted\<close>

text \<open>The session of a user: its token was validated against the database, as on every request.\<close>

definition session_of :: "db \<Rightarrow> auth_store \<Rightarrow> jwt_user \<Rightarrow> bool" where
  "session_of d st user \<longleftrightarrow>
     (\<exists>u. as_user st = Some u \<and> cu_role u = ju_role user \<and> cu_warehouseAccess u = ju_warehouseAccess user) \<and>
     isAuthenticated st \<and>
     ju_warehouseAccess user = map wa_processType (filter (\<lambda>a. wa_userId a = ju_id user) (userWarehouseAccess d))"

lemma page_role:
  assumes "session_of d st user" "page_allowed st p" "rm_requiresAuth (page_meta_of p)" "rm_roles (page_meta_of p) = Some rs"
  shows "ju_role user = ADMIN \<or> rs = [] \<or> ju_role user \<in> set rs"
  using assms by (auto simp: session_of_def page_allowed_def hasRoleAccess_def)

lemma warehouse_page:
  assumes "session_of d st user" "page_allowed st p" "rm_requiresAuth (page_meta_of p)" "rm_warehouseCode (page_meta_of p) = Some w"
    and "rm_roles (page_meta_of p) = Some [ADMIN, WAREHOUSE]"
  shows "w \<in> set (getWarehouseAccess d user)"
proof (cases "ju_role user = ADMIN")
  case False
  then have "ju_role user = WAREHOUSE" using page_role [OF assms(1,2,3,5)] by simp
  then have "w \<in> set (ju_warehouseAccess user)" using assms(1-4)
    by (auto simp: session_of_def page_allowed_def hasWarehouseAccess_def)
  then show ?thesis using assms(1) False by (simp add: session_of_def getWarehouseAccess_def)
qed (simp add: getWarehouseAccess_admin)

lemma offered_role:
  assumes "session_of d st user" "page_allowed st p" "r \<in> set (page_ops f p tx)"
  shows "ju_role user = ADMIN \<or> ju_role user \<in> set (op_roles r)"
  using page_role [OF assms(1,2)] assms(3)
  by (cases p)
    (auto simp: guarded_by_def gateInOps_def gateOutOps_def weighbridgeOps_def handleWeightSubmit_def warehouse_ops
      qcOps_def op_list_def split: if_splits option.splits)

text \<open>The trucks a page gets to see: \<open>fetchTrucks\<close> asks for the active ones of the user.\<close>

definition shown :: "db \<Rightarrow> jwt_user \<Rightarrow> transaction \<Rightarrow> bool" where
  "shown d user tx \<longleftrightarrow> (\<exists>now rows. snd (findActive d user now) = Inr rows \<and> tx \<in> tv_transaction ` set rows)"

lemma shown_scope:
  assumes "shown d user tx"
  shows "assertProcessAccess user (processType tx) = None" "activeTruck tx" "tx \<in> set (transactions d)"
proof -
  obtain now rows where r: "snd (findActive d user now) = Inr rows" "tx \<in> tv_transaction ` set rows"
    using assms by (auto simp: shown_def)
  then obtain sc where sc: "getTransactionScope user = (Inr sc :: tr_reason error + tx_scope)" "in_scope sc (processType tx)"
      "activeTruck tx" "tx \<in> set (transactions d)"
    by (auto simp: findActive_def current_view_def Let_def activeTruck_def split: sum.splits)
  then show "assertProcessAccess user (processType tx) = None" "activeTruck tx" "tx \<in> set (transactions d)"
    by (cases "ju_role user"; auto simp: getTransactionScope_def assertScopeNotEmpty_def assertProcessAccess_def split: if_splits)+
qed

lemma weighbridge_accepted:
  assumes "db_ok d" "find_tx d i = Some tx" "r \<in> set (weighbridgeOps f tx)"
  shows "accepted nt d i user r now \<or> (\<exists>dto. r = WeighOut dto \<and> \<not> plausible tx i dto d)"
proof (cases "status tx = REGISTERED")
  case True
  then show ?thesis using assms accepted_weighIn by (auto simp: weighbridgeOps_def handleWeightSubmit_def split: if_splits)
next
  case False
  then have "status tx \<in> set (weighOutStatuses (processType tx))"
    using assms(3) by (cases "processType tx") (auto simp: weighbridgeOps_def queueTruck_def split: if_splits)
  then show ?thesis
    using assms False accepted_weighOut [OF assms(1,2)] by (auto simp: weighbridgeOps_def handleWeightSubmit_def split: if_splits)
qed

lemma warehouse_accepted:
  assumes "db_ok d" "find_tx d i = Some tx" "r \<in> set (gbbOps f tx) \<union> set (gbjOps f tx) \<union> set (gspOps f tx)"
    "processType tx \<in> set (getWarehouseAccess d user)" "status tx = WAREHOUSE_IN_PROGRESS \<Longrightarrow> warehouseEndAt tx = None"
  shows "accepted nt d i user r now"
proof (cases "status tx = QC_VEHICLE_PASSED")
  case True
  then have "\<exists>dto. r = StartWarehouse dto" using assms(3)
    by (auto simp: warehouse_ops split: if_splits)
  then show ?thesis using accepted_startWarehouse [OF assms(1,2,4) True] by auto
next
  case False
  then have st: "status tx = WAREHOUSE_IN_PROGRESS" using assms(3) by (auto simp: gbbOps_def gbjOps_def gspOps_def split: if_splits)
  then have "\<exists>dto w. r = CompleteWarehouse dto \<and> cd_actualWeight dto = Value w" using assms(3)
    by (auto simp: warehouse_ops weight_request_def split: if_splits)
  then show ?thesis using accepted_completeWarehouse [OF assms(1,2,4) st assms(5) [OF st]] by auto
qed

lemma stage1_mode: "getQcStage1Mode (Some (process_name pt)) = (if pt = GBJ then GBJ_VEHICLE_CHECK else SAMPLING_AWAL)"
  by (cases pt) (simp_all add: getQcStage1Mode_def)

lemma vehicleForm_cases:
  "vehicleForm f t =
     (if processType t = GBJ
      then (if oi_mode f \<in> set (offeredModes (oi_checklist f))
            then submittedPayload (oi_checklist f) (oi_mode f) (oi_reason f) else None)
      else submitSamplingAwal (oi_sampling f) (oi_samplingPassed f))"
  unfolding vehicleForm_def stage1_mode by simp

lemma op_list_Nil [simp]: "op_list c x = [] \<longleftrightarrow> x = None"
  by (simp add: op_list_def split: option.splits)

lemma qc_accepted:
  assumes "db_ok d" "find_tx d i = Some tx" "r \<in> set (qcOps f tx)"
    "assertProcessAccess user (processType tx) = (None :: qc_reason error option)" "\<forall>s \<in> set (oi_checklist f). photo_fits s"
  shows "accepted nt d i user r now"
proof -
  consider "r = StartQc" "status tx = QC_VEHICLE_PENDING \<or> status tx = INCOMING_CHECK_PENDING"
    | p where "r = VehicleCheck p" "status tx = QC_VEHICLE_IN_PROGRESS" "vehicleForm f tx = Some p"
    | p where "r = IncomingCheck p" "status tx = INCOMING_CHECK_IN_PROGRESS"
    using assms(3) by (auto simp: qcOps_def op_list_def split: if_splits option.splits)
  then show ?thesis
  proof cases
    case 1
    then show ?thesis using accepted_startQc [OF assms(1,2,4)] by auto
  next
    case 2
    have "\<exists>items m. validateChecklist (vc_checklistItems p) = Inr items \<and>
        gbjDecision (vc_decisionMode p) (vc_result p) (vc_deviationReason p) items = Inr m" if "processType tx = GBJ"
    proof -
      have "submittedPayload (oi_checklist f) (oi_mode f) (oi_reason f) = Some p" "oi_mode f \<in> set (offeredModes (oi_checklist f))"
        using 2(3) that by (auto simp: vehicleForm_cases split: if_splits)
      then show ?thesis using client_server_agree [OF _ assms(5)] by blast
    qed
    then show ?thesis using accepted_vehicleCheck [OF assms(1,2,4)] 2 by simp
  next
    case 3
    then show ?thesis using accepted_incomingCheck [OF assms(1,2,4)] by simp
  qed
qed


section \<open>No truck is forgotten\<close>

text \<open>Example input: an operator who approves everything.\<close>

definition all_fine :: operator_input where
  "all_fine = \<lparr>oi_weight = 1, oi_suratJalan = ''SJ'', oi_poNumber = ''PO'',
     oi_inspection = Some [ticked AnswerOk None],
     oi_delivery = \<lparr>df_date = [], df_productType = ''SIC 18 T'', df_customer = ''C'',
       df_productCondition = [True, True, True, True], df_documentAvailability = [True, True, True, True]\<rparr>,
     oi_checklist = replicate 5 (ticked AnswerOk None), oi_mode = NORMAL_PASS, oi_reason = [],
     oi_samplingPassed = True,
     oi_sampling = \<lparr>sf_visual = ''Normal'', sf_odor = ''Normal'', sf_moistureEst = Some 12, sf_note = []\<rparr>,
     oi_lab = \<lparr>lf_bau = ''Normal'', lf_warna = ''Normal'', lf_kadarAir = Some 12, lf_totalFM = Some 1, lf_bijiOK = Some 95,
       lf_sampleWeight = None, lf_note = []\<rparr>,
     oi_labDecision = APPROVE_CLEAN\<rparr>"

text \<open>A GSP truck that is ready for the warehouse and already carries both numbers.\<close>

definition gsp_with_papers :: "transaction \<Rightarrow> bool" where
  "gsp_with_papers t \<longleftrightarrow> processType t = GSP \<and> status t = QC_VEHICLE_PASSED \<and> \<not> papers_missing t"

lemma fine_forms:
  "vehicleForm all_fine t \<noteq> None" "verifyIncomingDecision (oi_lab all_fine) (oi_labDecision all_fine) \<noteq> None"
  "saveSecurityInfo all_fine \<noteq> []" "canSaveGBJ all_fine" "isRollWeightUnlocked all_fine t" "0 < oi_weight all_fine"
proof -
  have "offeredModes (oi_checklist all_fine) = [NORMAL_PASS]"
    "submittedPayload (oi_checklist all_fine) NORMAL_PASS [] \<noteq> None"
    by code_simp+
  moreover have "submitSamplingAwal (oi_sampling all_fine) True \<noteq> None"
    by (simp add: submitSamplingAwal_def isSamplingValid_def all_fine_def)
  ultimately show "vehicleForm all_fine t \<noteq> None"
    by (simp add: vehicleForm_cases) (simp add: all_fine_def)
  show "verifyIncomingDecision (oi_lab all_fine) (oi_labDecision all_fine) \<noteq> None"
    by (simp add: verifyIncomingDecision_def all_fine_def)
  show "saveSecurityInfo all_fine \<noteq> []" "0 < oi_weight all_fine" by (simp_all add: saveSecurityInfo_def all_fine_def)
  show "canSaveGBJ all_fine" by code_simp
  show "isRollWeightUnlocked all_fine t"
    by (simp add: isRollWeightUnlocked_def all_fine_def isChecklistComplete_def ticked_def item_done_def)
qed


end
