(* ===== verification/Gms_Tour.thy ===== *)
theory Gms_Tour
  imports Gms_Views Gms_Scenario
begin

text \<open>The pages of the frontend applied to the truck of the visit.\<close>

definition signed_in_boss :: auth_store where
  "signed_in_boss = emptyStore\<lparr>as_token := Some ''t'', as_isInitialized := True,
     as_user := Some \<lparr>cu_role = ADMIN, cu_warehouseAccess = [], cu_mustChangePassword = Some False\<rparr>\<rparr>"

lemma boss_session: "session_of plant1 signed_in_boss boss"
proof -
  have "isAuthenticated signed_in_boss" by code_simp
  moreover have "map wa_processType (filter (\<lambda>a. wa_userId a = ju_id boss) (userWarehouseAccess plant1)) = []" by code_simp
  ultimately show ?thesis by (simp add: session_of_def signed_in_boss_def boss_def)
qed

lemma registered_shown: "shown plant1 boss (row plant1)"
proof -
  have t: "row plant1 \<in> set (transactions plant1)" "status (row plant1) = REGISTERED"
    using rows(1) by (auto dest: find_tx_SomeD)
  have "getTransactionScope boss = (Inr EveryProcess :: tr_reason error + tx_scope)" by code_simp
  then have "\<exists>rows. snd (findActive plant1 boss 0) = Inr rows \<and> row plant1 \<in> tv_transaction ` set rows"
    using t by (force simp: findActive_def current_view_def Let_def)
  then show ?thesis unfolding shown_def by blast
qed



end
