(* ===== verification/Gms_Requests.thy ===== *)
theory Gms_Requests
  imports Gms_Prelude
begin

text \<open>
  The HTTP client of the frontend (frontend/src/services/api.js): what its response interceptor does
  with a 401, when many requests are under way. One request leads the refresh of the access token,
  the others wait in a queue. The model is event driven: an event is an answer of the server, and
  between two events the code runs without a pause. The clean-up after a failed refresh waits for
  two imports, so it is an event of its own.
\<close>

section \<open>Requests and events\<close>

datatype call_kind = OrdinaryCall | LoginCall | RefreshCall

datatype call_state = Flying | Queued | Leading | Settled bool

record call =
  ca_kind :: call_kind
  ca_retry :: bool
  ca_state :: call_state

datatype refresh_phase = NoRefresh | Refreshing nat | Clearing nat

record http_client =
  cl_calls :: "call list"
  cl_phase :: refresh_phase
  cl_failedQueue :: "nat list"
  cl_token :: "string option"

datatype event =
    Send call_kind
  | Success nat
  | Failure nat
  | Refused nat
  | RefreshReply "string option"
  | Cleared

definition start_client :: http_client where
  "start_client = \<lparr>cl_calls = [], cl_phase = NoRefresh, cl_failedQueue = [], cl_token = None\<rparr>"

definition isRefreshing :: "http_client \<Rightarrow> bool" where
  "isRefreshing c \<longleftrightarrow> cl_phase c \<noteq> NoRefresh"

definition flying :: "http_client \<Rightarrow> nat \<Rightarrow> bool" where
  "flying c i \<longleftrightarrow> i < length (cl_calls c) \<and> ca_state (cl_calls c ! i) = Flying"

definition set_state :: "call_state \<Rightarrow> nat \<Rightarrow> call list \<Rightarrow> call list" where
  "set_state s i cs = cs[i := (cs ! i)\<lparr>ca_state := s\<rparr>]"

text \<open>\<open>processQueue\<close>: resolved calls are sent again, rejected ones have failed.\<close>

definition processQueue :: "call_state \<Rightarrow> http_client \<Rightarrow> http_client" where
  "processQueue s c = c\<lparr>cl_calls := fold (set_state s) (cl_failedQueue c) (cl_calls c), cl_failedQueue := []\<rparr>"

definition settle :: "bool \<Rightarrow> nat \<Rightarrow> http_client \<Rightarrow> http_client" where
  "settle b i c = c\<lparr>cl_calls := set_state (Settled b) i (cl_calls c)\<rparr>"

text \<open>The interceptor on a 401.\<close>

definition onUnauthorized :: "nat \<Rightarrow> http_client \<Rightarrow> http_client" where
  "onUnauthorized i c =
     (let r = cl_calls c ! i
      in if ca_retry r then settle False i c
         else if ca_kind r = LoginCall then settle False i c
         else if ca_kind r = RefreshCall then (settle False i c)\<lparr>cl_token := None\<rparr>
         else if isRefreshing c then
           c\<lparr>cl_calls := set_state Queued i (cl_calls c), cl_failedQueue := cl_failedQueue c @ [i]\<rparr>
         else
           c\<lparr>cl_calls := (cl_calls c)[i := r\<lparr>ca_retry := True, ca_state := Leading\<rparr>], cl_phase := Refreshing i\<rparr>)"

definition onRefreshed :: "nat \<Rightarrow> string option \<Rightarrow> http_client \<Rightarrow> http_client" where
  "onRefreshed l reply c =
     (case truthy_col reply of
        Some t \<Rightarrow>
          (processQueue Flying (c\<lparr>cl_token := Some t\<rparr>))
            \<lparr>cl_calls := set_state Flying l (cl_calls (processQueue Flying c)), cl_phase := NoRefresh\<rparr>
      | None \<Rightarrow> (processQueue (Settled False) c)\<lparr>cl_phase := Clearing l\<rparr>)"

definition onCleared :: "nat \<Rightarrow> http_client \<Rightarrow> http_client" where
  "onCleared l c = (settle False l c)\<lparr>cl_token := None, cl_phase := NoRefresh\<rparr>"

fun client_step :: "event \<Rightarrow> http_client \<Rightarrow> http_client option" where
  "client_step (Send k) c = Some (c\<lparr>cl_calls := cl_calls c @ [\<lparr>ca_kind = k, ca_retry = False, ca_state = Flying\<rparr>]\<rparr>)"
| "client_step (Success i) c = (if flying c i then Some (settle True i c) else None)"
| "client_step (Failure i) c = (if flying c i then Some (settle False i c) else None)"
| "client_step (Refused i) c = (if flying c i then Some (onUnauthorized i c) else None)"
| "client_step (RefreshReply reply) c =
     (case cl_phase c of Refreshing l \<Rightarrow> Some (onRefreshed l reply c) | _ \<Rightarrow> None)"
| "client_step Cleared c = (case cl_phase c of Clearing l \<Rightarrow> Some (onCleared l c) | _ \<Rightarrow> None)"

fun client_run :: "event list \<Rightarrow> http_client \<Rightarrow> http_client option" where
  "client_run [] c = Some c"
| "client_run (e # es) c = (case client_step e c of None \<Rightarrow> None | Some c' \<Rightarrow> client_run es c')"

section \<open>The invariant\<close>

text \<open>
  The queue holds exactly the queued calls, and the call that leads a refresh is the one the phase
  names.
\<close>

definition state_of :: "call list \<Rightarrow> nat \<Rightarrow> call_state option" where
  "state_of cs i = (if i < length cs then Some (ca_state (cs ! i)) else None)"

definition client_ok :: "http_client \<Rightarrow> bool" where
  "client_ok c \<longleftrightarrow>
     (\<forall>i. state_of (cl_calls c) i = Some Queued \<longleftrightarrow> i \<in> set (cl_failedQueue c)) \<and>
     (\<forall>i. state_of (cl_calls c) i = Some Leading \<longleftrightarrow> cl_phase c \<in> {Refreshing i, Clearing i})"

lemma set_state_length [simp]: "length (set_state s i cs) = length cs"
  by (simp add: set_state_def)

lemma fold_state_length [simp]: "length (fold (set_state s) q cs) = length cs"
  by (induction q arbitrary: cs) auto

lemma state_of_set [simp]:
  "state_of (set_state s i cs) j = (if j = i \<and> i < length cs then Some s else state_of cs j)"
  by (simp add: set_state_def state_of_def nth_list_update)

lemma state_of_fold [simp]:
  "state_of (fold (set_state s) q cs) j = (if j \<in> set q \<and> j < length cs then Some s else state_of cs j)"
  by (induction q arbitrary: cs) auto

lemma state_of_more [simp]:
  "state_of (cs[i := r\<lparr>ca_retry := True, ca_state := s\<rparr>]) j = (if j = i \<and> i < length cs then Some s else state_of cs j)"
  "state_of (cs @ [x]) j = (if j = length cs then Some (ca_state x) else state_of cs j)"
  by (auto simp: state_of_def nth_list_update nth_append)

lemma state_of_bound: "state_of cs i = Some s \<Longrightarrow> i < length cs"
  by (auto simp: state_of_def split: if_splits)

lemma flying_iff: "flying c i \<longleftrightarrow> state_of (cl_calls c) i = Some Flying"
  by (auto simp: flying_def state_of_def)

lemma client_okD:
  assumes "client_ok c"
  shows "i \<in> set (cl_failedQueue c) \<longleftrightarrow> state_of (cl_calls c) i = Some Queued"
    "cl_phase c = Refreshing i \<Longrightarrow> state_of (cl_calls c) i = Some Leading"
    "cl_phase c = Clearing i \<Longrightarrow> state_of (cl_calls c) i = Some Leading"
    "state_of (cl_calls c) i = Some Leading \<Longrightarrow> cl_phase c = Refreshing i \<or> cl_phase c = Clearing i"
  using assms by (auto simp: client_ok_def)

lemma flying_apart:
  assumes "client_ok c" "flying c i"
  shows "i < length (cl_calls c)" "i \<notin> set (cl_failedQueue c)" "cl_phase c \<noteq> Refreshing i" "cl_phase c \<noteq> Clearing i"
proof -
  have st: "state_of (cl_calls c) i = Some Flying" using assms(2) by (simp add: flying_iff)
  then show "i < length (cl_calls c)" by (rule state_of_bound)
  show "i \<notin> set (cl_failedQueue c)" using client_okD(1) [OF assms(1), of i] st by simp
  show "cl_phase c \<noteq> Refreshing i" "cl_phase c \<noteq> Clearing i"
    using client_okD(2,3) [OF assms(1), of i] st by auto
qed

lemma settle_ok: "flying c i \<Longrightarrow> client_ok c \<Longrightarrow> client_ok (settle b i c)"
  using flying_apart [of c i] by (auto simp: client_ok_def settle_def)

lemma unauthorized_ok:
  assumes "flying c i" "client_ok c"
  shows "client_ok (onUnauthorized i c)"
proof -
  have "client_ok ((settle False i c)\<lparr>cl_token := None\<rparr>)" using settle_ok [OF assms, of False] by (simp add: client_ok_def)
  moreover have "client_ok (c\<lparr>cl_calls := set_state Queued i (cl_calls c), cl_failedQueue := cl_failedQueue c @ [i]\<rparr>)"
    using assms flying_apart [OF assms(2,1)] by (auto simp: client_ok_def)
  moreover have "client_ok (c\<lparr>cl_calls := (cl_calls c)[i := r\<lparr>ca_retry := True, ca_state := Leading\<rparr>], cl_phase := Refreshing i\<rparr>)"
    if "cl_phase c = NoRefresh" for r
    using assms that flying_apart [OF assms(2,1)] by (auto simp: client_ok_def)
  ultimately show ?thesis
    using settle_ok [OF assms] by (simp add: onUnauthorized_def Let_def isRefreshing_def)
qed

lemma refreshed_ok:
  assumes "cl_phase c = Refreshing l" "client_ok c"
  shows "client_ok (onRefreshed l reply c)"
proof -
  have l: "state_of (cl_calls c) l = Some Leading" "l < length (cl_calls c)" "\<And>i. state_of (cl_calls c) i = Some Leading \<longleftrightarrow> i = l"
    using assms by (auto simp: client_ok_def dest: state_of_bound)
  have q: "\<And>i. state_of (cl_calls c) i = Some Queued \<longleftrightarrow> i \<in> set (cl_failedQueue c)" "\<And>i. i \<in> set (cl_failedQueue c) \<Longrightarrow> i < length (cl_calls c)"
    using assms by (auto simp: client_ok_def dest: state_of_bound)
  have ql: "l \<notin> set (cl_failedQueue c)" using l(1) q(1) [of l] by auto
  show ?thesis
    using l q ql by (auto simp: client_ok_def onRefreshed_def processQueue_def split: option.splits)
qed

lemma cleared_ok:
  assumes "cl_phase c = Clearing l" "client_ok c"
  shows "client_ok (onCleared l c)"
proof -
  have l: "state_of (cl_calls c) l = Some Leading" using client_okD(3) [OF assms(2,1)] .
  then have "l \<notin> set (cl_failedQueue c)" using client_okD(1) [OF assms(2), of l] by simp
  with state_of_bound [OF l] show ?thesis using assms by (auto simp: client_ok_def onCleared_def settle_def)
qed

lemma send_ok:
  assumes "client_ok c"
  shows "client_ok (c\<lparr>cl_calls := cl_calls c @ [\<lparr>ca_kind = k, ca_retry = False, ca_state = Flying\<rparr>]\<rparr>)"
proof -
  have "length (cl_calls c) \<notin> set (cl_failedQueue c)" "cl_phase c \<notin> {Refreshing (length (cl_calls c)), Clearing (length (cl_calls c))}"
    using assms by (auto simp: client_ok_def dest: state_of_bound)
  then show ?thesis using assms by (auto simp: client_ok_def)
qed

lemma client_step_ok: "client_step e c = Some c' \<Longrightarrow> client_ok c \<Longrightarrow> client_ok c'"
  by (cases e)
    (auto simp: settle_ok unauthorized_ok refreshed_ok cleared_ok send_ok split: if_splits refresh_phase.splits)

lemma client_run_ok: "client_run es c = Some c' \<Longrightarrow> client_ok c \<Longrightarrow> client_ok c'"
  by (induction es arbitrary: c) (auto split: option.splits dest: client_step_ok)

lemma run_append: "client_run (a @ b) x = (case client_run a x of None \<Rightarrow> None | Some y \<Rightarrow> client_run b y)"
  by (induction a arbitrary: x) (auto split: option.splits)

lemma start_ok: "client_ok start_client"
  by (simp add: client_ok_def start_client_def state_of_def)

section \<open>Every call is settled\<close>

text \<open>How many answers can still come before the client has to send something new.\<close>

fun phase_weight :: "refresh_phase \<Rightarrow> nat" where
  "phase_weight NoRefresh = 0"
| "phase_weight (Clearing l) = 1"
| "phase_weight (Refreshing l) = 2"

definition untried :: "http_client \<Rightarrow> nat" where
  "untried c = length (filter (\<lambda>r. \<not> ca_retry r) (cl_calls c))"

definition in_flight :: "http_client \<Rightarrow> nat" where
  "in_flight c = length (filter (\<lambda>r. ca_state r = Flying) (cl_calls c))"

definition answers_left :: "http_client \<Rightarrow> nat" where
  "answers_left c = (3 * untried c + phase_weight (cl_phase c)) * Suc (length (cl_calls c)) + in_flight c"

lemma in_flight_le: "in_flight c \<le> length (cl_calls c)"
  by (simp add: in_flight_def)

lemma filter_update_length:
  assumes "i < length xs"
  shows "length (filter p (xs[i := y])) + (if p (xs ! i) then 1 else 0) = length (filter p xs) + (if p y then 1 else 0)"
proof -
  have "xs = take i xs @ xs ! i # drop (Suc i) xs" using assms by (rule id_take_nth_drop)
  then have "length (filter p xs) = length (filter p (take i xs @ xs ! i # drop (Suc i) xs))" by simp
  then show ?thesis using assms by (simp add: upd_conv_take_nth_drop)
qed

lemma set_state_untried [simp]: "length (filter (\<lambda>r. \<not> ca_retry r) (set_state s i cs)) = length (filter (\<lambda>r. \<not> ca_retry r) cs)"
proof (cases "i < length cs")
  case True
  then show ?thesis using filter_update_length [OF True, of "\<lambda>r. \<not> ca_retry r" "(cs ! i)\<lparr>ca_state := s\<rparr>"] by (simp add: set_state_def)
qed (simp add: set_state_def list_update_beyond)

lemma fold_untried [simp]: "length (filter (\<lambda>r. \<not> ca_retry r) (fold (set_state s) q cs)) = length (filter (\<lambda>r. \<not> ca_retry r) cs)"
  by (induction q arbitrary: cs) auto

lemma land:
  assumes "flying c i" "s \<noteq> Flying"
  shows "Suc (length (filter (\<lambda>r. ca_state r = Flying) (set_state s i (cl_calls c)))) = in_flight c"
  using assms filter_update_length [of i "cl_calls c" "\<lambda>r. ca_state r = Flying" "(cl_calls c ! i)\<lparr>ca_state := s\<rparr>"]
  by (simp add: set_state_def in_flight_def flying_def)

lemma settle_progress: "flying c i \<Longrightarrow> answers_left (settle b i c) < answers_left c"
  using land [of c i "Settled b"] by (simp add: answers_left_def settle_def untried_def) (simp add: in_flight_def)

lemma unauthorized_progress:
  assumes "flying c i"
  shows "answers_left (onUnauthorized i c) < answers_left c"
proof -
  let ?r = "cl_calls c ! i" and ?n = "Suc (length (cl_calls c))"
  have i: "i < length (cl_calls c)" using assms by (simp add: flying_def)
  have "answers_left (c\<lparr>cl_calls := set_state Queued i (cl_calls c), cl_failedQueue := q\<rparr>) < answers_left c" for q
    using land [OF assms, of Queued] by (simp add: answers_left_def untried_def) (simp add: in_flight_def)
  moreover have "answers_left ((settle False i c)\<lparr>cl_token := None\<rparr>) < answers_left c"
    using settle_progress [OF assms, of False] by (simp add: answers_left_def untried_def in_flight_def)
  moreover have "answers_left (c\<lparr>cl_calls := (cl_calls c)[i := ?r\<lparr>ca_retry := True, ca_state := Leading\<rparr>], cl_phase := Refreshing i\<rparr>) < answers_left c"
    if nr: "\<not> ca_retry ?r" "cl_phase c = NoRefresh"
  proof -
    let ?c = "c\<lparr>cl_calls := (cl_calls c)[i := ?r\<lparr>ca_retry := True, ca_state := Leading\<rparr>], cl_phase := Refreshing i\<rparr>"
    have u: "untried c = Suc (untried ?c)"
      using filter_update_length [OF i, of "\<lambda>r. \<not> ca_retry r" "?r\<lparr>ca_retry := True, ca_state := Leading\<rparr>"] nr
      by (simp add: untried_def)
    have "(3 * untried ?c + 2) * ?n + length (cl_calls c) < (3 * untried c) * ?n" unfolding u by (simp add: distrib_right)
    moreover have "in_flight ?c \<le> length (cl_calls c)" using in_flight_le [of ?c] by simp
    ultimately show ?thesis using nr(2) by (simp add: answers_left_def)
  qed
  ultimately show ?thesis
    using settle_progress [OF assms] by (simp add: onUnauthorized_def Let_def isRefreshing_def)
qed

lemma refreshed_progress:
  assumes "cl_phase c = Refreshing l"
  shows "answers_left (onRefreshed l reply c) < answers_left c"
proof -
  let ?n = "Suc (length (cl_calls c))"
  have same: "untried (onRefreshed l reply c) = untried c" "length (cl_calls (onRefreshed l reply c)) = length (cl_calls c)"
    by (auto simp: onRefreshed_def processQueue_def untried_def split: option.splits)
  have "phase_weight (cl_phase (onRefreshed l reply c)) \<le> 1" by (simp add: onRefreshed_def split: option.splits)
  then have "(3 * untried c + phase_weight (cl_phase (onRefreshed l reply c))) * ?n \<le> (3 * untried c + 1) * ?n"
    by (intro mult_right_mono) auto
  moreover have "in_flight (onRefreshed l reply c) \<le> length (cl_calls c)"
    using in_flight_le [of "onRefreshed l reply c"] same(2) by simp
  moreover have "answers_left c \<ge> (3 * untried c + 1) * ?n + ?n" using assms by (simp add: answers_left_def)
  ultimately show ?thesis unfolding answers_left_def [of "onRefreshed l reply c"] same by linarith
qed

lemma cleared_progress:
  assumes "cl_phase c = Clearing l" "state_of (cl_calls c) l = Some Leading"
  shows "answers_left (onCleared l c) < answers_left c"
proof -
  have l: "l < length (cl_calls c)" using assms(2) by (rule state_of_bound)
  then have "in_flight (onCleared l c) = in_flight c"
    using filter_update_length [OF l, of "\<lambda>r. ca_state r = Flying" "(cl_calls c ! l)\<lparr>ca_state := Settled False\<rparr>"] assms(2)
    by (simp add: in_flight_def onCleared_def settle_def set_state_def state_of_def)
  then show ?thesis using assms(1) by (simp add: answers_left_def onCleared_def settle_def untried_def)
qed

fun is_send :: "event \<Rightarrow> bool" where
  "is_send (Send k) = True"
| "is_send _ = False"

lemma step_progress:
  "client_step e c = Some c' \<Longrightarrow> client_ok c \<Longrightarrow> \<not> is_send e \<Longrightarrow> answers_left c' < answers_left c"
  by (cases e)
    (auto simp: settle_progress unauthorized_progress refreshed_progress cleared_progress client_okD(3)
      split: if_splits refresh_phase.splits)

lemma run_progress:
  "client_run es c = Some c' \<Longrightarrow> client_ok c \<Longrightarrow> list_all (\<lambda>e. \<not> is_send e) es \<Longrightarrow> length es + answers_left c' \<le> answers_left c"
proof (induction es arbitrary: c)
  case (Cons e es)
  then obtain c1 where c1: "client_step e c = Some c1" "client_run es c1 = Some c'" by (auto split: option.splits)
  then show ?case
    using Cons.IH [OF c1(2) client_step_ok [OF c1(1) Cons.prems(2)]] step_progress [OF c1(1) Cons.prems(2)] Cons.prems(3) by simp
qed simp

text \<open>Nothing is under way: every call has its answer, and no refresh is running.\<close>

definition quiescent :: "http_client \<Rightarrow> bool" where
  "quiescent c \<longleftrightarrow> cl_phase c = NoRefresh \<and> list_all (\<lambda>r. ca_state r \<noteq> Flying) (cl_calls c)"

definition all_settled :: "http_client \<Rightarrow> bool" where
  "all_settled c \<longleftrightarrow> list_all (\<lambda>r. ca_state r \<in> {Settled True, Settled False}) (cl_calls c)"

text \<open>A 401 that arrives while the client clears up after a failed refresh, for a call that would wait.\<close>

definition stray :: "event \<Rightarrow> http_client \<Rightarrow> bool" where
  "stray e c \<longleftrightarrow> (\<exists>i l. e = Refused i \<and> cl_phase c = Clearing l \<and> \<not> ca_retry (cl_calls c ! i) \<and>
     ca_kind (cl_calls c ! i) = OrdinaryCall)"

fun calm_run :: "event list \<Rightarrow> http_client \<Rightarrow> bool" where
  "calm_run [] c \<longleftrightarrow> True"
| "calm_run (e # es) c \<longleftrightarrow> \<not> stray e c \<and> (case client_step e c of None \<Rightarrow> False | Some c' \<Rightarrow> calm_run es c')"

definition queue_guarded :: "http_client \<Rightarrow> bool" where
  "queue_guarded c \<longleftrightarrow> cl_failedQueue c = [] \<or> (\<exists>l. cl_phase c = Refreshing l)"

lemma step_guarded: "client_step e c = Some c' \<Longrightarrow> \<not> stray e c \<Longrightarrow> queue_guarded c \<Longrightarrow> queue_guarded c'"
  by (cases e; cases "cl_phase c")
    (auto simp: queue_guarded_def settle_def onUnauthorized_def onRefreshed_def onCleared_def processQueue_def Let_def isRefreshing_def
      stray_def split: if_splits option.splits intro: call_kind.exhaust)

lemma calm_guarded: "client_run es c = Some c' \<Longrightarrow> calm_run es c \<Longrightarrow> queue_guarded c \<Longrightarrow> queue_guarded c'"
  by (induction es arbitrary: c) (auto split: option.splits dest: step_guarded)

lemma settled_when_quiet:
  assumes "client_ok c" "quiescent c" "cl_failedQueue c = []"
  shows "all_settled c"
proof -
  have "ca_state r \<in> {Settled True, Settled False}" if r: "r \<in> set (cl_calls c)" for r
  proof -
    obtain i where i: "i < length (cl_calls c)" "r = cl_calls c ! i" using r by (metis in_set_conv_nth)
    then have "state_of (cl_calls c) i = Some (ca_state r)" by (simp add: state_of_def)
    then have "ca_state r \<noteq> Queued" "ca_state r \<noteq> Leading"
      using client_okD(1,4) [OF assms(1), of i] assms(2,3) by (auto simp: quiescent_def)
    moreover have "ca_state r \<noteq> Flying" using assms(2) r by (simp add: quiescent_def list_all_iff)
    ultimately show ?thesis by (cases "ca_state r") auto
  qed
  then show ?thesis by (simp add: all_settled_def list_all_iff)
qed

text \<open>
  C31. (liveness) However many requests meet an expired token: the client takes no more than
  \<open>answers_left\<close> further answers before nothing is under way, and then every request has been
  answered to its caller, unless one of them was refused in the moment after a failed refresh.
\<close>
theorem requests_settle:
  assumes "client_run es start_client = Some c"
    "client_run later c = Some c'" "list_all (\<lambda>e. \<not> is_send e) later"
  shows "length later \<le> answers_left c \<and>
    (quiescent c' \<and> calm_run (es @ later) start_client \<longrightarrow> all_settled c')"
proof (intro conjI impI; (elim conjE)?)
  have ok: "client_ok c" using assms(1) start_ok client_run_ok by blast
  show "length later \<le> answers_left c" using run_progress [OF assms(2) ok assms(3)] by simp
next
  have ok: "client_ok c'" using assms(1,2) start_ok client_run_ok by blast
  assume q: "quiescent c'" and "calm_run (es @ later) start_client"
  moreover have "client_run (es @ later) start_client = Some c'" using assms(1,2) by (simp add: run_append)
  ultimately have "queue_guarded c'" using calm_guarded by (fastforce simp: queue_guarded_def start_client_def)
  then show "all_settled c'" using settled_when_quiet [OF ok q] q by (auto simp: queue_guarded_def quiescent_def)
qed

text \<open>Two requests with an expired token: one refresh, and both are sent again.\<close>

definition expired_token :: "event list" where
  "expired_token = [Send OrdinaryCall, Send OrdinaryCall, Refused 0, Refused 1, RefreshReply (Some ''new''), Success 1]"

theorem requests_settle_witness:
  "case client_run (expired_token @ [Success 0]) start_client of None \<Rightarrow> False | Some c \<Rightarrow> all_settled c"
proof -
  have "client_run expired_token start_client \<noteq> None" by code_simp
  then obtain c where c: "client_run expired_token start_client = Some c" by blast
  have "case client_run (expired_token @ [Success 0]) start_client of None \<Rightarrow> False | Some c \<Rightarrow> quiescent c" by code_simp
  then obtain c' where c': "client_run (expired_token @ [Success 0]) start_client = Some c'" "quiescent c'"
    by (auto split: option.splits)
  moreover have "client_run [Success 0] c = Some c'"
    using c c'(1) by (simp only: run_append) (simp split: option.splits)
  moreover have "calm_run (expired_token @ [Success 0]) start_client"
    by (simp add: expired_token_def stray_def start_client_def settle_def onUnauthorized_def onRefreshed_def processQueue_def
        set_state_def flying_def isRefreshing_def Let_def truthy_col_def)
  ultimately show ?thesis using requests_settle [OF c, of "[Success 0]" c'] by simp
qed

section \<open>A request that is never answered\<close>

text \<open>
  A request that is refused while the client clears up after a failed refresh joins the queue, which
  nobody empties any more: its caller waits until some later request starts another refresh.
\<close>

lemma stranded_request:
  "case client_run [Send OrdinaryCall, Send OrdinaryCall, Refused 0, RefreshReply None, Refused 1, Cleared] start_client of
     None \<Rightarrow> False | Some c \<Rightarrow> quiescent c \<and> \<not> all_settled c"
  by code_simp

end
