(* ===== verification/Spec2Isabelle.thy ===== *)
theory Spec2Isabelle
  imports Gms_Applied Gms_Corrected Gms_Accounts Gms_History Gms_Drill Gms_Reports Gms_Tour Gms_Requests
begin

text \<open>
  Gate Management System: a verification library of its server (src/backend/src) and of the part of
  its browser client (src/frontend/src) that decides what a user is offered.

  The program. Trucks arrive at a plant, are registered at the gate, weighed in, inspected,
  loaded or unloaded in a warehouse, inspected again when they brought goods, weighed out and let
  go. Each visit is one row of the table Transaction, whose status column is the stage reached.
  NestJS services, one per department, move it on: they read the row, check it, and write it back
  with an \<open>updateMany\<close> on the revision they read, together with a detail row and a row of the
  status history, in one database transaction. An administrator may correct finished visits in the
  operation log. Users sign in with passwords and carry tokens. The client, a Vue application with
  one page per department, keeps the session, guards its routes, lists the trucks that wait for a
  department and sends its forms.

  How the library is built. Gms_Prelude, Gms_Number, Gms_Domain, Gms_Versioned and Gms_Store hold
  what all share: JavaScript's optional fields and truthiness, tables as lists of rows, double
  precision numbers, the enumerations and tables of prisma/schema.prisma (the record \<open>db\<close>), the
  append-only detail tables with revisions, the claim of a row, the errors with their HTTP status,
  and the audit log. A service method is a function from the database, the request, the user and
  the instant to the new database and an error or an answer. A method that changes a transaction is
  written in two halves, as it runs: what it reads, and (with suffix \<open>_at\<close>) the rest on the row
  that was read, so that other requests may commit between the two.

  The theories and the code they model.
  \<^item> Gms_Workflow: common/state-machine/workflow-state-machine.ts, the table of status changes.
  \<^item> Gms_Scope: auth/authorization-scope.service.ts and common/guards/roles.guard.ts.
  \<^item> Gms_Plate, Gms_Calendar, Gms_Numbering: plate numbers, the plant day, transaction numbers.
  \<^item> Gms_Gate, Gms_Weighbridge, Gms_Checklist and Gms_Qc, Gms_Warehouse, Gms_Transactions: the
    services of the same names, every public method of each, with the GBJ checklist policy.
  \<^item> Gms_JsValues, Gms_CorrectionData, Gms_Correction: transactions/operation-log-correction.service.ts;
    its first pass (refusals, grouping of the items, proposed values) and its second (replacement of
    the detail rows, reopening, header and items).
  \<^item> Gms_Mask, Gms_History: common/utils/mask-pii.util.ts and the audit history of the same service.
  \<^item> Gms_Period, Gms_Dashboard: dashboard/utils/dashboard-date-range.util.ts and dashboard/dashboard.service.ts.
  \<^item> Gms_Users, Gms_Auth: users/users.service.ts, auth/auth.service.ts, auth/strategies/jwt.strategy.ts
    and common/guards/jwt-auth.guard.ts.
  \<^item> Gms_Files: paths and files of Node.js as the code uses them; Gms_Attachments: attachments/, from the
    route over guard, quarantine and magic bytes to the stored file, and the download.
  \<^item> Gms_Backup, Gms_Restore: settings/database-backup.service.ts, backups with their manifests, health and
    retention, and the two restores. Gms_Retention, Gms_Verified, Gms_Recovery and Gms_Healthy prove what
    they guarantee; Gms_Drill restores a small site.
  \<^item> Gms_Reports: reports/reports.service.ts, the report on trucks, the KPIs and the CSV export.
  \<^item> Gms_System: the endpoints as one request type, and the system that serves them concurrently.
  \<^item> Gms_Accepted: no code of its own; it states when the server accepts each operation, in the terms a
    client can check.
  \<^item> Gms_ClientQc, Gms_Views: utils/gbjQcFlow.js and the working pages views/SecurityCheck.vue,
    Weighbridge.vue, QCVerification.vue, GBBProcess.vue, GBJProcess.vue and GSPProcess.vue: the work list of
    each, the checks of its forms and the requests it sends. Gms_Tour follows one visit through them.
  \<^item> Gms_Navigation, Gms_Requests: stores/authStore.js with router/index.js, and services/api.js with its
    single refresh of an expired session shared by all requests.

  The specification. Gms_Truck is the abstract plant: one truck with its stage, its records and its
  history, and one rule per kind of step (\<open>truck_step\<close>). Gms_Refine abstracts a database to its trucks
  (\<open>truck_of\<close>), states the invariant \<open>db_ok\<close>, and divides what a database may do into three steps: a
  commit that is one step of one truck, a registration, and a change that touches no truck.
  Gms_Commit proves what each building block of a commit does to the truck. Each service then
  proves of each method that it refuses without a trace or commits exactly one step, and the
  invariant follows for all of them, once (locale \<open>invariant_system\<close>, interpreted on the trucks, on
  the database and on the running system). The detail tables satisfy the interface
  \<open>versioned_table\<close>, and the transaction rows \<open>revisioned_rows\<close>: a row changes only with its revision.

  What is shown.
  \<^item> The whole system (Gms_System): in every reachable state the data is consistent (C1); no update is
    lost (C2); only authorised users commit; the two halves of a method are the method.
  \<^item> Each method: exactly when it succeeds, what it then writes, and that a refusal writes nothing but
    the log (the theorems and lemmas ending in \<open>_correct\<close>). The lemma \<open>submitWeighOut_succeeds_iff\<close>
    shows that no error of the second half can stand in the way of an undisturbed request.
  \<^item> Corrections (Gms_Corrected): all or nothing, one step of the specification, protected columns
    kept, weights consistent, one item per submitted item; a reopening resets what it says.
  \<^item> Accounts (Gms_Accounts): the tables stay well formed and keep an administrator, ended sessions stay
    ended, exactly when a login succeeds, and how often a password may be guessed.
  \<^item> Reports on the visits: the dashboard admits exactly the days asked for, its counts agree and stay
    in the scope of the user (Gms_Period, Gms_Dashboard); the audit history is complete, in order, in
    scope and masked (Gms_History).
  \<^item> The export (Gms_Reports): a CSV file can be read back, cell by cell, whatever the cells contain.
  \<^item> The client: what a page offers for a truck in its list, and its form lets through, the server
    accepts, and a truck under way is in the list of some page, GSP trucks that hold their papers at
    the unloading excepted (Gms_Views, Gms_Tour); no page is shown to a user without its role and the
    guard sends nobody in circles (Gms_Navigation); every request that meets an expired session is
    answered once the refresh has ended (Gms_Requests, whose lemma \<open>stranded_request\<close> shows the one
    that is not).
  \<^item> Attachments (Gms_Attachments): which uploads are accepted and what they leave, what was uploaded is
    what is downloaded, and a download leaves neither the upload directory nor the user's scope.
  \<^item> Backups: what a verified backup contains (Gms_Verified) and when it succeeds (Gms_Healthy), which
    files the clean-up deletes (Gms_Retention), what guards a restore and that a failed one changes
    nothing (Gms_Recovery).
  \<^item> Helpers: the state machine terminates and can finish, canonical plate numbers, the window of the
    plant day, the risk level against the exact deviation, the checklist and its decision matrix.
  Gms_Scenario follows one truck from an empty plant to the gate and Gms_Applied applies the properties
  there; Gms_Accounts has its own small office, Gms_Drill its own site.

  Bounds. Check-in makes three attempts, as the code does: \<open>checkInLoop\<close> counts them and
  its theorem covers every outcome. No other definition needs fuel. Revisions, identifiers and token
  versions are natural numbers (32-bit columns in the schema). Weights are rationals rounded to 53
  bits where JavaScript rounds; the exponent is not bounded, and infinite values count as NaN.

  Parameters. What lies outside the sources is an argument: the text of a number, \<open>Date.parse\<close> and the
  client's treatment of a bare null for a JSON column (the record \<open>client\<close>), what commits between two
  attempts of a check-in, the local time zone of a date filter, argon2, random strings and the JWT library (the record
  \<open>crypto\<close>), year and random part of a correction number, \<open>toFixed\<close> of a percentage on the dashboard,
  \<open>JSON.parse\<close> of a description that is plain text; for files SHA-256, HMAC, base64, the text of a UUID, and
  the texts JSON gives to manifests, archives and bundles; pg_dump and pg_restore, whose one law
  (\<open>pg_faithful\<close>: restoring a dump gives the dumped database) is a named hypothesis.

  What the model takes for granted. The body of a \<open>prisma.$transaction\<close> is atomic and rolled back by an
  exception; where the code's guard rests on more than that, a lemma says so (\<open>last_admin_race\<close>). The
  database does not fail, so the fallback log is not used; a violated unique index is the conflict
  the exception filter makes of it. UUIDs are numbers from a counter, a request has one instant \<open>now\<close>,
  strings are ASCII. A description in the log that the code passes through \<open>JSON.stringify\<close> is kept as
  the JSON value. A correction runs undivided.

  Not modelled. Message texts and the risk reason; the JSON key order; HTTP parsing, validation
  decorators, cookies and throttling (the framework's); settings, announcements and system issues,
  which keep rows of their own without moving a truck; the listing of activity logs; the localised
  text of the dashboard's period; the timers of the backup scheduler and its reads of a database with
  an older schema; the scripts; of the client the templates, dialogs, prints and spreadsheets, and the
  pages that only show or forward data (dashboard, history, administration).
\<close>

end
